(* ===== verification/Prelude.thy ===== *)
theory Prelude
  imports Main "HOL-Library.Word" "HOL-Library.AList"
begin

text \<open>
  Shared vocabulary of the development: wire bytes, Python strings over the characters a
  balance can send, the few methods of \<open>bytes\<close>, \<open>str\<close> and \<open>int\<close> the sources use, and the
  named collections that carry the component proofs.

  Bytes are \<open>8 word\<close>s. Python integers are \<open>int\<close>. A Python \<open>str\<close> is a \<open>string\<close> of
  Latin-1 code points; the sources build strings from the wire only through
  \<open>decode("ascii")\<close>, so the replacement character of \<open>errors="replace"\<close> is the one code
  point outside Latin-1 that occurs, and it is represented by the unused control
  character \<open>CHR 0x80\<close>.
\<close>

unbundle bit_operations_syntax

named_theorems wire_simps \<open>unfolding rules for wire-level codecs\<close>
named_theorems text_simps \<open>rules for Python string helpers\<close>

section \<open>Bytes\<close>

type_synonym byte = "8 word"
type_synonym bytes = "byte list"

definition byte_of_int :: "int \<Rightarrow> byte" where
  "byte_of_int x = word_of_int x"

lemma uint_byte_of_int [simp]: "0 \<le> x \<Longrightarrow> x < 256 \<Longrightarrow> uint (byte_of_int x) = x"
  by (simp add: byte_of_int_def uint_word_of_int)

lemma byte_of_int_uint [simp]: "byte_of_int (uint b) = b"
  by (simp add: byte_of_int_def)

lemma byte_uint_bounds [simp]: "0 \<le> uint (b :: byte)" "uint b < 256" "uint b \<le> 255"
proof -
  show "0 \<le> uint b" by simp
  show "uint b < 256" using uint_lt2p [of b] by simp
  then show "uint b \<le> 255" by simp
qed

lemma byte_of_int_inj:
  "\<lbrakk>0 \<le> x; x < 256; 0 \<le> y; y < 256; byte_of_int x = byte_of_int y\<rbrakk> \<Longrightarrow> x = y"
  by (metis uint_byte_of_int)

lemma and_255_mod: "(x :: int) AND 255 = x mod 256"
  using take_bit_eq_mask [of 8 x] by (simp add: take_bit_eq_mod mask_eq_exp_minus_1)

lemma and_15: "(x :: int) AND 15 = x mod 16"
  using take_bit_eq_mask [of 4 x] by (simp add: take_bit_eq_mod mask_eq_exp_minus_1)

lemma and_63: "(x :: int) AND 63 = x mod 64"
  using take_bit_eq_mask [of 6 x] by (simp add: take_bit_eq_mod mask_eq_exp_minus_1)

lemma and_push: "(x :: int) AND push_bit n m = push_bit n (drop_bit n x AND m)"
  by (rule bit_eqI) (auto simp: bit_simps)

lemma and_192: "(x :: int) AND 192 = 64 * ((x div 64) mod 4)"
  using and_push [of x 6 3] take_bit_eq_mask [of 2 "x div 64"]
  by (simp add: push_bit_eq_mult drop_bit_eq_div take_bit_eq_mod mask_eq_exp_minus_1)

lemma and_240: "(x :: int) AND 240 = 16 * ((x div 16) mod 16)"
  using and_push [of x 4 15] by (simp add: push_bit_eq_mult drop_bit_eq_div and_15)

text \<open>\<open>int.to_bytes(size, "big")\<close> on a non-negative value; \<open>None\<close> is the \<open>OverflowError\<close>.\<close>

fun be_bytes :: "nat \<Rightarrow> int \<Rightarrow> bytes" where
  "be_bytes 0 v = []"
| "be_bytes (Suc n) v = be_bytes n (v div 256) @ [byte_of_int (v mod 256)]"

definition int_to_bytes_be :: "nat \<Rightarrow> int \<Rightarrow> bytes option" where
  "int_to_bytes_be sz v = (if 0 \<le> v \<and> v < 256 ^ sz then Some (be_bytes sz v) else None)"

text \<open>\<open>int.from_bytes(value, "big")\<close>.\<close>

definition int_from_bytes_be :: "bytes \<Rightarrow> int" where
  "int_from_bytes_be bs = foldl (\<lambda>acc b. acc * 256 + uint b) 0 bs"

lemma length_be_bytes [simp]: "length (be_bytes n v) = n"
  by (induction n arbitrary: v) simp_all

lemma int_from_bytes_be_snoc:
  "int_from_bytes_be (bs @ [b]) = int_from_bytes_be bs * 256 + uint b"
  by (simp add: int_from_bytes_be_def)

lemma int_from_be_bytes: "0 \<le> v \<Longrightarrow> v < 256 ^ n \<Longrightarrow> int_from_bytes_be (be_bytes n v) = v"
proof (induction n arbitrary: v)
  case 0
  then show ?case by (simp add: int_from_bytes_be_def)
next
  case (Suc n)
  from Suc.prems have "v div 256 < 256 ^ n" by auto
  with Suc.prems Suc.IH [of "v div 256"]
  have "int_from_bytes_be (be_bytes n (v div 256)) = v div 256"
    by (simp add: pos_imp_zdiv_nonneg_iff)
  then show ?case by (simp add: int_from_bytes_be_snoc)
qed

lemma int_from_bytes_be_bounds:
  "0 \<le> int_from_bytes_be bs \<and> int_from_bytes_be bs < 256 ^ length bs"
proof (induction bs rule: rev_induct)
  case Nil
  then show ?case by (simp add: int_from_bytes_be_def)
next
  case (snoc b bs)
  have "int_from_bytes_be bs * 256 + uint b < 256 ^ length bs * 256"
    using snoc byte_uint_bounds(2) [of b] by linarith
  with snoc show ?case by (simp add: int_from_bytes_be_snoc)
qed

lemma be_bytes_int_from: "be_bytes (length bs) (int_from_bytes_be bs) = bs"
proof (induction bs rule: rev_induct)
  case Nil
  then show ?case by simp
next
  case (snoc b bs)
  have "(int_from_bytes_be bs * 256 + uint b) div 256 = int_from_bytes_be bs"
    "(int_from_bytes_be bs * 256 + uint b) mod 256 = uint b"
    using byte_uint_bounds(1,2) [of b] by simp_all
  with snoc show ?case by (simp add: int_from_bytes_be_snoc)
qed

section \<open>Python strings\<close>

abbreviation replacement_char :: char where
  "replacement_char \<equiv> CHR 0x80"

definition char_of_byte :: "byte \<Rightarrow> char" where
  "char_of_byte b = char_of (unat b)"

definition byte_of_char :: "char \<Rightarrow> byte" where
  "byte_of_char c = of_char c"

definition is_ascii_byte :: "byte \<Rightarrow> bool" where
  "is_ascii_byte b \<longleftrightarrow> b < 128"

definition is_ascii_char :: "char \<Rightarrow> bool" where
  "is_ascii_char c \<longleftrightarrow> of_char c < (128 :: int)"

text \<open>\<open>bytes.decode("ascii")\<close>; \<open>None\<close> is the \<open>UnicodeDecodeError\<close>.\<close>

definition ascii_decode :: "bytes \<Rightarrow> string option" where
  "ascii_decode bs = (if list_all is_ascii_byte bs then Some (map char_of_byte bs) else None)"

text \<open>\<open>bytes.decode("ascii", errors="replace")\<close>.\<close>

definition ascii_decode_replace :: "bytes \<Rightarrow> string" where
  "ascii_decode_replace bs =
     map (\<lambda>b. if is_ascii_byte b then char_of_byte b else replacement_char) bs"

text \<open>\<open>str.encode("ascii")\<close>; \<open>None\<close> is the \<open>UnicodeEncodeError\<close>.\<close>

definition ascii_encode :: "string \<Rightarrow> bytes option" where
  "ascii_encode s = (if list_all is_ascii_char s then Some (map byte_of_char s) else None)"

text \<open>\<open>str.encode("ascii", errors="replace")\<close> puts a question mark for what it cannot encode.\<close>

definition ascii_encode_replace :: "string \<Rightarrow> bytes" where
  "ascii_encode_replace s =
     map (\<lambda>c. if is_ascii_char c then byte_of_char c else byte_of_char CHR ''?'') s"

text \<open>A byte literal written as text.\<close>

definition ascii_lit :: "string \<Rightarrow> bytes" where
  "ascii_lit s = map byte_of_char s"

lemma byte_of_char_nat: "byte_of_char c = word_of_nat (of_char c)"
  unfolding byte_of_char_def by (rule of_nat_of_char [symmetric])

lemma unat_byte_of_char: "unat (byte_of_char c) = of_char c"
proof -
  have "(of_char c :: nat) < 256" by (rule nat_of_char_less_256)
  then show ?thesis unfolding byte_of_char_nat unat_of_nat by (simp del: of_nat_of_char)
qed

lemma byte_of_char_of_byte [simp]: "byte_of_char (char_of_byte b) = b"
proof -
  have "unat b < 2 ^ LENGTH(8)" by (rule unsigned_less)
  then have "unat b < 256" by simp
  then have "(of_char (char_of (unat b) :: char) :: nat) = unat b" by simp
  then show ?thesis
    unfolding byte_of_char_nat char_of_byte_def by (simp del: of_nat_of_char)
qed

lemma char_of_byte_of_char [simp]: "char_of_byte (byte_of_char c) = c"
  by (simp add: char_of_byte_def unat_byte_of_char)

lemma is_ascii_byte_of_char [simp]: "is_ascii_byte (byte_of_char c) = is_ascii_char c"
proof -
  have "int (of_char c) = of_char c" by (rule of_nat_of_char)
  then have "of_char c < (128 :: int) \<longleftrightarrow> of_char c < (128 :: nat)" by linarith
  then show ?thesis
    by (simp add: is_ascii_byte_def is_ascii_char_def word_less_nat_alt unat_byte_of_char)
qed

lemma is_ascii_char_of_byte [simp]: "is_ascii_char (char_of_byte b) = is_ascii_byte b"
  using is_ascii_byte_of_char [of "char_of_byte b"] by simp

lemma ascii_decode_lit:
  "list_all is_ascii_char s \<Longrightarrow> ascii_decode (ascii_lit s) = Some s"
  by (simp add: ascii_decode_def ascii_lit_def list_all_iff o_def)

lemma ascii_decode_replace_eq:
  "ascii_decode bs = Some s \<Longrightarrow> ascii_decode_replace bs = s"
  by (auto simp: ascii_decode_def ascii_decode_replace_def list_all_iff split: if_splits)

text \<open>\<open>str.isspace\<close> on one Latin-1 character.\<close>

definition py_isspace :: "char \<Rightarrow> bool" where
  "py_isspace c \<longleftrightarrow>
     (let n = (of_char c :: int)
      in (9 \<le> n \<and> n \<le> 13) \<or> (28 \<le> n \<and> n \<le> 32) \<or> n = 133 \<or> n = 160)"

definition py_lstrip :: "string \<Rightarrow> string" where
  "py_lstrip s = dropWhile py_isspace s"

definition py_rstrip :: "string \<Rightarrow> string" where
  "py_rstrip s = rev (dropWhile py_isspace (rev s))"

definition py_strip :: "string \<Rightarrow> string" where
  "py_strip s = py_rstrip (py_lstrip s)"

lemma strip_id:
  assumes "\<forall>c \<in> set s. \<not> py_isspace c"
  shows "py_strip s = s"
proof -
  have "dropWhile py_isspace xs = xs" if "\<forall>c \<in> set xs. \<not> py_isspace c" for xs
    using that by (cases xs) simp_all
  from this [of s] this [of "rev s"] assms show ?thesis
    by (simp add: py_strip_def py_lstrip_def py_rstrip_def)
qed

text \<open>\<open>bytes.rstrip(chars)\<close>.\<close>

definition bytes_rstrip :: "bytes \<Rightarrow> bytes \<Rightarrow> bytes" where
  "bytes_rstrip chars bs = rev (dropWhile (\<lambda>b. b \<in> set chars) (rev bs))"

definition between :: "int \<Rightarrow> int \<Rightarrow> char \<Rightarrow> bool" where
  "between lo hi c \<longleftrightarrow> lo \<le> of_char c \<and> of_char c \<le> hi"

definition is_digit :: "char \<Rightarrow> bool" where
  "is_digit c \<longleftrightarrow> between 48 57 c"

definition is_upper_letter :: "char \<Rightarrow> bool" where
  "is_upper_letter c \<longleftrightarrow> between 65 90 c"

definition is_lower_letter :: "char \<Rightarrow> bool" where
  "is_lower_letter c \<longleftrightarrow> between 97 122 c"

definition is_letter :: "char \<Rightarrow> bool" where
  "is_letter c \<longleftrightarrow> is_upper_letter c \<or> is_lower_letter c"

text \<open>
  \<open>str.upper\<close> is only applied to text decoded from ASCII, where it moves \<open>a\<close> to \<open>z\<close>;
  \<open>str.lower\<close> is also applied to caller-supplied text, so it covers Latin-1. Both change bit 5
  of the code point.
\<close>

definition set_bit5 :: "bool \<Rightarrow> char \<Rightarrow> char" where
  "set_bit5 b c = (case c of Char b0 b1 b2 b3 b4 b5 b6 b7 \<Rightarrow> Char b0 b1 b2 b3 b4 b b6 b7)"

definition upper_char :: "char \<Rightarrow> char" where
  "upper_char c = (if is_lower_letter c then set_bit5 False c else c)"

definition lower_char :: "char \<Rightarrow> char" where
  "lower_char c =
     (if is_upper_letter c \<or> (between 192 222 c \<and> c \<noteq> CHR 0xD7)
      then set_bit5 True c else c)"

definition py_upper :: "string \<Rightarrow> string" where
  "py_upper s = map upper_char s"

definition py_lower :: "string \<Rightarrow> string" where
  "py_lower s = map lower_char s"

definition startswith :: "'a list \<Rightarrow> 'a list \<Rightarrow> bool" where
  "startswith s p \<longleftrightarrow> take (length p) s = p"

definition endswith :: "'a list \<Rightarrow> 'a list \<Rightarrow> bool" where
  "endswith s p \<longleftrightarrow> length p \<le> length s \<and> drop (length s - length p) s = p"

definition removeprefix :: "'a list \<Rightarrow> 'a list \<Rightarrow> 'a list" where
  "removeprefix s p = (if startswith s p then drop (length p) s else s)"

lemma startswith_append [simp]: "startswith (p @ s) p"
  by (simp add: startswith_def)

lemma endswith_append [simp]: "endswith (s @ p) p"
  by (simp add: endswith_def)

lemma endswithE:
  assumes "endswith s p" obtains t where "s = t @ p"
  using assms unfolding endswith_def by (metis append_take_drop_id)

text \<open>\<open>str.split()\<close> on runs of whitespace, and \<open>sep.join\<close>.\<close>

function py_split :: "string \<Rightarrow> string list" where
  "py_split s =
     (case dropWhile py_isspace s of
        [] \<Rightarrow> []
      | c # cs \<Rightarrow> (c # takeWhile (\<lambda>x. \<not> py_isspace x) cs)
                 # py_split (dropWhile (\<lambda>x. \<not> py_isspace x) cs))"
  by pat_completeness auto
termination
proof (relation "measure length", simp)
  fix s c cs
  assume "dropWhile py_isspace s = c # cs"
  then have "length (c # cs) \<le> length s" by (metis length_dropWhile_le)
  moreover have "length (dropWhile (\<lambda>x. \<not> py_isspace x) cs) \<le> length cs"
    by (rule length_dropWhile_le)
  ultimately show "(dropWhile (\<lambda>x. \<not> py_isspace x) cs, s) \<in> measure length" by simp
qed

declare py_split.simps [simp del]

fun py_join :: "string \<Rightarrow> string list \<Rightarrow> string" where
  "py_join sep [] = []"
| "py_join sep [x] = x"
| "py_join sep (x # y # zs) = x @ sep @ py_join sep (y # zs)"

text \<open>
  \<open>bytes.find\<close> and \<open>bytearray.find\<close>: the index of the first occurrence, or \<open>None\<close> for the
  \<open>-1\<close> the sources test with \<open>idx < 0\<close>.
\<close>

fun find_sub :: "'a list \<Rightarrow> 'a list \<Rightarrow> nat option" where
  "find_sub sep [] = (if sep = [] then Some 0 else None)"
| "find_sub sep (x # xs) =
     (if startswith (x # xs) sep then Some 0 else map_option Suc (find_sub sep xs))"

lemma find_sub_Some:
  "find_sub sep xs = Some i \<Longrightarrow>
     i + length sep \<le> length xs \<and> take (length sep) (drop i xs) = sep"
proof (induction xs arbitrary: i)
  case Nil
  then show ?case by (simp split: if_splits)
next
  case (Cons x xs)
  show ?case
  proof (cases "startswith (x # xs) sep")
    case True
    with Cons.prems have "i = 0" by simp
    moreover from True have "take (length sep) (x # xs) = sep" by (simp add: startswith_def)
    then have "length sep \<le> length (x # xs)"
      by (metis length_take min.cobounded1)
    ultimately show ?thesis using \<open>take (length sep) (x # xs) = sep\<close> by simp
  next
    case False
    with Cons.prems obtain j where "i = Suc j" "find_sub sep xs = Some j" by auto
    with Cons.IH [of j] show ?thesis by simp
  qed
qed

lemma find_sub_split:
  "find_sub sep xs = Some i \<Longrightarrow> xs = take i xs @ sep @ drop (i + length sep) xs"
  using find_sub_Some [of sep xs i]
  by (metis add.commute append_take_drop_id drop_drop)

lemma find_sub_take:
  "find_sub sep xs = Some i \<Longrightarrow> i + length sep \<le> k \<Longrightarrow> find_sub sep (take k xs) = Some i"
proof (induction xs arbitrary: i k)
  case Nil
  then show ?case by (simp split: if_splits)
next
  case (Cons x xs)
  show ?case
  proof (cases "startswith (x # xs) sep")
    case True
    with Cons.prems have i: "i = 0" and k: "length sep \<le> k" by auto
    show ?thesis
    proof (cases k)
      case 0
      with k i show ?thesis by (simp add: startswith_def)
    next
      case (Suc k')
      from True k have "startswith (take k (x # xs)) sep"
        by (simp add: startswith_def min_def)
      with Suc i show ?thesis by simp
    qed
  next
    case False
    with Cons.prems obtain j where j: "i = Suc j" "find_sub sep xs = Some j" by auto
    with Cons.prems obtain k' where k: "k = Suc k'" "j + length sep \<le> k'" by (cases k) auto
    have "\<not> startswith (take k (x # xs)) sep"
      using False Cons.prems(2) by (simp add: startswith_def min_def)
    with j k Cons.IH [of j k'] show ?thesis by simp
  qed
qed

lemma find_sub_append: "find_sub sep xs = Some i \<Longrightarrow> find_sub sep (xs @ ys) = Some i"
proof (induction xs arbitrary: i)
  case Nil
  then show ?case by (cases ys) (auto simp: startswith_def split: if_splits)
next
  case (Cons x xs)
  show ?case
  proof (cases "startswith (x # xs) sep")
    case True
    then have "take (length sep) (x # xs) = sep" by (simp add: startswith_def)
    then have "length sep \<le> length (x # xs)" by (metis length_take min.cobounded1)
    with True have "startswith ((x # xs) @ ys) sep"
      unfolding startswith_def by (simp del: append_Cons)
    with True Cons.prems show ?thesis by simp
  next
    case False
    with Cons.prems obtain j where j: "i = Suc j" "find_sub sep xs = Some j" by auto
    have "j + length sep \<le> length xs" using find_sub_Some [OF j(2)] by simp
    with False have "\<not> startswith ((x # xs) @ ys) sep"
      unfolding startswith_def by (simp del: append_Cons)
    with j Cons.IH show ?thesis by simp
  qed
qed

lemma find_sub_single_None: "find_sub [x] xs = None \<longleftrightarrow> x \<notin> set xs"
  by (induction xs) (auto simp: startswith_def)

lemma find_sub_single_Some:
  "find_sub [x] xs = Some i \<longleftrightarrow> i < length xs \<and> xs ! i = x \<and> x \<notin> set (take i xs)"
proof (induction xs arbitrary: i)
  case Nil
  then show ?case by simp
next
  case (Cons a xs)
  then show ?case by (cases i) (auto simp: startswith_def)
qed

lemma find_sub_single_append:
  "x \<notin> set us \<Longrightarrow> find_sub [x] (us @ x # vs) = Some (length us)"
  by (simp add: find_sub_single_Some)

lemma take_drop_append [simp]: "take n xs @ drop n xs @ ys = xs @ ys"
  by (metis append.assoc append_take_drop_id)

text \<open>\<open>dict.get\<close> with a default.\<close>

definition dict_get :: "('k \<times> 'v) list \<Rightarrow> 'k \<Rightarrow> 'v \<Rightarrow> 'v" where
  "dict_get m k dflt = (case map_of m k of None \<Rightarrow> dflt | Some v \<Rightarrow> v)"

section \<open>Sum lists\<close>

lemma sum_list_update_int:
  "i < length xs \<Longrightarrow> sum_list (xs[i := (b :: int)]) = sum_list xs - xs ! i + b"
proof (induction xs arbitrary: i)
  case Nil
  then show ?case by simp
next
  case (Cons a xs)
  then show ?case by (cases i) auto
qed

end
