(* ===== verification/Errors.thy ===== *)
theory Errors
  imports Prelude
begin

text \<open>
  \<open>errors.py\<close>: the exception hierarchy, the structured context every error carries, and
  the result type of the model. An operation that may raise returns \<open>exn + 'a\<close>: \<open>Inl e\<close>
  is the raised exception, \<open>Inr x\<close> the returned value. Message texts are not modelled; the
  class and the context are what the rest of the package branches on.
\<close>

section \<open>The hierarchy\<close>

datatype err_class =
    SartoriusError
  | SartoriusConfigurationError | UnknownUnitError | InvalidParameterIndexError
  | InvalidSbnError | SartoriusConfirmationRequiredError | SartoriusValidationError
  | SartoriusTransportError | SartoriusTimeoutError | SartoriusConnectionError
  | SartoriusTransientTransportError
  | SartoriusProtocolError | SartoriusFrameError | SartoriusParseError
  | SartoriusCommandRejectedError | SartoriusProtocolUnsupportedError
  | SartoriusAutoprintActiveError
  | SartoriusCapabilityError | SartoriusUnsupportedCommandError
  | SartoriusValueOutOfRangeError | SartoriusOperationNotApplicableError
  | SartoriusMissingArgsError | SartoriusIndexOutOfRangeError | SartoriusFirmwareError
  | SartoriusSinkError | SartoriusSinkDependencyError | SartoriusSinkSchemaError
  | SartoriusSinkWriteError

text \<open>The base classes of each class statement, left to right.\<close>

fun bases :: "err_class \<Rightarrow> err_class list" where
  "bases SartoriusError = []"
| "bases SartoriusConfigurationError = [SartoriusError]"
| "bases UnknownUnitError = [SartoriusConfigurationError]"
| "bases InvalidParameterIndexError = [SartoriusConfigurationError]"
| "bases InvalidSbnError = [SartoriusConfigurationError]"
| "bases SartoriusConfirmationRequiredError = [SartoriusConfigurationError]"
| "bases SartoriusValidationError = [SartoriusConfigurationError]"
| "bases SartoriusTransportError = [SartoriusError]"
| "bases SartoriusTimeoutError = [SartoriusTransportError]"
| "bases SartoriusConnectionError = [SartoriusTransportError]"
| "bases SartoriusTransientTransportError = [SartoriusTransportError]"
| "bases SartoriusProtocolError = [SartoriusError]"
| "bases SartoriusFrameError = [SartoriusProtocolError]"
| "bases SartoriusParseError = [SartoriusProtocolError]"
| "bases SartoriusCommandRejectedError = [SartoriusProtocolError]"
| "bases SartoriusProtocolUnsupportedError = [SartoriusProtocolError]"
| "bases SartoriusAutoprintActiveError = [SartoriusProtocolError]"
| "bases SartoriusCapabilityError = [SartoriusError]"
| "bases SartoriusUnsupportedCommandError =
     [SartoriusCapabilityError, SartoriusCommandRejectedError]"
| "bases SartoriusValueOutOfRangeError =
     [SartoriusCapabilityError, SartoriusCommandRejectedError]"
| "bases SartoriusOperationNotApplicableError =
     [SartoriusCapabilityError, SartoriusCommandRejectedError]"
| "bases SartoriusMissingArgsError =
     [SartoriusCapabilityError, SartoriusCommandRejectedError]"
| "bases SartoriusIndexOutOfRangeError =
     [SartoriusCapabilityError, SartoriusCommandRejectedError]"
| "bases SartoriusFirmwareError = [SartoriusCapabilityError]"
| "bases SartoriusSinkError = [SartoriusError]"
| "bases SartoriusSinkDependencyError = [SartoriusSinkError, SartoriusConfigurationError]"
| "bases SartoriusSinkSchemaError = [SartoriusSinkError]"
| "bases SartoriusSinkWriteError = [SartoriusSinkError]"

text \<open>Depth of a class below the root; it decreases along \<open>bases\<close>.\<close>

fun depth :: "err_class \<Rightarrow> nat" where
  "depth SartoriusError = 0"
| "depth SartoriusConfigurationError = 1"
| "depth SartoriusTransportError = 1"
| "depth SartoriusProtocolError = 1"
| "depth SartoriusCapabilityError = 1"
| "depth SartoriusSinkError = 1"
| "depth SartoriusUnsupportedCommandError = 3"
| "depth SartoriusValueOutOfRangeError = 3"
| "depth SartoriusOperationNotApplicableError = 3"
| "depth SartoriusMissingArgsError = 3"
| "depth SartoriusIndexOutOfRangeError = 3"
| "depth c = 2"

lemma depth_bases: "b \<in> set (bases c) \<Longrightarrow> depth b < depth c"
  by (cases c) auto

function ancestors :: "err_class \<Rightarrow> err_class list" where
  "ancestors c = c # concat (map ancestors (bases c))"
  by auto
termination by (relation "measure depth") (auto simp: depth_bases)

declare ancestors.simps [simp del]

text \<open>\<open>issubclass\<close>, the test of an \<open>except\<close> clause.\<close>

definition is_subclass :: "err_class \<Rightarrow> err_class \<Rightarrow> bool" where
  "is_subclass c d \<longleftrightarrow> d \<in> set (ancestors c)"

lemma is_subclass_refl [simp]: "is_subclass c c"
  by (simp add: is_subclass_def ancestors.simps [of c])

lemma is_subclass_step:
  "is_subclass c d \<longleftrightarrow> c = d \<or> (\<exists>b \<in> set (bases c). is_subclass b d)"
  by (auto simp: is_subclass_def ancestors.simps [of c])

lemma is_subclass_trans: "is_subclass b c \<Longrightarrow> is_subclass c d \<Longrightarrow> is_subclass b d"
proof (induction b rule: ancestors.induct)
  case (1 b)
  from "1.prems"(1) [unfolded is_subclass_step [of b c]] show ?case
  proof
    assume "b = c"
    with "1.prems"(2) show ?thesis by simp
  next
    assume "\<exists>x \<in> set (bases b). is_subclass x c"
    with "1.IH" "1.prems"(2) show ?thesis
      unfolding is_subclass_step [of b d] by blast
  qed
qed

section \<open>Context\<close>

text \<open>Values that are put under \<open>ErrorContext.extra\<close>.\<close>

datatype xval = XNone | XInt int | XBool bool | XStr string | XBytes bytes | XList "xval list"

datatype raw_response = RawBytes bytes | RawStr string

record err_context =
  ec_command_name :: "string option"
  ec_command_bytes :: "bytes option"
  ec_opcode :: "int option"
  ec_sbi_token :: "bytes option"
  ec_raw_response :: "raw_response option"
  ec_protocol :: "string option"
  ec_port :: "string option"
  ec_model :: "string option"
  ec_family :: "string option"
  ec_sbn_address :: "int option"
  ec_extra :: "(string \<times> xval) list"

definition empty_context :: err_context where
  "empty_context =
     \<lparr>ec_command_name = None, ec_command_bytes = None, ec_opcode = None,
      ec_sbi_token = None, ec_raw_response = None, ec_protocol = None, ec_port = None,
      ec_model = None, ec_family = None, ec_sbn_address = None, ec_extra = []\<rparr>"

text \<open>One keyword of \<open>merged(**updates)\<close>: a field of the context, or a key of \<open>extra\<close>.\<close>

datatype ctx_update =
    SetCommandName "string option" | SetCommandBytes "bytes option" | SetOpcode "int option"
  | SetSbiToken "bytes option" | SetRawResponse "raw_response option"
  | SetProtocol "string option" | SetPort "string option" | SetModel "string option"
  | SetFamily "string option" | SetSbnAddress "int option" | SetExtra string xval

fun apply_update :: "err_context \<Rightarrow> ctx_update \<Rightarrow> err_context" where
  "apply_update c (SetCommandName v) = c\<lparr>ec_command_name := v\<rparr>"
| "apply_update c (SetCommandBytes v) = c\<lparr>ec_command_bytes := v\<rparr>"
| "apply_update c (SetOpcode v) = c\<lparr>ec_opcode := v\<rparr>"
| "apply_update c (SetSbiToken v) = c\<lparr>ec_sbi_token := v\<rparr>"
| "apply_update c (SetRawResponse v) = c\<lparr>ec_raw_response := v\<rparr>"
| "apply_update c (SetProtocol v) = c\<lparr>ec_protocol := v\<rparr>"
| "apply_update c (SetPort v) = c\<lparr>ec_port := v\<rparr>"
| "apply_update c (SetModel v) = c\<lparr>ec_model := v\<rparr>"
| "apply_update c (SetFamily v) = c\<lparr>ec_family := v\<rparr>"
| "apply_update c (SetSbnAddress v) = c\<lparr>ec_sbn_address := v\<rparr>"
| "apply_update c (SetExtra k v) = c\<lparr>ec_extra := AList.update k v (ec_extra c)\<rparr>"

definition merged :: "err_context \<Rightarrow> ctx_update list \<Rightarrow> err_context" where
  "merged c ups = foldl apply_update c ups"

text \<open>
  Exceptions: the package's own, and the ones its code raises or lets escape: builtins, and
  \<open>sqlite3.Error\<close> and those of other libraries as one value each.
\<close>

datatype py_error =
  ValueError | OverflowError | TypeError | KeyError | IndexError | AttributeError
  | UnicodeError | AssertionError | RuntimeError | NotImplementedError
  | OSError | SqliteError | LibraryError

datatype exn = Sart err_class err_context | Py py_error

definition with_context :: "exn \<Rightarrow> ctx_update list \<Rightarrow> exn" where
  "with_context e ups = (case e of Sart c ctx \<Rightarrow> Sart c (merged ctx ups) | Py p \<Rightarrow> Py p)"

text \<open>\<open>isinstance(e, cls)\<close> for a class of the package.\<close>

fun exn_is :: "exn \<Rightarrow> err_class \<Rightarrow> bool" where
  "exn_is (Sart c ctx) d = is_subclass c d"
| "exn_is (Py p) d = False"

fun exn_context :: "exn \<Rightarrow> err_context" where
  "exn_context (Sart c ctx) = ctx"
| "exn_context (Py p) = empty_context"

lemma exn_is_with_context: "exn_is (with_context e ups) c = exn_is e c"
  by (cases e) (simp_all add: with_context_def)

section \<open>Results\<close>

type_synonym 'a res = "exn + 'a"

definition res_bind :: "'a res \<Rightarrow> ('a \<Rightarrow> 'b res) \<Rightarrow> 'b res" where
  "res_bind r f = (case r of Inl e \<Rightarrow> Inl e | Inr x \<Rightarrow> f x)"

lemma res_bind_simps [simp]:
  "res_bind (Inl e) f = Inl e" "res_bind (Inr x) f = f x"
  by (simp_all add: res_bind_def)

lemma res_bind_eq_Inr: "res_bind r f = Inr y \<longleftrightarrow> (\<exists>x. r = Inr x \<and> f x = Inr y)"
  by (cases r) simp_all

definition is_ok :: "'e + 'a \<Rightarrow> bool" where
  "is_ok r = (case r of Inl e \<Rightarrow> False | Inr x \<Rightarrow> True)"

lemma is_ok_simps [simp]: "is_ok (Inr x)" "\<not> is_ok (Inl e)"
  by (simp_all add: is_ok_def)

definition raise :: "err_class \<Rightarrow> 'a res" where
  "raise c = Inl (Sart c empty_context)"

definition raise_ctx :: "err_class \<Rightarrow> ctx_update list \<Rightarrow> 'a res" where
  "raise_ctx c ups = Inl (Sart c (merged empty_context ups))"

definition extra :: "(string \<times> xval) list \<Rightarrow> ctx_update list" where
  "extra kvs = map (\<lambda>(k, v). SetExtra k v) kvs"

lemma raise_eq_Inr [simp]: "raise c \<noteq> Inr x" "raise_ctx c ups \<noteq> Inr x"
  by (simp_all add: raise_def raise_ctx_def)

text \<open>The result is an exception of the given class (or a subclass of it).\<close>

definition fails_with :: "err_class \<Rightarrow> 'a res \<Rightarrow> bool" where
  "fails_with c r = (case r of Inl e \<Rightarrow> exn_is e c | Inr x \<Rightarrow> False)"

lemma fails_with_simps [simp]:
  "fails_with c (Inl e) = exn_is e c" "\<not> fails_with c (Inr x)"
  "fails_with c (raise d) = is_subclass d c" "fails_with c (raise_ctx d ups) = is_subclass d c"
  by (simp_all add: fails_with_def raise_def raise_ctx_def)

text \<open>The subclass tests the package's \<open>except\<close> clauses come down to.\<close>

lemma is_subclass_eval:
  "is_subclass SartoriusError d \<longleftrightarrow> d = SartoriusError"
  "is_subclass SartoriusConfigurationError d \<longleftrightarrow>
     d = SartoriusConfigurationError \<or> d = SartoriusError"
  "is_subclass SartoriusTransportError d \<longleftrightarrow> d = SartoriusTransportError \<or> d = SartoriusError"
  "is_subclass SartoriusProtocolError d \<longleftrightarrow> d = SartoriusProtocolError \<or> d = SartoriusError"
  "is_subclass SartoriusCapabilityError d \<longleftrightarrow> d = SartoriusCapabilityError \<or> d = SartoriusError"
  "is_subclass SartoriusSinkError d \<longleftrightarrow> d = SartoriusSinkError \<or> d = SartoriusError"
  by (simp_all add: is_subclass_def ancestors.simps)

lemma is_subclass_SartoriusError [simp]: "is_subclass c SartoriusError"
  by (cases c) (simp_all add: is_subclass_def ancestors.simps)

lemma is_subclass_leaf:
  "is_subclass SartoriusTimeoutError d \<longleftrightarrow>
     d \<in> {SartoriusTimeoutError, SartoriusTransportError, SartoriusError}"
  "is_subclass SartoriusConnectionError d \<longleftrightarrow>
     d \<in> {SartoriusConnectionError, SartoriusTransportError, SartoriusError}"
  "is_subclass SartoriusTransientTransportError d \<longleftrightarrow>
     d \<in> {SartoriusTransientTransportError, SartoriusTransportError, SartoriusError}"
  "is_subclass SartoriusFrameError d \<longleftrightarrow>
     d \<in> {SartoriusFrameError, SartoriusProtocolError, SartoriusError}"
  "is_subclass SartoriusParseError d \<longleftrightarrow>
     d \<in> {SartoriusParseError, SartoriusProtocolError, SartoriusError}"
  "is_subclass SartoriusCommandRejectedError d \<longleftrightarrow>
     d \<in> {SartoriusCommandRejectedError, SartoriusProtocolError, SartoriusError}"
  "is_subclass SartoriusValidationError d \<longleftrightarrow>
     d \<in> {SartoriusValidationError, SartoriusConfigurationError, SartoriusError}"
  "is_subclass UnknownUnitError d \<longleftrightarrow>
     d \<in> {UnknownUnitError, SartoriusConfigurationError, SartoriusError}"
  "is_subclass InvalidSbnError d \<longleftrightarrow>
     d \<in> {InvalidSbnError, SartoriusConfigurationError, SartoriusError}"
  "is_subclass SartoriusConfirmationRequiredError d \<longleftrightarrow>
     d \<in> {SartoriusConfirmationRequiredError, SartoriusConfigurationError, SartoriusError}"
  "is_subclass SartoriusProtocolUnsupportedError d \<longleftrightarrow>
     d \<in> {SartoriusProtocolUnsupportedError, SartoriusProtocolError, SartoriusError}"
  "is_subclass SartoriusAutoprintActiveError d \<longleftrightarrow>
     d \<in> {SartoriusAutoprintActiveError, SartoriusProtocolError, SartoriusError}"
  "is_subclass SartoriusFirmwareError d \<longleftrightarrow>
     d \<in> {SartoriusFirmwareError, SartoriusCapabilityError, SartoriusError}"
  by (simp_all add: is_subclass_def ancestors.simps)

text \<open>The five refusal classes of xBPI are both capability and rejection errors.\<close>

definition refusal_classes :: "err_class list" where
  "refusal_classes =
     [SartoriusUnsupportedCommandError, SartoriusValueOutOfRangeError,
      SartoriusOperationNotApplicableError, SartoriusMissingArgsError,
      SartoriusIndexOutOfRangeError]"

lemma is_subclass_refusal:
  "is_subclass SartoriusUnsupportedCommandError d \<longleftrightarrow> d = SartoriusUnsupportedCommandError \<or>
     d \<in> {SartoriusCapabilityError, SartoriusCommandRejectedError, SartoriusProtocolError,
           SartoriusError}"
  "is_subclass SartoriusValueOutOfRangeError d \<longleftrightarrow> d = SartoriusValueOutOfRangeError \<or>
     d \<in> {SartoriusCapabilityError, SartoriusCommandRejectedError, SartoriusProtocolError,
           SartoriusError}"
  "is_subclass SartoriusOperationNotApplicableError d \<longleftrightarrow>
     d = SartoriusOperationNotApplicableError \<or>
     d \<in> {SartoriusCapabilityError, SartoriusCommandRejectedError, SartoriusProtocolError,
           SartoriusError}"
  "is_subclass SartoriusMissingArgsError d \<longleftrightarrow> d = SartoriusMissingArgsError \<or>
     d \<in> {SartoriusCapabilityError, SartoriusCommandRejectedError, SartoriusProtocolError,
           SartoriusError}"
  "is_subclass SartoriusIndexOutOfRangeError d \<longleftrightarrow> d = SartoriusIndexOutOfRangeError \<or>
     d \<in> {SartoriusCapabilityError, SartoriusCommandRejectedError, SartoriusProtocolError,
           SartoriusError}"
  by (simp_all add: is_subclass_def ancestors.simps disj_ac)

lemmas subclass_simps =
  is_subclass_eval is_subclass_leaf is_subclass_refusal

end
