(* ===== verification/Xbpi_Codec.thy ===== *)
theory Xbpi_Codec
  imports Errors
begin

text \<open>
  \<open>protocol/xbpi/framing.py\<close>, \<open>protocol/xbpi/tlv.py\<close> and the \<open>XbpiFrame\<close> of
  \<open>protocol/xbpi/types.py\<close>: building host frames, validating balance frames, and the
  tag-length-value records of request arguments and parameter replies.
\<close>

section \<open>Frames\<close>

record XbpiFrame =
  fr_length :: int
  fr_marker :: int
  fr_subtype :: int
  fr_body :: bytes
  fr_checksum :: int
  fr_raw :: bytes

definition HOST_SBN_DEFAULT :: int where "HOST_SBN_DEFAULT = 0x01"
definition BALANCE_SBN_DEFAULT :: int where "BALANCE_SBN_DEFAULT = 0x09"
definition RX_MARKER :: int where "RX_MARKER = 0x41"
definition MIN_FRAME_SIZE :: nat where "MIN_FRAME_SIZE = 4"
definition MAX_LENGTH :: int where "MAX_LENGTH = 0xFF"
definition MAX_BYTE :: int where "MAX_BYTE = 0xFF"

definition checksum :: "bytes \<Rightarrow> int" where
  "checksum data = sum_list (map uint data) AND 0xFF"

definition require_byte :: "int \<Rightarrow> string \<Rightarrow> unit res" where
  "require_byte value name =
     (if \<not> (0 \<le> value \<and> value \<le> MAX_BYTE)
      then raise_ctx SartoriusFrameError [SetExtra name (XInt value)]
      else Inr ())"

definition build_command :: "int \<Rightarrow> bytes \<Rightarrow> int \<Rightarrow> int \<Rightarrow> bytes res" where
  "build_command opcode args src_sbn dst_sbn =
     res_bind (require_byte opcode ''opcode'') (\<lambda>_.
     res_bind (require_byte src_sbn ''src_sbn'') (\<lambda>_.
     res_bind (require_byte dst_sbn ''dst_sbn'') (\<lambda>_.
       let payload = [byte_of_int src_sbn, byte_of_int dst_sbn, byte_of_int opcode] @ args;
           len = int (length payload) + 1
       in if len > MAX_LENGTH
          then raise_ctx SartoriusFrameError
                 [SetOpcode (Some opcode), SetExtra ''length'' (XInt len)]
          else
            let pre_chk = [byte_of_int len] @ payload
            in Inr (pre_chk @ [byte_of_int (checksum pre_chk)]))))"

definition parse_frame :: "bytes \<Rightarrow> XbpiFrame res" where
  "parse_frame raw =
     (if length raw < MIN_FRAME_SIZE
      then raise_ctx SartoriusTransientTransportError [SetRawResponse (Some (RawBytes raw))]
      else
        let len = uint (raw ! 0); expected_total = len + 1
        in if int (length raw) \<noteq> expected_total
           then raise_ctx SartoriusFrameError
                  (SetRawResponse (Some (RawBytes raw)) #
                   extra [(''declared_length'', XInt len),
                          (''buffer_size'', XInt (int (length raw)))])
           else
             let marker = uint (raw ! 1)
             in if marker \<noteq> RX_MARKER
                then raise_ctx SartoriusFrameError
                       (SetRawResponse (Some (RawBytes raw)) # extra [(''marker'', XInt marker)])
                else
                  let subtype = uint (raw ! 2);
                      body = butlast (drop 3 raw);
                      chk = uint (last raw);
                      expected_chk = checksum (butlast raw)
                  in if chk \<noteq> expected_chk
                     then raise_ctx SartoriusFrameError
                            (SetRawResponse (Some (RawBytes raw)) #
                             extra [(''checksum'', XInt chk),
                                    (''expected_checksum'', XInt expected_chk)])
                     else Inr \<lparr>fr_length = len, fr_marker = marker, fr_subtype = subtype,
                               fr_body = body, fr_checksum = chk, fr_raw = raw\<rparr>)"

subsection \<open>The frames a balance sends\<close>

text \<open>The reference encoder: the frame layout of the module's documentation.\<close>

definition rx_frame :: "byte \<Rightarrow> bytes \<Rightarrow> bytes" where
  "rx_frame subtype body =
     (let pre = [byte_of_int (int (length body) + 3), 0x41, subtype] @ body
      in pre @ [byte_of_int (checksum pre)])"

definition frame_of :: "byte \<Rightarrow> bytes \<Rightarrow> XbpiFrame" where
  "frame_of subtype body =
     \<lparr>fr_length = int (length body) + 3, fr_marker = RX_MARKER, fr_subtype = uint subtype,
      fr_body = body, fr_checksum = uint (last (rx_frame subtype body)),
      fr_raw = rx_frame subtype body\<rparr>"

lemma checksum_mod: "checksum data = sum_list (map uint data) mod 256"
  by (simp add: checksum_def and_255_mod)

lemma checksum_bounds [simp]: "0 \<le> checksum data" "checksum data < 256"
  by (simp_all add: checksum_mod)

lemma uint_checksum_byte [simp]: "uint (byte_of_int (checksum data)) = checksum data"
  by simp

lemma length_rx_frame [simp]: "length (rx_frame s b) = length b + 4"
  by (simp add: rx_frame_def Let_def)

lemma last_rx_frame: "last (rx_frame s b) = byte_of_int (checksum (butlast (rx_frame s b)))"
  by (simp add: rx_frame_def Let_def butlast_append)

lemma parse_rx_frame:
  assumes "length body \<le> 252"
  shows "parse_frame (rx_frame subtype body) = Inr (frame_of subtype body)"
proof -
  let ?r = "rx_frame subtype body"
  have len: "uint (?r ! 0) = int (length body) + 3"
    using assms by (simp add: rx_frame_def Let_def)
  have mk: "uint (?r ! 1) = RX_MARKER"
    by (simp add: rx_frame_def Let_def RX_MARKER_def)
  have st: "uint (?r ! 2) = uint subtype"
    by (simp add: rx_frame_def Let_def)
  have bd: "butlast (drop 3 ?r) = body"
    by (simp add: rx_frame_def Let_def eval_nat_numeral)
  have ck: "uint (last ?r) = checksum (butlast ?r)"
    by (simp add: last_rx_frame)
  show ?thesis
    unfolding parse_frame_def frame_of_def Let_def MIN_FRAME_SIZE_def
    using len mk st bd ck by simp
qed

text \<open>The four checks of \<open>parse_frame\<close>, as one condition on the buffer.\<close>

lemma parse_frame_ok_iff:
  "parse_frame raw = Inr f \<longleftrightarrow>
     4 \<le> length raw \<and> int (length raw) = uint (raw ! 0) + 1 \<and> uint (raw ! 1) = RX_MARKER \<and>
     uint (last raw) = checksum (butlast raw) \<and>
     f = \<lparr>fr_length = uint (raw ! 0), fr_marker = RX_MARKER, fr_subtype = uint (raw ! 2),
          fr_body = butlast (drop 3 raw), fr_checksum = uint (last raw), fr_raw = raw\<rparr>"
  by (auto simp: parse_frame_def Let_def MIN_FRAME_SIZE_def)

lemma parse_frame_is_rx_frame:
  assumes "parse_frame raw = Inr f"
  shows "\<exists>s b. length b \<le> 252 \<and> raw = rx_frame s b"
proof -
  from assms have four: "4 \<le> length raw" and len: "int (length raw) = uint (raw ! 0) + 1"
    and mk: "uint (raw ! 1) = RX_MARKER" and ck: "uint (last raw) = checksum (butlast raw)"
    by (auto simp: parse_frame_ok_iff)
  from four obtain l m s rest where raw: "raw = l # m # s # rest" "rest \<noteq> []"
    by (auto simp: numeral_eq_Suc Suc_le_length_iff)
  let ?b = "butlast rest"
  have rest: "rest = ?b @ [last rest]" using raw(2) by simp
  have lb: "int (length ?b) + 3 = uint l" using len raw by (cases rest) auto
  then have l: "l = byte_of_int (int (length ?b) + 3)" by (metis byte_of_int_uint)
  have m: "m = 0x41"
    using mk raw by (intro word_uint_eqI) (simp add: RX_MARKER_def)
  have "last rest = byte_of_int (checksum (butlast raw))"
    using ck raw by (metis byte_of_int_uint last_ConsR list.distinct(1))
  moreover have "butlast raw = [byte_of_int (int (length ?b) + 3), 0x41, s] @ ?b"
    using raw l m by simp
  ultimately have "raw = rx_frame s ?b"
    using raw(1) rest l m unfolding rx_frame_def Let_def
    by (metis append_Cons append_Nil)
  moreover have "length ?b \<le> 252"
    using lb byte_uint_bounds(3) [of l] by linarith
  ultimately show ?thesis by blast
qed

lemma parse_frame_error:
  "parse_frame raw = Inl e \<Longrightarrow>
     exn_is e (if length raw < 4 then SartoriusTransientTransportError else SartoriusFrameError)"
  by (auto simp: parse_frame_def Let_def MIN_FRAME_SIZE_def raise_ctx_def split: if_splits)

subsection \<open>Corruption\<close>

lemma sum_list_update_uint:
  "i < length xs \<Longrightarrow>
     sum_list (map uint (xs[i := (b :: byte)])) = sum_list (map uint xs) - uint (xs ! i) + uint b"
  by (simp add: map_update sum_list_update_int)

lemma checksum_update:
  assumes "i < length xs" "checksum (xs[i := b]) = checksum xs"
  shows "b = xs ! i"
proof -
  have "(sum_list (map uint xs) + (uint b - uint (xs ! i))) mod 256
        = sum_list (map uint xs) mod 256"
    using assms by (simp add: checksum_mod sum_list_update_uint algebra_simps)
  then have "(uint b - uint (xs ! i)) mod 256 = 0" by (metis add.right_neutral mod_0 mod_add_right_eq
        add_diff_cancel_left' mod_diff_eq diff_self)
  then have "uint b mod 256 = uint (xs ! i) mod 256"
    by (metis mod_eq_dvd_iff mod_0_imp_dvd)
  then show ?thesis by (intro word_uint_eqI) (simp add: mod_pos_pos_trivial)
qed

lemma corrupt_not_accepted:
  assumes ok: "parse_frame raw = Inr f" and i: "i < length raw" and b: "b \<noteq> raw ! i"
  shows "parse_frame (raw[i := b]) \<noteq> Inr g"
proof
  assume bad: "parse_frame (raw[i := b]) = Inr g"
  let ?r = "raw[i := b]"
  note o = ok [unfolded parse_frame_ok_iff] and n = bad [unfolded parse_frame_ok_iff]
  from o have ne: "raw \<noteq> []" by auto
  consider "i = 0" | "i = length raw - 1" | "0 < i" "i < length raw - 1" using i by linarith
  then show False
  proof cases
    case 1
    with o n b i show False by (auto intro: word_uint_eqI)
  next
    case 2
    then have "last ?r = b" "butlast ?r = butlast raw"
      using ne by (auto simp: last_list_update butlast_list_update)
    with o n b 2 ne show False by (auto intro: word_uint_eqI simp: last_conv_nth)
  next
    case 3
    then have "last ?r = last raw" "butlast ?r = (butlast raw)[i := b]"
      using ne by (auto simp: last_list_update butlast_list_update)
    with o n have "checksum ((butlast raw)[i := b]) = checksum (butlast raw)" by simp
    then have "b = butlast raw ! i" using 3 by (intro checksum_update) simp_all
    with b 3 show False by (simp add: nth_butlast)
  qed
qed

section \<open>Host frames as a device reads them\<close>

text \<open>
  The inverse of \<open>build_command\<close>, for stating what reaches the device: the length byte
  counts the rest of the frame, the last byte is the sum of all others, and the first three
  payload bytes are source, destination and opcode.
\<close>

definition tx_view :: "bytes \<Rightarrow> (int \<times> int \<times> int \<times> bytes) option" where
  "tx_view tx =
     (if 5 \<le> length tx \<and> int (length tx) = uint (tx ! 0) + 1
         \<and> uint (last tx) = checksum (butlast tx)
      then Some (uint (tx ! 1), uint (tx ! 2), uint (tx ! 3), butlast (drop 4 tx)) else None)"

lemma require_byte_ok_iff: "require_byte v nm = Inr u \<longleftrightarrow> 0 \<le> v \<and> v \<le> 255"
  by (auto simp: require_byte_def MAX_BYTE_def)

lemma build_command_ok_iff:
  "build_command opcode args src dst = Inr tx \<longleftrightarrow>
     0 \<le> opcode \<and> opcode \<le> 255 \<and> 0 \<le> src \<and> src \<le> 255 \<and> 0 \<le> dst \<and> dst \<le> 255 \<and>
     length args \<le> 251 \<and>
     (let pre = [byte_of_int (4 + int (length args)), byte_of_int src, byte_of_int dst,
                 byte_of_int opcode] @ args
      in tx = pre @ [byte_of_int (checksum pre)])"
  by (auto simp: build_command_def res_bind_eq_Inr require_byte_ok_iff Let_def MAX_LENGTH_def
      split: if_splits)

lemma tx_view_build:
  assumes "build_command opcode args src dst = Inr tx"
  shows "tx_view tx = Some (src, dst, opcode, args)"
  using assms
  by (auto simp: build_command_ok_iff tx_view_def Let_def butlast_append eval_nat_numeral)

lemma build_tx_view:
  assumes "tx_view tx = Some (src, dst, opcode, args)"
  shows "build_command opcode args src dst = Inr tx"
proof -
  from assms have five: "5 \<le> length tx" and len: "int (length tx) = uint (tx ! 0) + 1"
    and ck: "uint (last tx) = checksum (butlast tx)"
    and fs: "src = uint (tx ! 1)" "dst = uint (tx ! 2)" "opcode = uint (tx ! 3)"
      "args = butlast (drop 4 tx)"
    by (auto simp: tx_view_def split: if_splits)
  from five obtain l a d c rest where tx: "tx = l # a # d # c # rest" "rest \<noteq> []"
    by (auto simp: numeral_eq_Suc Suc_le_length_iff)
  have rest: "rest = args @ [last rest]" using tx fs by simp
  have lb: "4 + int (length args) = uint l"
    using len tx fs by (cases rest) auto
  then have l: "l = byte_of_int (4 + int (length args))" by (metis byte_of_int_uint)
  have lst: "last tx = byte_of_int (checksum (butlast tx))"
    using ck by (metis byte_of_int_uint)
  have bl: "butlast tx = l # a # d # c # args" using tx fs by simp
  have "tx = butlast tx @ [last tx]" using tx by simp
  then have "tx = (l # a # d # c # args) @ [byte_of_int (checksum (l # a # d # c # args))]"
    unfolding lst bl .
  moreover have "length args \<le> 251" using lb byte_uint_bounds(3) [of l] by linarith
  ultimately show ?thesis
    using fs unfolding build_command_ok_iff Let_def l [symmetric] by (simp add: tx(1))
qed

lemma build_command_iff_view:
  "build_command opcode args src dst = Inr tx \<longleftrightarrow> tx_view tx = Some (src, dst, opcode, args)"
  using tx_view_build build_tx_view by blast

lemma build_command_error:
  "build_command opcode args src dst = Inl e \<Longrightarrow> exn_is e SartoriusFrameError"
  by (auto simp: build_command_def res_bind_def require_byte_def raise_ctx_def Let_def
      split: if_splits sum.splits)

section \<open>TLV records\<close>

definition TLV_TAG_SIZES :: "(int \<times> nat) list" where
  "TLV_TAG_SIZES = [(0x11, 1), (0x12, 2), (0x14, 4), (0x21, 1), (0x22, 2), (0x24, 4)]"

text \<open>The \<open>int | bytes\<close> value argument of \<open>encode_tlv\<close>.\<close>

datatype tlv_value = TlvInt int | TlvBytes bytes

definition encode_tlv :: "int \<Rightarrow> tlv_value \<Rightarrow> bytes res" where
  "encode_tlv tag value =
     (case map_of TLV_TAG_SIZES tag of
        None \<Rightarrow> raise_ctx SartoriusFrameError (extra [(''tag'', XInt tag)])
      | Some sz \<Rightarrow>
          (case value of
             TlvInt v \<Rightarrow>
               if v < 0
               then raise_ctx SartoriusFrameError
                      (extra [(''tag'', XInt tag), (''value'', XInt v)])
               else (case int_to_bytes_be sz v of
                       None \<Rightarrow> raise_ctx SartoriusFrameError
                                 (extra [(''tag'', XInt tag), (''value'', XInt v)])
                     | Some payload \<Rightarrow> Inr (byte_of_int tag # payload))
           | TlvBytes bs \<Rightarrow>
               if length bs \<noteq> sz
               then raise_ctx SartoriusFrameError
                      (extra [(''tag'', XInt tag), (''value_len'', XInt (int (length bs)))])
               else Inr (byte_of_int tag # bs)))"

definition decode_tlv :: "bytes \<Rightarrow> nat \<Rightarrow> (int \<times> bytes \<times> nat) res" where
  "decode_tlv data offset =
     (if offset \<ge> length data
      then raise_ctx SartoriusFrameError
             (extra [(''offset'', XInt (int offset)), (''total'', XInt (int (length data)))])
      else
        let tag = uint (data ! offset)
        in case map_of TLV_TAG_SIZES tag of
             None \<Rightarrow> raise_ctx SartoriusFrameError
                       (extra [(''tag'', XInt tag), (''offset'', XInt (int offset))])
           | Some sz \<Rightarrow>
               let value_start = offset + 1; value_end = value_start + sz
               in if value_end > length data
                  then raise_ctx SartoriusFrameError
                         (extra [(''tag'', XInt tag), (''offset'', XInt (int offset))])
                  else Inr (tag, take sz (drop value_start data), value_end))"

lemma decode_tlv_progress:
  "decode_tlv data offset = Inr (tag, v, nxt) \<Longrightarrow> offset < nxt \<and> nxt \<le> length data"
  by (auto simp: decode_tlv_def Let_def split: if_splits option.splits)

text \<open>The \<open>while offset < len(body)\<close> loop, with its accumulator.\<close>

function parse_tlv_from :: "bytes \<Rightarrow> nat \<Rightarrow> (int \<times> bytes) list \<Rightarrow> (int \<times> bytes) list res" where
  "parse_tlv_from body offset out =
     (if offset < length body
      then (case decode_tlv body offset of
              Inl e \<Rightarrow> Inl e
            | Inr (tag, value, nxt) \<Rightarrow> parse_tlv_from body nxt (out @ [(tag, value)]))
      else Inr out)"
  by auto
termination
  by (relation "measure (\<lambda>(body, offset, out). length body - offset)")
    (auto dest!: decode_tlv_progress)

declare parse_tlv_from.simps [simp del]

definition parse_tlv_sequence :: "bytes \<Rightarrow> (int \<times> bytes) list res" where
  "parse_tlv_sequence body = parse_tlv_from body 0 []"

definition tlv_value_as_int :: "bytes \<Rightarrow> int" where
  "tlv_value_as_int value = int_from_bytes_be value"

subsection \<open>Record lists\<close>

text \<open>A record list the wire format can carry, and its encoding.\<close>

definition tlv_wf :: "int \<times> bytes \<Rightarrow> bool" where
  "tlv_wf r = (map_of TLV_TAG_SIZES (fst r) = Some (length (snd r)))"

definition tlv_encode_list :: "(int \<times> bytes) list \<Rightarrow> bytes" where
  "tlv_encode_list rs =
     concat (map (\<lambda>(t, v). case encode_tlv t (TlvBytes v) of Inr bs \<Rightarrow> bs | Inl e \<Rightarrow> []) rs)"

lemma tlv_tag_bounds: "map_of TLV_TAG_SIZES t = Some n \<Longrightarrow> 0 < t \<and> t < 256 \<and> 0 < n \<and> n \<le> 4"
  by (auto simp: TLV_TAG_SIZES_def split: if_splits)

lemma encode_tlv_bytes_ok_iff:
  "encode_tlv tag (TlvBytes v) = Inr bs \<longleftrightarrow> tlv_wf (tag, v) \<and> bs = byte_of_int tag # v"
  by (auto simp: encode_tlv_def tlv_wf_def split: option.splits)

lemma tlv_encode_list_simps:
  "tlv_encode_list [] = []"
  "tlv_wf (t, v) \<Longrightarrow> tlv_encode_list ((t, v) # rs) = (byte_of_int t # v) @ tlv_encode_list rs"
  by (auto simp: tlv_encode_list_def encode_tlv_def tlv_wf_def)

lemma encode_tlv_int_ok_iff:
  "encode_tlv tag (TlvInt n) = Inr bs \<longleftrightarrow>
     (\<exists>sz. map_of TLV_TAG_SIZES tag = Some sz \<and> 0 \<le> n \<and> n < 256 ^ sz
           \<and> bs = byte_of_int tag # be_bytes sz n)"
  by (auto simp: encode_tlv_def int_to_bytes_be_def split: option.splits)

lemma encode_tlv_error: "encode_tlv tag v = Inl e \<Longrightarrow> exn_is e SartoriusFrameError"
  by (auto simp: encode_tlv_def raise_ctx_def split: option.splits tlv_value.splits if_splits)

lemma decode_tlv_error: "decode_tlv data k = Inl e \<Longrightarrow> exn_is e SartoriusFrameError"
  by (auto simp: decode_tlv_def Let_def raise_ctx_def split: option.splits if_splits)

lemma decode_tlv_at:
  assumes "tlv_wf (t, v)"
  shows "decode_tlv (pre @ (byte_of_int t # v) @ post) (length pre)
         = Inr (t, v, length pre + 1 + length v)"
  using assms tlv_tag_bounds [of t "length v"]
  by (simp add: decode_tlv_def tlv_wf_def Let_def nth_append)

lemma decode_tlv_Inr:
  assumes "decode_tlv data k = Inr (t, v, nxt)"
  shows "tlv_wf (t, v)" "drop k data = (byte_of_int t # v) @ drop nxt data"
    "nxt = k + 1 + length v"
proof -
  from assms obtain sz where k: "k < length data" and t: "t = uint (data ! k)"
    and sz: "map_of TLV_TAG_SIZES t = Some sz" "k + 1 + sz \<le> length data"
    and v: "v = take sz (drop (k + 1) data)" "nxt = k + 1 + sz"
    by (auto simp: decode_tlv_def Let_def split: if_splits option.splits)
  have lv: "length v = sz" using sz v by simp
  show "tlv_wf (t, v)" using sz lv by (simp add: tlv_wf_def)
  show "nxt = k + 1 + length v" using v lv by simp
  have "drop k data = data ! k # drop (k + 1) data" using k by (simp add: Cons_nth_drop_Suc)
  also have "drop (k + 1) data = v @ drop (k + 1 + sz) data"
    unfolding v by (metis append_take_drop_id drop_drop add.commute)
  finally show "drop k data = (byte_of_int t # v) @ drop nxt data" using t v by simp
qed

lemma parse_tlv_from_encode:
  "list_all tlv_wf rs \<Longrightarrow>
     parse_tlv_from (pre @ tlv_encode_list rs) (length pre) out = Inr (out @ rs)"
proof (induction rs arbitrary: pre out)
  case Nil
  then show ?case by (simp add: parse_tlv_from.simps tlv_encode_list_simps)
next
  case (Cons r rs)
  obtain t v where r: "r = (t, v)" by (cases r)
  let ?rec = "byte_of_int t # v"
  have wf: "tlv_wf (t, v)" using Cons.prems r by simp
  have enc: "tlv_encode_list (r # rs) = ?rec @ tlv_encode_list rs"
    unfolding r by (rule tlv_encode_list_simps(2) [OF wf])
  note dec = decode_tlv_at [OF wf, of pre "tlv_encode_list rs"]
  have "parse_tlv_from ((pre @ ?rec) @ tlv_encode_list rs) (length (pre @ ?rec)) (out @ [(t, v)])
        = Inr ((out @ [(t, v)]) @ rs)"
    using Cons.prems by (intro Cons.IH) simp
  then show ?case
    unfolding enc using dec by (subst parse_tlv_from.simps) (simp add: r)
qed

lemma parse_tlv_from_sound:
  "parse_tlv_from body k out = Inr res \<Longrightarrow>
     \<exists>rs. res = out @ rs \<and> list_all tlv_wf rs \<and> drop k body = tlv_encode_list rs"
proof (induction body k out rule: parse_tlv_from.induct)
  case (1 body k out)
  show ?case
  proof (cases "k < length body")
    case False
    with "1.prems" show ?thesis
      by (auto simp: parse_tlv_from.simps [of body k] tlv_encode_list_simps)
  next
    case True
    with "1.prems" obtain t v nxt where dec: "decode_tlv body k = Inr (t, v, nxt)"
      and rest: "parse_tlv_from body nxt (out @ [(t, v)]) = Inr res"
      by (auto simp: parse_tlv_from.simps [of body k] split: sum.splits)
    from "1.IH" [OF True dec refl refl rest] obtain rs where
      "res = (out @ [(t, v)]) @ rs" "list_all tlv_wf rs" "drop nxt body = tlv_encode_list rs"
      by blast
    with decode_tlv_Inr [OF dec] have
      "res = out @ ((t, v) # rs)" "list_all tlv_wf ((t, v) # rs)"
      "drop k body = tlv_encode_list ((t, v) # rs)"
      by (simp_all add: tlv_encode_list_simps)
    then show ?thesis by blast
  qed
qed

lemma parse_tlv_sequence_iff:
  "parse_tlv_sequence body = Inr rs \<longleftrightarrow> list_all tlv_wf rs \<and> body = tlv_encode_list rs"
  using parse_tlv_from_encode [of rs "[]" "[]"] parse_tlv_from_sound [of body 0 "[]" rs]
  by (auto simp: parse_tlv_sequence_def)

lemma parse_tlv_from_error:
  "parse_tlv_from body k out = Inl e \<Longrightarrow> exn_is e SartoriusFrameError"
proof (induction body k out rule: parse_tlv_from.induct)
  case (1 body k out)
  then show ?case
    by (auto simp: parse_tlv_from.simps [of body k] decode_tlv_error split: if_splits sum.splits)
qed

section \<open>Properties\<close>

text \<open>
  \<open>parse_frame\<close> accepts exactly the frames of the documented layout: a body of at most
  252 bytes wrapped with a correct length byte, the marker and the additive checksum; and it
  returns the subtype and body that were wrapped.
\<close>

theorem frame_acceptance:
  "parse_frame raw = Inr f \<longleftrightarrow>
     (\<exists>s b. length b \<le> 252 \<and> raw = rx_frame s b \<and> f = frame_of s b)"
proof
  assume "parse_frame raw = Inr f"
  moreover from parse_frame_is_rx_frame [OF this] obtain s b
    where "length b \<le> 252" "raw = rx_frame s b" by blast
  ultimately show "\<exists>s b. length b \<le> 252 \<and> raw = rx_frame s b \<and> f = frame_of s b"
    using parse_rx_frame [of b s] by auto
qed (auto simp: parse_rx_frame)

text \<open>
  C32. Changing any one byte of an accepted frame, the length byte, the marker, the subtype, a
  body byte or the checksum, makes \<open>parse_frame\<close> raise \<open>SartoriusFrameError\<close>.
\<close>

theorem frame_corruption_detected:
  assumes "parse_frame raw = Inr f" and "i < length raw" and "b \<noteq> raw ! i"
  shows "fails_with SartoriusFrameError (parse_frame (raw[i := b]))"
proof (cases "parse_frame (raw[i := b])")
  case (Inl e)
  moreover have "4 \<le> length raw" using assms(1) by (simp add: parse_frame_ok_iff)
  ultimately show ?thesis using parse_frame_error [of "raw[i := b]" e] by simp
next
  case (Inr g)
  with corrupt_not_accepted [OF assms, of g] show ?thesis by simp
qed

theorem frame_corruption_detected_witness:
  "fails_with SartoriusFrameError (parse_frame ((rx_frame 0x48 [0x12, 0x34])[3 := 0x13]))"
proof -
  have "rx_frame 0x48 [0x12, 0x34] ! 3 = 0x12"
    by (simp add: rx_frame_def Let_def)
  then show ?thesis
    using frame_corruption_detected
      [OF parse_rx_frame [of "[0x12, 0x34]" "0x48"], of 3 "0x13"] by simp
qed

text \<open>
  C33. A built command is exactly a frame from which a device recovers the requested source,
  destination, opcode and argument bytes; \<open>build_command\<close> succeeds precisely when the three
  header values are bytes and the arguments leave the length byte in range, and otherwise
  raises \<open>SartoriusFrameError\<close>.
\<close>

theorem command_roundtrip:
  "(build_command opcode args src dst = Inr tx
      \<longleftrightarrow> tx_view tx = Some (src, dst, opcode, args)) \<and>
   (is_ok (build_command opcode args src dst) \<longleftrightarrow>
      0 \<le> opcode \<and> opcode \<le> 255 \<and> 0 \<le> src \<and> src \<le> 255 \<and> 0 \<le> dst \<and> dst \<le> 255 \<and>
      length args \<le> 251) \<and>
   fails_with SartoriusFrameError (build_command opcode args src dst)
     = (\<not> is_ok (build_command opcode args src dst))"
proof (intro conjI)
  show "is_ok (build_command opcode args src dst) \<longleftrightarrow>
      0 \<le> opcode \<and> opcode \<le> 255 \<and> 0 \<le> src \<and> src \<le> 255 \<and> 0 \<le> dst \<and> dst \<le> 255 \<and>
      length args \<le> 251" (is "_ \<longleftrightarrow> ?R")
  proof (cases "build_command opcode args src dst")
    case (Inl e)
    with build_command_ok_iff [of opcode args src dst] show ?thesis by (auto simp: Let_def)
  next
    case (Inr y)
    with build_command_ok_iff [of opcode args src dst y] show ?thesis by simp
  qed
  show "fails_with SartoriusFrameError (build_command opcode args src dst)
        = (\<not> is_ok (build_command opcode args src dst))"
    using build_command_error [of opcode args src dst]
    by (cases "build_command opcode args src dst") auto
qed (rule build_command_iff_view)

text \<open>
  Walking a body as TLV records is the inverse of encoding records one after the other:
  it returns a record list exactly for the concatenation of the encodings of well-formed
  records, and raises \<open>SartoriusFrameError\<close> on every other body.
\<close>

theorem tlv_sequence_roundtrip:
  "(parse_tlv_sequence body = Inr rs \<longleftrightarrow> list_all tlv_wf rs \<and> body = tlv_encode_list rs) \<and>
   fails_with SartoriusFrameError (parse_tlv_sequence body)
     = (\<nexists>rs. list_all tlv_wf rs \<and> body = tlv_encode_list rs)"
proof (cases "parse_tlv_sequence body")
  case (Inl e)
  with parse_tlv_sequence_iff [of body] have "\<nexists>rs. list_all tlv_wf rs \<and> body = tlv_encode_list rs"
    by auto
  with Inl parse_tlv_from_error [of body 0 "[]" e] parse_tlv_sequence_iff [of body] show ?thesis
    by (simp add: parse_tlv_sequence_def)
next
  case (Inr xs)
  with parse_tlv_sequence_iff [of body] show ?thesis by auto
qed

text \<open>
  An integer encoded under a tag is recovered by decoding the record and reading its value
  big-endian, whatever follows the record; encoding succeeds exactly for the integers the
  tag's size can hold.
\<close>

theorem tlv_integer_roundtrip:
  "(encode_tlv tag (TlvInt n) = Inr bs \<longrightarrow>
      (\<exists>v. decode_tlv (bs @ rest) 0 = Inr (tag, v, length bs) \<and> tlv_value_as_int v = n)) \<and>
   is_ok (encode_tlv tag (TlvInt n)) =
      (\<exists>sz. map_of TLV_TAG_SIZES tag = Some sz \<and> 0 \<le> n \<and> n < 256 ^ sz)"
proof (intro conjI impI)
  assume "encode_tlv tag (TlvInt n) = Inr bs"
  then obtain sz where sz: "map_of TLV_TAG_SIZES tag = Some sz" "0 \<le> n" "n < 256 ^ sz"
    and bs: "bs = byte_of_int tag # be_bytes sz n"
    by (auto simp: encode_tlv_int_ok_iff)
  from sz(1) have "tlv_wf (tag, be_bytes sz n)" by (simp add: tlv_wf_def)
  from decode_tlv_at [OF this, of "[]" rest]
  have "decode_tlv (bs @ rest) 0 = Inr (tag, be_bytes sz n, length bs)" by (simp add: bs)
  moreover have "tlv_value_as_int (be_bytes sz n) = n"
    using sz by (simp add: tlv_value_as_int_def int_from_be_bytes)
  ultimately show
    "\<exists>v. decode_tlv (bs @ rest) 0 = Inr (tag, v, length bs) \<and> tlv_value_as_int v = n" by blast
next
  show "is_ok (encode_tlv tag (TlvInt n)) =
      (\<exists>sz. map_of TLV_TAG_SIZES tag = Some sz \<and> 0 \<le> n \<and> n < 256 ^ sz)"
    using encode_tlv_int_ok_iff [of tag n]
    by (cases "encode_tlv tag (TlvInt n)") auto
qed

theorem tlv_integer_roundtrip_witness:
  "encode_tlv 0x12 (TlvInt 770) = Inr [0x12, 0x03, 0x02] \<and>
   (\<exists>v. decode_tlv ([0x12, 0x03, 0x02] @ [0x21, 0x05]) 0 = Inr (0x12, v, 3)
        \<and> tlv_value_as_int v = 770)"
proof -
  have e: "encode_tlv 0x12 (TlvInt 770) = Inr [0x12, 0x03, 0x02]"
    by (simp add: encode_tlv_int_ok_iff TLV_TAG_SIZES_def byte_of_int_def eval_nat_numeral)
  with tlv_integer_roundtrip [of "0x12" 770 "[0x12, 0x03, 0x02]" "[0x21, 0x05]"]
  show ?thesis by (simp add: numeral_3_eq_3)
qed

end
