(* ===== verification/Kinds.thy ===== *)
theory Kinds
  imports Prelude
begin

text \<open>
  The small enumerations the layers share: \<open>devices/kind.py\<close> (balance families and their
  classification), \<open>devices/capability.py\<close> (capability flags, safety tiers, availability),
  \<open>protocol/base.py\<close> (\<open>ProtocolKind\<close>) and \<open>firmware.py\<close>.
\<close>

section \<open>Families\<close>

datatype BalanceFamily = CUBIS | OEM_WEIGH_CELL | BASIC_LAB | FAMILY_UNKNOWN

fun family_value :: "BalanceFamily \<Rightarrow> string" where
  "family_value CUBIS = ''cubis''"
| "family_value OEM_WEIGH_CELL = ''oem_weigh_cell''"
| "family_value BASIC_LAB = ''basic_lab''"
| "family_value FAMILY_UNKNOWN = ''unknown''"

definition classify_family :: "string \<Rightarrow> BalanceFamily" where
  "classify_family model =
     (let stripped = py_upper (py_strip model)
      in if startswith stripped ''MSE'' then CUBIS
         else if startswith stripped ''WZ'' then OEM_WEIGH_CELL
         else if startswith stripped ''BCE'' then BASIC_LAB
         else FAMILY_UNKNOWN)"

lemma classify_family_empty:
  assumes "list_all py_isspace s"
  shows "classify_family s = FAMILY_UNKNOWN"
proof -
  have "py_strip s = []"
    using assms by (auto simp: py_strip_def py_lstrip_def py_rstrip_def list_all_iff
        dest: set_dropWhileD)
  then show ?thesis by (simp add: classify_family_def py_upper_def startswith_def)
qed

section \<open>Protocols\<close>

datatype ProtocolKind = AUTO | XBPI | SBI

fun protocol_value :: "ProtocolKind \<Rightarrow> string" where
  "protocol_value AUTO = ''auto''"
| "protocol_value XBPI = ''xbpi''"
| "protocol_value SBI = ''sbi''"

section \<open>Capabilities\<close>

text \<open>A \<open>Flag\<close> value is the set of its members.\<close>

datatype Capability =
    XBPI_SUPPORT | SBI_SUPPORT | PROTOCOL_SWITCHING
  | HIRES_WEIGHT | PARAMETER_TABLE_CAP | CONFIG_COUNTER | TEMPERATURE_SENSORS | CAL_RECORD
  | INTERNAL_CAL | EXTERNAL_CAL | ISOCAL | EXTENDED_OPCODES | APP_MODES | LEVEL_SENSOR
  | BARGRAPH_CAP | AUTO_OUTPUT | RAW_ADC

datatype SafetyTier = READ_ONLY | STATEFUL | PERSISTENT | DANGEROUS

text \<open>\<open>SafetyTier\<close> is an \<open>IntEnum\<close>: members compare by value.\<close>

fun tier_value :: "SafetyTier \<Rightarrow> nat" where
  "tier_value READ_ONLY = 0"
| "tier_value STATEFUL = 1"
| "tier_value PERSISTENT = 2"
| "tier_value DANGEROUS = 3"

lemma tier_value_inject: "tier_value a = tier_value b \<Longrightarrow> a = b"
  by (cases a; cases b) simp_all

instantiation SafetyTier :: linorder
begin

definition less_eq_SafetyTier :: "SafetyTier \<Rightarrow> SafetyTier \<Rightarrow> bool" where
  "less_eq_SafetyTier a b \<longleftrightarrow> tier_value a \<le> tier_value b"

definition less_SafetyTier :: "SafetyTier \<Rightarrow> SafetyTier \<Rightarrow> bool" where
  "less_SafetyTier a b \<longleftrightarrow> tier_value a < tier_value b"

instance
  by standard (auto simp: less_eq_SafetyTier_def less_SafetyTier_def dest: tier_value_inject)

end

lemma tier_ge_PERSISTENT: "PERSISTENT \<le> t \<longleftrightarrow> t = PERSISTENT \<or> t = DANGEROUS"
  by (cases t) (simp_all add: less_eq_SafetyTier_def)

datatype Availability = AV_UNKNOWN | SUPPORTED | UNSUPPORTED | INAPPLICABLE

datatype ProbeSource = FAMILY_TABLE | TARGETED_PROBE | LIVE_CALL | USER_OVERRIDE

section \<open>Firmware\<close>

record FirmwareVersion =
  fw_major :: int
  fw_minor :: int
  fw_patch :: int
  fw_raw :: "string option"

text \<open>
  The dataclass ordering of two versions whose \<open>raw\<close> is not reached by the comparison
  (it only is when the three numbers agree).
\<close>

definition firmware_less :: "FirmwareVersion \<Rightarrow> FirmwareVersion \<Rightarrow> bool" where
  "firmware_less a b \<longleftrightarrow>
     fw_major a < fw_major b \<or>
     (fw_major a = fw_major b \<and>
      (fw_minor a < fw_minor b \<or> (fw_minor a = fw_minor b \<and> fw_patch a < fw_patch b)))"

end
