(* ===== verification/Registry.thy ===== *)
theory Registry
  imports Errors Kinds
begin

text \<open>
  \<open>registry/units.py\<close>, \<open>registry/modes.py\<close> and \<open>registry/parameters.py\<close>: physical units and
  the display-unit codes of parameter 7, the integer enums of the parameter values, and the
  typed specification of each well-understood parameter index. Also \<open>units.py\<close>
  (\<open>to_pint\<close>).
\<close>

section \<open>Units\<close>

datatype Unit =
    U_USERDEF | U_G | U_KG | U_CT | U_LB | U_OZ | U_OZT | U_TAEL_HK | U_TAEL_SG | U_TAEL_TW
  | U_GR | U_DWT | U_MG | U_PARTS_PER_POUND | U_TAEL_CN | U_MOMME | U_CT_AU | U_TOLA | U_BAHT
  | U_MESGAL | U_T | U_LB_OZ | U_NEWTON | U_UG | U_UNKNOWN

text \<open>The members in class order, with their string values.\<close>

definition Unit_members :: "(Unit \<times> string) list" where
  "Unit_members =
     [(U_USERDEF, ''userdef''), (U_G, ''g''), (U_KG, ''kg''), (U_CT, ''ct''), (U_LB, ''lb''),
      (U_OZ, ''oz''), (U_OZT, ''ozt''), (U_TAEL_HK, ''tl.hk''), (U_TAEL_SG, ''tl.sg''),
      (U_TAEL_TW, ''tl.tw''), (U_GR, ''gr''), (U_DWT, ''dwt''), (U_MG, ''mg''),
      (U_PARTS_PER_POUND, ''/lb''), (U_TAEL_CN, ''tl.cn''), (U_MOMME, ''momme''),
      (U_CT_AU, ''ct_au''), (U_TOLA, ''tola''), (U_BAHT, ''baht''), (U_MESGAL, ''mesgal''),
      (U_T, ''t''), (U_LB_OZ, ''lb_oz''), (U_NEWTON, ''N''), (U_UG, CHR 0xB5 # ''g''),
      (U_UNKNOWN, ''unknown'')]"

definition unit_value :: "Unit \<Rightarrow> string" where
  "unit_value u = dict_get Unit_members u ''''"

text \<open>\<open>Unit(text)\<close>: the member of that value, or \<open>None\<close> for the \<open>ValueError\<close>.\<close>

definition Unit_of_value :: "string \<Rightarrow> Unit option" where
  "Unit_of_value s = map_of (map (\<lambda>(u, v). (v, u)) Unit_members) s"

datatype Sign = ZERO | POSITIVE | NEGATIVE | SIGN_UNKNOWN

fun sign_value :: "Sign \<Rightarrow> string" where
  "sign_value ZERO = ''zero''"
| "sign_value POSITIVE = ''positive''"
| "sign_value NEGATIVE = ''negative''"
| "sign_value SIGN_UNKNOWN = ''unknown''"

definition DISPLAY_UNIT_CODE_TO_UNIT :: "(int \<times> Unit) list" where
  "DISPLAY_UNIT_CODE_TO_UNIT =
     [(1, U_USERDEF), (2, U_G), (3, U_KG), (4, U_CT), (5, U_LB), (6, U_OZ), (7, U_OZT),
      (8, U_TAEL_HK), (9, U_TAEL_SG), (10, U_TAEL_TW), (11, U_GR), (12, U_DWT), (13, U_MG),
      (14, U_PARTS_PER_POUND), (15, U_TAEL_CN), (16, U_MOMME), (17, U_CT_AU), (18, U_TOLA),
      (19, U_BAHT), (20, U_MESGAL), (21, U_T), (22, U_LB_OZ), (23, U_NEWTON), (24, U_UG)]"

text \<open>The reverse dict; a comprehension keeps the last of duplicate keys.\<close>

definition UNIT_TO_DISPLAY_CODE :: "(Unit \<times> int) list" where
  "UNIT_TO_DISPLAY_CODE = rev (map (\<lambda>(c, u). (u, c)) DISPLAY_UNIT_CODE_TO_UNIT)"

definition unit_to_display_code :: "Unit \<Rightarrow> int res" where
  "unit_to_display_code u =
     (case map_of UNIT_TO_DISPLAY_CODE u of Some c \<Rightarrow> Inr c | None \<Rightarrow> Inl (Py ValueError))"

definition UNIT_TO_PINT :: "(Unit \<times> string option) list" where
  "UNIT_TO_PINT =
     [(U_G, Some ''gram''), (U_KG, Some ''kilogram''), (U_MG, Some ''milligram''),
      (U_UG, Some ''microgram''), (U_T, Some ''metric_ton''), (U_LB, Some ''pound''),
      (U_OZ, Some ''ounce''), (U_OZT, Some ''troy_ounce''), (U_CT, Some ''carat''),
      (U_GR, Some ''grain''), (U_DWT, Some ''pennyweight''), (U_NEWTON, Some ''newton''),
      (U_USERDEF, None), (U_PARTS_PER_POUND, None), (U_TAEL_HK, None), (U_TAEL_SG, None),
      (U_TAEL_TW, None), (U_TAEL_CN, None), (U_MOMME, None), (U_CT_AU, None), (U_TOLA, None),
      (U_BAHT, None), (U_MESGAL, None), (U_LB_OZ, None), (U_UNKNOWN, None)]"

text \<open>The argument of \<open>to_pint\<close>: a member, other text, or nothing.\<close>

datatype unit_arg = UnitMember Unit | UnitText string | UnitNone

fun to_pint :: "unit_arg \<Rightarrow> string option" where
  "to_pint UnitNone = None"
| "to_pint (UnitMember u) = dict_get UNIT_TO_PINT u None"
| "to_pint (UnitText s) =
     (case Unit_of_value s of Some u \<Rightarrow> dict_get UNIT_TO_PINT u None | None \<Rightarrow> None)"

lemma display_code_iff:
  "unit_to_display_code u = Inr c \<longleftrightarrow> map_of DISPLAY_UNIT_CODE_TO_UNIT c = Some u"
proof -
  have "map_of UNIT_TO_DISPLAY_CODE u = Some c \<longleftrightarrow> (u, c) \<in> set UNIT_TO_DISPLAY_CODE"
    by (intro map_of_eq_Some_iff)
      (simp add: UNIT_TO_DISPLAY_CODE_def DISPLAY_UNIT_CODE_TO_UNIT_def)
  also have "\<dots> \<longleftrightarrow> (c, u) \<in> set DISPLAY_UNIT_CODE_TO_UNIT"
    by (auto simp: UNIT_TO_DISPLAY_CODE_def)
  also have "\<dots> \<longleftrightarrow> map_of DISPLAY_UNIT_CODE_TO_UNIT c = Some u"
    by (intro map_of_eq_Some_iff [symmetric]) (simp add: DISPLAY_UNIT_CODE_TO_UNIT_def)
  finally show ?thesis by (auto simp: unit_to_display_code_def split: option.splits)
qed

lemma Unit_of_value_value: "Unit_of_value (unit_value u) = Some u"
  by (cases u) (simp_all add: Unit_of_value_def unit_value_def dict_get_def Unit_members_def)

section \<open>Modes\<close>

text \<open>
  The integer enums are first-class in the sources (the parameter table stores the classes),
  so a class is a value of \<open>mode_enum\<close> and a member is the class with its integer value;
  \<open>enum_members\<close> gives the class bodies.
\<close>

datatype mode_enum =
    FilterMode | AppFilter | StabilityRange | StabilityDelay | TareBehavior | AutoZeroMode
  | DisplayAccuracyMode | ZeroRange | IsoCalMode | ExternalCalLock | ParityMode | StopBitsMode
  | OutputMode | MenuAccessMode | CalButtonAssignment | CalibrationUnit | TareOnPowerOn

definition FilterMode_members :: "(string \<times> int) list" where
  "FilterMode_members =
     [(''UNKNOWN'', 0), (''VERY_STABLE'', 1), (''STABLE'', 2), (''UNSTABLE'', 3),
      (''VERY_UNSTABLE'', 4)]"

definition AppFilter_members :: "(string \<times> int) list" where
  "AppFilter_members =
     [(''UNKNOWN'', 0), (''FINAL_READING'', 1), (''FILLING'', 2), (''REDUCED'', 3),
      (''OFF'', 4)]"

definition StabilityRange_members :: "(string \<times> int) list" where
  "StabilityRange_members =
     [(''UNKNOWN'', 0), (''MAX_ACCURACY'', 1), (''VERY_ACCURATE'', 2),
      (''ACCURATE'', 3), (''FAST'', 4), (''VERY_FAST'', 5), (''MAX_FAST'', 6)]"

definition StabilityDelay_members :: "(string \<times> int) list" where
  "StabilityDelay_members =
     [(''UNKNOWN'', 0), (''NONE'', 1), (''SHORT'', 2), (''AVERAGE'', 3),
      (''LONG'', 4)]"

definition TareBehavior_members :: "(string \<times> int) list" where
  "TareBehavior_members =
     [(''UNKNOWN'', 0), (''WITHOUT_STABILITY'', 1), (''WITH_STABILITY'', 2),
      (''AT_STABILITY'', 3)]"

definition AutoZeroMode_members :: "(string \<times> int) list" where
  "AutoZeroMode_members =
     [(''UNKNOWN'', 0), (''ON'', 1), (''OFF'', 2)]"

definition DisplayAccuracyMode_members :: "(string \<times> int) list" where
  "DisplayAccuracyMode_members =
     [(''UNKNOWN'', 0), (''DEFAULT'', 1), (''LOW_POWER_ON_OFF'', 2), (''DIV1'', 6),
      (''MINUS_1_DIGIT'', 7)]"

definition ZeroRange_members :: "(string \<times> int) list" where
  "ZeroRange_members =
     [(''UNKNOWN'', 0), (''ONE_PERCENT'', 1), (''TWO_PERCENT'', 2)]"

definition IsoCalMode_members :: "(string \<times> int) list" where
  "IsoCalMode_members =
     [(''UNKNOWN'', 0), (''OFF'', 1), (''NOTE'', 2), (''ON'', 3)]"

definition ExternalCalLock_members :: "(string \<times> int) list" where
  "ExternalCalLock_members =
     [(''UNKNOWN'', 0), (''FREE'', 1), (''LOCKED'', 2)]"

definition ParityMode_members :: "(string \<times> int) list" where
  "ParityMode_members =
     [(''UNKNOWN'', 0), (''ODD'', 3), (''EVEN'', 4), (''NONE'', 5)]"

definition StopBitsMode_members :: "(string \<times> int) list" where
  "StopBitsMode_members =
     [(''UNKNOWN'', 0), (''ONE'', 1), (''TWO'', 2)]"

definition OutputMode_members :: "(string \<times> int) list" where
  "OutputMode_members =
     [(''UNKNOWN'', 0), (''MANUAL_IMMEDIATE'', 1), (''MANUAL_AFTER_STABILITY'', 2),
      (''MANUAL_AT_STABILITY'', 3), (''AUTOPRINT_UNFILTERED'', 4),
      (''AUTOPRINT_STABLE'', 5)]"

definition MenuAccessMode_members :: "(string \<times> int) list" where
  "MenuAccessMode_members =
     [(''UNKNOWN'', 0), (''CAN_EDIT'', 1), (''READ_ONLY'', 2)]"

definition CalButtonAssignment_members :: "(string \<times> int) list" where
  "CalButtonAssignment_members =
     [(''UNKNOWN'', 0), (''CAL_EXTERNAL'', 1), (''E_CAL_USER'', 3),
      (''CAL_INTERNAL'', 4), (''SET_PRELOAD'', 8), (''DELETE_PRELOAD'', 9),
      (''BLOCKED'', 10), (''SELECT'', 12), (''SET_EXTERNAL_WEIGHT'', 17)]"

definition CalibrationUnit_members :: "(string \<times> int) list" where
  "CalibrationUnit_members =
     [(''UNKNOWN'', 0), (''G'', 1), (''KG'', 2), (''USER_DEFINED'', 4)]"

definition TareOnPowerOn_members :: "(string \<times> int) list" where
  "TareOnPowerOn_members =
     [(''UNKNOWN'', 0), (''ON'', 1), (''OFF'', 2)]"

fun enum_members :: "mode_enum \<Rightarrow> (string \<times> int) list" where
  "enum_members FilterMode = FilterMode_members"
| "enum_members AppFilter = AppFilter_members"
| "enum_members StabilityRange = StabilityRange_members"
| "enum_members StabilityDelay = StabilityDelay_members"
| "enum_members TareBehavior = TareBehavior_members"
| "enum_members AutoZeroMode = AutoZeroMode_members"
| "enum_members DisplayAccuracyMode = DisplayAccuracyMode_members"
| "enum_members ZeroRange = ZeroRange_members"
| "enum_members IsoCalMode = IsoCalMode_members"
| "enum_members ExternalCalLock = ExternalCalLock_members"
| "enum_members ParityMode = ParityMode_members"
| "enum_members StopBitsMode = StopBitsMode_members"
| "enum_members OutputMode = OutputMode_members"
| "enum_members MenuAccessMode = MenuAccessMode_members"
| "enum_members CalButtonAssignment = CalButtonAssignment_members"
| "enum_members CalibrationUnit = CalibrationUnit_members"
| "enum_members TareOnPowerOn = TareOnPowerOn_members"

lemmas members_defs =
  FilterMode_members_def AppFilter_members_def StabilityRange_members_def
  StabilityDelay_members_def TareBehavior_members_def AutoZeroMode_members_def
  DisplayAccuracyMode_members_def ZeroRange_members_def IsoCalMode_members_def
  ExternalCalLock_members_def ParityMode_members_def StopBitsMode_members_def
  OutputMode_members_def MenuAccessMode_members_def CalButtonAssignment_members_def
  CalibrationUnit_members_def TareOnPowerOn_members_def

datatype mode = Mode (mode_class: mode_enum) (mode_val: int)

text \<open>\<open>enum_cls(raw)\<close>; \<open>None\<close> is the \<open>ValueError\<close>.\<close>

definition enum_call :: "mode_enum \<Rightarrow> int \<Rightarrow> mode option" where
  "enum_call c raw = (if raw \<in> snd ` set (enum_members c) then Some (Mode c raw) else None)"

definition decode_mode :: "mode_enum \<Rightarrow> int \<Rightarrow> mode" where
  "decode_mode c raw = (case enum_call c raw of Some m \<Rightarrow> m | None \<Rightarrow> Mode c 0)"

lemma enum_call_0: "enum_call c 0 = Some (Mode c 0)"
  by (cases c) (simp_all add: enum_call_def members_defs)

lemma enum_call_byte: "enum_call c raw = Some m \<Longrightarrow> 0 \<le> raw \<and> raw \<le> 17"
  by (cases c) (auto simp: enum_call_def members_defs split: if_splits)

lemma enum_call_val: "enum_call c raw = Some m \<Longrightarrow> m = Mode c raw"
  by (simp add: enum_call_def split: if_splits)

lemma enum_call_self:
  "enum_call c n = Some m \<Longrightarrow> enum_call c (mode_val m) = Some (Mode c (mode_val m))"
  using enum_call_val by fastforce

section \<open>Parameter specifications\<close>

definition MSE_BCE :: "BalanceFamily set" where
  "MSE_BCE = {CUBIS, BASIC_LAB, FAMILY_UNKNOWN}"

definition ALL_FAMILIES :: "BalanceFamily set" where
  "ALL_FAMILIES = {CUBIS, BASIC_LAB, OEM_WEIGH_CELL, FAMILY_UNKNOWN}"

record ParameterSpec =
  ps_index :: int
  ps_name :: string
  ps_enum :: "mode_enum option"
  ps_writable :: bool
  ps_bumps_config_counter :: bool
  ps_families :: "BalanceFamily set"
  ps_unit_enum :: bool

text \<open>
  A typed parameter value: an enum member, a unit, or the plain integer the escape hatch of
  \<open>encode\<close> accepts.
\<close>

datatype param_value = PMode mode | PUnit Unit | PInt int

text \<open>The \<open>RuntimeError\<close> of a row without decoder is not reachable from the table.\<close>

definition spec_decode :: "ParameterSpec \<Rightarrow> int \<Rightarrow> param_value res" where
  "spec_decode spec current =
     (if ps_unit_enum spec then Inr (PUnit (dict_get DISPLAY_UNIT_CODE_TO_UNIT current U_UNKNOWN))
      else case ps_enum spec of
             None \<Rightarrow> Inl (Py RuntimeError)
           | Some c \<Rightarrow>
               (case enum_call c current of
                  Some m \<Rightarrow> Inr (PMode m)
                | None \<Rightarrow> Inr (PMode (Mode c 0))))"

text \<open>\<open>int(value)\<close>; a unit is a string that is no integer literal.\<close>

fun param_int :: "param_value \<Rightarrow> int res" where
  "param_int (PMode m) = Inr (mode_val m)"
| "param_int (PUnit u) = Inl (Py ValueError)"
| "param_int (PInt n) = Inr n"

definition spec_encode :: "ParameterSpec \<Rightarrow> param_value \<Rightarrow> int res" where
  "spec_encode spec value =
     (if ps_unit_enum spec
      then (case value of
              PUnit u \<Rightarrow> unit_to_display_code u
            | _ \<Rightarrow> res_bind (param_int value) (\<lambda>code.
                     if \<not> (1 \<le> code \<and> code < 25) then Inl (Py ValueError) else Inr code))
      else case ps_enum spec of
             None \<Rightarrow> Inl (Py RuntimeError)
           | Some c \<Rightarrow>
               res_bind
                 (case value of
                    PMode m \<Rightarrow>
                      if mode_class m = c then Inr m
                      else (case enum_call c (mode_val m) of
                              Some m' \<Rightarrow> Inr m' | None \<Rightarrow> Inl (Py ValueError))
                  | _ \<Rightarrow> res_bind (param_int value) (\<lambda>n.
                           case enum_call c n of
                             Some m' \<Rightarrow> Inr m' | None \<Rightarrow> Inl (Py ValueError)))
                 (\<lambda>member. if mode_val member = 0 then Inl (Py ValueError)
                           else Inr (mode_val member)))"

definition spec :: "int \<Rightarrow> string \<Rightarrow> mode_enum option \<Rightarrow> bool \<Rightarrow> bool \<Rightarrow> BalanceFamily set
    \<Rightarrow> ParameterSpec" where
  "spec idx name enum bumps unit_enum families =
     \<lparr>ps_index = idx, ps_name = name, ps_enum = enum, ps_writable = True,
      ps_bumps_config_counter = bumps, ps_families = families, ps_unit_enum = unit_enum\<rparr>"

definition PARAMETER_TABLE :: "(int \<times> ParameterSpec) list" where
  "PARAMETER_TABLE =
     [(1, spec 1 ''filter_mode'' (Some FilterMode) True False ALL_FAMILIES),
      (2, spec 2 ''app_filter'' (Some AppFilter) True False ALL_FAMILIES),
      (3, spec 3 ''stability_range'' (Some StabilityRange) True False ALL_FAMILIES),
      (4, spec 4 ''stability_delay'' (Some StabilityDelay) True False ALL_FAMILIES),
      (5, spec 5 ''tare_behavior'' (Some TareBehavior) True False ALL_FAMILIES),
      (6, spec 6 ''auto_zero'' (Some AutoZeroMode) True False ALL_FAMILIES),
      (7, spec 7 ''display_unit'' None True True ALL_FAMILIES),
      (8, spec 8 ''display_accuracy'' (Some DisplayAccuracyMode) True False ALL_FAMILIES),
      (9, spec 9 ''cal_button_assignment'' (Some CalButtonAssignment) True False MSE_BCE),
      (13, spec 13 ''tare_on_power_on'' (Some TareOnPowerOn) False False MSE_BCE),
      (15, spec 15 ''isocal_mode'' (Some IsoCalMode) True False MSE_BCE),
      (16, spec 16 ''external_cal_lock'' (Some ExternalCalLock) True False MSE_BCE),
      (32, spec 32 ''peripheral_parity'' (Some ParityMode) True False MSE_BCE),
      (33, spec 33 ''peripheral_stop_bits'' (Some StopBitsMode) True False MSE_BCE),
      (36, spec 36 ''sbi_output_mode'' (Some OutputMode) True False MSE_BCE),
      (40, spec 40 ''menu_access'' (Some MenuAccessMode) True False ALL_FAMILIES),
      (44, spec 44 ''calibration_unit'' (Some CalibrationUnit) True False MSE_BCE),
      (64, spec 64 ''pc_usb_parity'' (Some ParityMode) True False MSE_BCE),
      (65, spec 65 ''pc_usb_stop_bits'' (Some StopBitsMode) True False MSE_BCE)]"

definition get_parameter_spec :: "int \<Rightarrow> ParameterSpec option" where
  "get_parameter_spec idx = map_of PARAMETER_TABLE idx"

text \<open>The value is one a spec can write: a member other than \<open>UNKNOWN\<close>.\<close>

fun is_unknown_value :: "param_value \<Rightarrow> bool" where
  "is_unknown_value (PMode m) = (mode_val m = 0)"
| "is_unknown_value (PUnit u) = (u = U_UNKNOWN)"
| "is_unknown_value (PInt n) = False"

lemma get_parameter_spec_Some:
  "get_parameter_spec i = Some sp \<Longrightarrow>
     ps_index sp = i \<and> 1 \<le> i \<and> i \<le> 65 \<and>
     (if ps_unit_enum sp then ps_enum sp = None else (\<exists>c. ps_enum sp = Some c))"
  by (auto simp: get_parameter_spec_def PARAMETER_TABLE_def spec_def split: if_splits)

lemma display_unit_range:
  "map_of DISPLAY_UNIT_CODE_TO_UNIT c = Some u \<Longrightarrow> 1 \<le> c \<and> c \<le> 24 \<and> u \<noteq> U_UNKNOWN"
  by (auto simp: DISPLAY_UNIT_CODE_TO_UNIT_def split: if_splits)

lemma display_unit_total: "1 \<le> c \<Longrightarrow> c < 25 \<Longrightarrow> \<exists>u. map_of DISPLAY_UNIT_CODE_TO_UNIT c = Some u"
proof -
  assume "1 \<le> c" "c < 25"
  then have "c \<in> {1..24}" by simp
  also have "{1..24} = (set (map fst DISPLAY_UNIT_CODE_TO_UNIT) :: int set)"
    unfolding DISPLAY_UNIT_CODE_TO_UNIT_def by (simp add: set_eq_iff) arith
  finally show ?thesis by (metis map_of_eq_None_iff not_Some_eq set_map)
qed

lemma spec_decode_total:
  "get_parameter_spec i = Some sp \<Longrightarrow> \<exists>w. spec_decode sp c = Inr w"
  by (drule get_parameter_spec_Some)
    (auto simp: spec_decode_def split: if_splits option.splits)

lemma spec_encode_decode:
  assumes sp: "get_parameter_spec i = Some sp" and dec: "spec_decode sp c = Inr w"
  shows "spec_encode sp w = Inr c \<longleftrightarrow> \<not> is_unknown_value w"
proof (cases "ps_unit_enum sp")
  case True
  with dec have w: "w = PUnit (dict_get DISPLAY_UNIT_CODE_TO_UNIT c U_UNKNOWN)"
    by (simp add: spec_decode_def)
  show ?thesis
  proof (cases "map_of DISPLAY_UNIT_CODE_TO_UNIT c")
    case None
    have "unit_to_display_code U_UNKNOWN \<noteq> Inr c" using None by (simp add: display_code_iff)
    with None w True show ?thesis by (simp add: dict_get_def spec_encode_def)
  next
    case (Some u)
    with w True display_unit_range [OF Some] show ?thesis
      by (simp add: dict_get_def spec_encode_def display_code_iff)
  qed
next
  case False
  with get_parameter_spec_Some [OF sp] obtain cls where cls: "ps_enum sp = Some cls" by auto
  show ?thesis
    using dec False cls
    by (auto simp: spec_decode_def spec_encode_def dest!: enum_call_val split: option.splits)
qed

lemma spec_encode_sound:
  assumes sp: "get_parameter_spec i = Some sp" and enc: "spec_encode sp v = Inr c"
    and own: "case v of PMode m \<Rightarrow> enum_call (mode_class m) (mode_val m) = Some m | _ \<Rightarrow> True"
  shows "1 \<le> c \<and> c \<le> 24 \<and> (\<exists>w. spec_decode sp c = Inr w \<and> \<not> is_unknown_value w)"
proof (cases "ps_unit_enum sp")
  case True
  have "1 \<le> c \<and> c < 25"
    using enc True display_unit_range
    by (cases v)
      (fastforce simp: spec_encode_def display_code_iff res_bind_eq_Inr split: if_splits)+
  with display_unit_total [of c] obtain u where u: "map_of DISPLAY_UNIT_CODE_TO_UNIT c = Some u"
    by blast
  with display_unit_range [OF u] True \<open>1 \<le> c \<and> c < 25\<close> show ?thesis
    by (simp add: spec_decode_def dict_get_def)
next
  case False
  with get_parameter_spec_Some [OF sp] obtain cls where cls: "ps_enum sp = Some cls" by auto
  from enc False cls own have "c \<noteq> 0 \<and> enum_call cls c = Some (Mode cls c)"
    by (cases v)
      (auto simp: spec_encode_def res_bind_eq_Inr
        dest: enum_call_self
        split: if_splits option.splits)
  with enum_call_byte [of cls c] False cls show ?thesis by (auto simp: spec_decode_def)
qed

section \<open>Properties\<close>

text \<open>
  The display-unit codes and the units are in bijection: a unit has the code \<open>c\<close> exactly
  when the balance's code \<open>c\<close> names that unit; the codes are 1 to 24, and \<open>UNKNOWN\<close> is the
  one member without a code.
\<close>

theorem display_unit_bijection:
  "(unit_to_display_code u = Inr c \<longleftrightarrow> map_of DISPLAY_UNIT_CODE_TO_UNIT c = Some u) \<and>
   is_ok (unit_to_display_code u) = (u \<noteq> U_UNKNOWN) \<and>
   (\<exists>v. map_of DISPLAY_UNIT_CODE_TO_UNIT c = Some v) = (1 \<le> c \<and> c \<le> 24)"
proof (intro conjI)
  show "is_ok (unit_to_display_code u) = (u \<noteq> U_UNKNOWN)"
    by (cases u) (simp_all add: unit_to_display_code_def UNIT_TO_DISPLAY_CODE_def
        DISPLAY_UNIT_CODE_TO_UNIT_def)
  show "(\<exists>v. map_of DISPLAY_UNIT_CODE_TO_UNIT c = Some v) = (1 \<le> c \<and> c \<le> 24)"
    using display_unit_total [of c] display_unit_range by fastforce
qed (rule display_code_iff)

text \<open>
  For every typed parameter, decoding a wire code and encoding the result again gives back
  the code, unless the code was outside the modelled values; then the decoded value is
  \<open>UNKNOWN\<close> and cannot be written.
\<close>

theorem parameter_decode_encode:
  assumes "get_parameter_spec i = Some sp"
  shows "\<exists>w. spec_decode sp c = Inr w \<and> (spec_encode sp w = Inr c) = (\<not> is_unknown_value w)"
  using spec_decode_total [OF assms, of c] spec_encode_decode [OF assms] by blast

theorem parameter_decode_encode_witness:
  "\<exists>w. spec_decode (spec 6 ''auto_zero'' (Some AutoZeroMode) True False ALL_FAMILIES) 2 = Inr w \<and>
       w = PMode (Mode AutoZeroMode 2) \<and>
       spec_encode (spec 6 ''auto_zero'' (Some AutoZeroMode) True False ALL_FAMILIES) w = Inr 2"
proof -
  let ?sp = "spec 6 ''auto_zero'' (Some AutoZeroMode) True False ALL_FAMILIES"
  have "get_parameter_spec 6 = Some ?sp"
    by (simp add: get_parameter_spec_def PARAMETER_TABLE_def)
  from parameter_decode_encode [OF this, of 2] obtain w
    where "spec_decode ?sp 2 = Inr w" "(spec_encode ?sp w = Inr 2) = (\<not> is_unknown_value w)"
    by blast
  moreover from this(1) have "w = PMode (Mode AutoZeroMode 2)"
    by (simp add: spec_decode_def spec_def enum_call_def members_defs)
  ultimately show ?thesis by simp
qed

text \<open>
  Whatever typed value is written to a modelled parameter, an enum member, a unit or a
  plain integer, what reaches the wire is a code between 1 and 24 that decodes back to a known
  value: \<open>UNKNOWN\<close>, gaps of a sparse enum and out-of-range integers are refused.
\<close>

theorem parameter_writes_known_codes:
  assumes "get_parameter_spec i = Some sp" and "spec_encode sp v = Inr c"
    and "case v of PMode m \<Rightarrow> enum_call (mode_class m) (mode_val m) = Some m | _ \<Rightarrow> True"
  shows "1 \<le> c \<and> c \<le> 24 \<and> (\<exists>w. spec_decode sp c = Inr w \<and> \<not> is_unknown_value w)"
  by (rule spec_encode_sound [OF assms])

theorem parameter_writes_known_codes_witness:
  "\<exists>w. spec_decode (spec 7 ''display_unit'' None True True ALL_FAMILIES) 13 = Inr w \<and>
       \<not> is_unknown_value w"
proof -
  let ?sp = "spec 7 ''display_unit'' None True True ALL_FAMILIES"
  have "get_parameter_spec 7 = Some ?sp"
    by (simp add: get_parameter_spec_def PARAMETER_TABLE_def)
  moreover have "spec_encode ?sp (PUnit U_MG) = Inr 13"
    by (simp add: spec_encode_def spec_def display_code_iff DISPLAY_UNIT_CODE_TO_UNIT_def)
  ultimately show ?thesis
    using parameter_writes_known_codes [of 7 ?sp "PUnit U_MG" 13] by simp
qed

end
