(* ===== verification/Pyfloat.thy ===== *)
theory Pyfloat
  imports Prelude Complex_Main
begin

text \<open>
  Python floats as the codecs produce them: \<open>struct.unpack(">f", ...)\<close> of four wire bytes,
  and \<open>float(text)\<close> of a decimal literal. A finite float is its sign bit and the exact
  rational magnitude, so that negative zero and zero stay apart and equality is bitwise.
\<close>

datatype pyfloat = FNan | FInf bool | FFin bool rat

definition pow2 :: "int \<Rightarrow> rat" where
  "pow2 k = (if 0 \<le> k then 2 ^ nat k else 1 / 2 ^ nat (- k))"

lemma pow2_pos [simp]: "0 < pow2 k"
  by (simp add: pow2_def)

section \<open>IEEE binary32\<close>

text \<open>Sign bit, biased exponent and fraction of a big-endian binary32.\<close>

definition f32_decode :: "int \<Rightarrow> pyfloat" where
  "f32_decode w =
     (let s = (w div 2 ^ 31) mod 2 = 1; e = (w div 2 ^ 23) mod 256; m = w mod 2 ^ 23
      in if e = 255 then (if m = 0 then FInf s else FNan)
         else if e = 0 then FFin s (of_int m * pow2 (- 149))
         else FFin s (of_int (2 ^ 23 + m) * pow2 (e - 150)))"

definition unpack_f32_be :: "bytes \<Rightarrow> pyfloat" where
  "unpack_f32_be bs = f32_decode (int_from_bytes_be bs)"

section \<open>IEEE binary64 from a decimal\<close>

text \<open>
  Rounding \<open>n / d\<close> to an integer, ties to even, and \<open>n / d\<close> to the nearest binary64: the
  exponent is the least one, not below the subnormal one, at which the integer significand
  fits 53 bits.
\<close>

definition round_half_even :: "int \<Rightarrow> int \<Rightarrow> int" where
  "round_half_even n d =
     (let q = n div d; r = n mod d
      in if 2 * r < d then q
         else if d < 2 * r then q + 1
         else if even q then q else q + 1)"

definition scaled :: "int \<Rightarrow> int \<Rightarrow> int \<Rightarrow> int" where
  "scaled n d e =
     (if 0 \<le> e then round_half_even n (d * 2 ^ nat e) else round_half_even (n * 2 ^ nat (- e)) d)"

function bit_length :: "int \<Rightarrow> int" where
  "bit_length n = (if n \<le> 0 then 0 else 1 + bit_length (n div 2))"
  by auto
termination by (relation "measure nat") auto

declare bit_length.simps [simp del]

definition f64_of_ratio :: "bool \<Rightarrow> int \<Rightarrow> int \<Rightarrow> pyfloat" where
  "f64_of_ratio s n d =
     (if n = 0 then FFin s 0
      else
        let e0 = bit_length n - bit_length d - 53;
            e1 = max e0 (- 1074);
            e = (if scaled n d e1 < 2 ^ 53 then e1 else e1 + 1);
            m = scaled n d e
        in if 971 < e \<or> (e = 971 \<and> 2 ^ 53 \<le> m) then FInf s else FFin s (of_int m * pow2 e))"

text \<open>\<open>float\<close> of \<open>[sign] digits [. digits]\<close> with the parts already split.\<close>

definition digit_value :: "char \<Rightarrow> int" where
  "digit_value c = of_char c - 48"

definition digits_value :: "string \<Rightarrow> int" where
  "digits_value ds = foldl (\<lambda>acc c. acc * 10 + digit_value c) 0 ds"

definition float_of_decimal :: "bool \<Rightarrow> string \<Rightarrow> string \<Rightarrow> pyfloat" where
  "float_of_decimal neg ip fp = f64_of_ratio neg (digits_value (ip @ fp)) (10 ^ length fp)"

section \<open>Comparisons the sources make\<close>

text \<open>\<open>value < 0\<close>, \<open>value > 0\<close> and \<open>value == 0\<close>; a NaN compares false to everything.\<close>

fun float_lt0 :: "pyfloat \<Rightarrow> bool" where
  "float_lt0 FNan = False"
| "float_lt0 (FInf s) = s"
| "float_lt0 (FFin s q) = (s \<and> 0 < q)"

fun float_gt0 :: "pyfloat \<Rightarrow> bool" where
  "float_gt0 FNan = False"
| "float_gt0 (FInf s) = (\<not> s)"
| "float_gt0 (FFin s q) = (\<not> s \<and> 0 < q)"

lemma float_lt0_gt0_disjoint: "\<not> (float_lt0 x \<and> float_gt0 x)"
  by (cases x) auto

section \<open>Facts\<close>

lemma f32_decode_bounds:
  assumes "f32_decode w = FFin t q"
  shows "0 \<le> q"
proof -
  have m: "0 \<le> (of_int (w mod 2 ^ 23) :: rat)" by (simp only: of_int_0_le_iff) simp
  have "q = of_int (w mod 2 ^ 23) * pow2 (- 149) \<or>
        (\<exists>e. q = of_int (2 ^ 23 + w mod 2 ^ 23) * pow2 e)"
    using assms unfolding f32_decode_def Let_def by (metis pyfloat.distinct(3,5) pyfloat.inject(2))
  then show ?thesis
    using m less_imp_le [OF pow2_pos] by (metis (no_types) add_nonneg_nonneg mult_nonneg_nonneg
        of_int_add of_int_0_le_iff zero_le_numeral zero_le_power)
qed

lemma round_half_even_exact: "0 < d \<Longrightarrow> round_half_even (q * d) d = q"
  by (simp add: round_half_even_def Let_def)

lemma digits_value_snoc: "digits_value (ds @ [c]) = digits_value ds * 10 + digit_value c"
  by (simp add: digits_value_def)

lemma digits_value_bound:
  "list_all is_digit ds \<Longrightarrow> digits_value ds < 10 ^ length ds"
proof (induction ds rule: rev_induct)
  case Nil
  then show ?case by (simp add: digits_value_def)
next
  case (snoc c ds)
  then have "digit_value c \<le> 9" "0 \<le> digit_value c" by (auto simp: is_digit_def between_def digit_value_def)
  with snoc show ?case by (auto simp: digits_value_snoc)
qed

end
