(* ===== verification/Models.thy ===== *)
theory Models
  imports Registry Pyfloat
begin

text \<open>
  \<open>devices/models.py\<close>: the protocol-neutral values the decoders build. The wall-clock and
  monotonic timestamps a \<open>Reading\<close> also carries are not modelled: no decoder or gate reads
  them.
\<close>

datatype BalanceState = STABLE | UNSTABLE | OVERLOAD | UNDERLOAD | OFF | STATE_UNKNOWN

record Quantity =
  q_value :: pyfloat
  q_unit :: Unit

record Reading =
  rd_value :: "pyfloat option"
  rd_unit :: Unit
  rd_sign :: Sign
  rd_stable :: bool
  rd_overload :: bool
  rd_underload :: bool
  rd_decimals :: "int option"
  rd_sequence :: "int option"
  rd_status_flags :: "(string \<times> bool) list"
  rd_protocol :: ProtocolKind
  rd_raw :: bytes

text \<open>
  The values of a row, and the flattened row of \<open>Reading.as_dict\<close>. \<open>COther\<close> stands for an object
  of any other class, by the name of the class.
\<close>

datatype cell = CFloat pyfloat | CInt int | CStr string | CBool bool | COther string | CNone

definition cell_opt :: "('a \<Rightarrow> cell) \<Rightarrow> 'a option \<Rightarrow> cell" where
  "cell_opt f x = (case x of None \<Rightarrow> CNone | Some v \<Rightarrow> f v)"

definition hex_digit :: "nat \<Rightarrow> char" where
  "hex_digit n = (if n < 10 then char_of (48 + n) else char_of (87 + n))"

definition bytes_hex :: "bytes \<Rightarrow> string" where
  "bytes_hex bs = concat (map (\<lambda>b. [hex_digit (unat b div 16), hex_digit (unat b mod 16)]) bs)"

definition Reading_as_dict :: "Reading \<Rightarrow> (string \<times> cell) list" where
  "Reading_as_dict r =
     [(''value'', cell_opt CFloat (rd_value r)),
      (''unit'', CStr (unit_value (rd_unit r))),
      (''sign'', CStr (sign_value (rd_sign r))),
      (''stable'', CInt (of_bool (rd_stable r))),
      (''overload'', CInt (of_bool (rd_overload r))),
      (''underload'', CInt (of_bool (rd_underload r))),
      (''decimals'', cell_opt CInt (rd_decimals r)),
      (''sequence'', cell_opt CInt (rd_sequence r)),
      (''protocol'', CStr (protocol_value (rd_protocol r))),
      (''raw'', CStr (bytes_hex (rd_raw r)))]"

text \<open>Raw state and status are integers on xBPI and text on SBI.\<close>

datatype raw_field = RawInt int | RawText string | RawNone

record BalanceStatus =
  bs_stable :: "bool option"
  bs_state :: BalanceState
  bs_isocal_due :: "bool option"
  bs_adc_trusted :: "bool option"
  bs_sequence :: "int option"
  bs_raw_state :: raw_field
  bs_raw_status :: raw_field
  bs_raw :: raw_response

record TemperatureReading =
  tr_sensor :: int
  tr_celsius :: "pyfloat option"
  tr_raw :: bytes

record ParameterEntry =
  pe_index :: int
  pe_current :: int
  pe_max :: int
  pe_raw :: bytes

record CalRecord =
  cr_temperature_celsius :: "pyfloat option"
  cr_signature :: bytes
  cr_counters :: bytes
  cr_padding :: int
  cr_raw :: bytes

definition CalRecord_has_metadata :: "CalRecord \<Rightarrow> bool" where
  "CalRecord_has_metadata r \<longleftrightarrow>
     list_ex (\<lambda>b. b \<noteq> 0) (cr_signature r) \<or> list_ex (\<lambda>b. b \<noteq> 0) (cr_counters r)"

record ProbeOutcome =
  po_availability :: Availability
  po_source :: ProbeSource
  po_detail :: "string option"

end
