(* ===== verification/Xbpi_Body.thy ===== *)
theory Xbpi_Body
  imports Xbpi_Codec Models
begin

text \<open>
  The bodies of balance frames: \<open>protocol/xbpi/types.py\<close>, \<open>units.py\<close>, \<open>parser.py\<close> and the
  classification tables of \<open>tables.py\<close>.
\<close>

section \<open>Subtypes\<close>

datatype SubtypeFamily =
    ACK | ERROR | BARGRAPH | STRUCTURED_U32 | SHORT_DATA | TYPED_FLOAT_ALT | TYPED_FLOAT
  | SHORT_BLOB | MEASUREMENT | LONG_DATA | SUBTYPE_UNKNOWN

definition KNOWN_SUBTYPES :: "(int \<times> SubtypeFamily) list" where
  "KNOWN_SUBTYPES =
     [(0x00, ACK), (0x01, ERROR), (0x12, BARGRAPH), (0x14, STRUCTURED_U32),
      (0x21, SHORT_DATA), (0x22, SHORT_DATA), (0x24, SHORT_DATA), (0x34, TYPED_FLOAT_ALT),
      (0x35, TYPED_FLOAT), (0x41, SHORT_BLOB), (0x43, LONG_DATA), (0x44, LONG_DATA),
      (0x45, LONG_DATA), (0x48, MEASUREMENT), (0x4A, LONG_DATA), (0x50, LONG_DATA),
      (0x51, LONG_DATA), (0x54, LONG_DATA)]"

definition HIGH_NIBBLE_FAMILIES :: "(int \<times> SubtypeFamily) list" where
  "HIGH_NIBBLE_FAMILIES =
     [(0x10, BARGRAPH), (0x20, SHORT_DATA), (0x40, LONG_DATA), (0x50, LONG_DATA)]"

definition subtype_family :: "int \<Rightarrow> SubtypeFamily" where
  "subtype_family subtype =
     (case map_of KNOWN_SUBTYPES subtype of
        Some f \<Rightarrow> f
      | None \<Rightarrow> dict_get HIGH_NIBBLE_FAMILIES (subtype AND 0xF0) SUBTYPE_UNKNOWN)"

definition VARIABLE_BODY_SUBTYPES :: "int list" where
  "VARIABLE_BODY_SUBTYPES = [0x00, 0x48]"

definition FIXED_LOW_NIBBLE_LENGTH_FAMILIES :: "int list" where
  "FIXED_LOW_NIBBLE_LENGTH_FAMILIES = [0x00, 0x10, 0x20, 0x30, 0x40]"

definition body_length_for_subtype :: "int \<Rightarrow> int option" where
  "body_length_for_subtype subtype =
     (if subtype \<in> set VARIABLE_BODY_SUBTYPES then None
      else
        let high = subtype AND 0xF0; low = subtype AND 0x0F
        in if high \<in> set FIXED_LOW_NIBBLE_LENGTH_FAMILIES then Some low
           else if high = 0x50 then Some (16 + low)
           else None)"

definition ERROR_CODE_REASONS :: "(int \<times> string) list" where
  "ERROR_CODE_REASONS =
     [(0x03, ''value out of range''), (0x04, ''unknown opcode''),
      (0x06, ''operation not applicable''), (0x07, ''invalid or missing args''),
      (0x10, ''index out of range''), (0x11, ''unknown (BCE variant of 0x10)'')]"

definition OPCODE_NAMES :: "(int \<times> string) list" where
  "OPCODE_NAMES =
     [(0x00, ''read_software_version''), (0x01, ''read_factory_number''),
      (0x02, ''read_weigh_cell_model''), (0x03, ''read_user_id''), (0x05, ''read_oem_text''),
      (0x07, ''read_manufacturer''), (0x0A, ''read_configuration_data''),
      (0x0F, ''read_balance_info''),
      (0x0B, ''read_threshold_0b''), (0x0C, ''read_max''), (0x0D, ''read_increment''),
      (0x0E, ''read_threshold_0e''),
      (0x14, ''tare''), (0x15, ''abort_combined_tare''), (0x17, ''abort_tare''),
      (0x18, ''zero''), (0x19, ''abort_zeroing''),
      (0x1C, ''read_appl_tare''), (0x1E, ''read_net_weight''),
      (0x1F, ''read_net_weight_hires''), (0x20, ''read_gross_weight''),
      (0x21, ''read_gross_weight_hires''), (0x22, ''read_tare''),
      (0x26, ''read_weighing_mode''), (0x2C, ''write_weighing_mode''),
      (0x57, ''read_cycle_time''),
      (0x2F, ''read_gross_bargraph''), (0x30, ''read_balance_status_block''),
      (0x32, ''read_balance_status''), (0x35, ''read_time_stamp''),
      (0x36, ''read_on_off_status''),
      (0x28, ''start_adjustment''), (0x29, ''abort_adjustment''),
      (0x76, ''read_temperature_sensors''), (0x78, ''read_adjustment_unit''),
      (0x79, ''write_adjustment_unit''),
      (0x46, ''read_menu_from_eeprom''), (0x47, ''save_menu_to_eeprom''),
      (0x54, ''read_stop_flags''), (0x55, ''read_parameter_table''),
      (0x56, ''write_parameter_table''),
      (0x58, ''initiate_reset''),
      (0x5C, ''set_baud_rate''), (0x71, ''read_sbn_address''), (0x72, ''write_sbn_address''),
      (0xB9, ''read_last_cal_record''), (0xBA, ''config_generation_counter''),
      (0xBC, ''read_module_list'')]"

section \<open>Unit byte\<close>

definition SIGN_MASK :: int where "SIGN_MASK = 0xC0"
definition UNIT_ID_MASK :: int where "UNIT_ID_MASK = 0x3F"
definition SIGN_BITS_ZERO :: int where "SIGN_BITS_ZERO = 0x00"
definition SIGN_BITS_POSITIVE :: int where "SIGN_BITS_POSITIVE = 0x40"
definition SIGN_BITS_NEGATIVE :: int where "SIGN_BITS_NEGATIVE = 0x80"

definition UNIT_ID_TO_UNIT :: "(int \<times> Unit) list" where
  "UNIT_ID_TO_UNIT = [(0x02, U_G), (0x03, U_KG), (0x0D, U_MG), (0x17, U_NEWTON)]"

definition decode_decimals :: "int \<Rightarrow> int" where
  "decode_decimals byte5 = drop_bit 4 byte5 AND 0x0F"

definition decode_sign :: "int \<Rightarrow> Sign" where
  "decode_sign byte6 =
     (let bits = byte6 AND SIGN_MASK
      in if bits = SIGN_BITS_ZERO then ZERO
         else if bits = SIGN_BITS_POSITIVE then POSITIVE
         else if bits = SIGN_BITS_NEGATIVE then NEGATIVE
         else SIGN_UNKNOWN)"

definition unit_byte_to_unit :: "int \<Rightarrow> Unit" where
  "unit_byte_to_unit unit_id = dict_get UNIT_ID_TO_UNIT (unit_id AND UNIT_ID_MASK) U_UNKNOWN"

definition decode_unit :: "int \<Rightarrow> Unit" where
  "decode_unit byte6 = unit_byte_to_unit (byte6 AND UNIT_ID_MASK)"

section \<open>Bodies\<close>

record MeasurementBody =
  mb_raw :: bytes
  mb_value :: "pyfloat option"
  mb_aux :: int
  mb_decimals :: int
  mb_unit :: Unit
  mb_sign :: Sign
  mb_stable :: bool
  mb_off_scale :: bool
  mb_unit_raw :: int
  mb_flags :: int

record StatusBlockBody =
  sb_raw :: bytes
  sb_aux_flag :: int
  sb_state :: int
  sb_status :: int
  sb_sequence :: int
  sb_stable :: bool
  sb_overload :: bool
  sb_underload :: bool
  sb_adc_trusted :: "bool option"
  sb_isocal_due :: "bool option"

record LongMeasurementBody =
  lm_measurement :: MeasurementBody
  lm_delimiter :: int
  lm_status :: StatusBlockBody

record TypedFloatBody =
  tf_value :: pyfloat
  tf_aux :: int

record ErrorBody =
  eb_code :: int

definition OFF_SCALE_SENTINEL :: bytes where
  "OFF_SCALE_SENTINEL = [0x7f, 0xff, 0xff, 0xff, 0xff]"

definition STABLE_FLAG :: int where "STABLE_FLAG = 0x40"
definition STATUS_BLOCK_MARKER_PREFIX :: bytes where "STATUS_BLOCK_MARKER_PREFIX = [0x00, 0x81]"
definition STATUS_BLOCK_MARKER_SUFFIX :: bytes where "STATUS_BLOCK_MARKER_SUFFIX = [0x10, 0x00]"
definition SHORT_MEASUREMENT_LEN :: nat where "SHORT_MEASUREMENT_LEN = 8"
definition STATUS_BLOCK_LEN :: nat where "STATUS_BLOCK_LEN = 8"
definition LONG_MEASUREMENT_LEN :: nat where "LONG_MEASUREMENT_LEN = 17"
definition TYPED_FLOAT_LEN :: nat where "TYPED_FLOAT_LEN = 5"
definition ERROR_BODY_LEN :: nat where "ERROR_BODY_LEN = 1"
definition LONG_MEASUREMENT_DELIMITER :: int where "LONG_MEASUREMENT_DELIMITER = 0x48"
definition STATE_OVERLOAD :: int where "STATE_OVERLOAD = 0x82"
definition STATE_UNDERLOAD :: int where "STATE_UNDERLOAD = 0x84"
definition CUBIS_STATE_BASE :: int where "CUBIS_STATE_BASE = 0x80"
definition STATE_STABLE_BIT :: int where "STATE_STABLE_BIT = 0x08"
definition STATUS_ADC_TRUSTED :: int where "STATUS_ADC_TRUSTED = 0x08"
definition STATUS_ISOCAL_DUE :: int where "STATUS_ISOCAL_DUE = 0x10"

lemmas body_consts =
  OFF_SCALE_SENTINEL_def STABLE_FLAG_def STATUS_BLOCK_MARKER_PREFIX_def
  STATUS_BLOCK_MARKER_SUFFIX_def SHORT_MEASUREMENT_LEN_def STATUS_BLOCK_LEN_def
  LONG_MEASUREMENT_LEN_def TYPED_FLOAT_LEN_def ERROR_BODY_LEN_def
  LONG_MEASUREMENT_DELIMITER_def STATE_OVERLOAD_def STATE_UNDERLOAD_def
  CUBIS_STATE_BASE_def STATE_STABLE_BIT_def STATUS_ADC_TRUSTED_def STATUS_ISOCAL_DUE_def

text \<open>The half-open slice \<open>body[a:b]\<close>.\<close>

definition slice :: "nat \<Rightarrow> nat \<Rightarrow> 'a list \<Rightarrow> 'a list" where
  "slice a b xs = drop a (take b xs)"

definition is_status_block_body :: "bytes \<Rightarrow> bool" where
  "is_status_block_body body \<longleftrightarrow>
     length body = STATUS_BLOCK_LEN \<and> slice 1 3 body = STATUS_BLOCK_MARKER_PREFIX \<and>
     slice 5 7 body = STATUS_BLOCK_MARKER_SUFFIX"

definition bit_set :: "int \<Rightarrow> int \<Rightarrow> bool" where
  "bit_set x m \<longleftrightarrow> x AND m \<noteq> 0"

definition decode_measurement_body :: "bytes \<Rightarrow> MeasurementBody res" where
  "decode_measurement_body raw =
     (if length raw \<noteq> SHORT_MEASUREMENT_LEN
      then raise_ctx SartoriusParseError [SetRawResponse (Some (RawBytes raw))]
      else
        let off_scale = (slice 0 5 raw = OFF_SCALE_SENTINEL);
            value = (if off_scale then None else Some (unpack_f32_be (slice 0 4 raw)));
            aux = uint (raw ! 4); byte5 = uint (raw ! 5); byte6 = uint (raw ! 6);
            flags = uint (raw ! 7)
        in Inr \<lparr>mb_raw = raw, mb_value = value, mb_aux = aux,
                mb_decimals = decode_decimals byte5, mb_unit = decode_unit byte6,
                mb_sign = decode_sign byte6, mb_stable = bit_set flags STABLE_FLAG,
                mb_off_scale = off_scale, mb_unit_raw = byte6, mb_flags = flags\<rparr>)"

definition decode_status_block_body :: "bytes \<Rightarrow> StatusBlockBody res" where
  "decode_status_block_body raw =
     (if length raw \<noteq> STATUS_BLOCK_LEN
      then raise_ctx SartoriusParseError [SetRawResponse (Some (RawBytes raw))]
      else
        let state = uint (raw ! 3); status = uint (raw ! 4);
            cubis_shape = bit_set state CUBIS_STATE_BASE
        in Inr \<lparr>sb_raw = raw, sb_aux_flag = uint (raw ! 0), sb_state = state,
                sb_status = status, sb_sequence = uint (raw ! 7),
                sb_stable = bit_set state STATE_STABLE_BIT,
                sb_overload = (state = STATE_OVERLOAD),
                sb_underload = (state = STATE_UNDERLOAD),
                sb_adc_trusted =
                  (if cubis_shape then Some (bit_set status STATUS_ADC_TRUSTED) else None),
                sb_isocal_due =
                  (if cubis_shape then Some (bit_set status STATUS_ISOCAL_DUE) else None)\<rparr>)"

definition decode_long_measurement_body :: "bytes \<Rightarrow> LongMeasurementBody res" where
  "decode_long_measurement_body raw =
     (if length raw \<noteq> LONG_MEASUREMENT_LEN
      then raise_ctx SartoriusParseError [SetRawResponse (Some (RawBytes raw))]
      else
        res_bind (decode_measurement_body (slice 0 SHORT_MEASUREMENT_LEN raw)) (\<lambda>measurement.
          let delimiter = uint (raw ! SHORT_MEASUREMENT_LEN)
          in if delimiter \<noteq> LONG_MEASUREMENT_DELIMITER
             then raise_ctx SartoriusParseError [SetRawResponse (Some (RawBytes raw))]
             else res_bind (decode_status_block_body (drop (SHORT_MEASUREMENT_LEN + 1) raw))
                    (\<lambda>status. Inr \<lparr>lm_measurement = measurement, lm_delimiter = delimiter,
                                   lm_status = status\<rparr>)))"

definition decode_typed_float_body :: "bytes \<Rightarrow> TypedFloatBody res" where
  "decode_typed_float_body raw =
     (if length raw \<noteq> TYPED_FLOAT_LEN
      then raise_ctx SartoriusParseError [SetRawResponse (Some (RawBytes raw))]
      else Inr \<lparr>tf_value = unpack_f32_be (slice 0 4 raw), tf_aux = uint (raw ! 4)\<rparr>)"

definition decode_error_body :: "bytes \<Rightarrow> ErrorBody res" where
  "decode_error_body body =
     (if length body \<noteq> ERROR_BODY_LEN
      then raise_ctx SartoriusParseError [SetRawResponse (Some (RawBytes body))]
      else Inr \<lparr>eb_code = uint (body ! 0)\<rparr>)"

section \<open>Facts\<close>

lemma slice_length: "b \<le> length xs \<Longrightarrow> length (slice a b xs) = b - a"
  by (simp add: slice_def)

lemma list_of_length_8:
  "length xs = 8 \<Longrightarrow> \<exists>a b c d e f g h. xs = [a, b, c, d, e, f, g, h]"
  by (auto simp: numeral_eq_Suc length_Suc_conv)

text \<open>
  The reference layout of a short measurement: a binary32 word, the aux byte, decimals and a
  low nibble, sign bits and unit id, flags.
\<close>

fun sign_bits :: "Sign \<Rightarrow> int" where
  "sign_bits ZERO = 0"
| "sign_bits POSITIVE = 1"
| "sign_bits NEGATIVE = 2"
| "sign_bits SIGN_UNKNOWN = 3"

definition measurement_bytes :: "int \<Rightarrow> byte \<Rightarrow> int \<Rightarrow> int \<Rightarrow> Sign \<Rightarrow> int \<Rightarrow> byte \<Rightarrow> bytes" where
  "measurement_bytes w aux dec lo sg uid flags =
     be_bytes 4 w @ [aux, byte_of_int (16 * dec + lo), byte_of_int (64 * sign_bits sg + uid), flags]"

lemma decode_decimals_pack:
  "0 \<le> dec \<Longrightarrow> dec < 16 \<Longrightarrow> 0 \<le> lo \<Longrightarrow> lo < 16 \<Longrightarrow> decode_decimals (16 * dec + lo) = dec"
  by (simp add: decode_decimals_def and_15 drop_bit_eq_div)

lemma sign_bits_bounds: "0 \<le> sign_bits s" "sign_bits s \<le> 3"
  by (cases s; simp)+

lemma decode_sign_pack:
  assumes "0 \<le> uid" "uid < 64"
  shows "decode_sign (64 * sign_bits s + uid) = s"
proof -
  have "(64 * sign_bits s + uid) AND 192 = 64 * sign_bits s"
    using assms sign_bits_bounds [of s] by (simp add: and_192)
  then show ?thesis
    by (cases s)
      (simp_all add: decode_sign_def SIGN_MASK_def SIGN_BITS_ZERO_def SIGN_BITS_POSITIVE_def
        SIGN_BITS_NEGATIVE_def)
qed

lemma decode_unit_pack:
  assumes "0 \<le> uid" "uid < 64"
  shows "decode_unit (64 * sign_bits s + uid) = dict_get UNIT_ID_TO_UNIT uid U_UNKNOWN"
proof -
  have "(64 * sign_bits s + uid) mod 64 = uid" using assms by simp
  with assms show ?thesis
    by (simp add: decode_unit_def unit_byte_to_unit_def UNIT_ID_MASK_def and_63)
qed

lemma decode_decimals_bounds: "0 \<le> decode_decimals b \<and> decode_decimals b \<le> 15"
  by (simp add: decode_decimals_def and_15)

lemma decode_measurement_fields:
  assumes "decode_measurement_body raw = Inr m"
  shows "length raw = 8" "mb_raw m = raw"
    "mb_off_scale m \<longleftrightarrow> take 5 raw = OFF_SCALE_SENTINEL"
    "mb_value m = (if mb_off_scale m then None else Some (unpack_f32_be (take 4 raw)))"
    "mb_aux m = uint (raw ! 4)"
    "mb_decimals m = decode_decimals (uint (raw ! 5))"
    "mb_unit_raw m = uint (raw ! 6)"
    "mb_unit m = decode_unit (mb_unit_raw m)" "mb_sign m = decode_sign (mb_unit_raw m)"
    "mb_flags m = uint (raw ! 7)"
    "mb_stable m = bit_set (mb_flags m) STABLE_FLAG"
  using assms
  by (auto simp: decode_measurement_body_def Let_def slice_def SHORT_MEASUREMENT_LEN_def
      split: if_splits)

lemma decode_measurement_ok_iff:
  "is_ok (decode_measurement_body raw) \<longleftrightarrow> length raw = 8"
  by (simp add: decode_measurement_body_def Let_def SHORT_MEASUREMENT_LEN_def is_ok_def
      raise_ctx_def)

lemma decode_measurement_error:
  "decode_measurement_body raw = Inl e \<Longrightarrow> exn_is e SartoriusParseError"
  by (auto simp: decode_measurement_body_def Let_def raise_ctx_def split: if_splits)

lemma decode_status_error:
  "decode_status_block_body raw = Inl e \<Longrightarrow> exn_is e SartoriusParseError"
  by (auto simp: decode_status_block_body_def Let_def raise_ctx_def split: if_splits)

lemma decode_long_ok_iff:
  "decode_long_measurement_body raw = Inr lm \<longleftrightarrow>
     length raw = 17 \<and> raw ! 8 = 0x48 \<and> lm_delimiter lm = 0x48 \<and>
     decode_measurement_body (take 8 raw) = Inr (lm_measurement lm) \<and>
     decode_status_block_body (drop 9 raw) = Inr (lm_status lm)"
proof -
  have delim: "uint (raw ! 8) = 0x48 \<longleftrightarrow> raw ! 8 = 0x48"
  proof
    assume "uint (raw ! 8) = 0x48"
    then show "raw ! 8 = 0x48" by (intro word_uint_eqI) simp
  qed simp
  show ?thesis
    by (cases lm)
      (auto simp: decode_long_measurement_body_def res_bind_eq_Inr Let_def body_consts slice_def
        delim)
qed

lemma status_state_flags:
  assumes "decode_status_block_body raw = Inr s"
  shows "length raw = 8"
    "sb_state s = uint (raw ! 3)"
    "sb_overload s \<longleftrightarrow> sb_state s = 0x82" "sb_underload s \<longleftrightarrow> sb_state s = 0x84"
    "sb_stable s \<longleftrightarrow> bit_set (sb_state s) 8"
    "sb_adc_trusted s = (if bit_set (sb_state s) 0x80 then Some (bit_set (uint (raw ! 4)) 8) else None)"
    "sb_isocal_due s = (if bit_set (sb_state s) 0x80 then Some (bit_set (uint (raw ! 4)) 0x10) else None)"
  using assms
  by (auto simp: decode_status_block_body_def Let_def body_consts split: if_splits)

section \<open>Properties\<close>

text \<open>
  Every short measurement body of the documented layout decodes, and the decoded fields are
  the ones packed into it: the aux byte, the decimals whatever the advisory low nibble, the
  sign, the unit of the 6-bit id, and the stable flag. The value is the exact binary32 number,
  except for the off-scale sentinel, where there is none.
\<close>

theorem measurement_roundtrip:
  assumes "0 \<le> w" "w < 2 ^ 32" "0 \<le> dec" "dec < 16" "0 \<le> lo" "lo < 16"
    "0 \<le> uid" "uid < 64"
  shows "\<exists>m. decode_measurement_body (measurement_bytes w aux dec lo sg uid flags) = Inr m \<and>
     mb_off_scale m = (w = 0x7fffffff \<and> aux = 0xff) \<and>
     mb_value m = (if w = 0x7fffffff \<and> aux = 0xff then None else Some (f32_decode w)) \<and>
     mb_aux m = uint aux \<and> mb_decimals m = dec \<and> mb_sign m = sg \<and>
     mb_unit m = dict_get UNIT_ID_TO_UNIT uid U_UNKNOWN \<and> mb_stable m = bit_set (uint flags) 0x40"
proof -
  let ?raw = "measurement_bytes w aux dec lo sg uid flags"
  obtain m where m: "decode_measurement_body ?raw = Inr m"
    using decode_measurement_ok_iff [of ?raw] by (cases "decode_measurement_body ?raw")
      (auto simp: measurement_bytes_def)
  note fs = decode_measurement_fields [OF m]
  have len4: "length (be_bytes 4 w) = 4" by simp
  have b5: "uint (?raw ! 5) = 16 * dec + lo" and b6: "uint (?raw ! 6) = 64 * sign_bits sg + uid"
    and b4: "?raw ! 4 = aux" and b7: "?raw ! 7 = flags"
    using assms sign_bits_bounds [of sg] by (simp_all add: measurement_bytes_def nth_append)
  have t4: "take 4 ?raw = be_bytes 4 w" and t5: "take 5 ?raw = be_bytes 4 w @ [aux]"
    by (simp_all add: measurement_bytes_def)
  have w: "int_from_bytes_be (be_bytes 4 w) = w" using assms by (simp add: int_from_be_bytes)
  have "be_bytes 4 w = [0x7f, 0xff, 0xff, 0xff] \<longleftrightarrow> w = 0x7fffffff"
  proof
    assume "be_bytes 4 w = [0x7f, 0xff, 0xff, 0xff]"
    with w have "w = int_from_bytes_be [0x7f, 0xff, 0xff, 0xff]" by simp
    then show "w = 0x7fffffff" by (simp add: int_from_bytes_be_def)
  qed (simp add: eval_nat_numeral byte_of_int_def)
  then have off: "mb_off_scale m = (w = 0x7fffffff \<and> aux = 0xff)"
    unfolding fs(3) t5 OFF_SCALE_SENTINEL_def
    by (metis append1_eq_conv append_Cons append_Nil)
  show ?thesis
    using m off fs(4,5,6,7,8,9,10,11) b4 b5 b6 b7 t4 w assms
    by (simp add: unpack_f32_be_def decode_decimals_pack decode_sign_pack decode_unit_pack
        STABLE_FLAG_def)
qed

theorem measurement_roundtrip_witness:
  "\<exists>m. decode_measurement_body (measurement_bytes 0x3f800000 0x00 4 0 POSITIVE 2 0x40) = Inr m \<and>
     mb_value m = Some (f32_decode 0x3f800000) \<and> mb_decimals m = 4 \<and> mb_unit m = U_G"
  using measurement_roundtrip [of "0x3f800000" 4 0 2 "0x00" POSITIVE "0x40"]
  by (fastforce simp: UNIT_ID_TO_UNIT_def dict_get_def)

text \<open>
  A decoded status block never reports two of stable, overload and underload together, and
  it reports overload or underload only together with the Cubis signals (ADC trust and isoCAL
  attention are then present).
\<close>

theorem status_block_consistent:
  assumes "decode_status_block_body raw = Inr s"
  shows "\<not> (sb_stable s \<and> sb_overload s) \<and> \<not> (sb_stable s \<and> sb_underload s) \<and>
     \<not> (sb_overload s \<and> sb_underload s) \<and>
     (sb_overload s \<or> sb_underload s \<longrightarrow> sb_adc_trusted s \<noteq> None \<and> sb_isocal_due s \<noteq> None) \<and>
     (sb_adc_trusted s = None \<longleftrightarrow> sb_isocal_due s = None)"
proof -
  have "\<not> bit_set 0x82 8" "\<not> bit_set 0x84 8" "bit_set 0x82 0x80" "bit_set 0x84 0x80"
    by (simp_all add: bit_set_def)
  with status_state_flags [OF assms] show ?thesis by auto
qed

theorem status_block_consistent_witness:
  "\<exists>s. decode_status_block_body [0, 0, 0x81, 0x82, 8, 0x10, 0, 7] = Inr s \<and> sb_overload s \<and>
     \<not> sb_stable s \<and> sb_adc_trusted s = Some True"
proof -
  obtain s where s: "decode_status_block_body [0, 0, 0x81, 0x82, 8, 0x10, 0, 7] = Inr s"
    by (simp add: decode_status_block_body_def Let_def body_consts)
  have "sb_overload s" "sb_adc_trusted s = Some True"
    using status_state_flags [OF s] by (simp_all add: bit_set_def)
  with s status_block_consistent [OF s] show ?thesis by blast
qed

text \<open>
  A long measurement decodes exactly when it is 17 bytes with the delimiter in the middle,
  and its two halves are what the short decoders make of the first eight and the last eight
  bytes; every other body is a \<open>SartoriusParseError\<close>.
\<close>

theorem long_measurement_halves:
  "(decode_long_measurement_body raw = Inr lm \<longleftrightarrow>
     length raw = 17 \<and> raw ! 8 = 0x48 \<and> lm_delimiter lm = 0x48 \<and>
     decode_measurement_body (take 8 raw) = Inr (lm_measurement lm) \<and>
     decode_status_block_body (drop 9 raw) = Inr (lm_status lm)) \<and>
   fails_with SartoriusParseError (decode_long_measurement_body raw)
     = (\<not> (length raw = 17 \<and> raw ! 8 = 0x48))"
proof (intro conjI)
  show "fails_with SartoriusParseError (decode_long_measurement_body raw)
     = (\<not> (length raw = 17 \<and> raw ! 8 = 0x48))"
  proof (cases "decode_long_measurement_body raw")
    case (Inr lm')
    with decode_long_ok_iff [of raw lm'] show ?thesis by simp
  next
    case (Inl e)
    have err: "exn_is e SartoriusParseError"
      using Inl decode_measurement_error decode_status_error
      by (auto simp: decode_long_measurement_body_def res_bind_def Let_def raise_ctx_def
          split: if_splits sum.splits)
    have "\<not> (length raw = 17 \<and> raw ! 8 = 0x48)"
    proof
      assume a: "length raw = 17 \<and> raw ! 8 = 0x48"
      then have "is_ok (decode_measurement_body (take 8 raw))"
        by (simp add: decode_measurement_ok_iff)
      then obtain x where x: "decode_measurement_body (take 8 raw) = Inr x"
        by (cases "decode_measurement_body (take 8 raw)") auto
      obtain y where y: "decode_status_block_body (drop 9 raw) = Inr y"
        using a by (simp add: decode_status_block_body_def Let_def body_consts)
      from a x y decode_long_ok_iff [of raw "\<lparr>lm_measurement = x, lm_delimiter = 0x48, lm_status = y\<rparr>"]
        Inl show False by simp
    qed
    with Inl err show ?thesis by simp
  qed
qed (rule decode_long_ok_iff)

end
