(* ===== verification/Transport.thy ===== *)
theory Transport
  imports Errors
begin

text \<open>
  \<open>transport/base.py\<close>: the byte-level transport interface. The clients take a transport by
  structural typing, so here they take a record of its operations; each operation returns its
  result and the new transport state. Timeout values are not arguments: whether a deadline
  fires before enough bytes arrive is the environment's choice and part of the state of the
  concrete transports.

  The locale states the contract the clients rely on, over four views of a state: the bytes
  written so far, the bytes that can be read without waiting for a deadline, all bytes that
  are still to be read, and whether reads can succeed at all.
\<close>

record 's transport_ops =
  tp_write :: "bytes \<Rightarrow> 's \<Rightarrow> unit res \<times> 's"
  tp_read_exact :: "nat \<Rightarrow> 's \<Rightarrow> bytes res \<times> 's"
  tp_read_until :: "bytes \<Rightarrow> 's \<Rightarrow> bytes res \<times> 's"
  tp_read_available :: "nat option \<Rightarrow> 's \<Rightarrow> bytes res \<times> 's"
  tp_drain_input :: "'s \<Rightarrow> 's"
  tp_open :: "'s \<Rightarrow> unit res \<times> 's"
  tp_close :: "'s \<Rightarrow> 's"
  tp_reopen :: "int option \<Rightarrow> string option \<Rightarrow> string option \<Rightarrow> 's \<Rightarrow> unit res \<times> 's"
  tp_is_open :: "'s \<Rightarrow> bool"
  tp_label :: "'s \<Rightarrow> string"

text \<open>Framing settings: parity and stop bits are the string values of the backend's enums.\<close>

record SerialSettings =
  ss_port :: string
  ss_baudrate :: int
  ss_bytesize :: string
  ss_parity :: string
  ss_stopbits :: string
  ss_rtscts :: bool
  ss_xonxoff :: bool
  ss_exclusive :: bool

text \<open>The defaults of the dataclass.\<close>

definition default_settings :: "string \<Rightarrow> SerialSettings" where
  "default_settings port =
     \<lparr>ss_port = port, ss_baudrate = 9600, ss_bytesize = ''8'', ss_parity = ''odd'',
      ss_stopbits = ''1'', ss_rtscts = False, ss_xonxoff = False, ss_exclusive = True\<rparr>"

section \<open>The contract\<close>

text \<open>The deadline errors: the port is intact and the caller may simply read again.\<close>

definition is_deadline :: "exn \<Rightarrow> bool" where
  "is_deadline e \<longleftrightarrow> exn_is e SartoriusTimeoutError \<or> exn_is e SartoriusTransientTransportError"

datatype read_request = ReadExact nat | ReadUntil bytes | ReadAvailable "nat option"

fun do_read :: "'s transport_ops \<Rightarrow> read_request \<Rightarrow> 's \<Rightarrow> bytes res \<times> 's" where
  "do_read ops (ReadExact n) s = tp_read_exact ops n s"
| "do_read ops (ReadUntil sep) s = tp_read_until ops sep s"
| "do_read ops (ReadAvailable m) s = tp_read_available ops m s"

text \<open>Reads one after the other, going on after an error, with all the results.\<close>

fun run_reads :: "'s transport_ops \<Rightarrow> read_request list \<Rightarrow> 's \<Rightarrow> bytes res list \<times> 's" where
  "run_reads ops [] s = ([], s)"
| "run_reads ops (q # qs) s =
     (case do_read ops q s of (r, s1) \<Rightarrow>
        (case run_reads ops qs s1 of (rs, s2) \<Rightarrow> (r # rs, s2)))"

fun received :: "bytes res list \<Rightarrow> bytes" where
  "received [] = []"
| "received (Inr bs # rs) = bs @ received rs"
| "received (Inl e # rs) = received rs"

definition only_deadlines :: "bytes res list \<Rightarrow> bool" where
  "only_deadlines rs = list_all (\<lambda>r. case r of Inl e \<Rightarrow> is_deadline e | Inr bs \<Rightarrow> True) rs"

locale transport =
  fixes ops :: "'s transport_ops"
    and written :: "'s \<Rightarrow> bytes list"
    and ready :: "'s \<Rightarrow> bytes"
    and pending :: "'s \<Rightarrow> bytes"
    and usable :: "'s \<Rightarrow> bool"
  assumes write_ok:
      "tp_write ops d s = (Inr u, s') \<Longrightarrow> written s' = written s @ [d]"
    and write_fail:
      "tp_write ops d s = (Inl e, s') \<Longrightarrow>
         exn_is e SartoriusTransportError \<and>
         (written s' = written s \<or> written s' = written s @ [d])"
    and write_pending: "tp_write ops d s = (r, s') \<Longrightarrow> \<exists>x. pending s' = pending s @ x"
    and read_exact_ok:
      "tp_read_exact ops n s = (Inr bs, s') \<Longrightarrow>
         length bs = n \<and> pending s = bs @ pending s' \<and> written s' = written s"
    and read_exact_fail:
      "tp_read_exact ops n s = (Inl e, s') \<Longrightarrow>
         exn_is e SartoriusTransportError \<and> written s' = written s"
    and read_exact_timeout:
      "tp_read_exact ops n s = (Inl e, s') \<Longrightarrow>
         is_deadline e \<Longrightarrow> pending s' = pending s"
    and read_exact_ready:
      "usable s \<Longrightarrow> n \<le> length (ready s) \<Longrightarrow>
         \<exists>s'. tp_read_exact ops n s = (Inr (take n (ready s)), s') \<and>
              ready s' = drop n (ready s) \<and> usable s'"
    and read_until_ok:
      "tp_read_until ops sep s = (Inr bs, s') \<Longrightarrow>
         find_sub sep bs = Some (length bs - length sep) \<and> pending s = bs @ pending s' \<and>
         written s' = written s"
    and read_until_fail:
      "tp_read_until ops sep s = (Inl e, s') \<Longrightarrow>
         exn_is e SartoriusTransportError \<and> written s' = written s"
    and read_until_timeout:
      "tp_read_until ops sep s = (Inl e, s') \<Longrightarrow> is_deadline e \<Longrightarrow>
         pending s' = pending s"
    and read_until_ready:
      "usable s \<Longrightarrow> find_sub sep (ready s) = Some i \<Longrightarrow>
         \<exists>s'. tp_read_until ops sep s = (Inr (take (i + length sep) (ready s)), s') \<and>
              ready s' = drop (i + length sep) (ready s) \<and> usable s'"
    and read_available_ok:
      "tp_read_available ops m s = (Inr bs, s') \<Longrightarrow>
         pending s = bs @ pending s' \<and> written s' = written s"
    and read_available_fail:
      "tp_read_available ops m s = (Inl e, s') \<Longrightarrow>
         exn_is e SartoriusTransportError \<and> written s' = written s"
    and read_available_timeout:
      "tp_read_available ops m s = (Inl e, s') \<Longrightarrow> is_deadline e \<Longrightarrow> pending s' = pending s"
    and drain_written: "written (tp_drain_input ops s) = written s"
    and drain_pending: "\<exists>x. pending s = x @ pending (tp_drain_input ops s)"
begin

lemma read_exact_written: "tp_read_exact ops n s = (r, s') \<Longrightarrow> written s' = written s"
  by (cases r) (auto dest: read_exact_ok read_exact_fail)

lemma read_until_written: "tp_read_until ops sep s = (r, s') \<Longrightarrow> written s' = written s"
  by (cases r) (auto dest: read_until_ok read_until_fail)

lemma read_available_written: "tp_read_available ops m s = (r, s') \<Longrightarrow> written s' = written s"
  by (cases r) (auto dest: read_available_ok read_available_fail)

lemma write_written:
  "tp_write ops d s = (r, s') \<Longrightarrow> written s' = written s \<or> written s' = written s @ [d]"
  by (cases r) (auto dest: write_ok write_fail)

lemma read_until_ends: "tp_read_until ops sep s = (Inr bs, s') \<Longrightarrow> endswith bs sep"
  by (drule read_until_ok) (auto simp: endswith_def dest!: find_sub_Some)

text \<open>Two reads in a row take consecutive parts of what is pending.\<close>

lemma read_exact_twice:
  assumes "tp_read_exact ops n s = (Inr a, s1)" "tp_read_exact ops m s1 = (Inr b, s2)"
  shows "pending s = (a @ b) @ pending s2 \<and> length a = n \<and> length b = m"
  using read_exact_ok [OF assms(1)] read_exact_ok [OF assms(2)] by simp

lemma do_read_ok:
  "do_read ops q s = (Inr bs, s') \<Longrightarrow> pending s = bs @ pending s' \<and> written s' = written s"
  by (cases q) (auto dest: read_exact_ok read_until_ok read_available_ok)

lemma do_read_deadline:
  "do_read ops q s = (Inl e, s') \<Longrightarrow> is_deadline e \<Longrightarrow>
     pending s' = pending s \<and> written s' = written s"
  by (cases q)
    (auto dest: read_exact_timeout read_until_timeout read_available_timeout
      read_exact_fail read_until_fail read_available_fail)

text \<open>Whatever deadlines fire in between, no byte is lost, duplicated or reordered.\<close>

lemma run_reads_lossless:
  "run_reads ops qs s = (rs, s') \<Longrightarrow> only_deadlines rs \<Longrightarrow>
     pending s = received rs @ pending s' \<and> written s' = written s"
proof (induction qs arbitrary: s rs)
  case Nil
  then show ?case by simp
next
  case (Cons q qs)
  obtain r s1 where q: "do_read ops q s = (r, s1)" by (cases "do_read ops q s")
  obtain rs1 where qs: "run_reads ops qs s1 = (rs1, s')" and rs: "rs = r # rs1"
    using Cons.prems(1) q by (auto split: prod.splits)
  have "only_deadlines rs1" using Cons.prems(2) rs by (simp add: only_deadlines_def)
  with Cons.IH [OF qs] have IH: "pending s1 = received rs1 @ pending s'" "written s' = written s1"
    by blast+
  show ?case
  proof (cases r)
    case (Inl e)
    with Cons.prems(2) rs have "is_deadline e" by (simp add: only_deadlines_def)
    with do_read_deadline q Inl IH rs show ?thesis by auto
  next
    case (Inr bs)
    with do_read_ok q IH rs show ?thesis by auto
  qed
qed

end

end
