(* ===== verification/Transport_Fake.thy ===== *)
theory Transport_Fake
  imports Transport
begin

text \<open>
  \<open>transport/fake.py\<close>: the scripted transport the tests run the clients on. Artificial
  latency is not modelled.
\<close>

datatype reply_value = ReplyBytes bytes | ReplySeq "bytes list"

datatype ScriptedReply = Fixed reply_value | Computed "bytes \<Rightarrow> reply_value"

fun normalize_reply :: "reply_value \<Rightarrow> bytes" where
  "normalize_reply (ReplyBytes b) = b"
| "normalize_reply (ReplySeq bs) = concat bs"

record fake_transport =
  fk_script :: "bytes \<Rightarrow> ScriptedReply option"
  fk_writes :: "bytes list"
  fk_read_buffer :: bytes
  fk_is_open :: bool
  fk_label :: string
  fk_force_read_timeout :: bool
  fk_force_write_timeout :: bool
  fk_last_reopen_baud :: "int option"
  fk_last_reopen_parity :: "string option"
  fk_last_reopen_stopbits :: "string option"
  fk_reopen_count :: int
  fk_force_reopen_error :: bool

definition FakeTransport :: "(bytes \<Rightarrow> ScriptedReply option) \<Rightarrow> string \<Rightarrow> fake_transport" where
  "FakeTransport script label =
     \<lparr>fk_script = script, fk_writes = [], fk_read_buffer = [], fk_is_open = False,
      fk_label = label, fk_force_read_timeout = False, fk_force_write_timeout = False,
      fk_last_reopen_baud = None, fk_last_reopen_parity = None, fk_last_reopen_stopbits = None,
      fk_reopen_count = 0, fk_force_reopen_error = False\<rparr>"

definition fake_error :: "err_class \<Rightarrow> fake_transport \<Rightarrow> (string \<times> xval) list \<Rightarrow> 'a res" where
  "fake_error c s kvs = raise_ctx c (SetPort (Some (fk_label s)) # extra kvs)"

section \<open>Lifecycle\<close>

definition fake_open :: "fake_transport \<Rightarrow> unit res \<times> fake_transport" where
  "fake_open s =
     (if fk_is_open s then (fake_error SartoriusConnectionError s [], s)
      else (Inr (), s\<lparr>fk_is_open := True\<rparr>))"

definition fake_close :: "fake_transport \<Rightarrow> fake_transport" where
  "fake_close s = s\<lparr>fk_is_open := False\<rparr>"

definition fake_reopen ::
  "int option \<Rightarrow> string option \<Rightarrow> string option \<Rightarrow> fake_transport \<Rightarrow> unit res \<times> fake_transport" where
  "fake_reopen baudrate parity stopbits s0 =
     (let s = fake_close s0;
          s = s\<lparr>fk_reopen_count := fk_reopen_count s + 1\<rparr>;
          s = (if baudrate \<noteq> None then s\<lparr>fk_last_reopen_baud := baudrate\<rparr> else s);
          s = (if parity \<noteq> None then s\<lparr>fk_last_reopen_parity := parity\<rparr> else s);
          s = (if stopbits \<noteq> None then s\<lparr>fk_last_reopen_stopbits := stopbits\<rparr> else s)
      in if fk_force_reopen_error s then (fake_error SartoriusConnectionError s [], s)
         else fake_open s)"

section \<open>Input and output\<close>

definition fake_write :: "bytes \<Rightarrow> fake_transport \<Rightarrow> unit res \<times> fake_transport" where
  "fake_write payload s =
     (if \<not> fk_is_open s then (fake_error SartoriusConnectionError s [], s)
      else if fk_force_write_timeout s
      then (fake_error SartoriusTimeoutError s [(''phase'', XStr ''write'')], s)
      else
        let s = s\<lparr>fk_writes := fk_writes s @ [payload]\<rparr>
        in case fk_script s payload of
             None \<Rightarrow> (Inr (), s)
           | Some (Computed f) \<Rightarrow>
               (Inr (), s\<lparr>fk_read_buffer := fk_read_buffer s @ normalize_reply (f payload)\<rparr>)
           | Some (Fixed r) \<Rightarrow>
               (Inr (), s\<lparr>fk_read_buffer := fk_read_buffer s @ normalize_reply r\<rparr>))"

definition fake_read_exact :: "nat \<Rightarrow> fake_transport \<Rightarrow> bytes res \<times> fake_transport" where
  "fake_read_exact n s =
     (if \<not> fk_is_open s then (fake_error SartoriusConnectionError s [], s)
      else if fk_force_read_timeout s
      then (fake_error SartoriusTimeoutError s [(''phase'', XStr ''read'')], s)
      else if length (fk_read_buffer s) < n
      then (fake_error SartoriusTimeoutError s [(''phase'', XStr ''read'')], s)
      else (Inr (take n (fk_read_buffer s)),
            s\<lparr>fk_read_buffer := drop n (fk_read_buffer s)\<rparr>))"

definition fake_read_until :: "bytes \<Rightarrow> fake_transport \<Rightarrow> bytes res \<times> fake_transport" where
  "fake_read_until separator s =
     (if \<not> fk_is_open s then (fake_error SartoriusConnectionError s [], s)
      else if fk_force_read_timeout s
      then (fake_error SartoriusTimeoutError s [(''phase'', XStr ''read'')], s)
      else
        case find_sub separator (fk_read_buffer s) of
          None \<Rightarrow> (fake_error SartoriusTimeoutError s [(''phase'', XStr ''read'')], s)
        | Some idx \<Rightarrow>
            let stop = idx + length separator
            in (Inr (take stop (fk_read_buffer s)),
                s\<lparr>fk_read_buffer := drop stop (fk_read_buffer s)\<rparr>))"

definition fake_read_available :: "nat option \<Rightarrow> fake_transport \<Rightarrow> bytes res \<times> fake_transport" where
  "fake_read_available max_bytes s =
     (if \<not> fk_is_open s then (fake_error SartoriusConnectionError s [], s)
      else
        case max_bytes of
          None \<Rightarrow> (Inr (fk_read_buffer s), s\<lparr>fk_read_buffer := []\<rparr>)
        | Some m \<Rightarrow>
            if m \<ge> length (fk_read_buffer s)
            then (Inr (fk_read_buffer s), s\<lparr>fk_read_buffer := []\<rparr>)
            else (Inr (take m (fk_read_buffer s)),
                  s\<lparr>fk_read_buffer := drop m (fk_read_buffer s)\<rparr>))"

definition fake_drain_input :: "fake_transport \<Rightarrow> fake_transport" where
  "fake_drain_input s = s\<lparr>fk_read_buffer := []\<rparr>"

text \<open>The test interface.\<close>

definition fake_feed :: "bytes \<Rightarrow> fake_transport \<Rightarrow> fake_transport" where
  "fake_feed data s = s\<lparr>fk_read_buffer := fk_read_buffer s @ data\<rparr>"

definition fake_add_script :: "bytes \<Rightarrow> ScriptedReply \<Rightarrow> fake_transport \<Rightarrow> fake_transport" where
  "fake_add_script command reply s = s\<lparr>fk_script := (fk_script s)(command \<mapsto> reply)\<rparr>"

definition fake_force_read_timeout :: "bool \<Rightarrow> fake_transport \<Rightarrow> fake_transport" where
  "fake_force_read_timeout enabled s = s\<lparr>fk_force_read_timeout := enabled\<rparr>"

definition fake_force_write_timeout :: "bool \<Rightarrow> fake_transport \<Rightarrow> fake_transport" where
  "fake_force_write_timeout enabled s = s\<lparr>fk_force_write_timeout := enabled\<rparr>"

definition fake_force_reopen_error :: "bool \<Rightarrow> fake_transport \<Rightarrow> fake_transport" where
  "fake_force_reopen_error enabled s = s\<lparr>fk_force_reopen_error := enabled\<rparr>"

definition fake_ops :: "fake_transport transport_ops" where
  "fake_ops =
     \<lparr>tp_write = fake_write, tp_read_exact = fake_read_exact, tp_read_until = fake_read_until,
      tp_read_available = fake_read_available, tp_drain_input = fake_drain_input,
      tp_open = fake_open, tp_close = fake_close, tp_reopen = fake_reopen,
      tp_is_open = fk_is_open, tp_label = fk_label\<rparr>"

section \<open>The contract holds\<close>

definition fake_usable :: "fake_transport \<Rightarrow> bool" where
  "fake_usable s \<longleftrightarrow> fk_is_open s \<and> \<not> fk_force_read_timeout s"

lemmas fake_defs =
  fake_ops_def fake_write_def fake_read_exact_def fake_read_until_def fake_read_available_def
  fake_drain_input_def fake_error_def Let_def

interpretation fake: transport fake_ops fk_writes fk_read_buffer fk_read_buffer fake_usable
proof
  fix sep :: bytes and s :: fake_transport and bs s'
  assume r: "tp_read_until fake_ops sep s = (Inr bs, s')"
  then obtain i where i: "find_sub sep (fk_read_buffer s) = Some i"
    and bs: "bs = take (i + length sep) (fk_read_buffer s)"
    and s': "s' = s\<lparr>fk_read_buffer := drop (i + length sep) (fk_read_buffer s)\<rparr>"
    by (auto simp: fake_defs raise_ctx_def split: if_splits option.splits)
  have "length bs = i + length sep" using bs find_sub_Some [OF i] by simp
  then show "find_sub sep bs = Some (length bs - length sep) \<and>
      fk_read_buffer s = bs @ fk_read_buffer s' \<and> fk_writes s' = fk_writes s"
    using bs s' find_sub_take [OF i] by simp
qed (auto simp: fake_defs fake_usable_def raise_ctx_def subclass_simps is_deadline_def
    split: if_splits option.splits ScriptedReply.splits)

end
