(* ===== verification/Transport_Serial.thy ===== *)
theory Transport_Serial
  imports Transport
begin

text \<open>
  \<open>transport/serial.py\<close>: the transport over a real port. The port itself belongs to the
  \<open>anyserial\<close> package and is the environment: what its calls do is given, call by call, by
  lists in the state (received chunks, a firing deadline, a closed port, a backend error;
  outcomes of sends, resets and opens) and by the reaction of the device to what was sent.
  An exhausted receive list means that nothing more arrives before the deadline.
\<close>

section \<open>The environment\<close>

datatype rx_event = RxChunk bytes | RxDeadline | RxClosed | RxSerialError

datatype tx_outcome = TxSent | TxDeadline | TxClosed | TxSerialError

datatype open_outcome = Opened | OpenUnavailable | OpenSerialError | OpenOsError

fun chunks :: "rx_event list \<Rightarrow> bytes" where
  "chunks [] = []"
| "chunks (RxChunk c # es) = c @ chunks es"
| "chunks (_ # es) = chunks es"

fun lead :: "rx_event list \<Rightarrow> bytes" where
  "lead (RxChunk c # es) = c @ lead es"
| "lead _ = []"

fun drop_chunks :: "nat \<Rightarrow> rx_event list \<Rightarrow> rx_event list" where
  "drop_chunks (Suc k) (RxChunk c # es) = drop_chunks k es"
| "drop_chunks _ es = es"

section \<open>State\<close>

record serial_transport =
  st_settings :: SerialSettings
  st_port :: bool
  st_port_alive :: bool
  st_pushback :: bytes
  st_sent :: "bytes list"
  st_rx :: "rx_event list"
  st_tx :: "tx_outcome list"
  st_resets :: "nat list"
  st_opens :: "open_outcome list"
  st_device :: "bytes list \<Rightarrow> rx_event list"

definition serial_label :: "serial_transport \<Rightarrow> string" where
  "serial_label s = ss_port (st_settings s)"

definition serial_error :: "err_class \<Rightarrow> serial_transport \<Rightarrow> (string \<times> xval) list \<Rightarrow> 'a res" where
  "serial_error c s kvs = raise_ctx c (SetPort (Some (serial_label s)) # extra kvs)"

definition phase :: "string \<Rightarrow> (string \<times> xval) list" where
  "phase p = [(''phase'', XStr p)]"

section \<open>Lifecycle\<close>

definition serial_open :: "serial_transport \<Rightarrow> unit res \<times> serial_transport" where
  "serial_open s =
     (if st_port s then (serial_error SartoriusConnectionError s [], s)
      else
        let outcome = (case st_opens s of [] \<Rightarrow> Opened | o1 # os \<Rightarrow> o1);
            s = s\<lparr>st_opens := tl (st_opens s)\<rparr>
        in case outcome of
             Opened \<Rightarrow> (Inr (), s\<lparr>st_port := True\<rparr>)
           | OpenUnavailable \<Rightarrow> (serial_error SartoriusConnectionError s [], s)
           | OpenSerialError \<Rightarrow> (serial_error SartoriusTransportError s [], s)
           | OpenOsError \<Rightarrow> (serial_error SartoriusConnectionError s [], s))"

definition serial_close :: "serial_transport \<Rightarrow> serial_transport" where
  "serial_close s = (if \<not> st_port s then s else s\<lparr>st_port := False, st_pushback := []\<rparr>)"

definition serial_reopen ::
  "int option \<Rightarrow> string option \<Rightarrow> string option \<Rightarrow> serial_transport \<Rightarrow> unit res \<times> serial_transport"
where
  "serial_reopen baudrate parity stopbits s0 =
     (let s = serial_close s0;
          new = st_settings s;
          new = (case baudrate of None \<Rightarrow> new | Some b \<Rightarrow> new\<lparr>ss_baudrate := b\<rparr>);
          new = (case parity of None \<Rightarrow> new | Some p \<Rightarrow> new\<lparr>ss_parity := p\<rparr>);
          new = (case stopbits of None \<Rightarrow> new | Some b \<Rightarrow> new\<lparr>ss_stopbits := b\<rparr>)
      in serial_open (s\<lparr>st_settings := new\<rparr>))"

section \<open>Input and output\<close>

definition serial_write :: "bytes \<Rightarrow> serial_transport \<Rightarrow> unit res \<times> serial_transport" where
  "serial_write data s =
     (if \<not> st_port s then (serial_error SartoriusConnectionError s [], s)
      else
        let outcome = (case st_tx s of [] \<Rightarrow> TxSent | o1 # os \<Rightarrow> o1);
            s = s\<lparr>st_tx := tl (st_tx s), st_sent := st_sent s @ [data]\<rparr>
        in case outcome of
             TxSent \<Rightarrow> (Inr (), s\<lparr>st_rx := st_rx s @ st_device s (st_sent s)\<rparr>)
           | TxDeadline \<Rightarrow> (serial_error SartoriusTimeoutError s (phase ''write''), s)
           | TxClosed \<Rightarrow> (serial_error SartoriusConnectionError s (phase ''write''), s)
           | TxSerialError \<Rightarrow> (serial_error SartoriusTransportError s (phase ''write''), s))"

datatype recv_end = RecvDone | RecvTimeout | RecvClosed | RecvError

text \<open>The receive loop under \<open>fail_after\<close>: chunks are appended until the buffer satisfies the
  loop's exit condition or an exception leaves it.\<close>

fun receive_loop :: "(bytes \<Rightarrow> bool) \<Rightarrow> bytes \<Rightarrow> rx_event list \<Rightarrow> recv_end \<times> bytes \<times> rx_event list"
where
  "receive_loop stop buf [] = (if stop buf then RecvDone else RecvTimeout, buf, [])"
| "receive_loop stop buf (ev # es) =
     (if stop buf then (RecvDone, buf, ev # es)
      else case ev of
             RxChunk c \<Rightarrow> receive_loop stop (buf @ c) es
           | RxDeadline \<Rightarrow> (RecvTimeout, buf, es)
           | RxClosed \<Rightarrow> (RecvClosed, buf, es)
           | RxSerialError \<Rightarrow> (RecvError, buf, es))"

definition serial_read_exact :: "nat \<Rightarrow> serial_transport \<Rightarrow> bytes res \<times> serial_transport" where
  "serial_read_exact n s =
     (if \<not> st_port s then (serial_error SartoriusConnectionError s [], s)
      else if n = 0 then (Inr [], s)
      else
        case receive_loop (\<lambda>buf. n \<le> length buf) (st_pushback s) (st_rx s) of
          (how, buf, rx) \<Rightarrow>
            let s = s\<lparr>st_pushback := [], st_rx := rx\<rparr>
            in case how of
                 RecvTimeout \<Rightarrow>
                   let s = s\<lparr>st_pushback := buf\<rparr>;
                       detail = [(''phase'', XStr ''read''), (''requested'', XInt (int n)),
                                 (''received'', XInt (int (length buf)))]
                   in if length buf = 0
                      then (serial_error SartoriusTransientTransportError s detail, s)
                      else (serial_error SartoriusTimeoutError s detail, s)
               | RecvClosed \<Rightarrow> (serial_error SartoriusConnectionError s (phase ''read''), s)
               | RecvError \<Rightarrow> (serial_error SartoriusTransportError s (phase ''read''), s)
               | RecvDone \<Rightarrow> (Inr (take n buf), s\<lparr>st_pushback := drop n buf\<rparr>))"

definition serial_read_until :: "bytes \<Rightarrow> serial_transport \<Rightarrow> bytes res \<times> serial_transport" where
  "serial_read_until separator s =
     (if \<not> st_port s then (serial_error SartoriusConnectionError s [], s)
      else
        case receive_loop (\<lambda>buf. find_sub separator buf \<noteq> None) (st_pushback s) (st_rx s) of
          (how, buf, rx) \<Rightarrow>
            let s = s\<lparr>st_pushback := [], st_rx := rx\<rparr>
            in case how of
                 RecvTimeout \<Rightarrow>
                   (serial_error SartoriusTimeoutError s (phase ''read''), s\<lparr>st_pushback := buf\<rparr>)
               | RecvClosed \<Rightarrow> (serial_error SartoriusConnectionError s (phase ''read''), s)
               | RecvError \<Rightarrow> (serial_error SartoriusTransportError s (phase ''read''), s)
               | RecvDone \<Rightarrow>
                   let stop = the (find_sub separator buf) + length separator
                   in (Inr (take stop buf), s\<lparr>st_pushback := drop stop buf\<rparr>))"

text \<open>The idle loop: it ends at the cap, when the line is idle, or on any port error.\<close>

fun receive_idle :: "nat option \<Rightarrow> bytes \<Rightarrow> rx_event list \<Rightarrow> bytes \<times> rx_event list" where
  "receive_idle cap buf [] = (buf, [])"
| "receive_idle cap buf (ev # es) =
     (if (case cap of None \<Rightarrow> False | Some c \<Rightarrow> c \<le> length buf) then (buf, ev # es)
      else case ev of
             RxChunk c \<Rightarrow> receive_idle cap (buf @ c) es
           | _ \<Rightarrow> (buf, es))"

definition serial_read_available ::
  "nat option \<Rightarrow> serial_transport \<Rightarrow> bytes res \<times> serial_transport" where
  "serial_read_available max_bytes s =
     (if \<not> st_port s then (serial_error SartoriusConnectionError s [], s)
      else
        let cap = (if max_bytes = Some 0 then None else max_bytes)
        in case receive_idle cap (st_pushback s) (st_rx s) of
             (buf, rx) \<Rightarrow>
               let s = s\<lparr>st_pushback := [], st_rx := rx\<rparr>
               in case cap of
                    None \<Rightarrow> (Inr buf, s)
                  | Some c \<Rightarrow>
                      if c < length buf
                      then (Inr (take c buf), s\<lparr>st_pushback := drop c buf\<rparr>)
                      else (Inr buf, s))"

definition serial_drain_input :: "serial_transport \<Rightarrow> serial_transport" where
  "serial_drain_input s0 =
     (let s = s0\<lparr>st_pushback := []\<rparr>
      in if \<not> st_port s then s
         else
           let k = (case st_resets s of [] \<Rightarrow> 0 | k # ks \<Rightarrow> k)
           in s\<lparr>st_resets := tl (st_resets s), st_rx := drop_chunks k (st_rx s)\<rparr>)"

definition serial_is_open :: "serial_transport \<Rightarrow> bool" where
  "serial_is_open s \<longleftrightarrow> st_port s \<and> st_port_alive s"

definition serial_ops :: "serial_transport transport_ops" where
  "serial_ops =
     \<lparr>tp_write = serial_write, tp_read_exact = serial_read_exact,
      tp_read_until = serial_read_until, tp_read_available = serial_read_available,
      tp_drain_input = serial_drain_input, tp_open = serial_open, tp_close = serial_close,
      tp_reopen = serial_reopen, tp_is_open = serial_is_open, tp_label = serial_label\<rparr>"

section \<open>The contract holds\<close>

definition serial_pending :: "serial_transport \<Rightarrow> bytes" where
  "serial_pending s = st_pushback s @ chunks (st_rx s)"

definition serial_ready :: "serial_transport \<Rightarrow> bytes" where
  "serial_ready s = st_pushback s @ lead (st_rx s)"

lemma chunks_append [simp]: "chunks (a @ b) = chunks a @ chunks b"
  by (induction a rule: chunks.induct) simp_all

lemma receive_loop_chunks:
  "receive_loop stop buf es = (how, b, rest) \<Longrightarrow>
     b @ chunks rest = buf @ chunks es \<and> (how = RecvDone \<longleftrightarrow> stop b)"
  by (induction stop buf es rule: receive_loop.induct) (auto split: if_splits rx_event.splits)

lemma receive_loop_ready:
  "receive_loop stop buf es = (how, b, rest) \<Longrightarrow> stop (buf @ lead es) \<Longrightarrow>
     how = RecvDone \<and> stop b \<and> b @ lead rest = buf @ lead es"
  by (induction stop buf es rule: receive_loop.induct) (auto split: if_splits rx_event.splits)

lemma receive_idle_chunks:
  "receive_idle cap buf es = (b, rest) \<Longrightarrow> b @ chunks rest = buf @ chunks es"
  by (induction cap buf es rule: receive_idle.induct) (auto split: if_splits rx_event.splits)

lemma drop_chunks_suffix: "\<exists>x. chunks es = x @ chunks (drop_chunks k es)"
  by (induction k es rule: drop_chunks.induct) (auto intro: exI [where x = "[]"])

lemmas serial_defs = serial_error_def Let_def raise_ctx_def

lemma serial_read_exact_ready:
  assumes "st_port s" "n \<le> length (serial_ready s)"
  shows "\<exists>s'. serial_read_exact n s = (Inr (take n (serial_ready s)), s') \<and>
     serial_ready s' = drop n (serial_ready s) \<and> st_port s'"
proof (cases "n = 0")
  case False
  obtain how b rest
    where r: "receive_loop (\<lambda>buf. n \<le> length buf) (st_pushback s) (st_rx s) = (how, b, rest)"
    by (metis prod_cases3)
  from receive_loop_ready [OF r] assms(2)
  have how: "how = RecvDone" and b: "n \<le> length b" and eq: "serial_ready s = b @ lead rest"
    by (simp_all add: serial_ready_def)
  let ?s' = "s\<lparr>st_pushback := drop n b, st_rx := rest\<rparr>"
  have "serial_read_exact n s = (Inr (take n b), ?s')"
    using r how False assms(1) by (simp add: serial_read_exact_def)
  moreover have "serial_ready ?s' = drop n b @ lead rest" by (simp add: serial_ready_def)
  ultimately show ?thesis using b assms(1) unfolding eq by (intro exI [where x = ?s']) simp
qed (use assms in \<open>simp add: serial_read_exact_def\<close>)

lemma serial_read_until_ready:
  assumes "st_port s" "find_sub sep (serial_ready s) = Some i"
  shows "\<exists>s'. serial_read_until sep s = (Inr (take (i + length sep) (serial_ready s)), s') \<and>
     serial_ready s' = drop (i + length sep) (serial_ready s) \<and> st_port s'"
proof -
  obtain how b rest where
    r: "receive_loop (\<lambda>buf. find_sub sep buf \<noteq> None) (st_pushback s) (st_rx s) = (how, b, rest)"
    by (metis prod_cases3)
  from receive_loop_ready [OF r] assms(2)
  have how: "how = RecvDone" and b: "find_sub sep b \<noteq> None" and eq: "b @ lead rest = serial_ready s"
    by (auto simp: serial_ready_def)
  from b obtain j where j: "find_sub sep b = Some j" by blast
  from find_sub_append [OF this, of "lead rest"] assms(2) eq have "j = i" by simp
  with j have fs: "find_sub sep b = Some i" by simp
  let ?s' = "s\<lparr>st_pushback := drop (i + length sep) b, st_rx := rest\<rparr>"
  have "serial_read_until sep s = (Inr (take (i + length sep) b), ?s')"
    using r how fs assms(1) by (simp add: serial_read_until_def Let_def)
  moreover have "serial_ready ?s' = drop (i + length sep) b @ lead rest"
    by (simp add: serial_ready_def)
  ultimately show ?thesis
    using find_sub_Some [OF fs] assms(1) unfolding eq [symmetric]
    by (intro exI [where x = ?s']) simp
qed

lemma serial_read_exact_cases:
  assumes "serial_read_exact n s = (r, s')"
  shows "st_sent s' = st_sent s"
    and "r = Inr bs \<Longrightarrow> length bs = n \<and> serial_pending s = bs @ serial_pending s'"
    and "r = Inl e \<Longrightarrow> exn_is e SartoriusTransportError"
    and "r = Inl e \<Longrightarrow> is_deadline e \<Longrightarrow> serial_pending s' = serial_pending s"
proof -
  obtain how b rest
    where l: "receive_loop (\<lambda>buf. n \<le> length buf) (st_pushback s) (st_rx s) = (how, b, rest)"
    by (metis prod_cases3)
  note c = receive_loop_chunks [OF l] receive_loop_chunks [OF l, THEN conjunct1, symmetric]
  show "st_sent s' = st_sent s"
    and "r = Inr bs \<Longrightarrow> length bs = n \<and> serial_pending s = bs @ serial_pending s'"
    and "r = Inl e \<Longrightarrow> exn_is e SartoriusTransportError"
    and "r = Inl e \<Longrightarrow> is_deadline e \<Longrightarrow> serial_pending s' = serial_pending s"
    using assms l c
    by (auto simp: serial_read_exact_def serial_defs serial_pending_def is_deadline_def
        subclass_simps split: if_splits recv_end.splits)
qed

lemma serial_read_until_cases:
  assumes "serial_read_until sep s = (r, s')"
  shows "st_sent s' = st_sent s"
    and "r = Inr bs \<Longrightarrow> find_sub sep bs = Some (length bs - length sep) \<and>
           serial_pending s = bs @ serial_pending s'"
    and "r = Inl e \<Longrightarrow> exn_is e SartoriusTransportError"
    and "r = Inl e \<Longrightarrow> is_deadline e \<Longrightarrow> serial_pending s' = serial_pending s"
proof -
  obtain how b rest where
    l: "receive_loop (\<lambda>buf. find_sub sep buf \<noteq> None) (st_pushback s) (st_rx s) = (how, b, rest)"
    by (metis prod_cases3)
  note c = receive_loop_chunks [OF l] receive_loop_chunks [OF l, THEN conjunct1, symmetric]
  show "st_sent s' = st_sent s" and "r = Inl e \<Longrightarrow> exn_is e SartoriusTransportError"
    and "r = Inl e \<Longrightarrow> is_deadline e \<Longrightarrow> serial_pending s' = serial_pending s"
    using assms l c
    by (auto simp: serial_read_until_def serial_defs serial_pending_def is_deadline_def
        subclass_simps split: if_splits recv_end.splits)
  assume r: "r = Inr bs"
  with assms l c obtain i where i: "find_sub sep b = Some i" "bs = take (i + length sep) b"
    and s': "s' = s\<lparr>st_pushback := drop (i + length sep) b, st_rx := rest\<rparr>"
    by (auto simp: serial_read_until_def serial_defs split: if_splits recv_end.splits)
  have "length bs = i + length sep" using i find_sub_Some [OF i(1)] by simp
  moreover have "find_sub sep bs = Some i" using i find_sub_take [OF i(1)] by simp
  moreover have "serial_pending s = b @ chunks rest" using c by (simp add: serial_pending_def)
  ultimately show "find_sub sep bs = Some (length bs - length sep) \<and>
      serial_pending s = bs @ serial_pending s'"
    using i(2) s' by (simp add: serial_pending_def)
qed

lemma serial_read_available_cases:
  assumes "serial_read_available m s = (r, s')"
  shows "st_sent s' = st_sent s"
    and "r = Inr bs \<Longrightarrow> serial_pending s = bs @ serial_pending s'"
    and "r = Inl e \<Longrightarrow> exn_is e SartoriusTransportError \<and> \<not> is_deadline e"
proof -
  obtain b rest where
    l: "receive_idle (if m = Some 0 then None else m) (st_pushback s) (st_rx s) = (b, rest)"
    by (metis surj_pair)
  note c = receive_idle_chunks [OF l, symmetric]
  show "st_sent s' = st_sent s"
    and "r = Inr bs \<Longrightarrow> serial_pending s = bs @ serial_pending s'"
    and "r = Inl e \<Longrightarrow> exn_is e SartoriusTransportError \<and> \<not> is_deadline e"
    using assms l c
    by (auto simp: serial_read_available_def serial_defs serial_pending_def is_deadline_def
        subclass_simps split: if_splits option.splits)
qed

lemma serial_write_cases:
  assumes "serial_write d s = (r, s')"
  shows "r = Inr u \<Longrightarrow> st_sent s' = st_sent s @ [d]"
    and "r = Inl e \<Longrightarrow> exn_is e SartoriusTransportError \<and>
           (st_sent s' = st_sent s \<or> st_sent s' = st_sent s @ [d])"
    and "\<exists>x. serial_pending s' = serial_pending s @ x"
  using assms
  by (auto simp: serial_write_def serial_defs serial_pending_def subclass_simps
      split: if_splits tx_outcome.splits)

interpretation serial: transport serial_ops st_sent serial_ready serial_pending st_port
proof
  fix sep :: bytes and s and i
  assume "st_port s" "find_sub sep (serial_ready s) = Some i"
  from serial_read_until_ready [OF this]
  show "\<exists>s'. tp_read_until serial_ops sep s = (Inr (take (i + length sep) (serial_ready s)), s') \<and>
      serial_ready s' = drop (i + length sep) (serial_ready s) \<and> st_port s'"
    by (simp add: serial_ops_def)
next
  fix s
  show "\<exists>x. serial_pending s = x @ serial_pending (tp_drain_input serial_ops s)"
    using drop_chunks_suffix
    by (auto simp: serial_ops_def serial_drain_input_def serial_pending_def Let_def)
      (metis append.assoc)
qed (use serial_read_exact_cases serial_read_until_cases serial_read_available_cases
      serial_write_cases serial_read_exact_ready in
    \<open>auto simp: serial_ops_def serial_drain_input_def Let_def subclass_simps\<close>)

section \<open>Properties\<close>

text \<open>
  C34. Over any sequence of \<open>read_exact\<close>, \<open>read_until\<close> and \<open>read_available\<close> calls in which the
  only errors are deadlines, the serial transport delivers the incoming bytes in order, each
  once: what the calls returned, followed by what is still pending, is what was pending before,
  and nothing was sent.
\<close>

theorem serial_reads_lossless:
  assumes "run_reads serial_ops qs s = (rs, s')" and "only_deadlines rs"
  shows "serial_pending s = received rs @ serial_pending s' \<and> st_sent s' = st_sent s"
  by (rule serial.run_reads_lossless [OF assms])

definition demo_serial :: "rx_event list \<Rightarrow> (bytes list \<Rightarrow> rx_event list) \<Rightarrow> serial_transport" where
  "demo_serial rx device =
     \<lparr>st_settings = default_settings ''/dev/ttyUSB0'', st_port = True, st_port_alive = True,
      st_pushback = [], st_sent = [], st_rx = rx, st_tx = [], st_resets = [], st_opens = [],
      st_device = device\<rparr>"

theorem serial_reads_lossless_witness:
  "\<exists>rs s'. run_reads serial_ops [ReadExact 3, ReadExact 3, ReadUntil [10]]
       (demo_serial [RxChunk [1, 2], RxDeadline, RxChunk [3, 4, 10]] (\<lambda>_. [])) = (rs, s') \<and>
     only_deadlines rs \<and> received rs = [1, 2, 3, 4, 10] \<and>
     [1, 2, 3, 4, 10] = received rs @ serial_pending s'"
proof -
  let ?s = "demo_serial [RxChunk [1, 2], RxDeadline, RxChunk [3, 4, 10]] (\<lambda>_. [])"
  let ?qs = "[ReadExact 3, ReadExact 3, ReadUntil [10]]"
  obtain rs s' where r: "run_reads serial_ops ?qs ?s = (rs, s')" by fastforce
  then have rs: "only_deadlines rs" "received rs = [1, 2, 3, 4, 10]"
    by (auto simp: serial_ops_def demo_serial_def serial_read_exact_def serial_read_until_def
        serial_defs only_deadlines_def is_deadline_def subclass_simps startswith_def
        default_settings_def)
  moreover have "serial_pending ?s = [1, 2, 3, 4, 10]"
    by (simp add: serial_pending_def demo_serial_def)
  ultimately show ?thesis using serial_reads_lossless [OF r rs(1)] r by metis
qed

text \<open>
  When the deadline of \<open>read_exact\<close> fires, every byte received so far is kept for the next
  call, and the error class tells the two cases apart: a transient error when nothing at all
  was received, a timeout when the device had started to answer.
\<close>

theorem serial_deadline_classes:
  assumes "serial_read_exact n s = (Inl e, s')" and "is_deadline e"
  shows "serial_pending s' = serial_pending s \<and>
     exn_is e SartoriusTransientTransportError = (st_pushback s' = []) \<and>
     exn_is e SartoriusTimeoutError = (st_pushback s' \<noteq> []) \<and> length (st_pushback s') < n"
proof -
  obtain how b rest
    where l: "receive_loop (\<lambda>buf. n \<le> length buf) (st_pushback s) (st_rx s) = (how, b, rest)"
    by (metis prod_cases3)
  have "serial_pending s' = serial_pending s"
    using serial_read_exact_cases(4) [OF assms(1) refl assms(2)] .
  moreover have "exn_is e SartoriusTransientTransportError = (st_pushback s' = []) \<and>
     exn_is e SartoriusTimeoutError = (st_pushback s' \<noteq> []) \<and> length (st_pushback s') < n"
    using assms l receive_loop_chunks [OF l]
    by (auto simp: serial_read_exact_def serial_defs is_deadline_def subclass_simps
        split: if_splits recv_end.splits)
  ultimately show ?thesis by blast
qed

theorem serial_deadline_classes_witness:
  "\<exists>e s'. serial_read_exact 1 (demo_serial [] (\<lambda>_. [])) = (Inl e, s') \<and>
     exn_is e SartoriusTransientTransportError \<and> \<not> exn_is e SartoriusTimeoutError"
proof -
  obtain e s' where r: "serial_read_exact 1 (demo_serial [] (\<lambda>_. [])) = (Inl e, s')"
    and d: "is_deadline e" and p: "st_pushback s' = []"
    by (simp add: serial_read_exact_def demo_serial_def serial_defs is_deadline_def
        subclass_simps)
  from serial_deadline_classes [OF r d] p r show ?thesis by blast
qed

end
