(* ===== verification/Xbpi_Client.thy ===== *)
theory Xbpi_Client
  imports Xbpi_Body Transport_Fake Transport_Serial
begin

text \<open>
  \<open>protocol/xbpi/client.py\<close>: one request and its reply over a transport. The client's lock is
  held for the whole exchange, so an exchange is one step from a transport state to the next;
  the only state of the client itself is whether it has been retired.
\<close>

record xbpi_client =
  xc_disposed :: bool

definition XbpiProtocolClient :: xbpi_client where
  "XbpiProtocolClient = \<lparr>xc_disposed = False\<rparr>"

definition xbpi_dispose :: "xbpi_client \<Rightarrow> xbpi_client" where
  "xbpi_dispose c = c\<lparr>xc_disposed := True\<rparr>"

definition ERROR_SUBTYPE :: int where "ERROR_SUBTYPE = 0x01"

definition ERROR_CLASS_MAP :: "(int \<times> err_class) list" where
  "ERROR_CLASS_MAP =
     [(0x03, SartoriusValueOutOfRangeError), (0x04, SartoriusUnsupportedCommandError),
      (0x06, SartoriusOperationNotApplicableError), (0x07, SartoriusMissingArgsError),
      (0x10, SartoriusIndexOutOfRangeError), (0x11, SartoriusIndexOutOfRangeError)]"

definition hex_byte :: "int \<Rightarrow> string" where
  "hex_byte n = ''0x'' @ [hex_digit (nat (n div 16)), hex_digit (nat (n mod 16))]"

definition opt_name :: "string \<Rightarrow> string option" where
  "opt_name s = (if s = '''' then None else Some s)"

definition make_refusal :: "int \<Rightarrow> XbpiFrame \<Rightarrow> string \<Rightarrow> int option \<Rightarrow> exn" where
  "make_refusal code frame command_name opcode =
     (let reason = dict_get ERROR_CODE_REASONS code (''unknown ('' @ hex_byte code @ '')'');
          cls = dict_get ERROR_CLASS_MAP code SartoriusCommandRejectedError
      in Sart cls (merged empty_context
           ([SetCommandName (opt_name command_name), SetOpcode opcode,
             SetRawResponse (Some (RawBytes (fr_raw frame))), SetProtocol (Some ''xbpi'')] @
            extra [(''error_code'', XInt code), (''reason'', XStr reason)])))"

definition xbpi_raise_if_disposed :: "xbpi_client \<Rightarrow> string \<Rightarrow> int option \<Rightarrow> unit res" where
  "xbpi_raise_if_disposed c command_name opcode =
     (if \<not> xc_disposed c then Inr ()
      else raise_ctx SartoriusConnectionError
             ([SetCommandName (opt_name command_name), SetOpcode opcode,
               SetProtocol (Some ''xbpi'')] @ extra [(''client_disposed'', XBool True)]))"

definition xbpi_execute_locked ::
  "'s transport_ops \<Rightarrow> xbpi_client \<Rightarrow> bytes \<Rightarrow> string \<Rightarrow> int option \<Rightarrow> 's \<Rightarrow> XbpiFrame res \<times> 's"
where
  "xbpi_execute_locked ops c request command_name opcode s0 =
     (case xbpi_raise_if_disposed c command_name opcode of
        Inl e \<Rightarrow> (Inl e, s0)
      | Inr _ \<Rightarrow>
     (case tp_write ops request s0 of
        (Inl e, s1) \<Rightarrow> (Inl e, s1)
      | (Inr _, s1) \<Rightarrow>
     (case tp_read_exact ops 1 s1 of
        (Inl e, s2) \<Rightarrow> (Inl e, s2)
      | (Inr length_byte, s2) \<Rightarrow>
     (case tp_read_exact ops (unat (length_byte ! 0)) s2 of
        (Inl e, s3) \<Rightarrow> (Inl e, s3)
      | (Inr rest, s3) \<Rightarrow>
     (case parse_frame (length_byte @ rest) of
        Inl e \<Rightarrow> (Inl e, tp_drain_input ops s3)
      | Inr frame \<Rightarrow>
          if fr_subtype frame = ERROR_SUBTYPE
          then (case decode_error_body (fr_body frame) of
                  Inl e \<Rightarrow> (Inl e, s3)
                | Inr err_body \<Rightarrow>
                    (Inl (make_refusal (eb_code err_body) frame command_name opcode), s3))
          else (Inr frame, s3))))))"

definition xbpi_execute ::
  "'s transport_ops \<Rightarrow> xbpi_client \<Rightarrow> bytes \<Rightarrow> string \<Rightarrow> int option \<Rightarrow> 's \<Rightarrow> XbpiFrame res \<times> 's"
where
  "xbpi_execute ops c request command_name opcode s =
     xbpi_execute_locked ops c request command_name opcode s"

section \<open>Facts about refusals\<close>

lemma make_refusal_rejected: "exn_is (make_refusal code frame nm opc) SartoriusCommandRejectedError"
  by (auto simp: make_refusal_def Let_def dict_get_def ERROR_CLASS_MAP_def subclass_simps
      split: if_splits)

text \<open>What the documentation of the error codes promises for a code.\<close>

definition refusal_class :: "int \<Rightarrow> err_class" where
  "refusal_class code =
     (if code = 3 then SartoriusValueOutOfRangeError
      else if code = 4 then SartoriusUnsupportedCommandError
      else if code = 6 then SartoriusOperationNotApplicableError
      else if code = 7 then SartoriusMissingArgsError
      else if code = 16 \<or> code = 17 then SartoriusIndexOutOfRangeError
      else SartoriusCommandRejectedError)"

lemma make_refusal_class: "\<exists>ctx. make_refusal code frame nm opc = Sart (refusal_class code) ctx"
  by (simp add: make_refusal_def Let_def dict_get_def ERROR_CLASS_MAP_def refusal_class_def)

text \<open>What an exchange makes of a complete, well-formed reply.\<close>

definition exchange_result :: "byte \<Rightarrow> bytes \<Rightarrow> string \<Rightarrow> int option \<Rightarrow> XbpiFrame res" where
  "exchange_result subtype body command_name opcode =
     (if subtype \<noteq> 1 then Inr (frame_of subtype body)
      else case body of
             [code] \<Rightarrow> Inl (make_refusal (uint code) (frame_of subtype body) command_name opcode)
           | _ \<Rightarrow> raise_ctx SartoriusParseError [SetRawResponse (Some (RawBytes body))])"

context transport
begin

lemma xbpi_disposed:
  assumes "xc_disposed c"
  shows "\<exists>e. xbpi_execute ops c req nm opc s = (Inl e, s) \<and> exn_is e SartoriusConnectionError"
  using assms
  by (simp add: xbpi_execute_def xbpi_execute_locked_def xbpi_raise_if_disposed_def raise_ctx_def)

lemma xbpi_writes:
  assumes "xbpi_execute ops c req nm opc s = (r, s')"
  shows "written s' = written s \<or> written s' = written s @ [req]"
    and "r = Inr f \<Longrightarrow> written s' = written s @ [req]"
  using assms
  by (auto simp: xbpi_execute_def xbpi_execute_locked_def drain_written
      dest!: write_ok read_exact_written dest: write_fail
      split: sum.splits prod.splits if_splits)

lemma xbpi_frame_consumed:
  assumes w: "tp_write ops req s = (Inr u, s1)" and us: "usable s1"
    and rd: "ready s1 = rx_frame st body @ rest" and len: "length body \<le> 252"
    and c: "\<not> xc_disposed c"
  shows "\<exists>s'. xbpi_execute ops c req nm opc s = (exchange_result st body nm opc, s') \<and>
     ready s' = rest \<and> usable s' \<and> written s' = written s @ [req]"
proof -
  let ?f = "rx_frame st body"
  have lf: "length ?f = length body + 4" by simp
  obtain l f where f: "?f = l # f" by (cases ?f) (use lf in auto)
  have ul: "unat l = length f"
  proof -
    have "uint (?f ! 0) = int (length body) + 3" using len by (simp add: rx_frame_def Let_def)
    then show ?thesis using f lf by (simp add: unat_eq_nat_uint)
  qed
  obtain s2 where r1: "tp_read_exact ops 1 s1 = (Inr [l], s2)"
    and rd2: "ready s2 = f @ rest" and us2: "usable s2"
    using read_exact_ready [OF us, of 1] rd f by auto
  obtain s3 where r2: "tp_read_exact ops (length f) s2 = (Inr f, s3)"
    and rd3: "ready s3 = rest" and us3: "usable s3"
    using read_exact_ready [OF us2, of "length f"] rd2 by auto
  have wr: "written s3 = written s @ [req]"
    using write_ok [OF w] read_exact_written [OF r1] read_exact_written [OF r2] by simp
  have pf: "parse_frame ([l] @ f) = Inr (frame_of st body)"
    using parse_rx_frame [OF len, of st] f by simp
  have "xbpi_execute ops c req nm opc s = (exchange_result st body nm opc, s3)"
  proof (cases "st = 1")
    case False
    then have "uint st \<noteq> 1" using word_uint_eqI [of st 1] by auto
    then have "fr_subtype (frame_of st body) \<noteq> ERROR_SUBTYPE"
      by (simp add: frame_of_def ERROR_SUBTYPE_def)
    then show ?thesis
      using w r1 r2 ul pf c False
      by (simp add: xbpi_execute_def xbpi_execute_locked_def xbpi_raise_if_disposed_def
          exchange_result_def)
  next
    case True
    then have "fr_subtype (frame_of st body) = ERROR_SUBTYPE" "fr_body (frame_of st body) = body"
      by (simp_all add: frame_of_def ERROR_SUBTYPE_def)
    then show ?thesis
      using w r1 r2 ul pf c True
      by (simp add: xbpi_execute_def xbpi_execute_locked_def xbpi_raise_if_disposed_def
          exchange_result_def decode_error_body_def ERROR_BODY_LEN_def raise_ctx_def
          split: list.splits)
  qed
  with rd3 us3 wr show ?thesis by blast
qed

text \<open>Every way an exchange can fail.\<close>

lemma xbpi_errors:
  assumes "xbpi_execute ops c req nm opc s = (Inl e, s')"
  shows "exn_is e SartoriusTransportError \<or> exn_is e SartoriusFrameError \<or>
     exn_is e SartoriusParseError \<or> exn_is e SartoriusCommandRejectedError"
proof -
  have pf: "exn_is e' SartoriusTransportError \<or> exn_is e' SartoriusFrameError"
    if "parse_frame raw = Inl e'" for raw e'
    using that
    by (auto simp: parse_frame_def Let_def raise_ctx_def subclass_simps split: if_splits)
  have db: "exn_is e' SartoriusParseError" if "decode_error_body b = Inl e'" for b e'
    using that by (auto simp: decode_error_body_def raise_ctx_def split: if_splits)
  show ?thesis
    using assms make_refusal_rejected
    by (auto simp: xbpi_execute_def xbpi_execute_locked_def xbpi_raise_if_disposed_def
        raise_ctx_def subclass_simps
        dest: write_fail read_exact_fail pf db split: sum.splits prod.splits if_splits)
qed

end

section \<open>Properties\<close>

lemma lead_map_chunks [simp]: "lead (map RxChunk cs @ es) = concat cs @ lead es"
  by (induction cs) simp_all

text \<open>
  Over the serial port, however the device's reply is cut into chunks, an exchange sends
  the request once, returns the frame that was sent back (or raises the refusal it encodes)
  and leaves every byte after the frame for the next exchange.
\<close>

theorem xbpi_exchange_any_chunking:
  assumes "\<not> xc_disposed c" and "st_port s" and "st_pushback s = []" and "st_rx s = []"
    and "st_tx s = []"
    and "st_device s (st_sent s @ [req]) = map RxChunk cs @ es"
    and "concat cs = rx_frame st body @ rest" and "length body \<le> 252"
  shows "\<exists>s'. xbpi_execute serial_ops c req nm opc s = (exchange_result st body nm opc, s') \<and>
     st_sent s' = st_sent s @ [req] \<and> serial_ready s' = rest @ lead es"
proof -
  let ?s1 = "s\<lparr>st_tx := tl (st_tx s), st_sent := st_sent s @ [req],
               st_rx := st_rx s @ st_device s (st_sent s @ [req])\<rparr>"
  have w: "tp_write serial_ops req s = (Inr (), ?s1)"
    using assms by (simp add: serial_ops_def serial_write_def)
  have "serial_ready ?s1 = rx_frame st body @ (rest @ lead es)"
    using assms by (simp add: serial_ready_def)
  from serial.xbpi_frame_consumed [OF w _ this assms(8,1), of nm opc] assms(2)
  show ?thesis by auto
qed

theorem xbpi_exchange_any_chunking_witness:
  "\<exists>s'. xbpi_execute serial_ops XbpiProtocolClient [4, 1, 9, 0x1E, 0x2C] ''read_net'' (Some 0x1E)
     (demo_serial [] (\<lambda>_. map RxChunk [[4, 0x41], [0x21], [5, 0x6B]]))
   = (Inr (frame_of 0x21 [5]), s') \<and> serial_ready s' = []"
proof -
  let ?s = "demo_serial [] (\<lambda>_. map RxChunk [[4, 0x41], [0x21], [5, 0x6B]])"
  have f: "concat [[4, 0x41], [0x21], [5, 0x6B]] = rx_frame 0x21 [5] @ []"
    by (simp add: rx_frame_def Let_def byte_of_int_def checksum_mod)
  have "st_device ?s (st_sent ?s @ [[4, 1, 9, 0x1E, 0x2C]])
      = map RxChunk [[4, 0x41], [0x21], [5, 0x6B]] @ []"
    by (simp add: demo_serial_def)
  with f xbpi_exchange_any_chunking
    [of XbpiProtocolClient ?s "[4, 1, 9, 0x1E, 0x2C]" "[[4, 0x41], [0x21], [5, 0x6B]]" "[]"
      "0x21" "[5]" "[]" "''read_net''" "Some 0x1E"]
  show ?thesis
    by (auto simp: XbpiProtocolClient_def demo_serial_def exchange_result_def)
qed

text \<open>
  Whatever the device and the line do, an exchange sends at most the one request, and
  exactly once when it returns a frame; a retired client sends nothing and raises a connection
  error; and every failure is a transport error, a frame error, a parse error or a command
  rejection of the package.
\<close>

theorem xbpi_exchange_failures:
  assumes "xbpi_execute serial_ops c req nm opc s = (r, s')"
  shows "(st_sent s' = st_sent s \<or> st_sent s' = st_sent s @ [req]) \<and>
     (is_ok r \<longrightarrow> st_sent s' = st_sent s @ [req]) \<and>
     (xc_disposed c \<longrightarrow> s' = s \<and> fails_with SartoriusConnectionError r) \<and>
     (\<not> is_ok r \<longrightarrow> fails_with SartoriusTransportError r \<or> fails_with SartoriusFrameError r \<or>
        fails_with SartoriusParseError r \<or> fails_with SartoriusCommandRejectedError r)"
proof (intro conjI impI)
  show "st_sent s' = st_sent s \<or> st_sent s' = st_sent s @ [req]"
    by (rule serial.xbpi_writes(1) [OF assms])
  assume "xc_disposed c"
  from serial.xbpi_disposed [OF this, of req nm opc s] assms
  show "s' = s" "fails_with SartoriusConnectionError r" by auto
next
  assume "is_ok r"
  then obtain f where "r = Inr f" by (cases r) auto
  with serial.xbpi_writes(2) [OF assms] show "st_sent s' = st_sent s @ [req]" by blast
next
  assume "\<not> is_ok r"
  then obtain e where "r = Inl e" by (cases r) auto
  with serial.xbpi_errors [of c req nm opc s e s'] assms
  show "fails_with SartoriusTransportError r \<or> fails_with SartoriusFrameError r \<or>
        fails_with SartoriusParseError r \<or> fails_with SartoriusCommandRejectedError r" by simp
qed

theorem xbpi_exchange_failures_witness:
  "\<exists>r s'. xbpi_execute serial_ops (xbpi_dispose XbpiProtocolClient) [4, 1, 9, 0, 14] ''x'' None
      (demo_serial [] (\<lambda>_. [])) = (r, s') \<and> st_sent s' = [] \<and>
      fails_with SartoriusConnectionError r"
proof -
  let ?c = "xbpi_dispose XbpiProtocolClient" and ?s = "demo_serial [] (\<lambda>_. [])"
  obtain r s' where x: "xbpi_execute serial_ops ?c [4, 1, 9, 0, 14] ''x'' None ?s = (r, s')"
    by fastforce
  have "xc_disposed ?c" by (simp add: xbpi_dispose_def)
  with xbpi_exchange_failures [OF x] x show ?thesis by (auto simp: demo_serial_def)
qed

text \<open>
  The error reply of the device surfaces as the documented exception class of its code,
  always a command rejection; codes outside the table are plain rejections; a body that is not
  one byte is a parse error. After a framing error the input is drained, so the next exchange
  does not see the rest of the corrupt reply.
\<close>

theorem xbpi_refusals_and_drain:
  assumes "fk_is_open s" and "\<not> fk_force_read_timeout s" and "\<not> fk_force_write_timeout s"
    and "fk_read_buffer s = []" and "\<not> xc_disposed c"
    and "fk_script s req = Some (Fixed (ReplyBytes reply))"
  shows "(reply = rx_frame 1 [code] @ rest \<longrightarrow>
       (\<exists>ctx s'. xbpi_execute fake_ops c req nm opc s
            = (Inl (Sart (refusal_class (uint code)) ctx), s') \<and>
          is_subclass (refusal_class (uint code)) SartoriusCommandRejectedError \<and>
          fk_read_buffer s' = rest)) \<and>
     (xbpi_execute fake_ops c req nm opc s = (Inl e, s') \<longrightarrow> exn_is e SartoriusFrameError \<longrightarrow>
       fk_read_buffer s' = [])"
proof -
  let ?s1 = "s\<lparr>fk_writes := fk_writes s @ [req], fk_read_buffer := reply\<rparr>"
  have w: "tp_write fake_ops req s = (Inr (), ?s1)"
    using assms by (simp add: fake_ops_def fake_write_def)
  have us: "fake_usable ?s1" using assms by (simp add: fake_usable_def)
  have one: "reply = rx_frame 1 [code] @ rest \<longrightarrow>
       (\<exists>ctx s'. xbpi_execute fake_ops c req nm opc s
            = (Inl (Sart (refusal_class (uint code)) ctx), s') \<and>
          is_subclass (refusal_class (uint code)) SartoriusCommandRejectedError \<and>
          fk_read_buffer s' = rest)"
  proof
    assume "reply = rx_frame 1 [code] @ rest"
    then have rd: "fk_read_buffer ?s1 = rx_frame 1 [code] @ rest" by simp
    obtain ctx where ctx: "make_refusal (uint code) (frame_of 1 [code]) nm opc
        = Sart (refusal_class (uint code)) ctx"
      using make_refusal_class by blast
    have "is_subclass (refusal_class (uint code)) SartoriusCommandRejectedError"
      using make_refusal_rejected [of "uint code" "frame_of 1 [code]" nm opc] ctx by simp
    with fake.xbpi_frame_consumed [OF w us rd _ assms(5), of nm opc] ctx
    show "\<exists>ctx s'. xbpi_execute fake_ops c req nm opc s
            = (Inl (Sart (refusal_class (uint code)) ctx), s') \<and>
          is_subclass (refusal_class (uint code)) SartoriusCommandRejectedError \<and>
          fk_read_buffer s' = rest"
      by (auto simp: exchange_result_def)
  qed
  have two: "xbpi_execute fake_ops c req nm opc s = (Inl e, s') \<longrightarrow>
      exn_is e SartoriusFrameError \<longrightarrow> fk_read_buffer s' = []"
  proof (intro impI)
    assume x: "xbpi_execute fake_ops c req nm opc s = (Inl e, s')"
      and fe: "exn_is e SartoriusFrameError"
    have not_read: "\<not> exn_is e' SartoriusFrameError" if "fake_read_exact n t = (Inl e', t')" for n t e' t'
      using that by (auto simp: fake_read_exact_def fake_error_def raise_ctx_def subclass_simps
          split: if_splits)
    have not_refusal: "\<not> exn_is (make_refusal k f nm opc) SartoriusFrameError" for k f
      using make_refusal_class [of k f nm opc]
      by (auto simp: refusal_class_def subclass_simps split: if_splits)
    have not_body: "\<not> exn_is e' SartoriusFrameError" if "decode_error_body b = Inl e'" for b e'
      using that by (auto simp: decode_error_body_def raise_ctx_def subclass_simps split: if_splits)
    show "fk_read_buffer s' = []"
      using x fe not_refusal w assms(5)
      by (auto simp: xbpi_execute_def xbpi_execute_locked_def xbpi_raise_if_disposed_def
          fake_ops_def fake_drain_input_def dest: not_read not_body
          split: sum.splits prod.splits if_splits)
  qed
  from one two show ?thesis by blast
qed

definition demo_fake :: "(bytes \<Rightarrow> ScriptedReply option) \<Rightarrow> bytes \<Rightarrow> fake_transport" where
  "demo_fake script buffer =
     (FakeTransport script ''fake://test'')\<lparr>fk_is_open := True, fk_read_buffer := buffer\<rparr>"

theorem xbpi_refusals_and_drain_witness:
  "\<exists>ctx s'. xbpi_execute fake_ops XbpiProtocolClient [4, 1, 9, 0x1E, 0x2C] ''x'' None
     (demo_fake (\<lambda>_. Some (Fixed (ReplyBytes (rx_frame 1 [4] @ [7])))) [])
   = (Inl (Sart SartoriusUnsupportedCommandError ctx), s') \<and> fk_read_buffer s' = [7]"
proof -
  let ?s = "demo_fake (\<lambda>_. Some (Fixed (ReplyBytes (rx_frame 1 [4] @ [7])))) []"
  have "fk_is_open ?s" "\<not> fk_force_read_timeout ?s" "\<not> fk_force_write_timeout ?s"
    "fk_read_buffer ?s = []" "\<not> xc_disposed XbpiProtocolClient"
    "fk_script ?s [4, 1, 9, 0x1E, 0x2C] = Some (Fixed (ReplyBytes (rx_frame 1 [4] @ [7])))"
    by (simp_all add: demo_fake_def FakeTransport_def XbpiProtocolClient_def)
  note p = xbpi_refusals_and_drain [OF this, of 4 "[7]" "''x''" None]
  from p [THEN conjunct1, THEN mp, OF refl] show ?thesis by (auto simp: refusal_class_def)
qed

end
