(* ===== verification/Regex.thy ===== *)
theory Regex
  imports Prelude
begin

text \<open>
  The part of Python's \<open>re\<close> the sources use: greedy matching with backtracking, over character
  classes with bounded repetition, sequence, alternation, options, named groups and the
  end-of-string anchor. A matcher returns all its ways to match in the order the engine tries
  them, each with the groups it captured and the text left; \<open>pattern.match\<close> is the first.
\<close>

datatype regex =
    Class "char \<Rightarrow> bool" nat "nat option"
  | Seq regex regex
  | Alt regex regex
  | Opt regex
  | Group string regex
  | Eos
  | Eps

type_synonym captures = "(string \<times> string) list"

text \<open>The lengths a greedy repetition tries, longest first.\<close>

definition greedy_lengths :: "(char \<Rightarrow> bool) \<Rightarrow> nat \<Rightarrow> nat option \<Rightarrow> string \<Rightarrow> nat list" where
  "greedy_lengths p lo hi s =
     (let run = length (takeWhile p s);
          most = (case hi of None \<Rightarrow> run | Some h \<Rightarrow> min h run)
      in rev [lo ..< Suc most])"

fun matches :: "regex \<Rightarrow> string \<Rightarrow> (captures \<times> string) list" where
  "matches (Class p lo hi) s = map (\<lambda>k. ([], drop k s)) (greedy_lengths p lo hi s)"
| "matches (Seq a b) s =
     concat (map (\<lambda>(c, r). map (\<lambda>(c', r'). (c @ c', r')) (matches b r)) (matches a s))"
| "matches (Alt a b) s = matches a s @ matches b s"
| "matches (Opt a) s = matches a s @ [([], s)]"
| "matches (Group n a) s =
     map (\<lambda>(c, r). (c @ [(n, take (length s - length r) s)], r)) (matches a s)"
| "matches Eos s = (if s = [] then [([], [])] else [])"
| "matches Eps s = [([], s)]"

definition re_match :: "regex \<Rightarrow> string \<Rightarrow> captures option" where
  "re_match r s = (case matches r s of [] \<Rightarrow> None | m # ms \<Rightarrow> Some (fst m))"

fun seqs :: "regex list \<Rightarrow> regex" where
  "seqs [] = Eps"
| "seqs [r] = r"
| "seqs (r # q # rs) = Seq r (seqs (q # rs))"

definition lit :: "char \<Rightarrow> regex" where
  "lit c = Class (\<lambda>x. x = c) 1 (Some 1)"

definition one :: "(char \<Rightarrow> bool) \<Rightarrow> regex" where
  "one p = Class p 1 (Some 1)"

definition star :: "(char \<Rightarrow> bool) \<Rightarrow> regex" where
  "star p = Class p 0 None"

definition plus :: "(char \<Rightarrow> bool) \<Rightarrow> regex" where
  "plus p = Class p 1 None"

text \<open>\<open>match.group(name)\<close>.\<close>

definition group :: "captures \<Rightarrow> string \<Rightarrow> string option" where
  "group c n = map_of c n"

section \<open>What is left after a match\<close>

definition rests :: "regex \<Rightarrow> string \<Rightarrow> string set" where
  "rests r s = snd ` set (matches r s)"

lemma rests_Seq: "rests (Seq a b) s = (\<Union>x \<in> rests a s. rests b x)"
  by (simp add: rests_def image_UN image_image split_beta)

lemma rests_Alt: "rests (Alt a b) s = rests a s \<union> rests b s"
  by (simp add: rests_def image_Un)

lemma rests_Opt: "rests (Opt a) s = insert s (rests a s)"
  by (simp add: rests_def)

lemma rests_Group: "rests (Group n a) s = rests a s"
  by (simp add: rests_def image_image split_beta)

lemma rests_Eos: "rests Eos s = (if s = [] then {[]} else {})"
  by (simp add: rests_def)

lemma rests_Eps: "rests Eps s = {s}"
  by (simp add: rests_def)

lemmas rests_simps = rests_Seq rests_Alt rests_Opt rests_Group rests_Eos rests_Eps

lemma set_greedy_lengths:
  "set (greedy_lengths p lo hi s) =
     {k. lo \<le> k \<and> k \<le> length (takeWhile p s) \<and> (case hi of None \<Rightarrow> True | Some h \<Rightarrow> k \<le> h)}"
  by (auto simp: greedy_lengths_def Let_def less_Suc_eq_le simp del: upt_Suc split: option.splits)

lemma rests_Class:
  "rests (Class p lo hi) s =
     (\<lambda>k. drop k s) ` {k. lo \<le> k \<and> k \<le> length (takeWhile p s) \<and>
        (case hi of None \<Rightarrow> True | Some h \<Rightarrow> k \<le> h)}"
  by (simp add: rests_def image_image set_greedy_lengths)

lemma rests_opt_plus: "rests (Opt (plus p)) s = rests (star p) s"
proof -
  have "{k. k \<le> length (takeWhile p s)} = insert 0 {k. 1 \<le> k \<and> k \<le> length (takeWhile p s)}"
    by (auto simp: not_less_eq_eq)
  then show ?thesis by (simp add: plus_def star_def rests_Opt rests_Class)
qed

lemma re_match_None: "re_match r s = None \<longleftrightarrow> rests r s = {}"
  by (auto simp: re_match_def rests_def split: list.splits)

section \<open>The first match\<close>

text \<open>\<open>first r s c t\<close>: the engine's first way to match \<open>r\<close> on \<open>s\<close> captures \<open>c\<close> and leaves \<open>t\<close>.\<close>

definition first :: "regex \<Rightarrow> string \<Rightarrow> captures \<Rightarrow> string \<Rightarrow> bool" where
  "first r s c t \<longleftrightarrow> (\<exists>ms. matches r s = (c, t) # ms)"

lemma re_match_first: "first r s c t \<Longrightarrow> re_match r s = Some c"
  by (auto simp: first_def re_match_def)

lemma first_Seq: "first a s c t \<Longrightarrow> first b t c' t' \<Longrightarrow> first (Seq a b) s (c @ c') t'"
  by (auto simp: first_def)

lemma first_Alt1: "first a s c t \<Longrightarrow> first (Alt a b) s c t"
  by (auto simp: first_def)

lemma first_Opt: "first a s c t \<Longrightarrow> first (Opt a) s c t"
  by (auto simp: first_def)

lemma first_Opt_none: "matches a s = [] \<Longrightarrow> first (Opt a) s [] s"
  by (auto simp: first_def)

lemma first_Group: "first a (u @ t) c t \<Longrightarrow> first (Group n a) (u @ t) (c @ [(n, u)]) t"
  by (auto simp: first_def)

lemma first_Eos: "first Eos [] [] []"
  by (simp add: first_def)

lemma takeWhile_run:
  "list_all p u \<Longrightarrow> (t = [] \<or> \<not> p (hd t)) \<Longrightarrow> takeWhile p (u @ t) = u"
  by (induction u) (auto simp: takeWhile_eq_Nil_iff)

lemma first_star:
  assumes "list_all p u" "t = [] \<or> \<not> p (hd t)"
  shows "first (star p) (u @ t) [] t"
  using takeWhile_run [OF assms] by (simp add: first_def star_def greedy_lengths_def Let_def)

lemma first_plus:
  assumes "list_all p u" "u \<noteq> []" "t = [] \<or> \<not> p (hd t)"
  shows "first (plus p) (u @ t) [] t"
proof -
  have "1 \<le> length u" using assms(2) by (cases u) auto
  then show ?thesis
    using takeWhile_run [OF assms(1,3)]
    by (auto simp: first_def plus_def greedy_lengths_def Let_def)
qed

lemma first_one: "p c \<Longrightarrow> first (one p) (c # t) [] t"
  by (simp add: first_def one_def greedy_lengths_def numeral_2_eq_2 min_def)

lemma matches_one_fail: "s = [] \<or> \<not> p (hd s) \<Longrightarrow> matches (one p) s = []"
  by (cases s) (auto simp: one_def greedy_lengths_def)

lemma matches_Seq_fail: "matches a s = [] \<Longrightarrow> matches (Seq a b) s = []"
  by simp

lemma first_Alt2: "matches a s = [] \<Longrightarrow> first b s c t \<Longrightarrow> first (Alt a b) s c t"
  by (auto simp: first_def)

lemma lit_one: "lit c = one (\<lambda>x. x = c)"
  by (simp add: lit_def one_def)

lemma matches_plus_fail: "s = [] \<or> \<not> p (hd s) \<Longrightarrow> matches (plus p) s = []"
  by (cases s) (auto simp: plus_def greedy_lengths_def Let_def)

section \<open>Decomposing a match\<close>

lemma in_matches_Seq:
  "(c, t) \<in> set (matches (Seq a b) s) \<longleftrightarrow>
     (\<exists>c1 r c2. (c1, r) \<in> set (matches a s) \<and> (c2, t) \<in> set (matches b r) \<and> c = c1 @ c2)"
  by force

lemma in_matches_Group:
  "(c, t) \<in> set (matches (Group n a) s) \<longleftrightarrow>
     (\<exists>c1. (c1, t) \<in> set (matches a s) \<and> c = c1 @ [(n, take (length s - length t) s)])"
  by force

lemma in_matches_Opt:
  "(c, t) \<in> set (matches (Opt a) s) \<longleftrightarrow> (c, t) \<in> set (matches a s) \<or> (c = [] \<and> t = s)"
  by auto

lemma in_matches_rests: "(c, t) \<in> set (matches r s) \<Longrightarrow> t \<in> rests r s"
  by (force simp: rests_def)

lemma rests_Class_split:
  "t \<in> rests (Class p lo hi) s \<longleftrightarrow>
     (\<exists>u. s = u @ t \<and> list_all p u \<and> lo \<le> length u \<and>
        (case hi of None \<Rightarrow> True | Some h \<Rightarrow> length u \<le> h))"
proof
  assume "t \<in> rests (Class p lo hi) s"
  then obtain k where k: "t = drop k s" "lo \<le> k" "k \<le> length (takeWhile p s)"
    "case hi of None \<Rightarrow> True | Some h \<Rightarrow> k \<le> h" by (auto simp: rests_Class)
  have "k \<le> length s" using k(3) length_takeWhile_le le_trans by blast
  moreover have "list_all p (take k s)"
  proof -
    have "take k s = take k (takeWhile p s)"
      using k(3) by (metis takeWhile_eq_take take_take min.absorb1)
    then show ?thesis by (metis in_set_takeD list_all_iff set_takeWhileD)
  qed
  ultimately show "\<exists>u. s = u @ t \<and> list_all p u \<and> lo \<le> length u \<and>
        (case hi of None \<Rightarrow> True | Some h \<Rightarrow> length u \<le> h)"
    using k by (intro exI [where x = "take k s"]) (auto split: option.splits)
next
  assume "\<exists>u. s = u @ t \<and> list_all p u \<and> lo \<le> length u \<and>
        (case hi of None \<Rightarrow> True | Some h \<Rightarrow> length u \<le> h)"
  then obtain u where u: "s = u @ t" "list_all p u" "lo \<le> length u"
    "case hi of None \<Rightarrow> True | Some h \<Rightarrow> length u \<le> h" by blast
  have "length u \<le> length (takeWhile p s)"
    using u(1,2) by (simp add: takeWhile_append list_all_iff)
  with u show "t \<in> rests (Class p lo hi) s"
    by (auto simp: rests_Class intro!: image_eqI [where x = "length u"])
qed

lemma rests_star: "t \<in> rests (star p) s \<longleftrightarrow> (\<exists>u. s = u @ t \<and> list_all p u)"
  by (simp add: star_def rests_Class_split)

lemma rests_plus: "t \<in> rests (plus p) s \<longleftrightarrow> (\<exists>u. s = u @ t \<and> list_all p u \<and> u \<noteq> [])"
  by (simp add: plus_def rests_Class_split Suc_le_eq)

lemma rests_one: "t \<in> rests (one p) s \<longleftrightarrow> (\<exists>c. s = c # t \<and> p c)"
proof
  assume "t \<in> rests (one p) s"
  then obtain u where "s = u @ t" "list_all p u" "length u = 1"
    by (auto simp: one_def rests_Class_split)
  then show "\<exists>c. s = c # t \<and> p c" by (cases u) auto
next
  assume "\<exists>c. s = c # t \<and> p c"
  then obtain c where "s = c # t" "p c" by blast
  then show "t \<in> rests (one p) s"
    by (auto simp: one_def rests_Class_split intro!: exI [where x = "[c]"])
qed

lemma rests_lit: "t \<in> rests (lit c) s \<longleftrightarrow> s = c # t"
  by (auto simp: lit_one rests_one)

lemma rests_suffix: "t \<in> rests r s \<Longrightarrow> \<exists>u. s = u @ t"
proof (induction r arbitrary: s t)
  case (Seq a b)
  then obtain x where x: "x \<in> rests a s" "t \<in> rests b x" by (auto simp: rests_Seq)
  from Seq.IH(1) [OF x(1)] Seq.IH(2) [OF x(2)] show ?case by (metis append.assoc)
qed (auto simp: rests_simps rests_Class_split split: if_splits)

end
