(* ===== verification/Sbi_Codec.thy ===== *)
theory Sbi_Codec
  imports Errors Models Regex
begin

text \<open>
  \<open>protocol/sbi/\<close>: command tokens and tables (\<open>tables.py\<close>), line framing and the autoprint
  classifier (\<open>framing.py\<close>), line records (\<open>types.py\<close>), and the line parser (\<open>parser.py\<close>).
\<close>

section \<open>Tables\<close>

definition ESC :: bytes where "ESC = [0x1b]"
definition TOKEN_PRINT :: bytes where "TOKEN_PRINT = ESC @ ascii_lit ''P''"
definition TOKEN_TARE :: bytes where "TOKEN_TARE = ESC @ ascii_lit ''T''"
definition TOKEN_ZERO :: bytes where "TOKEN_ZERO = ESC @ ascii_lit ''V''"
definition TOKEN_TYPE :: bytes where "TOKEN_TYPE = ESC @ ascii_lit ''x1_''"
definition TOKEN_SERIAL :: bytes where "TOKEN_SERIAL = ESC @ ascii_lit ''x2_''"
definition TOKEN_SOFTWARE :: bytes where "TOKEN_SOFTWARE = ESC @ ascii_lit ''x3_''"

definition SBI_COMMAND_TOKENS :: "(bytes \<times> string) list" where
  "SBI_COMMAND_TOKENS =
     [(TOKEN_PRINT, ''print''), (TOKEN_TARE, ''tare_and_zero''),
      (ESC @ ascii_lit ''K'', ''filter_very_stable''),
      (ESC @ ascii_lit ''L'', ''filter_stable''),
      (ESC @ ascii_lit ''M'', ''filter_unstable''),
      (ESC @ ascii_lit ''N'', ''filter_very_unstable''),
      (ESC @ ascii_lit ''O'', ''block_keys''), (ESC @ ascii_lit ''Q'', ''beep''),
      (ESC @ ascii_lit ''R'', ''unblock_keys''), (ESC @ ascii_lit ''S'', ''restart''),
      (ESC @ ascii_lit ''U'', ''tare''), (TOKEN_ZERO, ''zero''),
      (ESC @ ascii_lit ''Z'', ''internal_adjust''),
      (ESC @ ascii_lit ''W'', ''external_adjust_default_weight''),
      (ESC @ ascii_lit ''f0_'', ''menu_key''), (ESC @ ascii_lit ''f1_'', ''start_calibration''),
      (ESC @ ascii_lit ''f2_'', ''enter_key''),
      (ESC @ ascii_lit ''f5_'', ''left_draft_shield_key''),
      (ESC @ ascii_lit ''f6_'', ''right_draft_shield_key''),
      (ESC @ ascii_lit ''p_'', ''print_key''), (ESC @ ascii_lit ''m0_'', ''ionizer_status''),
      (ESC @ ascii_lit ''m1_'', ''ionizer_on''), (ESC @ ascii_lit ''m2_'', ''ionizer_off''),
      (ESC @ ascii_lit ''s0_'', ''hold_menu_key''),
      (ESC @ ascii_lit ''s3_'', ''cf_back_exit_cancel''),
      (ESC @ ascii_lit ''w0_'', ''draft_shield_status''),
      (ESC @ ascii_lit ''w1_'', ''draft_shield_open_left''),
      (ESC @ ascii_lit ''w2_'', ''draft_shield_close''),
      (ESC @ ascii_lit ''w3_'', ''draft_shield_open_upper''),
      (ESC @ ascii_lit ''w4_'', ''draft_shield_open_right''),
      (ESC @ ascii_lit ''w5_'', ''draft_shield_open_left_upper''),
      (ESC @ ascii_lit ''w6_'', ''draft_shield_open_left_right''),
      (ESC @ ascii_lit ''w7_'', ''draft_shield_open_right_upper''),
      (ESC @ ascii_lit ''w8_'', ''draft_shield_open_all''),
      (TOKEN_TYPE, ''print_weigher_type''), (TOKEN_SERIAL, ''print_serial_number''),
      (TOKEN_SOFTWARE, ''print_software_version'')]"

definition SBI_READ_ONLY_TOKENS :: "bytes list" where
  "SBI_READ_ONLY_TOKENS =
     [TOKEN_PRINT, ESC @ ascii_lit ''p_'', TOKEN_TYPE, TOKEN_SERIAL, TOKEN_SOFTWARE,
      ESC @ ascii_lit ''m0_'', ESC @ ascii_lit ''w0_'']"

definition SBI_UNIT_STRINGS :: "(string \<times> Unit) list" where
  "SBI_UNIT_STRINGS =
     [(''g'', U_G), (''kg'', U_KG), (''mg'', U_MG), (''ug'', U_UG), (CHR 0xB5 # ''g'', U_UG),
      (''ct'', U_CT), (''lb'', U_LB), (''oz'', U_OZ), (''ozt'', U_OZT), (''tl'', U_TAEL_HK),
      (''tlh'', U_TAEL_HK), (''tl.hk'', U_TAEL_HK), (''tlsg'', U_TAEL_SG), (''tl.sg'', U_TAEL_SG),
      (''tlt'', U_TAEL_TW), (''tl.tw'', U_TAEL_TW), (''gr'', U_GR), (''dwt'', U_DWT),
      (''n'', U_NEWTON), (''N'', U_NEWTON), (''t'', U_T)]"

definition unit_from_sbi :: "string \<Rightarrow> Unit" where
  "unit_from_sbi text =
     (let key = py_lower (filter (\<lambda>c. c \<noteq> CHR '' '') (py_strip text))
      in dict_get SBI_UNIT_STRINGS key U_UNKNOWN)"

definition describe_token :: "bytes \<Rightarrow> string" where
  "describe_token token = dict_get SBI_COMMAND_TOKENS token (bytes_hex token)"

section \<open>Lines\<close>

definition LINE_TERMINATOR :: bytes where "LINE_TERMINATOR = [13, 10]"

datatype SbiLineKind = EMPTY | IDENTITY | REFUSAL | WEIGHT | LINE_UNKNOWN

record SbiLine =
  sl_raw :: bytes
  sl_text :: string
  sl_kind :: SbiLineKind
  sl_reading :: "Reading option"

record SbiReply =
  sr_lines :: "SbiLine list"
  sr_raw :: bytes

definition first_line :: "SbiReply \<Rightarrow> SbiLine option" where
  "first_line r = (case sr_lines r of [] \<Rightarrow> None | l # ls \<Rightarrow> Some l)"

section \<open>Framing\<close>

text \<open>The \<open>bytes | str\<close> argument of a command.\<close>

datatype sbi_command = CmdBytes bytes | CmdText string

definition normalize_token :: "sbi_command \<Rightarrow> bytes res" where
  "normalize_token command =
     res_bind
       (case command of
          CmdBytes b \<Rightarrow> Inr b
        | CmdText s \<Rightarrow>
            let text = py_strip s;
                text = (if startswith (py_upper text) ''ESC''
                        then CHR 0x1B # py_lstrip (drop 3 text) else text)
            in (case ascii_encode text of None \<Rightarrow> Inl (Py UnicodeError) | Some t \<Rightarrow> Inr t))
       (\<lambda>token0.
          let token = bytes_rstrip [13, 10] token0
          in if token = []
             then raise_ctx SartoriusValidationError [SetProtocol (Some ''sbi'')]
             else if \<not> startswith token ESC
             then raise_ctx SartoriusValidationError
                    ([SetProtocol (Some ''sbi''), SetSbiToken (Some token)] @
                     extra [(''token'', XStr (bytes_hex token))])
             else Inr token)"

definition sbi_build_command :: "sbi_command \<Rightarrow> bytes \<Rightarrow> bytes res" where
  "sbi_build_command command terminator =
     res_bind (normalize_token command) (\<lambda>token. Inr (token @ terminator))"

definition strip_line_terminator :: "bytes \<Rightarrow> bytes" where
  "strip_line_terminator line =
     (if endswith line LINE_TERMINATOR then take (length line - length LINE_TERMINATOR) line
      else if endswith line [10] then bytes_rstrip [13] (take (length line - 1) line)
      else line)"

text \<open>The loop of \<open>split_lines\<close>, on the part of the payload not yet split.\<close>

function split_lines_from :: "bytes \<Rightarrow> bytes \<Rightarrow> bytes list \<Rightarrow> bytes list res" where
  "split_lines_from raw todo out =
     (if todo = [] then Inr out
      else case find_sub [10] todo of
             None \<Rightarrow> raise_ctx SartoriusFrameError
                       [SetRawResponse (Some (RawBytes raw)), SetProtocol (Some ''sbi'')]
           | Some idx \<Rightarrow>
               split_lines_from raw (drop (idx + 1) todo) (out @ [take (idx + 1) todo]))"
  by auto
termination by (relation "measure (\<lambda>(raw, todo, out). length todo)") auto

declare split_lines_from.simps [simp del]

definition split_lines :: "bytes \<Rightarrow> bytes list res" where
  "split_lines raw = split_lines_from raw raw []"

definition is_word_space_char :: "char \<Rightarrow> bool" where
  "is_word_space_char c \<longleftrightarrow> is_letter c \<or> is_digit c \<or> c = CHR '' ''"

definition is_unit_char :: "char \<Rightarrow> bool" where
  "is_unit_char c \<longleftrightarrow>
     is_letter c \<or> c = CHR 0xB5 \<or> c = CHR ''/'' \<or> c = CHR ''_'' \<or> c = CHR ''.''"

definition NUMBER_RE :: regex where
  "NUMBER_RE =
     Alt (Seq (plus is_digit) (Opt (Seq (lit CHR ''.'') (star is_digit))))
         (Seq (lit CHR ''.'') (plus is_digit))"

definition AUTOPRINT_RE :: regex where
  "AUTOPRINT_RE =
     seqs [star py_isspace, Opt (lit CHR ''?''), star py_isspace,
           Opt (Seq (Seq (one is_letter) (Class is_word_space_char 0 (Some 5))) (plus py_isspace)),
           Opt (one (\<lambda>c. c = CHR ''+'' \<or> c = CHR ''-'')), star py_isspace,
           NUMBER_RE, star py_isspace, star is_unit_char, star py_isspace, Eos]"

definition BARE_NUMBER_RE :: regex where
  "BARE_NUMBER_RE = seqs [star py_isspace, NUMBER_RE, star py_isspace, Eos]"

definition AUTOPRINT_SPECIALS :: "string list" where
  "AUTOPRINT_SPECIALS =
     [''CAL. EXT.'', ''CAL. INT.'', ''CAL.INT.'', ''H'', ''HH'', ''HIGH'', ''HI'', ''L'',
      ''LL'', ''LOW'']"

definition MIN_FORMATTED_WEIGHT_BODY_CHARS :: nat where
  "MIN_FORMATTED_WEIGHT_BODY_CHARS = 14"

text \<open>Normalized status text; \<open>framing.py\<close> and \<open>parser.py\<close> compute it alike.\<close>

definition status_marker :: "string \<Rightarrow> string" where
  "status_marker text =
     (let marker = py_join '' '' (py_split (py_upper text))
      in if startswith marker ''STAT '' then py_strip (removeprefix marker ''STAT '')
         else marker)"

text \<open>The argument of \<open>is_autoprint_line\<close> is a wire line, or text that is encoded first.\<close>

definition is_autoprint_line :: "bytes \<Rightarrow> bool" where
  "is_autoprint_line line =
     (let body = ascii_decode_replace (strip_line_terminator line);
          text = py_strip body
      in if text = '''' then False
         else if re_match BARE_NUMBER_RE body \<noteq> None \<and>
                 (body = text \<or> length body < MIN_FORMATTED_WEIGHT_BODY_CHARS) then False
         else re_match AUTOPRINT_RE body \<noteq> None \<or>
              status_marker text \<in> set AUTOPRINT_SPECIALS)"

definition is_autoprint_text :: "string \<Rightarrow> bool" where
  "is_autoprint_text s = is_autoprint_line (map byte_of_char (filter is_ascii_char s))"

section \<open>Parser\<close>

definition WEIGHT_RE :: regex where
  "WEIGHT_RE =
     seqs [star py_isspace, Opt (Group ''unstable'' (lit CHR ''?'')), star py_isspace,
           Opt (Seq (Group ''id'' (Seq (one is_letter) (Class is_word_space_char 0 (Some 5))))
                    (plus py_isspace)),
           Opt (Group ''sign'' (one (\<lambda>c. c = CHR ''+'' \<or> c = CHR ''-''))), star py_isspace,
           Group ''number'' NUMBER_RE, star py_isspace,
           Opt (Group ''unit'' (plus is_unit_char)), star py_isspace, Eos]"

definition OVERLOAD_MARKERS :: "string list" where
  "OVERLOAD_MARKERS = [''H'', ''HH'', ''HIGH'', ''HI'', ''OVER'', ''OVERLOAD'', ''OL'']"

definition UNDERLOAD_MARKERS :: "string list" where
  "UNDERLOAD_MARKERS = [''L'', ''LL'', ''LOW'', ''UNDER'', ''UNDERLOAD'', ''UL'']"

definition REFUSAL_MARKERS :: "string list" where
  "REFUSAL_MARKERS =
     [''APP. ERR'', ''DIS. ERR'', ''ERR'', ''ERROR'', ''INVALID'', ''NO'', ''PRT. ERR'',
      ''REJECT'', ''REJECTED'']"

definition SPECIAL_NON_WEIGHT_MARKERS :: "string list" where
  "SPECIAL_NON_WEIGHT_MARKERS = [''CAL. EXT.'', ''CAL. INT.'', ''CAL.INT.'']"

definition is_refusal_marker :: "string \<Rightarrow> bool" where
  "is_refusal_marker marker \<longleftrightarrow> marker \<in> set REFUSAL_MARKERS \<or> startswith marker ''ERR ''"

text \<open>\<open>number_text.partition(".")\<close>: the parts before and after the first dot, if any.\<close>

definition int_part :: "string \<Rightarrow> string" where
  "int_part s = takeWhile (\<lambda>c. c \<noteq> CHR ''.'') s"

definition frac_part :: "string \<Rightarrow> string" where
  "frac_part s = drop 1 (dropWhile (\<lambda>c. c \<noteq> CHR ''.'') s)"

definition decimal_places :: "string \<Rightarrow> int" where
  "decimal_places number_text =
     (if CHR ''.'' \<in> set number_text then int (length (frac_part number_text)) else 0)"

fun float_neg :: "pyfloat \<Rightarrow> pyfloat" where
  "float_neg FNan = FNan"
| "float_neg (FInf s) = FInf (\<not> s)"
| "float_neg (FFin s q) = FFin (\<not> s) q"

fun float_is_zero :: "pyfloat \<Rightarrow> bool" where
  "float_is_zero (FFin s q) = (q = 0)"
| "float_is_zero _ = False"

definition sign_from_wire :: "char \<Rightarrow> pyfloat \<Rightarrow> Sign" where
  "sign_from_wire sign_char value =
     (if float_is_zero value then ZERO
      else if sign_char = CHR ''-'' then NEGATIVE
      else if sign_char = CHR ''+'' then POSITIVE
      else SIGN_UNKNOWN)"

text \<open>\<open>match.group(name) or default\<close>.\<close>

definition group_or :: "captures \<Rightarrow> string \<Rightarrow> string \<Rightarrow> string" where
  "group_or c n dflt =
     (case group c n of None \<Rightarrow> dflt | Some s \<Rightarrow> if s = '''' then dflt else s)"

definition parse_weight_line :: "bytes \<Rightarrow> Reading res" where
  "parse_weight_line line_bytes =
     (let text = ascii_decode_replace (strip_line_terminator line_bytes);
          marker = status_marker (py_strip text)
      in if marker \<in> set OVERLOAD_MARKERS \<or> marker \<in> set UNDERLOAD_MARKERS
         then
           let overload = (marker \<in> set OVERLOAD_MARKERS);
               underload = (marker \<in> set UNDERLOAD_MARKERS)
           in Inr \<lparr>rd_value = None, rd_unit = U_UNKNOWN, rd_sign = SIGN_UNKNOWN,
                   rd_stable = False, rd_overload = overload, rd_underload = underload,
                   rd_decimals = None, rd_sequence = None,
                   rd_status_flags = [(''stable'', False), (''overload'', overload),
                                      (''underload'', underload)],
                   rd_protocol = SBI, rd_raw = line_bytes\<rparr>
         else
           case re_match WEIGHT_RE text of
             None \<Rightarrow> raise_ctx SartoriusParseError
                       [SetRawResponse (Some (RawBytes line_bytes)), SetProtocol (Some ''sbi'')]
           | Some m \<Rightarrow>
               let number_text = group_or m ''number'' '''';
                   sign_char = hd (group_or m ''sign'' ''+'');
                   unit_text = group_or m ''unit'' '''';
                   value0 = float_of_decimal False (int_part number_text) (frac_part number_text);
                   value = (if sign_char = CHR ''-'' then float_neg value0 else value0);
                   stable = (group m ''unstable'' \<noteq> Some ''?'' \<and> py_strip unit_text \<noteq> '''')
               in Inr \<lparr>rd_value = Some value, rd_unit = unit_from_sbi unit_text,
                       rd_sign = sign_from_wire sign_char value, rd_stable = stable,
                       rd_overload = False, rd_underload = False,
                       rd_decimals = Some (decimal_places number_text), rd_sequence = None,
                       rd_status_flags = [(''stable'', stable)],
                       rd_protocol = SBI, rd_raw = line_bytes\<rparr>)"

definition is_bare_number_fragment :: "string \<Rightarrow> captures \<Rightarrow> bool" where
  "is_bare_number_fragment text m \<longleftrightarrow>
     group m ''unstable'' = None \<and> group m ''id'' = None \<and> group m ''sign'' = None \<and>
     group m ''unit'' = None \<and>
     (text = py_strip text \<or> length text < MIN_FORMATTED_WEIGHT_BODY_CHARS)"

definition looks_like_weight :: "string \<Rightarrow> bool" where
  "looks_like_weight text =
     (let marker = status_marker (py_strip text)
      in marker \<in> set OVERLOAD_MARKERS \<or> marker \<in> set UNDERLOAD_MARKERS \<or>
         (case re_match WEIGHT_RE text of
            None \<Rightarrow> False
          | Some m \<Rightarrow> \<not> is_bare_number_fragment text m))"

definition parse_line :: "bytes \<Rightarrow> SbiLine res" where
  "parse_line raw =
     (case ascii_decode (strip_line_terminator raw) of
        None \<Rightarrow> raise_ctx SartoriusParseError
                  [SetRawResponse (Some (RawBytes raw)), SetProtocol (Some ''sbi'')]
      | Some text \<Rightarrow>
          let stripped = py_strip text; marker = status_marker stripped;
              line = (\<lambda>txt kind reading. \<lparr>sl_raw = raw, sl_text = txt, sl_kind = kind,
                                          sl_reading = reading\<rparr>)
          in if stripped = '''' then Inr (line '''' EMPTY None)
             else if is_refusal_marker marker then Inr (line stripped REFUSAL None)
             else if marker \<in> set SPECIAL_NON_WEIGHT_MARKERS
             then Inr (line stripped LINE_UNKNOWN None)
             else if looks_like_weight text
             then res_bind (parse_weight_line raw) (\<lambda>r. Inr (line stripped WEIGHT (Some r)))
             else Inr (line stripped IDENTITY None))"

fun parse_lines :: "bytes list \<Rightarrow> SbiLine list res" where
  "parse_lines [] = Inr []"
| "parse_lines (l # ls) =
     res_bind (parse_line l) (\<lambda>x. res_bind (parse_lines ls) (\<lambda>xs. Inr (x # xs)))"

definition parse_reply :: "bytes \<Rightarrow> SbiReply res" where
  "parse_reply raw =
     res_bind (split_lines raw) (\<lambda>ls.
     res_bind (parse_lines ls) (\<lambda>xs. Inr \<lparr>sr_lines = xs, sr_raw = raw\<rparr>))"

definition require_reading :: "SbiReply \<Rightarrow> Reading res" where
  "require_reading reply =
     (case filter (\<lambda>l. sl_reading l \<noteq> None) (sr_lines reply) of
        l # ls \<Rightarrow> Inr (the (sl_reading l))
      | [] \<Rightarrow> raise_ctx SartoriusParseError
                [SetRawResponse (Some (RawBytes (sr_raw reply))), SetProtocol (Some ''sbi'')])"

definition require_identity_text :: "SbiReply \<Rightarrow> bool \<Rightarrow> string res" where
  "require_identity_text reply allow_weight_like =
     (case filter (\<lambda>l. sl_kind l \<notin> {EMPTY, REFUSAL, LINE_UNKNOWN} \<and>
                       (allow_weight_like \<or> sl_kind l \<noteq> WEIGHT)) (sr_lines reply) of
        l # ls \<Rightarrow> Inr (sl_text l)
      | [] \<Rightarrow> raise_ctx SartoriusParseError
                [SetRawResponse (Some (RawBytes (sr_raw reply))), SetProtocol (Some ''sbi'')])"

section \<open>Splitting into lines\<close>

text \<open>A complete line: it ends with its only newline.\<close>

definition complete_line :: "bytes \<Rightarrow> bool" where
  "complete_line l \<longleftrightarrow> l \<noteq> [] \<and> last l = 10 \<and> 10 \<notin> set (butlast l)"

lemma complete_line_snoc: "complete_line l \<longleftrightarrow> (\<exists>u. l = u @ [10] \<and> 10 \<notin> set u)"
proof
  assume "complete_line l"
  then show "\<exists>u. l = u @ [10] \<and> 10 \<notin> set u"
    unfolding complete_line_def by (metis append_butlast_last_id)
qed (auto simp: complete_line_def)

lemma split_lines_from_sound:
  "split_lines_from raw todo out = Inr res \<Longrightarrow>
     \<exists>ls. res = out @ ls \<and> concat ls = todo \<and> list_all complete_line ls"
proof (induction raw todo out rule: split_lines_from.induct)
  case (1 raw todo out)
  show ?case
  proof (cases "todo = []")
    case True
    with "1.prems" have "res = out" by (simp add: split_lines_from.simps)
    with True show ?thesis by (intro exI [where x = "[]"]) simp
  next
    case False
    with "1.prems" obtain i where i: "find_sub [10] todo = Some i"
      and rest: "split_lines_from raw (drop (i + 1) todo) (out @ [take (i + 1) todo]) = Inr res"
      by (auto simp: split_lines_from.simps [of raw todo] raise_ctx_def split: option.splits)
    from i have i': "i < length todo" "todo ! i = 10" "10 \<notin> set (take i todo)"
      by (simp_all add: find_sub_single_Some)
    have "take (i + 1) todo = take i todo @ [10]"
      using i' by (simp add: take_Suc_conv_app_nth)
    with i' have "complete_line (take (i + 1) todo)" by (auto simp: complete_line_snoc)
    moreover from "1.IH" [OF False i rest] obtain ls where
      "res = (out @ [take (i + 1) todo]) @ ls" "concat ls = drop (i + 1) todo"
      "list_all complete_line ls" by blast
    ultimately show ?thesis
      by (intro exI [where x = "take (i + 1) todo # ls"]) (simp del: take_Suc)
  qed
qed

lemma split_lines_from_complete:
  "list_all complete_line ls \<Longrightarrow> split_lines_from raw (concat ls) out = Inr (out @ ls)"
proof (induction ls arbitrary: out)
  case Nil
  then show ?case by (simp add: split_lines_from.simps)
next
  case (Cons l ls)
  then obtain u where u: "l = u @ [10]" "10 \<notin> set u" by (auto simp: complete_line_snoc)
  then have "find_sub [10] (l @ concat ls) = Some (length u)"
    by (simp add: find_sub_single_append)
  with u Cons.IH [of "out @ [l]"] Cons.prems show ?case
    by (subst split_lines_from.simps) simp
qed

lemma split_lines_iff:
  "split_lines raw = Inr ls \<longleftrightarrow> concat ls = raw \<and> list_all complete_line ls"
  using split_lines_from_sound [of raw raw "[]" ls] split_lines_from_complete [of ls raw "[]"]
  by (auto simp: split_lines_def)

lemma split_lines_from_error:
  "split_lines_from raw todo out = Inl e \<Longrightarrow> todo \<noteq> [] \<and> last todo \<noteq> 10 \<and> exn_is e SartoriusFrameError"
proof (induction raw todo out rule: split_lines_from.induct)
  case (1 raw todo out)
  then have ne: "todo \<noteq> []" by (auto simp: split_lines_from.simps [of raw todo])
  show ?case
  proof (cases "find_sub [10] todo")
    case None
    with ne "1.prems" have "exn_is e SartoriusFrameError"
      by (auto simp: split_lines_from.simps [of raw todo] raise_ctx_def)
    moreover have "last todo \<noteq> 10"
      using None ne by (metis find_sub_single_None last_in_set)
    ultimately show ?thesis using ne by blast
  next
    case (Some i)
    with ne "1.prems" have
      "split_lines_from raw (drop (i + 1) todo) (out @ [take (i + 1) todo]) = Inl e"
      by (simp add: split_lines_from.simps [of raw todo])
    from "1.IH" [OF ne Some this] have "drop (i + 1) todo \<noteq> []" "last (drop (i + 1) todo) \<noteq> 10"
      "exn_is e SartoriusFrameError" by blast+
    moreover from this(1) have "last (drop (i + 1) todo) = last todo" by (intro last_drop) simp
    ultimately show ?thesis using ne by metis
  qed
qed

lemma last_concat_lines:
  "list_all complete_line ls \<Longrightarrow> concat ls \<noteq> [] \<Longrightarrow> last (concat ls) = 10"
proof (induction ls rule: rev_induct)
  case (snoc l ls)
  then show ?case by (auto simp: complete_line_def)
qed simp

section \<open>The weight expression\<close>

text \<open>The texts \<open>NUMBER_RE\<close> stands for.\<close>

definition number_text :: "string \<Rightarrow> bool" where
  "number_text n \<longleftrightarrow>
     (\<exists>ds. n = ds \<and> list_all is_digit ds \<and> ds \<noteq> []) \<or>
     (\<exists>ds fs. n = ds @ CHR ''.'' # fs \<and> list_all is_digit ds \<and> list_all is_digit fs \<and>
        (ds \<noteq> [] \<or> fs \<noteq> []))"

lemma NUMBER_rests:
  assumes "t \<in> rests NUMBER_RE s"
  shows "\<exists>n. s = n @ t \<and> number_text n"
proof -
  from assms consider
      x where "x \<in> rests (plus is_digit) s" "t = x"
    | x y where "x \<in> rests (plus is_digit) s" "y \<in> rests (lit CHR ''.'') x"
        "t \<in> rests (star is_digit) y"
    | y where "y \<in> rests (lit CHR ''.'') s" "t \<in> rests (plus is_digit) y"
    unfolding NUMBER_RE_def rests_simps by blast
  then show ?thesis
  proof cases
    case 1
    then obtain ds where "s = ds @ t" "list_all is_digit ds" "ds \<noteq> []"
      by (auto simp: rests_plus)
    then show ?thesis unfolding number_text_def by blast
  next
    case 2
    then obtain ds fs where "s = ds @ CHR ''.'' # fs @ t" "list_all is_digit ds" "ds \<noteq> []"
      "list_all is_digit fs"
      by (auto simp: rests_plus rests_lit rests_star)
    then show ?thesis
      unfolding number_text_def by (intro exI [where x = "ds @ CHR ''.'' # fs"]) auto
  next
    case 3
    then obtain fs where "s = CHR ''.'' # fs @ t" "list_all is_digit fs" "fs \<noteq> []"
      by (auto simp: rests_plus rests_lit)
    then show ?thesis
      unfolding number_text_def
      by (intro exI [where x = "CHR ''.'' # fs"] conjI disjI2 exI [where x = "[]"]
          exI [where x = fs]) auto
  qed
qed

lemma dot_not_digit: "\<not> is_digit CHR ''.''"
  by (simp add: is_digit_def between_def)

definition stops_number :: "string \<Rightarrow> bool" where
  "stops_number t \<longleftrightarrow> t = [] \<or> (\<not> is_digit (hd t) \<and> hd t \<noteq> CHR ''.'')"

lemma first_NUMBER:
  assumes "number_text n" and "stops_number t"
  shows "first NUMBER_RE (n @ t) [] t"
proof -
  have dot: "first (lit CHR ''.'') (CHR ''.'' # x) [] x" for x
    unfolding lit_one by (rule first_one) simp
  from assms(1) consider
      ds where "n = ds" "list_all is_digit ds" "ds \<noteq> []"
    | ds fs where "n = ds @ CHR ''.'' # fs" "list_all is_digit ds" "list_all is_digit fs" "ds \<noteq> []"
    | fs where "n = CHR ''.'' # fs" "list_all is_digit fs" "fs \<noteq> []"
    unfolding number_text_def by force
  then show ?thesis
  proof cases
    case 1
    have "matches (Seq (lit CHR ''.'') (star is_digit)) t = []"
      unfolding lit_one using assms(2)
      by (intro matches_Seq_fail matches_one_fail) (auto simp: stops_number_def)
    from first_Seq [OF first_plus [OF 1(2,3)] first_Opt_none [OF this]] assms(2) 1(1)
    show ?thesis unfolding NUMBER_RE_def
      by (intro first_Alt1) (auto simp: stops_number_def)
  next
    case 2
    have "first (plus is_digit) (ds @ (CHR ''.'' # fs @ t)) [] (CHR ''.'' # fs @ t)"
      using 2 dot_not_digit by (intro first_plus) auto
    moreover have "first (star is_digit) (fs @ t) [] t"
      using 2 assms(2) by (intro first_star) (auto simp: stops_number_def)
    ultimately show ?thesis
      using first_Seq [OF _ first_Opt [OF first_Seq [OF dot]]] 2(1)
      unfolding NUMBER_RE_def by (intro first_Alt1) fastforce
  next
    case 3
    have "matches (Seq (plus is_digit) (Opt (Seq (lit CHR ''.'') (star is_digit)))) (n @ t) = []"
      using 3(1) dot_not_digit by (intro matches_Seq_fail matches_plus_fail) simp
    moreover have "first (plus is_digit) (fs @ t) [] t"
      using 3 assms(2) by (intro first_plus) (auto simp: stops_number_def)
    ultimately show ?thesis
      using first_Seq [OF dot] 3(1) unfolding NUMBER_RE_def by (intro first_Alt2) fastforce+
  qed
qed

text \<open>
  The layout of a formatted weight: leading blanks, the motion mark, blanks, the sign, padding,
  the number, blanks, the unit, blanks. (The optional mode prefix is not part of this layout.)
\<close>

definition weight_layout ::
  "string \<Rightarrow> bool \<Rightarrow> string \<Rightarrow> char option \<Rightarrow> string \<Rightarrow> string \<Rightarrow> string \<Rightarrow> string \<Rightarrow> string \<Rightarrow> bool"
where
  "weight_layout w0 q w1 sg pad n w2 u w3 \<longleftrightarrow>
     list_all py_isspace (w0 @ w1 @ pad @ w2 @ w3) \<and> number_text n \<and>
     (\<not> q \<longrightarrow> w1 = []) \<and> (sg = None \<longrightarrow> pad = []) \<and> (u = [] \<longrightarrow> w3 = []) \<and>
     (sg = None \<or> sg = Some CHR ''+'' \<or> sg = Some CHR ''-'') \<and>
     list_all is_unit_char u \<and> (u \<noteq> [] \<longrightarrow> is_letter (hd u))"

definition weight_text ::
  "string \<Rightarrow> bool \<Rightarrow> string \<Rightarrow> char option \<Rightarrow> string \<Rightarrow> string \<Rightarrow> string \<Rightarrow> string \<Rightarrow> string \<Rightarrow> string"
where
  "weight_text w0 q w1 sg pad n w2 u w3 =
     w0 @ (if q then ''?'' else []) @ w1 @ (case sg of None \<Rightarrow> [] | Some c \<Rightarrow> [c]) @ pad @
     n @ w2 @ u @ w3"

definition weight_groups :: "bool \<Rightarrow> char option \<Rightarrow> string \<Rightarrow> string \<Rightarrow> captures" where
  "weight_groups q sg n u =
     (if q then [(''unstable'', ''?'')] else []) @
     (case sg of None \<Rightarrow> [] | Some c \<Rightarrow> [(''sign'', [c])]) @ [(''number'', n)] @
     (if u = [] then [] else [(''unit'', u)])"

lemma letter_not_space: "is_letter c \<Longrightarrow> \<not> py_isspace c"
  by (auto simp: py_isspace_def is_letter_def is_upper_letter_def is_lower_letter_def between_def
      Let_def)

lemma letter_not_digit: "is_letter c \<Longrightarrow> \<not> is_digit c"
  by (auto simp: is_digit_def is_letter_def is_upper_letter_def is_lower_letter_def between_def)

lemma unit_char_not_space: "is_unit_char c \<Longrightarrow> \<not> py_isspace c"
  using letter_not_space by (auto simp: is_unit_char_def py_isspace_def)

lemma number_head:
  assumes "number_text n"
  shows "n \<noteq> []" and "is_digit (hd n) \<or> hd n = CHR ''.''"
  using assms by (auto simp: number_text_def hd_append list_all_iff)

lemma number_start:
  assumes "is_digit c \<or> c = CHR ''.''"
  shows "\<not> py_isspace c" "\<not> is_letter c" "c \<noteq> CHR ''?''" "c \<noteq> CHR ''+''" "c \<noteq> CHR ''-''"
  using assms by (auto simp: py_isspace_def is_letter_def is_upper_letter_def is_lower_letter_def
      is_digit_def between_def)

lemma space_stops_number: "py_isspace c \<Longrightarrow> \<not> is_digit c \<and> c \<noteq> CHR ''.''"
  by (auto simp: py_isspace_def is_digit_def between_def Let_def)

lemma not_space_signs: "\<not> py_isspace CHR ''?''" "\<not> py_isspace CHR ''+''" "\<not> py_isspace CHR ''-''"
  "\<not> is_letter CHR ''?''" "\<not> is_letter CHR ''+''" "\<not> is_letter CHR ''-''"
  by (simp_all add: py_isspace_def is_letter_def is_upper_letter_def is_lower_letter_def
      between_def)

lemma first_weight:
  assumes "weight_layout w0 q w1 sg pad n w2 u w3"
  shows "first WEIGHT_RE (weight_text w0 q w1 sg pad n w2 u w3) (weight_groups q sg n u) []"
proof -
  note L = assms [unfolded weight_layout_def]
  let ?q = "if q then ''?'' else []" and ?sg = "case sg of None \<Rightarrow> [] | Some c \<Rightarrow> [c]"
  let ?t6 = "u @ w3" let ?t5 = "w2 @ ?t6" let ?t4 = "n @ ?t5" let ?t3 = "pad @ ?t4"
  let ?t2 = "?sg @ ?t3" let ?t1 = "w1 @ ?t2"
  have sp: "list_all py_isspace w0" "list_all py_isspace w1" "list_all py_isspace pad"
    "list_all py_isspace w2" "list_all py_isspace w3" using L by simp_all
  have n: "number_text n" using L by blast
  obtain d n' where d: "n = d # n'" "is_digit d \<or> d = CHR ''.''"
    using number_head [OF n] by (cases n) auto
  note nd = number_start [OF d(2)]
  have hd2: "\<not> py_isspace (hd ?t2)" "\<not> is_letter (hd ?t2)" "hd ?t2 \<noteq> CHR ''?''"
    using L d nd not_space_signs by (cases sg; auto)+
  have ne2: "?t2 \<noteq> []" using d by simp
  have s0: "first (star py_isspace) (w0 @ ?q @ ?t1) [] (?q @ ?t1)"
    using sp(1) hd2 L not_space_signs by (intro first_star) auto
  have s1: "first (Opt (Group ''unstable'' (lit CHR ''?''))) (?q @ ?t1)
      (if q then [(''unstable'', ''?'')] else []) ?t1"
  proof (cases q)
    case True
    have "first (lit CHR ''?'') (''?'' @ ?t1) [] ?t1"
      unfolding lit_one using first_one by force
    from first_Opt [OF first_Group [OF this]] True show ?thesis by simp
  next
    case False
    then have "matches (lit CHR ''?'') ?t1 = []"
      unfolding lit_one using hd2 ne2 L by (intro matches_one_fail) auto
    with False show ?thesis by (auto intro!: first_Opt_none)
  qed
  have s2: "first (star py_isspace) ?t1 [] ?t2"
    using sp(2) hd2 by (intro first_star) auto
  have s3: "first (Opt (Seq (Group ''id'' (Seq (one is_letter) (Class is_word_space_char 0 (Some 5))))
      (plus py_isspace))) ?t2 [] ?t2"
  proof -
    have "matches (one is_letter) ?t2 = []" using hd2(2) by (intro matches_one_fail) auto
    then show ?thesis by (intro first_Opt_none matches_Seq_fail) simp
  qed
  have s4: "first (Opt (Group ''sign'' (one (\<lambda>c. c = CHR ''+'' \<or> c = CHR ''-'')))) ?t2
      (case sg of None \<Rightarrow> [] | Some c \<Rightarrow> [(''sign'', [c])]) ?t3"
  proof (cases sg)
    case None
    then have "matches (one (\<lambda>c. c = CHR ''+'' \<or> c = CHR ''-'')) ?t3 = []"
      using L d nd by (intro matches_one_fail) auto
    with None show ?thesis by (auto intro!: first_Opt_none)
  next
    case (Some c)
    then have "first (one (\<lambda>c. c = CHR ''+'' \<or> c = CHR ''-'')) ([c] @ ?t3) [] ?t3"
      using L first_one [of "\<lambda>c. c = CHR ''+'' \<or> c = CHR ''-''" c ?t3] by auto
    from first_Opt [OF first_Group [OF this]] Some show ?thesis by simp
  qed
  have s5: "first (star py_isspace) ?t3 [] ?t4"
    using sp(3) d nd by (intro first_star) auto
  have "stops_number ?t5"
    using sp(4,5) L letter_not_digit space_stops_number
    by (cases w2; cases u) (auto simp: stops_number_def is_letter_def is_upper_letter_def
        is_lower_letter_def between_def)
  then have s6: "first (Group ''number'' NUMBER_RE) ?t4 [(''number'', n)] ?t5"
    using first_Group [OF first_NUMBER [OF n]] by fastforce
  have s7: "first (star py_isspace) ?t5 [] ?t6"
    using sp(4) L unit_char_not_space by (intro first_star) (cases u; auto)+
  have s8: "first (Opt (Group ''unit'' (plus is_unit_char))) ?t6
      (if u = [] then [] else [(''unit'', u)]) w3"
  proof (cases "u = []")
    case True
    then have "?t6 = []" using L by simp
    then have "matches (plus is_unit_char) ?t6 = []" by (intro matches_plus_fail) simp
    with True show ?thesis by (auto intro!: first_Opt_none)
  next
    case False
    have "first (plus is_unit_char) (u @ w3) [] w3"
      using L sp(5) False unit_char_not_space by (intro first_plus) (cases w3; auto)+
    from first_Opt [OF first_Group [OF this]] False show ?thesis by simp
  qed
  have s9: "first (star py_isspace) w3 [] []"
    using sp(5) first_star [of py_isspace w3 "[]"] by simp
  show ?thesis
    using first_Seq [OF s0 first_Seq [OF s1 first_Seq [OF s2 first_Seq [OF s3 first_Seq [OF s4
      first_Seq [OF s5 first_Seq [OF s6 first_Seq [OF s7 first_Seq [OF s8
      first_Seq [OF s9 first_Eos]]]]]]]]]]
    unfolding WEIGHT_RE_def weight_text_def weight_groups_def by simp
qed

section \<open>Markers\<close>

lemma join_head: "\<exists>m. py_join sep ((c # u) # us) = c # m"
  by (cases us) simp_all

lemma upper_char_other: "\<not> is_letter c \<Longrightarrow> upper_char c = c"
  by (simp add: upper_char_def is_letter_def)

text \<open>Text that starts with neither a letter nor a blank is never a status word.\<close>

lemma marker_head:
  assumes "\<not> py_isspace c" "\<not> is_letter c"
  shows "\<exists>m. status_marker (c # cs) = c # m"
proof -
  have up: "py_upper (c # cs) = c # py_upper cs"
    using upper_char_other [OF assms(2)] by (simp add: py_upper_def)
  have "\<exists>u us. py_split (c # py_upper cs) = (c # u) # us"
    by (subst py_split.simps) (simp add: assms(1))
  then obtain m where m: "py_join '' '' (py_split (py_upper (c # cs))) = c # m"
    using up join_head by metis
  have "c \<noteq> CHR ''S''"
    using assms(2) by (auto simp: is_letter_def is_upper_letter_def between_def)
  then have "\<not> startswith (c # m) ''STAT ''" by (simp add: startswith_def)
  with m show ?thesis by (simp add: status_marker_def)
qed

lemma strip_head:
  assumes "list_all py_isspace w" "\<not> py_isspace c"
  shows "\<exists>cs'. py_strip (w @ c # cs) = c # cs'"
proof -
  have "py_lstrip (w @ c # cs) = c # cs"
    using assms by (simp add: py_lstrip_def dropWhile_append2 list_all_iff)
  moreover have "\<exists>x. dropWhile py_isspace (rev cs @ [c]) = rev x @ [c]"
  proof (induction cs rule: rev_induct)
    case (snoc a as)
    show ?case
    proof (cases "py_isspace a")
      case False
      then show ?thesis by (intro exI [where x = "as @ [a]"]) simp
    qed (use snoc in simp)
  qed (simp add: assms)
  ultimately show ?thesis by (auto simp: py_strip_def py_rstrip_def)
qed

definition marker_words :: "string list" where
  "marker_words =
     OVERLOAD_MARKERS @ UNDERLOAD_MARKERS @ REFUSAL_MARKERS @ SPECIAL_NON_WEIGHT_MARKERS @
     AUTOPRINT_SPECIALS"

lemma marker_words_letters:
  assumes "w \<in> set marker_words"
  shows "\<exists>c cs. w = c # cs \<and> is_letter c"
proof -
  have "list_all (\<lambda>w. w \<noteq> [] \<and> is_letter (hd w)) marker_words" by code_simp
  with assms have "w \<noteq> []" "is_letter (hd w)" by (auto simp: list_all_iff)
  then show ?thesis by (cases w) auto
qed

lemma plain_marker:
  assumes "\<not> py_isspace c" "\<not> is_letter c"
  shows "status_marker (c # cs) \<notin> set marker_words" "\<not> is_refusal_marker (status_marker (c # cs))"
proof -
  obtain m where m: "status_marker (c # cs) = c # m" using marker_head [OF assms] by blast
  show "status_marker (c # cs) \<notin> set marker_words"
    using marker_words_letters [of "c # m"] assms(2) m by auto
  then have "status_marker (c # cs) \<notin> set REFUSAL_MARKERS" by (simp add: marker_words_def)
  moreover have "is_letter CHR ''E''"
    by (simp add: is_letter_def is_upper_letter_def between_def)
  then have "\<not> startswith (c # m) ''ERR ''"
    using assms(2) by (auto simp: startswith_def)
  ultimately show "\<not> is_refusal_marker (status_marker (c # cs))"
    by (simp add: is_refusal_marker_def m)
qed

section \<open>The two classifiers agree\<close>

text \<open>Erasing the groups of the weight expression gives the autoprint expression.\<close>

lemma weight_autoprint_lockstep:
  "re_match AUTOPRINT_RE s = None \<longleftrightarrow> re_match WEIGHT_RE s = None"
  by (simp only: re_match_None AUTOPRINT_RE_def WEIGHT_RE_def seqs.simps rests_Seq rests_Group
      rests_Opt rests_opt_plus [unfolded rests_Opt])

lemma re_match_Some: "re_match r s = Some m \<Longrightarrow> \<exists>t. (m, t) \<in> set (matches r s)"
  by (auto simp: re_match_def split: list.splits prod.splits)

lemma opt_group_none:
  "(c, t) \<in> set (matches (Opt (Group n a)) s) \<Longrightarrow> map_of c n = None \<Longrightarrow> c = [] \<and> t = s"
  by (auto simp: map_of_eq_None_iff)

lemma star_star: "r \<in> rests (star p) s \<Longrightarrow> t \<in> rests (star p) r \<Longrightarrow> t \<in> rests (star p) s"
  by (auto simp: rests_star)

text \<open>A weight match that captured nothing but the number is a bare number.\<close>

lemma bare_of_fragment:
  assumes m: "(m, t) \<in> set (matches WEIGHT_RE s)"
    and none: "map_of m ''unstable'' = None" "map_of m ''id'' = None" "map_of m ''sign'' = None"
      "map_of m ''unit'' = None"
  shows "rests BARE_NUMBER_RE s \<noteq> {}"
proof -
  from m obtain c0 r0 c1 r1 c2 r2 c3 r3 c4 r4 c5 r5 c6 r6 c7 r7 c8 r8 c9 r9 cx where
    s0: "(c0, r0) \<in> set (matches (star py_isspace) s)"
    and s1: "(c1, r1) \<in> set (matches (Opt (Group ''unstable'' (lit CHR ''?''))) r0)"
    and s2: "(c2, r2) \<in> set (matches (star py_isspace) r1)"
    and s3: "(c3, r3) \<in> set (matches (Opt (Seq (Group ''id'' (Seq (one is_letter)
        (Class is_word_space_char 0 (Some 5)))) (plus py_isspace))) r2)"
    and s4: "(c4, r4) \<in> set (matches (Opt (Group ''sign''
        (one (\<lambda>c. c = CHR ''+'' \<or> c = CHR ''-'')))) r3)"
    and s5: "(c5, r5) \<in> set (matches (star py_isspace) r4)"
    and s6: "(c6, r6) \<in> set (matches (Group ''number'' NUMBER_RE) r5)"
    and s7: "(c7, r7) \<in> set (matches (star py_isspace) r6)"
    and s8: "(c8, r8) \<in> set (matches (Opt (Group ''unit'' (plus is_unit_char))) r7)"
    and s9: "(c9, r9) \<in> set (matches (star py_isspace) r8)"
    and sx: "(cx, t) \<in> set (matches Eos r9)"
    and m': "m = c0 @ c1 @ c2 @ c3 @ c4 @ c5 @ c6 @ c7 @ c8 @ c9 @ cx"
    unfolding WEIGHT_RE_def seqs.simps in_matches_Seq
    by (elim exE conjE) (rule that, assumption+, simp)
  have nu: "map_of c1 ''unstable'' = None" "map_of c3 ''id'' = None" "map_of c4 ''sign'' = None"
    "map_of c8 ''unit'' = None"
    using none unfolding m' map_of_append map_add_None by auto
  have e1: "r1 = r0" using opt_group_none [OF s1 nu(1)] by blast
  have e3: "r3 = r2"
    using s3 nu(2) unfolding in_matches_Opt in_matches_Seq in_matches_Group by fastforce
  have e4: "r4 = r3" using opt_group_none [OF s4 nu(3)] by blast
  have e8: "r8 = r7" using opt_group_none [OF s8 nu(4)] by blast
  have "r5 \<in> rests (star py_isspace) s"
    using in_matches_rests [OF s0] in_matches_rests [OF s2] in_matches_rests [OF s5] e1 e3 e4
    by (blast intro: star_star)
  moreover have "r6 \<in> rests NUMBER_RE r5" using in_matches_rests [OF s6] by (simp add: rests_Group)
  moreover have "r9 \<in> rests (star py_isspace) r6"
    using in_matches_rests [OF s7] in_matches_rests [OF s9] e8 by (blast intro: star_star)
  moreover have "t \<in> rests Eos r9" using in_matches_rests [OF sx] .
  ultimately show ?thesis unfolding BARE_NUMBER_RE_def seqs.simps rests_Seq by blast
qed

text \<open>On a bare number the weight expression captures just the number.\<close>

lemma fragment_of_bare:
  assumes "rests BARE_NUMBER_RE s \<noteq> {}"
  shows "\<exists>n. re_match WEIGHT_RE s = Some [(''number'', n)]"
proof -
  from assms obtain a b c d where "a \<in> rests (star py_isspace) s" "b \<in> rests NUMBER_RE a"
    "c \<in> rests (star py_isspace) b" "d \<in> rests Eos c"
    unfolding BARE_NUMBER_RE_def seqs.simps rests_Seq by blast
  then obtain w0 n w2 where s: "s = w0 @ n @ w2" and
    L: "list_all py_isspace w0" "number_text n" "list_all py_isspace w2"
    by (auto simp: rests_star rests_Eos dest!: NUMBER_rests split: if_splits)
  have "weight_layout w0 False [] None [] n w2 [] []"
    using L by (simp add: weight_layout_def)
  from re_match_first [OF first_weight [OF this]]
  show ?thesis by (simp add: weight_text_def weight_groups_def s)
qed

section \<open>Properties\<close>

text \<open>
  Splitting a payload into lines is lossless and unambiguous: the result is the one list of
  complete lines (each ending with its only newline) whose concatenation is the payload, and
  splitting fails, with \<open>SartoriusFrameError\<close>, exactly on a nonempty payload that does not end
  with a newline.
\<close>

theorem split_lines_exact:
  "(split_lines raw = Inr ls \<longleftrightarrow> concat ls = raw \<and> list_all complete_line ls) \<and>
   fails_with SartoriusFrameError (split_lines raw) = (raw \<noteq> [] \<and> last raw \<noteq> 10) \<and>
   is_ok (split_lines raw) = (raw = [] \<or> last raw = 10)"
proof (intro conjI)
  show "split_lines raw = Inr ls \<longleftrightarrow> concat ls = raw \<and> list_all complete_line ls"
    by (rule split_lines_iff)
  have "(is_ok (split_lines raw) \<longleftrightarrow> raw = [] \<or> last raw = 10) \<and>
    (fails_with SartoriusFrameError (split_lines raw) \<longleftrightarrow> raw \<noteq> [] \<and> last raw \<noteq> 10)"
  proof (cases "split_lines raw")
    case (Inl e)
    with split_lines_from_error [of raw raw "[]" e] show ?thesis by (simp add: split_lines_def)
  next
    case (Inr xs)
    with split_lines_iff [of raw xs] last_concat_lines [of xs] show ?thesis by auto
  qed
  then show "fails_with SartoriusFrameError (split_lines raw) = (raw \<noteq> [] \<and> last raw \<noteq> 10)"
    "is_ok (split_lines raw) = (raw = [] \<or> last raw = 10)" by blast+
qed

lemma weight_line_ok:
  assumes "ascii_decode (strip_line_terminator raw) = Some text" "looks_like_weight text"
  shows "is_ok (parse_weight_line raw)"
  using assms ascii_decode_replace_eq [OF assms(1)]
  by (auto simp: parse_weight_line_def looks_like_weight_def Let_def split: option.splits)

definition reading_sane :: "bytes \<Rightarrow> Reading \<Rightarrow> bool" where
  "reading_sane raw r \<longleftrightarrow>
     rd_raw r = raw \<and> rd_protocol r = SBI \<and>
     (rd_value r = None) = (rd_overload r \<or> rd_underload r) \<and>
     \<not> (rd_overload r \<and> rd_underload r) \<and> \<not> (rd_stable r \<and> rd_value r = None) \<and>
     (rd_decimals r = None) = (rd_value r = None)"

lemma over_under_disjoint: "m \<in> set OVERLOAD_MARKERS \<Longrightarrow> m \<notin> set UNDERLOAD_MARKERS"
  by (auto simp: OVERLOAD_MARKERS_def UNDERLOAD_MARKERS_def)

lemma parse_weight_line_sane: "parse_weight_line raw = Inr r \<Longrightarrow> reading_sane raw r"
  by (auto simp: parse_weight_line_def Let_def reading_sane_def dest: over_under_disjoint
      split: if_splits option.splits)

text \<open>
  A line parses exactly when it is ASCII, and fails with \<open>SartoriusParseError\<close> otherwise.
  Exactly the lines classified as weights carry a reading; its value is missing exactly when
  it reports overload or underload, never both, and then it is not stable.
\<close>

theorem parse_line_total:
  "is_ok (parse_line raw) = list_all is_ascii_byte (strip_line_terminator raw) \<and>
   fails_with SartoriusParseError (parse_line raw) = (\<not> is_ok (parse_line raw)) \<and>
   (\<forall>l. parse_line raw = Inr l \<longrightarrow>
      sl_raw l = raw \<and> (sl_kind l = WEIGHT) = (sl_reading l \<noteq> None) \<and>
      (\<forall>r. sl_reading l = Some r \<longrightarrow> reading_sane raw r))"
proof (cases "ascii_decode (strip_line_terminator raw)")
  case None
  then show ?thesis
    by (auto simp: parse_line_def ascii_decode_def is_ok_def raise_ctx_def split: if_splits)
next
  case (Some body)
  then have asc: "list_all is_ascii_byte (strip_line_terminator raw)"
    by (simp add: ascii_decode_def split: if_splits)
  have ok: "is_ok (parse_line raw)"
    using Some weight_line_ok [OF Some]
    by (cases "parse_weight_line raw") (auto simp: parse_line_def Let_def)
  then obtain l where l: "parse_line raw = Inr l" by (cases "parse_line raw") auto
  have "sl_raw l = raw \<and> (sl_kind l = WEIGHT) = (sl_reading l \<noteq> None) \<and>
      (\<forall>r. sl_reading l = Some r \<longrightarrow> reading_sane raw r)"
    using l Some parse_weight_line_sane
    by (auto simp: parse_line_def Let_def res_bind_eq_Inr split: if_splits)
  with asc l show ?thesis by auto
qed

theorem parse_line_total_witness:
  "\<exists>l r. parse_line (ascii_lit ''Stat High'' @ [13, 10]) = Inr l \<and> sl_reading l = Some r \<and>
     reading_sane (ascii_lit ''Stat High'' @ [13, 10]) r"
proof -
  let ?raw = "ascii_lit ''Stat High'' @ [13, 10]"
  obtain l r where l: "parse_line ?raw = Inr l" and r: "sl_reading l = Some r"
  proof -
    have "case parse_line ?raw of Inr l \<Rightarrow> sl_reading l \<noteq> None | Inl e \<Rightarrow> False" by code_simp
    then show ?thesis using that by (auto split: sum.splits)
  qed
  with parse_line_total [of ?raw] show ?thesis by blast
qed

text \<open>
  The detector of unsolicited output and the line parser agree: a line that the detector
  takes for autoprint output never parses as identity text or as empty, and every line that
  parses as a weight with a value is taken for autoprint output.
\<close>

theorem autoprint_parser_agreement:
  assumes "parse_line raw = Inr l"
  shows "(is_autoprint_line raw \<longrightarrow> sl_kind l \<noteq> IDENTITY \<and> sl_kind l \<noteq> EMPTY) \<and>
     (\<forall>r. sl_reading l = Some r \<longrightarrow> rd_value r \<noteq> None \<longrightarrow> is_autoprint_line raw)"
proof -
  from assms obtain body where body: "ascii_decode (strip_line_terminator raw) = Some body"
    by (cases "ascii_decode (strip_line_terminator raw)") (auto simp: parse_line_def)
  note rep = ascii_decode_replace_eq [OF body]
  let ?m = "status_marker (py_strip body)"
  have special: "?m \<in> set AUTOPRINT_SPECIALS \<Longrightarrow>
      ?m \<in> set SPECIAL_NON_WEIGHT_MARKERS \<or> ?m \<in> set OVERLOAD_MARKERS \<or> ?m \<in> set UNDERLOAD_MARKERS"
    by (auto simp: AUTOPRINT_SPECIALS_def SPECIAL_NON_WEIGHT_MARKERS_def OVERLOAD_MARKERS_def
        UNDERLOAD_MARKERS_def)
  have frag: "re_match BARE_NUMBER_RE body \<noteq> None"
    if "re_match WEIGHT_RE body = Some m" "is_bare_number_fragment body m" for m
  proof -
    from re_match_Some [OF that(1)] obtain t where "(m, t) \<in> set (matches WEIGHT_RE body)"
      by blast
    from bare_of_fragment [OF this] that(2) show ?thesis
      by (simp add: is_bare_number_fragment_def group_def re_match_None)
  qed
  have "sl_kind l \<noteq> IDENTITY \<and> sl_kind l \<noteq> EMPTY" if ap: "is_autoprint_line raw"
  proof -
    have ne: "py_strip body \<noteq> []" using ap rep by (auto simp: is_autoprint_line_def Let_def)
    have "looks_like_weight body \<or> ?m \<in> set SPECIAL_NON_WEIGHT_MARKERS"
    proof (cases "re_match WEIGHT_RE body")
      case None
      then have "re_match AUTOPRINT_RE body = None" by (simp add: weight_autoprint_lockstep)
      with ap rep special show ?thesis
        by (auto simp: is_autoprint_line_def looks_like_weight_def Let_def split: if_splits)
    next
      case (Some m)
      have "\<not> is_bare_number_fragment body m"
        using ap rep frag [OF Some]
        by (auto simp: is_autoprint_line_def is_bare_number_fragment_def Let_def split: if_splits)
      with Some show ?thesis by (simp add: looks_like_weight_def Let_def)
    qed
    with assms body ne show ?thesis
      by (auto simp: parse_line_def Let_def res_bind_eq_Inr split: if_splits)
  qed
  moreover have "is_autoprint_line raw" if r: "sl_reading l = Some r" "rd_value r \<noteq> None" for r
  proof -
    have ne: "py_strip body \<noteq> []" and lw: "looks_like_weight body"
      and pw: "parse_weight_line raw = Inr r"
      using assms body r(1) by (auto simp: parse_line_def Let_def res_bind_eq_Inr split: if_splits)
    have nm: "?m \<notin> set OVERLOAD_MARKERS" "?m \<notin> set UNDERLOAD_MARKERS"
      using pw r(2) rep by (auto simp: parse_weight_line_def Let_def split: if_splits)
    with lw obtain m where m: "re_match WEIGHT_RE body = Some m" "\<not> is_bare_number_fragment body m"
      by (auto simp: looks_like_weight_def Let_def split: option.splits)
    have "\<not> (re_match BARE_NUMBER_RE body \<noteq> None \<and>
        (body = py_strip body \<or> length body < MIN_FORMATTED_WEIGHT_BODY_CHARS))"
    proof (cases "re_match BARE_NUMBER_RE body = None")
      case False
      then obtain n where "m = [(''number'', n)]"
        using fragment_of_bare [of body] m(1) by (auto simp: re_match_None)
      with m(2) show ?thesis by (simp add: is_bare_number_fragment_def group_def)
    qed simp
    moreover have "re_match AUTOPRINT_RE body \<noteq> None"
      using m(1) weight_autoprint_lockstep [of body] by simp
    ultimately show ?thesis using ne rep by (simp add: is_autoprint_line_def Let_def)
  qed
  ultimately show ?thesis by blast
qed

theorem autoprint_parser_agreement_witness:
  "is_autoprint_line (ascii_lit ''+ 1.5 g'' @ [13, 10]) \<and>
   (\<exists>l r. parse_line (ascii_lit ''+ 1.5 g'' @ [13, 10]) = Inr l \<and> sl_reading l = Some r \<and>
      rd_value r \<noteq> None)"
proof -
  let ?raw = "ascii_lit ''+ 1.5 g'' @ [13, 10]"
  obtain l r where l: "parse_line ?raw = Inr l" and r: "sl_reading l = Some r" "rd_value r \<noteq> None"
  proof -
    have "case parse_line ?raw of
            Inr l \<Rightarrow> (case sl_reading l of Some r \<Rightarrow> rd_value r \<noteq> None | None \<Rightarrow> False)
          | Inl e \<Rightarrow> False" by code_simp
    then show ?thesis using that by (auto split: sum.splits option.splits)
  qed
  with autoprint_parser_agreement [OF l] show ?thesis by blast
qed

text \<open>The line a balance prints for a weight: sign, padding, digits, blank, unit.\<close>

definition weight_line :: "bool \<Rightarrow> char \<Rightarrow> string \<Rightarrow> string \<Rightarrow> string \<Rightarrow> string \<Rightarrow> bytes" where
  "weight_line motion sg pad ip fp unit =
     ascii_lit (weight_text [] motion [] (Some sg) pad (ip @ CHR ''.'' # fp) '' '' unit []) @ [13, 10]"

lemma strip_terminator_line: "strip_line_terminator (u @ [13, 10]) = u"
  by (simp add: strip_line_terminator_def LINE_TERMINATOR_def)

lemma digit_ascii: "is_digit c \<Longrightarrow> is_ascii_char c"
  by (simp add: is_digit_def between_def is_ascii_char_def)

lemma parts_of_number:
  assumes "list_all is_digit ip"
  shows "int_part (ip @ CHR ''.'' # fp) = ip" "frac_part (ip @ CHR ''.'' # fp) = fp"
    "decimal_places (ip @ CHR ''.'' # fp) = int (length fp)"
proof -
  have nd: "\<forall>c \<in> set ip. c \<noteq> CHR ''.''"
    using assms dot_not_digit by (auto simp: list_all_iff)
  then have t: "takeWhile (\<lambda>c. c \<noteq> CHR ''.'') (ip @ CHR ''.'' # fp) = ip"
    and d: "dropWhile (\<lambda>c. c \<noteq> CHR ''.'') (ip @ CHR ''.'' # fp) = CHR ''.'' # fp"
    by (simp_all add: takeWhile_append2 dropWhile_append2)
  then show "int_part (ip @ CHR ''.'' # fp) = ip" "frac_part (ip @ CHR ''.'' # fp) = fp"
    by (simp_all add: int_part_def frac_part_def)
  then show "decimal_places (ip @ CHR ''.'' # fp) = int (length fp)"
    by (simp add: decimal_places_def)
qed



lemma rests_star_stuck: "s = [] \<or> \<not> p (hd s) \<Longrightarrow> t \<in> rests (star p) s \<Longrightarrow> t = s"
  by (auto simp: rests_star list_all_iff hd_append split: if_splits)

lemma label_no_weight:
  assumes "list_all is_letter lab" "lab \<noteq> []"
  shows "rests WEIGHT_RE (lab @ CHR ''.'' # q) = {}"
proof (rule ccontr)
  let ?s = "lab @ CHR ''.'' # q"
  obtain a where a: "hd ?s = a" "is_letter a" using assms by (cases lab) auto
  have ns: "\<not> py_isspace (hd ?s)" using a letter_not_space by simp
  assume "rests WEIGHT_RE ?s \<noteq> {}"
  then obtain r0 r1 r2 r3 r4 r5 r6 where r0: "r0 \<in> rests (star py_isspace) ?s"
    and r1: "r1 \<in> rests (Opt (Group ''unstable'' (lit CHR ''?''))) r0"
    and r2: "r2 \<in> rests (star py_isspace) r1"
    and r3: "r3 \<in> rests (Opt (Seq (Group ''id'' (Seq (one is_letter)
        (Class is_word_space_char 0 (Some 5)))) (plus py_isspace))) r2"
    and r4: "r4 \<in> rests (Opt (Group ''sign'' (one (\<lambda>c. c = CHR ''+'' \<or> c = CHR ''-'')))) r3"
    and r5: "r5 \<in> rests (star py_isspace) r4" and r6: "r6 \<in> rests NUMBER_RE r5"
    unfolding WEIGHT_RE_def seqs.simps rests_Seq [of _ "Seq _ _"] rests_Group by blast
  have e0: "r0 = ?s" using rests_star_stuck [OF _ r0] ns by blast
  have "a \<noteq> CHR ''?''" "a \<noteq> CHR ''+''" "a \<noteq> CHR ''-''" using a(2) not_space_signs by auto
  then have e1: "r1 = ?s"
    using r1 a(1) unfolding e0 by (auto simp: rests_Opt rests_Group rests_lit)
  have e2: "r2 = ?s" using rests_star_stuck [OF _ r2] ns e1 by blast
  consider "r3 = ?s" | u v where "?s = u @ v @ r3" "list_all is_word_space_char u"
      "list_all py_isspace v" "v \<noteq> []"
  proof -
    from r3 have "r3 = ?s \<or> (\<exists>x y. x \<in> rests (one is_letter) ?s \<and>
        y \<in> rests (Class is_word_space_char 0 (Some 5)) x \<and> r3 \<in> rests (plus py_isspace) y)"
      unfolding e2 rests_Opt rests_Seq rests_Group by blast
    then show ?thesis
    proof
      assume "\<exists>x y. x \<in> rests (one is_letter) ?s \<and>
        y \<in> rests (Class is_word_space_char 0 (Some 5)) x \<and> r3 \<in> rests (plus py_isspace) y"
      then obtain c u v where "?s = c # u @ v @ r3" "is_letter c" "list_all is_word_space_char u"
        "list_all py_isspace v" "v \<noteq> []"
        by (auto simp: rests_one rests_Class_split rests_plus)
      then show ?thesis by (intro that(2) [of "c # u" v]) (auto simp: is_word_space_char_def)
    qed (use that(1) in blast)
  qed
  then show False
  proof cases
    case 1
    have "r4 = ?s"
      using r4 a(1) \<open>a \<noteq> CHR ''+''\<close> \<open>a \<noteq> CHR ''-''\<close> unfolding 1
      by (auto simp: rests_Opt rests_Group rests_one)
    then have "r5 = ?s" using rests_star_stuck [OF _ r5] ns by blast
    then obtain n where "?s = n @ r6" "number_text n" using NUMBER_rests [OF r6] by blast
    with number_head [of n] have "is_digit (hd ?s) \<or> hd ?s = CHR ''.''" by (simp add: hd_append)
    with number_start(2) a show False by metis
  next
    case 2
    let ?P = "\<lambda>c. c \<noteq> CHR ''.''"
    have "\<not> is_letter CHR ''.''" "\<not> py_isspace CHR ''.''" "\<not> is_word_space_char CHR ''.''"
      using dot_not_digit by (auto simp: is_letter_def is_upper_letter_def is_lower_letter_def
          between_def py_isspace_def is_word_space_char_def)
    then have nd: "\<forall>c \<in> set u. ?P c" "\<forall>c \<in> set v. ?P c" "\<forall>c \<in> set lab. ?P c"
      using 2 assms(1) unfolding list_all_iff by metis+
    have "takeWhile ?P ?s = lab" using nd(3) by (simp add: takeWhile_append2)
    moreover have "takeWhile ?P ?s = u @ v @ takeWhile ?P r3"
      unfolding 2(1) using nd by (simp add: takeWhile_append2)
    ultimately have "set v \<subseteq> set lab" by (metis set_append Un_upper1 Un_upper2 subset_trans)
    moreover have "hd v \<in> set v" using 2(4) by simp
    ultimately show False using 2(3) assms(1) letter_not_space by (auto simp: list_all_iff)
  qed
qed

text \<open>Normalisation keeps every printable character that is not a letter.\<close>

lemma split_keeps:
  "c \<in> set s \<Longrightarrow> \<not> py_isspace c \<Longrightarrow> \<exists>w \<in> set (py_split s). c \<in> set w"
proof (induction s rule: py_split.induct)
  case (1 s)
  have "c \<in> set (dropWhile py_isspace s)"
    using "1.prems" by (metis UnE set_append set_takeWhileD takeWhile_dropWhile_id)
  then obtain d ds where d: "dropWhile py_isspace s = d # ds" by (cases "dropWhile py_isspace s") auto
  let ?w = "takeWhile (\<lambda>x. \<not> py_isspace x) ds" and ?r = "dropWhile (\<lambda>x. \<not> py_isspace x) ds"
  have "c = d \<or> c \<in> set ?w \<or> c \<in> set ?r"
    using \<open>c \<in> set (dropWhile py_isspace s)\<close> d
    by (metis UnE set_ConsD set_append takeWhile_dropWhile_id)
  with "1.IH" [OF d] "1.prems"(2) d show ?case by (subst py_split.simps) auto
qed

lemma join_keeps: "w \<in> set ws \<Longrightarrow> c \<in> set w \<Longrightarrow> c \<in> set (py_join sep ws)"
  by (induction sep ws rule: py_join.induct) auto

lemma lstrip_keeps: "c \<in> set s \<Longrightarrow> \<not> py_isspace c \<Longrightarrow> c \<in> set (py_lstrip s)"
  unfolding py_lstrip_def by (metis UnE set_append set_takeWhileD takeWhile_dropWhile_id)

lemma strip_keeps: "c \<in> set s \<Longrightarrow> \<not> py_isspace c \<Longrightarrow> c \<in> set (py_strip s)"
  using lstrip_keeps [of c "rev (py_lstrip s)"] lstrip_keeps [of c s]
  by (simp add: py_strip_def py_rstrip_def py_lstrip_def)

lemma marker_keeps_dot: "CHR ''.'' \<in> set s \<Longrightarrow> CHR ''.'' \<in> set (status_marker s)"
proof -
  assume "CHR ''.'' \<in> set s"
  moreover have up: "upper_char CHR ''.'' = CHR ''.''" and ns: "\<not> py_isspace CHR ''.''"
    by (simp_all add: upper_char_def is_lower_letter_def between_def py_isspace_def)
  ultimately have "CHR ''.'' \<in> set (py_upper s)" by (force simp: py_upper_def)
  with ns have j: "CHR ''.'' \<in> set (py_join '' '' (py_split (py_upper s)))"
    by (metis split_keeps join_keeps)
  have "CHR ''.'' \<in> set (py_strip (removeprefix m ''STAT ''))"
    if "CHR ''.'' \<in> set m" for m
  proof (rule strip_keeps [OF _ ns])
    show "CHR ''.'' \<in> set (removeprefix m ''STAT '')"
    proof (cases "startswith m ''STAT ''")
      case True
      then have "take 5 m = ''STAT ''" by (simp add: startswith_def eval_nat_numeral)
      then have "m = ''STAT '' @ drop 5 m" by (metis append_take_drop_id)
      then have "CHR ''.'' \<in> set (''STAT '' @ drop 5 m)" using that by metis
      then show ?thesis using True by (simp add: removeprefix_def eval_nat_numeral)
    qed (simp add: removeprefix_def that)
  qed
  with j show ?thesis by (simp add: status_marker_def Let_def)
qed

text \<open>
  An identity reply whose label is letters followed by a period, such as
  \<open>SerNo.    0031801165\<close>, is never taken for a weight, neither by the parser nor by the
  autoprint detector (unless the whole text is one of the calibration notices), whatever digits
  follow the label.
\<close>

theorem dotted_label_not_weight:
  assumes "list_all is_letter lab" and "lab \<noteq> []"
    and "ascii_decode (strip_line_terminator raw) = Some (lab @ CHR ''.'' # q)"
  shows "(\<forall>l. parse_line raw = Inr l \<longrightarrow> sl_kind l \<noteq> WEIGHT) \<and>
     (is_autoprint_line raw \<longrightarrow> status_marker (py_strip (lab @ CHR ''.'' # q)) \<in> set AUTOPRINT_SPECIALS)"
proof (intro conjI allI impI notI)
  let ?t = "lab @ CHR ''.'' # q"
  have none: "re_match WEIGHT_RE ?t = None"
    using label_no_weight [OF assms(1,2)] by (simp add: re_match_None)
  have "\<not> py_isspace CHR ''.''" by (simp add: py_isspace_def)
  then have "CHR ''.'' \<in> set (status_marker (py_strip ?t))"
    by (intro marker_keeps_dot strip_keeps) simp_all
  moreover have "list_all (\<lambda>w. CHR ''.'' \<notin> set w) (OVERLOAD_MARKERS @ UNDERLOAD_MARKERS)"
    by code_simp
  ultimately have "\<not> looks_like_weight ?t"
    using none by (auto simp: looks_like_weight_def Let_def list_all_iff)
  moreover fix l assume "parse_line raw = Inr l" "sl_kind l = WEIGHT"
  ultimately show False
    using assms(3) by (auto simp: parse_line_def Let_def res_bind_eq_Inr split: if_splits)
next
  assume "is_autoprint_line raw"
  then show "status_marker (py_strip (lab @ CHR ''.'' # q)) \<in> set AUTOPRINT_SPECIALS"
    using label_no_weight [OF assms(1,2), of q] ascii_decode_replace_eq [OF assms(3)]
      weight_autoprint_lockstep [of "lab @ CHR ''.'' # q"]
    by (auto simp: is_autoprint_line_def Let_def re_match_None split: if_splits)
qed

theorem dotted_label_not_weight_witness:
  "\<exists>l. parse_line (ascii_lit ''SerNo.    0031801165'' @ [13, 10]) = Inr l \<and>
     sl_kind l = IDENTITY \<and> \<not> is_autoprint_line (ascii_lit ''SerNo.    0031801165'' @ [13, 10])"
proof -
  let ?raw = "ascii_lit ''SerNo.    0031801165'' @ [13, 10]"
  have "ascii_decode (strip_line_terminator ?raw) = Some (''SerNo'' @ CHR ''.'' # ''    0031801165'')"
    unfolding strip_terminator_line
    by (subst ascii_decode_lit) (simp_all add: is_ascii_char_def)
  note p = dotted_label_not_weight [OF _ _ this]
  have "list_all is_letter ''SerNo''"
    by (simp add: is_letter_def is_upper_letter_def is_lower_letter_def between_def)
  note p = p [OF this]
  have "status_marker (py_strip (''SerNo'' @ CHR ''.'' # ''    0031801165'')) \<notin> set AUTOPRINT_SPECIALS"
    by code_simp
  with p have "\<not> is_autoprint_line ?raw" by simp
  moreover have "case parse_line ?raw of Inr l \<Rightarrow> sl_kind l = IDENTITY | Inl e \<Rightarrow> False"
    by code_simp
  ultimately show ?thesis by (auto split: sum.splits)
qed

end
