(* ===== verification/Sbi_Client.thy ===== *)
theory Sbi_Client
  imports Sbi_Codec Transport_Fake Transport_Serial
begin

text \<open>
  \<open>protocol/sbi/client.py\<close>: SBI commands and unsolicited lines over one transport. The client
  keeps a queue of lines that were read while looking for autoprint output and not yet handed
  out. Its lock is held for each whole method, so a method is one step. The clock is read in
  one place only, the sniffing loop; the number of times the loop finds time left is given.
\<close>

record sbi_client =
  sc_pending :: "bytes list"
  sc_autoprint_active :: bool
  sc_disposed :: bool

definition SbiProtocolClient :: sbi_client where
  "SbiProtocolClient = \<lparr>sc_pending = [], sc_autoprint_active = False, sc_disposed = False\<rparr>"

definition sbi_dispose :: "sbi_client \<Rightarrow> sbi_client" where
  "sbi_dispose c = c\<lparr>sc_disposed := True\<rparr>"

definition sbi_opt_name :: "string \<Rightarrow> string option" where
  "sbi_opt_name s = (if s = [] then None else Some s)"

definition sbi_raise_if_disposed :: "sbi_client \<Rightarrow> string \<Rightarrow> bytes option \<Rightarrow> unit res" where
  "sbi_raise_if_disposed c command_name sbi_token =
     (if \<not> sc_disposed c then Inr ()
      else raise_ctx SartoriusConnectionError
             ([SetCommandName (sbi_opt_name command_name), SetSbiToken sbi_token,
               SetProtocol (Some ''sbi'')] @ extra [(''client_disposed'', XBool True)]))"

section \<open>Autoprint\<close>

text \<open>
  \<open>_queue_pending_front\<close>. \<open>split_lines\<close> does not fail on text that ends with a newline.
\<close>

definition queue_pending_front :: "bytes \<Rightarrow> sbi_client \<Rightarrow> sbi_client" where
  "queue_pending_front raw c =
     (if raw = [] then c
      else if \<not> endswith raw [10] then c\<lparr>sc_pending := raw # sc_pending c\<rparr>
      else case split_lines raw of
             Inr ls \<Rightarrow> c\<lparr>sc_pending := ls @ sc_pending c\<rparr>
           | Inl e \<Rightarrow> c)"

definition mark_autoprint_active :: "bytes option \<Rightarrow> sbi_client \<Rightarrow> sbi_client" where
  "mark_autoprint_active pending c =
     (let c = c\<lparr>sc_autoprint_active := True\<rparr>
      in case pending of None \<Rightarrow> c | Some raw \<Rightarrow> if raw = [] then c else queue_pending_front raw c)"

definition mark_autoprint_inactive :: "sbi_client \<Rightarrow> sbi_client" where
  "mark_autoprint_inactive c = c\<lparr>sc_autoprint_active := False\<rparr>"

text \<open>The sniffing loop; \<open>ticks\<close> counts the checks that still find the deadline ahead.\<close>

fun sniff_loop ::
  "'s transport_ops \<Rightarrow> nat \<Rightarrow> nat \<Rightarrow> sbi_client \<Rightarrow> 's \<Rightarrow> unit res \<times> sbi_client \<times> 's" where
  "sniff_loop ops max_lines 0 c s = (Inr (), c, s)"
| "sniff_loop ops max_lines (Suc ticks) c s =
     (if \<not> length (sc_pending c) < max_lines then (Inr (), c, s)
      else case tp_read_until ops LINE_TERMINATOR s of
             (Inl e, s') \<Rightarrow> if exn_is e SartoriusTimeoutError then (Inr (), c, s') else (Inl e, c, s')
           | (Inr raw, s') \<Rightarrow>
               let c = c\<lparr>sc_pending := sc_pending c @ [raw]\<rparr>
               in if is_autoprint_line raw then (Inr (), c\<lparr>sc_autoprint_active := True\<rparr>, s')
                  else sniff_loop ops max_lines ticks c s')"

definition detect_autoprint ::
  "'s transport_ops \<Rightarrow> int \<Rightarrow> nat \<Rightarrow> sbi_client \<Rightarrow> 's \<Rightarrow> bool res \<times> sbi_client \<times> 's" where
  "detect_autoprint ops max_lines ticks c s =
     (if max_lines \<le> 0 then (Inl (Py ValueError), c, s)
      else case sbi_raise_if_disposed c ''detect_autoprint'' None of
             Inl e \<Rightarrow> (Inl e, c, s)
           | Inr _ \<Rightarrow>
               case sniff_loop ops (nat max_lines) ticks c s of
                 (Inl e, c', s') \<Rightarrow> (Inl e, c', s')
               | (Inr _, c', s') \<Rightarrow> (Inr (sc_autoprint_active c'), c', s'))"

definition refresh_autoprint_state ::
  "'s transport_ops \<Rightarrow> int \<Rightarrow> nat \<Rightarrow> sbi_client \<Rightarrow> 's \<Rightarrow> bool res \<times> sbi_client \<times> 's" where
  "refresh_autoprint_state ops max_lines ticks c s =
     (if max_lines \<le> 0 then (Inl (Py ValueError), c, s)
      else case sbi_raise_if_disposed c ''refresh_autoprint_state'' None of
             Inl e \<Rightarrow> (Inl e, c, s)
           | Inr _ \<Rightarrow>
               let c = c\<lparr>sc_pending := [], sc_autoprint_active := False\<rparr>
               in case sniff_loop ops (nat max_lines) ticks c s of
                    (Inl e, c', s') \<Rightarrow> (Inl e, c', s')
                  | (Inr _, c', s') \<Rightarrow> (Inr (sc_autoprint_active c'), c', s'))"

section \<open>Commands\<close>

definition refusal_error :: "bytes \<Rightarrow> string \<Rightarrow> bytes option \<Rightarrow> SbiLine \<Rightarrow> 'a res" where
  "refusal_error raw command_name sbi_token line =
     raise_ctx SartoriusCommandRejectedError
       ([SetCommandName (sbi_opt_name command_name), SetSbiToken sbi_token,
         SetRawResponse (Some (RawBytes raw)), SetProtocol (Some ''sbi'')] @
        extra [(''reason'', XStr (sl_text line))])"

definition parse_or_drain ::
  "'s transport_ops \<Rightarrow> bytes \<Rightarrow> string \<Rightarrow> bytes option \<Rightarrow> 's \<Rightarrow> SbiReply res \<times> 's" where
  "parse_or_drain ops raw command_name sbi_token s =
     (case parse_reply raw of
        Inl e \<Rightarrow> (Inl e, tp_drain_input ops s)
      | Inr reply \<Rightarrow>
          (case filter (\<lambda>l. sl_kind l = REFUSAL) (sr_lines reply) of
             line # ls \<Rightarrow> (refusal_error raw command_name sbi_token line, s)
           | [] \<Rightarrow> (Inr reply, s)))"

text \<open>The list comprehension that reads \<open>expect_lines\<close> lines.\<close>

fun read_chunks :: "'s transport_ops \<Rightarrow> nat \<Rightarrow> 's \<Rightarrow> bytes list res \<times> 's" where
  "read_chunks ops 0 s = (Inr [], s)"
| "read_chunks ops (Suc n) s =
     (case tp_read_until ops LINE_TERMINATOR s of
        (Inl e, s1) \<Rightarrow> (Inl e, s1)
      | (Inr chunk, s1) \<Rightarrow>
          (case read_chunks ops n s1 of
             (Inl e, s2) \<Rightarrow> (Inl e, s2)
           | (Inr got, s2) \<Rightarrow> (Inr (chunk # got), s2)))"

definition sbi_execute_locked ::
  "'s transport_ops \<Rightarrow> bytes \<Rightarrow> string \<Rightarrow> bytes option \<Rightarrow> nat \<Rightarrow> sbi_client \<Rightarrow> 's \<Rightarrow> SbiReply res \<times> 's"
where
  "sbi_execute_locked ops request command_name sbi_token expect_lines c s0 =
     (case sbi_raise_if_disposed c command_name sbi_token of
        Inl e \<Rightarrow> (Inl e, s0)
      | Inr _ \<Rightarrow>
     (case tp_write ops request s0 of
        (Inl e, s1) \<Rightarrow> (Inl e, s1)
      | (Inr _, s1) \<Rightarrow>
          if expect_lines = 0 then (Inr \<lparr>sr_lines = [], sr_raw = []\<rparr>, s1)
          else (case read_chunks ops expect_lines s1 of
                  (Inl e, s2) \<Rightarrow> (Inl e, s2)
                | (Inr got, s2) \<Rightarrow>
                    parse_or_drain ops (concat got) command_name sbi_token s2)))"

definition sbi_execute ::
  "'s transport_ops \<Rightarrow> bytes \<Rightarrow> string \<Rightarrow> bytes option \<Rightarrow> int \<Rightarrow> sbi_client \<Rightarrow> 's \<Rightarrow> SbiReply res \<times> 's"
where
  "sbi_execute ops request command_name sbi_token expect_lines c s =
     (if expect_lines < 0 then (Inl (Py ValueError), s)
      else sbi_execute_locked ops request command_name sbi_token (nat expect_lines) c s)"

definition sbi_read_line ::
  "'s transport_ops \<Rightarrow> string \<Rightarrow> sbi_client \<Rightarrow> 's \<Rightarrow> SbiReply res \<times> sbi_client \<times> 's" where
  "sbi_read_line ops command_name c s =
     (case sbi_raise_if_disposed c command_name None of
        Inl e \<Rightarrow> (Inl e, c, s)
      | Inr _ \<Rightarrow>
          (case sc_pending c of
             raw # rest \<Rightarrow>
               let c = c\<lparr>sc_pending := rest\<rparr>
               in (case parse_or_drain ops raw command_name None s of (r, s') \<Rightarrow> (r, c, s'))
           | [] \<Rightarrow>
               (case tp_read_until ops LINE_TERMINATOR s of
                  (Inl e, s') \<Rightarrow> (Inl e, c, s')
                | (Inr raw, s') \<Rightarrow>
                    (case parse_or_drain ops raw command_name None s' of (r, s'') \<Rightarrow> (r, c, s'')))))"

section \<open>Facts\<close>

text \<open>The outcome of a complete reply payload.\<close>

definition reply_outcome :: "bytes \<Rightarrow> string \<Rightarrow> bytes option \<Rightarrow> SbiReply res" where
  "reply_outcome raw command_name sbi_token =
     res_bind (parse_reply raw) (\<lambda>reply.
       case filter (\<lambda>l. sl_kind l = REFUSAL) (sr_lines reply) of
         line # ls \<Rightarrow> refusal_error raw command_name sbi_token line
       | [] \<Rightarrow> Inr reply)"

text \<open>A line as the device ends it: one CR LF, at the end.\<close>

definition crlf_line :: "bytes \<Rightarrow> bool" where
  "crlf_line l \<longleftrightarrow> 2 \<le> length l \<and> find_sub LINE_TERMINATOR l = Some (length l - 2)"

lemma length_LINE_TERMINATOR [simp]: "length LINE_TERMINATOR = 2"
  by (simp add: LINE_TERMINATOR_def)

lemma parse_or_drain_outcome:
  "parse_or_drain ops raw nm tok s =
     (reply_outcome raw nm tok, if is_ok (parse_reply raw) then s else tp_drain_input ops s)"
  by (auto simp: parse_or_drain_def reply_outcome_def split: sum.splits list.splits)

lemma parse_reply_raw: "parse_reply raw = Inr reply \<Longrightarrow> sr_raw reply = raw"
  by (auto simp: parse_reply_def res_bind_eq_Inr)

lemma reply_outcome_ok:
  "reply_outcome raw nm tok = Inr reply \<Longrightarrow> parse_reply raw = Inr reply \<and> sr_raw reply = raw \<and>
     list_all (\<lambda>l. sl_kind l \<noteq> REFUSAL) (sr_lines reply)"
proof -
  assume o: "reply_outcome raw nm tok = Inr reply"
  then obtain x where x: "parse_reply raw = Inr x"
    and f: "(case filter (\<lambda>l. sl_kind l = REFUSAL) (sr_lines x) of
         line # ls \<Rightarrow> refusal_error raw nm tok line | [] \<Rightarrow> Inr x) = Inr reply"
    by (auto simp: reply_outcome_def res_bind_eq_Inr)
  from f have e: "filter (\<lambda>l. sl_kind l = REFUSAL) (sr_lines x) = []" "x = reply"
    by (auto simp: refusal_error_def split: list.splits)
  with x parse_reply_raw [OF x] show ?thesis by (auto simp: filter_empty_conv list_all_iff)
qed

text \<open>
  Sniffing for autoprint output and reading unsolicited lines, in any order, up to the first
  error; the payloads that were handed out are collected.
\<close>

datatype sbi_op = Sniff int nat | NextLine

fun run_sbi ::
  "'s transport_ops \<Rightarrow> sbi_op list \<Rightarrow> sbi_client \<Rightarrow> 's \<Rightarrow> (bytes list \<times> sbi_client \<times> 's) res" where
  "run_sbi ops [] c s = Inr ([], c, s)"
| "run_sbi ops (Sniff m ticks # qs) c s =
     (case detect_autoprint ops m ticks c s of
        (Inl e, _) \<Rightarrow> Inl e
      | (Inr _, c', s') \<Rightarrow> run_sbi ops qs c' s')"
| "run_sbi ops (NextLine # qs) c s =
     (case sbi_read_line ops ''sbi_autoprint'' c s of
        (Inl e, _) \<Rightarrow> Inl e
      | (Inr reply, c', s') \<Rightarrow>
          (case run_sbi ops qs c' s' of
             Inl e \<Rightarrow> Inl e
           | Inr (out, c'', s'') \<Rightarrow> Inr (sr_raw reply # out, c'', s'')))"

context transport
begin

lemma read_until_crlf:
  assumes "usable s" "ready s = l @ rest" "crlf_line l"
  shows "\<exists>s'. tp_read_until ops LINE_TERMINATOR s = (Inr l, s') \<and> ready s' = rest \<and> usable s'"
proof -
  have "find_sub LINE_TERMINATOR l = Some (length l - 2)" "2 \<le> length l"
    using assms(3) by (simp_all add: crlf_line_def)
  from find_sub_append [OF this(1), of rest] this(2)
  have "find_sub LINE_TERMINATOR (ready s) = Some (length l - 2)" "2 \<le> length l"
    using assms(2) by simp_all
  from read_until_ready [OF assms(1) this(1)] this(2) assms(2) show ?thesis by simp
qed

lemma read_chunks_ready:
  "usable s \<Longrightarrow> ready s = concat ls @ rest \<Longrightarrow> list_all crlf_line ls \<Longrightarrow>
     \<exists>s'. read_chunks ops (length ls) s = (Inr ls, s') \<and> ready s' = rest \<and> usable s' \<and>
          written s' = written s"
proof (induction ls arbitrary: s)
  case Nil
  then show ?case by simp
next
  case (Cons l ls)
  then obtain s1 where s1: "tp_read_until ops LINE_TERMINATOR s = (Inr l, s1)"
    "ready s1 = concat ls @ rest" "usable s1"
    using read_until_crlf [of s l "concat ls @ rest"] by auto
  with Cons.IH [of s1] Cons.prems obtain s2 where
    "read_chunks ops (length ls) s1 = (Inr ls, s2)" "ready s2 = rest" "usable s2"
    "written s2 = written s1" by auto
  with s1 read_until_written [OF s1(1)] show ?case by auto
qed

lemma sbi_exchange:
  assumes w: "tp_write ops req s = (Inr u, s1)" and us: "usable s1"
    and rd: "ready s1 = concat ls @ rest" and ls: "list_all crlf_line ls"
    and c: "\<not> sc_disposed c"
  shows "\<exists>s'. sbi_execute ops req nm tok (int (length ls)) c s =
      (if ls = [] then Inr \<lparr>sr_lines = [], sr_raw = []\<rparr> else reply_outcome (concat ls) nm tok, s') \<and>
      written s' = written s @ [req] \<and>
      (ls = [] \<or> is_ok (parse_reply (concat ls)) \<longrightarrow> ready s' = rest)"
proof -
  obtain s2 where s2: "read_chunks ops (length ls) s1 = (Inr ls, s2)" "ready s2 = rest"
    "written s2 = written s1"
    using read_chunks_ready [OF us rd ls] by blast
  note w1 = write_ok [OF w]
  show ?thesis
  proof (cases "ls = []")
    case True
    with w c w1 rd show ?thesis
      by (simp add: sbi_execute_def sbi_execute_locked_def sbi_raise_if_disposed_def)
  next
    case False
    let ?raw = "concat ls"
    have "sbi_execute ops req nm tok (int (length ls)) c s = parse_or_drain ops ?raw nm tok s2"
      using w s2(1) c False
      by (simp add: sbi_execute_def sbi_execute_locked_def sbi_raise_if_disposed_def)
    then show ?thesis
      using False s2(2,3) w1 by (simp add: parse_or_drain_outcome drain_written)
  qed
qed

lemma read_chunks_written: "read_chunks ops n s = (r, s') \<Longrightarrow> written s' = written s"
proof (induction n arbitrary: s r s')
  case (Suc n)
  obtain q s1 where q: "tp_read_until ops LINE_TERMINATOR s = (q, s1)"
    by (cases "tp_read_until ops LINE_TERMINATOR s")
  obtain rs s2 where rs: "read_chunks ops n s1 = (rs, s2)" by (cases "read_chunks ops n s1")
  from Suc.IH [OF rs] Suc.prems q rs read_until_written [OF q] show ?case
    by (auto split: sum.splits)
qed simp

lemma sbi_execute_written:
  "sbi_execute ops req nm tok n c s = (r, s') \<Longrightarrow>
     written s' = written s \<or> written s' = written s @ [req]"
proof -
  assume x: "sbi_execute ops req nm tok n c s = (r, s')"
  obtain w s1 where w: "tp_write ops req s = (w, s1)" by (cases "tp_write ops req s")
  obtain q s2 where q: "read_chunks ops (nat n) s1 = (q, s2)"
    by (cases "read_chunks ops (nat n) s1")
  from x w q have "s' \<in> {s, s1, s2, tp_drain_input ops s2}"
    by (auto simp: sbi_execute_def sbi_execute_locked_def parse_or_drain_outcome
        split: if_splits sum.splits)
  with write_written [OF w] read_chunks_written [OF q] show ?thesis
    by (auto simp: drain_written)
qed

lemma sbi_disposed:
  assumes "sc_disposed c"
  shows "\<exists>e. sbi_execute ops req nm tok n c s = (Inl e, s)"
    and "\<exists>e. sbi_read_line ops nm c s = (Inl e, c, s)"
    and "\<exists>e. detect_autoprint ops k ticks c s = (Inl e, c, s)"
    and "\<exists>e. refresh_autoprint_state ops k ticks c s = (Inl e, c, s)"
  using assms
  by (auto simp: sbi_execute_def sbi_execute_locked_def sbi_read_line_def detect_autoprint_def
      refresh_autoprint_state_def sbi_raise_if_disposed_def raise_ctx_def)

text \<open>Sniffing moves bytes from the line into the queue, and never writes.\<close>

lemma sniff_loop_stream:
  "sniff_loop ops m ticks c s = (r, c', s') \<Longrightarrow>
     written s' = written s \<and>
     (r = Inr () \<longrightarrow> concat (sc_pending c') @ pending s' = concat (sc_pending c) @ pending s \<and>
       length (sc_pending c') \<le> max m (length (sc_pending c)))"
proof (induction ticks arbitrary: c s)
  case (Suc ticks)
  show ?case
  proof (cases "length (sc_pending c) < m")
    case False
    with Suc.prems show ?thesis by simp
  next
    case True
    obtain q s1 where q: "tp_read_until ops LINE_TERMINATOR s = (q, s1)"
      by (cases "tp_read_until ops LINE_TERMINATOR s")
    note w = read_until_written [OF q]
    show ?thesis
    proof (cases q)
      case (Inl e)
      with Suc.prems True q w read_until_timeout [of LINE_TERMINATOR s e s1] show ?thesis
        by (auto simp: is_deadline_def split: if_splits)
    next
      case (Inr raw)
      let ?c = "c\<lparr>sc_pending := sc_pending c @ [raw]\<rparr>"
      have p: "pending s = raw @ pending s1" using read_until_ok q Inr by blast
      show ?thesis
      proof (cases "is_autoprint_line raw")
        case auto: True
        with Suc.prems True q Inr w p show ?thesis by auto
      next
        case False
        with Suc.prems True q Inr have "sniff_loop ops m ticks ?c s1 = (r, c', s')" by simp
        from Suc.IH [OF this] True w p show ?thesis by auto
      qed
    qed
  qed
qed simp

lemma detect_stream:
  assumes "detect_autoprint ops m ticks c s = (Inr b, c', s')"
  shows "concat (sc_pending c') @ pending s' = concat (sc_pending c) @ pending s"
    and "written s' = written s"
  using assms sniff_loop_stream [of "nat m" ticks c s]
  by (auto simp: detect_autoprint_def split: if_splits sum.splits prod.splits)

lemma read_line_stream:
  assumes "sbi_read_line ops nm c s = (Inr reply, c', s')"
  shows "concat (sc_pending c) @ pending s = sr_raw reply @ concat (sc_pending c') @ pending s'"
    and "written s' = written s"
proof -
  have conc: "concat (sc_pending c) @ pending s = sr_raw reply @ concat (sc_pending c') @ pending s'
      \<and> written s' = written s"
  proof (cases "sc_pending c")
    case (Cons raw rest)
    with assms have "reply_outcome raw nm None = Inr reply" "c' = c\<lparr>sc_pending := rest\<rparr>"
      "s' = (if is_ok (parse_reply raw) then s else tp_drain_input ops s)"
      by (auto simp: sbi_read_line_def parse_or_drain_outcome split: sum.splits)
    with reply_outcome_ok [OF this(1)] Cons show ?thesis by simp
  next
    case Nil
    obtain q s1 where q: "tp_read_until ops LINE_TERMINATOR s = (q, s1)"
      by (cases "tp_read_until ops LINE_TERMINATOR s")
    with assms Nil obtain raw where raw: "q = Inr raw" and ro: "reply_outcome raw nm None = Inr reply"
      and "c' = c" "s' = (if is_ok (parse_reply raw) then s1 else tp_drain_input ops s1)"
      by (auto simp: sbi_read_line_def parse_or_drain_outcome split: sum.splits)
    with reply_outcome_ok [OF ro] read_until_ok q Nil show ?thesis by fastforce
  qed
  then show "concat (sc_pending c) @ pending s = sr_raw reply @ concat (sc_pending c') @ pending s'"
    and "written s' = written s" by blast+
qed

lemma run_sbi_stream:
  "run_sbi ops qs c s = Inr (out, c', s') \<Longrightarrow>
     concat (sc_pending c) @ pending s = concat out @ concat (sc_pending c') @ pending s' \<and>
     written s' = written s"
proof (induction qs arbitrary: c s out)
  case (Cons q qs)
  show ?case
  proof (cases q)
    case (Sniff m ticks)
    with Cons.prems obtain b c1 s1 where d: "detect_autoprint ops m ticks c s = (Inr b, c1, s1)"
      and r: "run_sbi ops qs c1 s1 = Inr (out, c', s')"
      by (auto split: prod.splits sum.splits)
    with Cons.IH [OF r] detect_stream [OF d] show ?thesis by simp
  next
    case NextLine
    with Cons.prems obtain reply c1 s1 out1 where
      d: "sbi_read_line ops ''sbi_autoprint'' c s = (Inr reply, c1, s1)"
      and r: "run_sbi ops qs c1 s1 = Inr (out1, c', s')" and o: "out = sr_raw reply # out1"
      by (auto split: prod.splits sum.splits)
    with Cons.IH [OF r] read_line_stream [OF d] show ?thesis by simp
  qed
qed simp

end

section \<open>Properties\<close>



text \<open>
  C36. Over the serial port, however the reply is cut into chunks, a command that expects \<open>n\<close>
  lines sends its request once and consumes exactly the next \<open>n\<close> CR LF lines: it returns their
  parse, or raises a command rejection when one of them is a refusal line, or the parse error;
  later bytes stay for the next read.
\<close>

theorem sbi_exchange_any_chunking:
  assumes "\<not> sc_disposed c" and "st_port s" and "st_pushback s = []" and "st_rx s = []"
    and "st_tx s = []" and "st_device s (st_sent s @ [req]) = map RxChunk cs @ es"
    and "concat cs = concat ls @ rest" and "list_all crlf_line ls" and "ls \<noteq> []"
  shows "\<exists>s'. sbi_execute serial_ops req nm tok (int (length ls)) c s
        = (reply_outcome (concat ls) nm tok, s') \<and>
     st_sent s' = st_sent s @ [req] \<and>
     (is_ok (parse_reply (concat ls)) \<longrightarrow> serial_ready s' = rest @ lead es) \<and>
     (\<forall>reply. reply_outcome (concat ls) nm tok = Inr reply \<longrightarrow>
        sr_raw reply = concat ls \<and> list_all (\<lambda>l. sl_kind l \<noteq> REFUSAL) (sr_lines reply)) \<and>
     (\<forall>reply. parse_reply (concat ls) = Inr reply \<longrightarrow>
        list_ex (\<lambda>l. sl_kind l = REFUSAL) (sr_lines reply) \<longrightarrow>
        fails_with SartoriusCommandRejectedError (reply_outcome (concat ls) nm tok))"
proof -
  let ?s1 = "s\<lparr>st_tx := tl (st_tx s), st_sent := st_sent s @ [req],
               st_rx := st_rx s @ st_device s (st_sent s @ [req])\<rparr>"
  have w: "tp_write serial_ops req s = (Inr (), ?s1)"
    using assms by (simp add: serial_ops_def serial_write_def)
  have "lead (map RxChunk cs @ es) = concat cs @ lead es" by (induction cs) simp_all
  then have rd: "serial_ready ?s1 = concat ls @ (rest @ lead es)"
    using assms by (simp add: serial_ready_def)
  have rej: "fails_with SartoriusCommandRejectedError (reply_outcome (concat ls) nm tok)"
    if p: "parse_reply (concat ls) = Inr reply" and x: "list_ex (\<lambda>l. sl_kind l = REFUSAL) (sr_lines reply)"
    for reply
  proof -
    obtain l ys where "filter (\<lambda>l. sl_kind l = REFUSAL) (sr_lines reply) = l # ys"
      using x by (cases "filter (\<lambda>l. sl_kind l = REFUSAL) (sr_lines reply)")
        (auto simp: filter_empty_conv list_ex_iff)
    with p show ?thesis by (simp add: reply_outcome_def refusal_error_def)
  qed
  have "st_port ?s1" using assms(2) by simp
  from serial.sbi_exchange [OF w this rd assms(8,1), of nm tok] assms(9) rej reply_outcome_ok
  show ?thesis by auto
qed

theorem sbi_exchange_any_chunking_witness:
  "\<exists>s'. sbi_execute serial_ops TOKEN_TYPE ''print_type'' (Some TOKEN_TYPE) 1 SbiProtocolClient
       (demo_serial [] (\<lambda>_. map RxChunk [ascii_lit ''MSE'' @ [13], [10]]))
     = (reply_outcome (ascii_lit ''MSE'' @ [13, 10]) ''print_type'' (Some TOKEN_TYPE), s') \<and>
     st_sent s' = [TOKEN_TYPE]"
proof -
  let ?s = "demo_serial [] (\<lambda>_. map RxChunk [ascii_lit ''MSE'' @ [13], [10]])"
  let ?l = "ascii_lit ''MSE'' @ [13, 10]"
  have "crlf_line ?l" by code_simp
  moreover have "st_device ?s (st_sent ?s @ [TOKEN_TYPE])
      = map RxChunk [ascii_lit ''MSE'' @ [13], [10]] @ []"
    by (simp add: demo_serial_def)
  ultimately show ?thesis
    using sbi_exchange_any_chunking [of SbiProtocolClient ?s TOKEN_TYPE
        "[ascii_lit ''MSE'' @ [13], [10]]" "[]" "[?l]" "[]" "''print_type''" "Some TOKEN_TYPE"]
    by (auto simp: SbiProtocolClient_def demo_serial_def)
qed

end
