(* ===== verification/Detect.thy ===== *)
theory Detect
  imports Xbpi_Client Sbi_Client "HOL-Library.Sublist"
begin

text \<open>
  \<open>protocol/detect.py\<close>: resolving \<open>AUTO\<close> on an open transport, by a passive sniff, one xBPI
  probe and at most two SBI probes. \<open>ticks\<close> counts the checks of the sniff loop that still find
  time left in the window; a window of zero or less is \<open>ticks = 0\<close>.
\<close>

record DetectionResult =
  dr_protocol :: ProtocolKind
  dr_autoprint_active :: bool
  dr_pending_lines :: "bytes list"

definition XBPI_PROBE_OPCODE :: int where "XBPI_PROBE_OPCODE = 0x02"

text \<open>An \<open>except (SartoriusTimeoutError, SartoriusProtocolError)\<close> clause.\<close>

definition probe_failure :: "exn \<Rightarrow> bool" where
  "probe_failure e \<longleftrightarrow> exn_is e SartoriusTimeoutError \<or> exn_is e SartoriusProtocolError"

fun sniff_for_autoprint ::
  "'s transport_ops \<Rightarrow> nat \<Rightarrow> 's \<Rightarrow> (bool \<times> bytes list) res \<times> 's" where
  "sniff_for_autoprint ops 0 s = (Inr (False, []), s)"
| "sniff_for_autoprint ops (Suc ticks) s =
     (case tp_read_until ops LINE_TERMINATOR s of
        (Inl e, s') \<Rightarrow>
          if exn_is e SartoriusTimeoutError then (Inr (False, []), s') else (Inl e, s')
      | (Inr raw, s') \<Rightarrow>
          if is_autoprint_line raw then (Inr (True, [raw]), s')
          else sniff_for_autoprint ops ticks s')"

definition probe_xbpi :: "'s transport_ops \<Rightarrow> int \<Rightarrow> int \<Rightarrow> 's \<Rightarrow> bool res \<times> 's" where
  "probe_xbpi ops src_sbn dst_sbn s =
     (let handle = (\<lambda>e s. if probe_failure e then (Inr False, s) else (Inl e, s))
      in case build_command XBPI_PROBE_OPCODE [] src_sbn dst_sbn of
           Inl e \<Rightarrow> (Inl e, s)
         | Inr request \<Rightarrow>
        (case tp_write ops request s of
           (Inl e, s1) \<Rightarrow> handle e s1
         | (Inr _, s1) \<Rightarrow>
        (case tp_read_exact ops 1 s1 of
           (Inl e, s2) \<Rightarrow> handle e s2
         | (Inr length_byte, s2) \<Rightarrow>
        (case tp_read_exact ops (unat (length_byte ! 0)) s2 of
           (Inl e, s3) \<Rightarrow> handle e s3
         | (Inr body, s3) \<Rightarrow>
        (case parse_frame (length_byte @ body) of
           Inl e \<Rightarrow> handle e s3
         | Inr frame \<Rightarrow> (Inr True, s3))))))"

text \<open>The loop over the two identity tokens.\<close>

fun probe_sbi_tokens :: "'s transport_ops \<Rightarrow> bytes list \<Rightarrow> 's \<Rightarrow> bool res \<times> 's" where
  "probe_sbi_tokens ops [] s = (Inr False, s)"
| "probe_sbi_tokens ops (token # tokens) s =
     (let handle = (\<lambda>e s. if probe_failure e then probe_sbi_tokens ops tokens (tp_drain_input ops s)
                           else (Inl e, s))
      in case tp_write ops token s of
           (Inl e, s1) \<Rightarrow> handle e s1
         | (Inr _, s1) \<Rightarrow>
             (case tp_read_until ops LINE_TERMINATOR s1 of
                (Inl e, s2) \<Rightarrow> handle e s2
              | (Inr line, s2) \<Rightarrow> (Inr True, s2)))"

definition probe_sbi :: "'s transport_ops \<Rightarrow> 's \<Rightarrow> bool res \<times> 's" where
  "probe_sbi ops s = probe_sbi_tokens ops [TOKEN_TYPE, TOKEN_PRINT] s"

definition detect_protocol ::
  "'s transport_ops \<Rightarrow> nat \<Rightarrow> int \<Rightarrow> int \<Rightarrow> 's \<Rightarrow> DetectionResult res \<times> 's" where
  "detect_protocol ops ticks src_sbn dst_sbn s0 =
     (case sniff_for_autoprint ops ticks s0 of
        (Inl e, s1) \<Rightarrow> (Inl e, s1)
      | (Inr (autoprint, sniffed), s1) \<Rightarrow>
          if autoprint
          then (Inr \<lparr>dr_protocol = SBI, dr_autoprint_active = True, dr_pending_lines = sniffed\<rparr>, s1)
          else
     (case probe_xbpi ops src_sbn dst_sbn (tp_drain_input ops s1) of
        (Inl e, s2) \<Rightarrow> (Inl e, s2)
      | (Inr True, s2) \<Rightarrow>
          (Inr \<lparr>dr_protocol = XBPI, dr_autoprint_active = False, dr_pending_lines = []\<rparr>, s2)
      | (Inr False, s2) \<Rightarrow>
     (case probe_sbi ops (tp_drain_input ops s2) of
        (Inl e, s3) \<Rightarrow> (Inl e, s3)
      | (Inr True, s3) \<Rightarrow>
          (Inr \<lparr>dr_protocol = SBI, dr_autoprint_active = False, dr_pending_lines = []\<rparr>, s3)
      | (Inr False, s3) \<Rightarrow>
          (raise_ctx SartoriusError
             [SetPort (Some (tp_label ops s3)), SetCommandName (Some ''auto_detect'')], s3))))"

section \<open>What detection writes\<close>

definition xbpi_probe :: "int \<Rightarrow> int \<Rightarrow> bytes list" where
  "xbpi_probe src dst =
     (case build_command XBPI_PROBE_OPCODE [] src dst of Inl e \<Rightarrow> [] | Inr r \<Rightarrow> [r])"

context transport
begin

lemma sniff_written: "sniff_for_autoprint ops t s = (r, s') \<Longrightarrow> written s' = written s"
proof (induction t arbitrary: s r s')
  case (Suc t)
  obtain q s1 where q: "tp_read_until ops LINE_TERMINATOR s = (q, s1)"
    by (cases "tp_read_until ops LINE_TERMINATOR s")
  with Suc read_until_written [OF q] show ?case by (auto split: sum.splits if_splits)
qed simp

lemma sniff_result:
  "sniff_for_autoprint ops t s = (Inr (b, ls), s') \<Longrightarrow>
     (if b then (\<exists>l. ls = [l] \<and> is_autoprint_line l) else ls = [])"
  by (induction t arbitrary: s) (auto split: sum.splits if_splits prod.splits)

lemma probe_xbpi_written:
  assumes "probe_xbpi ops src dst s = (r, s')"
  shows "written s' = written s \<or> written s' = written s @ xbpi_probe src dst"
proof (cases "build_command XBPI_PROBE_OPCODE [] src dst")
  case (Inl e)
  with assms show ?thesis by (simp add: probe_xbpi_def)
next
  case (Inr req)
  obtain w s1 where w: "tp_write ops req s = (w, s1)" by (cases "tp_write ops req s")
  obtain q s2 where q: "tp_read_exact ops 1 s1 = (q, s2)" by (cases "tp_read_exact ops 1 s1")
  obtain z s3 where z: "tp_read_exact ops (unat (projr q ! 0)) s2 = (z, s3)"
    by (cases "tp_read_exact ops (unat (projr q ! 0)) s2")
  have "s' \<in> {s1, s2, s3}"
    using assms Inr w q z
    by (auto simp: probe_xbpi_def Let_def split: sum.splits if_splits)
  with write_written [OF w] read_exact_written [OF q] read_exact_written [OF z] Inr
  show ?thesis by (auto simp: xbpi_probe_def)
qed

lemma probe_sbi_tokens_written:
  "probe_sbi_tokens ops toks s = (r, s') \<Longrightarrow>
     \<exists>ws. written s' = written s @ ws \<and> subseq ws toks"
proof (induction toks arbitrary: s)
  case (Cons tok toks)
  obtain w s1 where w: "tp_write ops tok s = (w, s1)" by (cases "tp_write ops tok s")
  obtain q s2 where q: "tp_read_until ops LINE_TERMINATOR s1 = (q, s2)"
    by (cases "tp_read_until ops LINE_TERMINATOR s1")
  note wr = write_written [OF w] read_until_written [OF q] drain_written
  have "s' \<in> {s1, s2} \<or> probe_sbi_tokens ops toks (tp_drain_input ops s1) = (r, s') \<or>
      probe_sbi_tokens ops toks (tp_drain_input ops s2) = (r, s')"
    using Cons.prems w q by (auto simp: Let_def split: sum.splits if_splits)
  then consider "s' \<in> {s1, s2}"
    | s0 where "s0 \<in> {s1, s2}" "probe_sbi_tokens ops toks (tp_drain_input ops s0) = (r, s')"
    by blast
  then show ?case
  proof cases
    case 1
    with wr have "written s' = written s @ [] \<or> written s' = written s @ [tok]" by auto
    then show ?thesis by (metis list_emb_Nil subseq_Cons2)
  next
    case 2
    from Cons.IH [OF 2(2)] obtain ws where ws: "written s' = written s0 @ ws" "subseq ws toks"
      by (auto simp: drain_written)
    from 2(1) wr have "written s0 = written s @ [] \<or> written s0 = written s @ [tok]" by auto
    with ws show ?thesis by (metis append.assoc append_Nil append_Cons subseq_Cons' subseq_Cons2)
  qed
qed (auto intro: exI [where x = "[]"])

end

context transport
begin

lemma probe_xbpi_found:
  assumes "probe_xbpi ops src dst s = (Inr True, s')"
  shows "written s' = written s @ xbpi_probe src dst"
  using assms
  by (auto simp: probe_xbpi_def Let_def xbpi_probe_def
      dest!: write_ok read_exact_written split: sum.splits prod.splits if_splits)

lemma detect_writes:
  assumes "detect_protocol ops ticks src dst s = (r, s')"
  shows "\<exists>ws. written s' = written s @ ws \<and>
     subseq ws (xbpi_probe src dst @ [TOKEN_TYPE, TOKEN_PRINT]) \<and>
     (\<forall>d. r = Inr d \<longrightarrow>
        (if dr_autoprint_active d
         then dr_protocol d = SBI \<and> ws = [] \<and>
              (\<exists>l. dr_pending_lines d = [l] \<and> is_autoprint_line l)
         else dr_pending_lines d = [] \<and>
              (dr_protocol d = SBI \<or> dr_protocol d = XBPI \<and> ws = xbpi_probe src dst)))"
proof -
  obtain q s1 where q: "sniff_for_autoprint ops ticks s = (q, s1)" by fastforce
  obtain x s2 where x: "probe_xbpi ops src dst (tp_drain_input ops s1) = (x, s2)" by fastforce
  obtain y s3 where y: "probe_sbi ops (tp_drain_input ops s2) = (y, s3)" by fastforce
  have w1: "written s1 = written s" by (rule sniff_written [OF q])
  obtain a where w2: "written s2 = written s @ a" and a: "a = [] \<or> a = xbpi_probe src dst"
    using probe_xbpi_written [OF x] w1 by (auto simp: drain_written)
  have ax: "a = xbpi_probe src dst" if "x = Inr True"
    using probe_xbpi_found [of src dst "tp_drain_input ops s1" s2] x that w1 w2
    by (simp add: drain_written)
  obtain b where w3: "written s3 = written s2 @ b" and b: "subseq b [TOKEN_TYPE, TOKEN_PRINT]"
    using probe_sbi_tokens_written [OF y [unfolded probe_sbi_def]] by (auto simp: drain_written)
  have sa: "subseq a (xbpi_probe src dst @ [TOKEN_TYPE, TOKEN_PRINT])"
    using a by (auto intro: list_emb_append2 [of _ "[]", simplified] list_emb_prefix)
  have sab: "subseq (a @ b) (xbpi_probe src dst @ [TOKEN_TYPE, TOKEN_PRINT])"
    using a b by (intro list_emb_append_mono) auto
  have w3': "written s3 = written s @ (a @ b)" using w2 w3 by simp
  note sr = sniff_result [of ticks s _ _ s1]
  show ?thesis
  proof (cases q)
    case (Inl e)
    then show ?thesis using assms q w1 by (auto simp: detect_protocol_def)
  next
    case (Inr z)
    obtain auto sniffed where z: "z = (auto, sniffed)" by fastforce
    note sr = sniff_result [OF q [unfolded Inr z]]
    show ?thesis
    proof (cases auto)
      case True
      with sr have l: "\<exists>l. sniffed = [l] \<and> is_autoprint_line l" by simp
      have "r = Inr \<lparr>dr_protocol = SBI, dr_autoprint_active = True, dr_pending_lines = sniffed\<rparr>"
        "s' = s1"
        using assms q Inr z True by (auto simp: detect_protocol_def)
      with l w1 show ?thesis by (intro exI [where x = "[]"]) simp
    next
      case False
      have d: "(r, s') = (case x of Inl e \<Rightarrow> (Inl e, s2)
         | Inr True \<Rightarrow> (Inr \<lparr>dr_protocol = XBPI, dr_autoprint_active = False, dr_pending_lines = []\<rparr>, s2)
         | Inr False \<Rightarrow> (case y of Inl e \<Rightarrow> (Inl e, s3)
            | Inr True \<Rightarrow> (Inr \<lparr>dr_protocol = SBI, dr_autoprint_active = False, dr_pending_lines = []\<rparr>, s3)
            | Inr False \<Rightarrow> (raise_ctx SartoriusError
                [SetPort (Some (tp_label ops s3)), SetCommandName (Some ''auto_detect'')], s3)))"
        using assms q Inr z False x y
        by (auto simp: detect_protocol_def split: sum.splits bool.splits)
      show ?thesis
      proof (cases "s' = s3 \<and> x = Inr False")
        case True
        with d w3' sab show ?thesis
          by (intro exI [where x = "a @ b"]) (auto split: sum.splits bool.splits)
      next
        case False
        with d w2 sa ax show ?thesis
          by (intro exI [where x = a]) (auto split: sum.splits bool.splits)
      qed
    qed
  qed
qed

end

context transport
begin

lemma probe_xbpi_answered:
  assumes b: "build_command XBPI_PROBE_OPCODE [] src dst = Inr req"
    and w: "tp_write ops req s = (Inr u, s1)" and us: "usable s1"
    and rd: "ready s1 = rx_frame st body @ rest" and len: "length body \<le> 252"
  shows "\<exists>s'. probe_xbpi ops src dst s = (Inr True, s') \<and> ready s' = rest"
proof -
  let ?f = "rx_frame st body"
  have lf: "length ?f = length body + 4" by simp
  obtain l f where f: "?f = l # f" by (cases ?f) (use lf in auto)
  have "uint (?f ! 0) = int (length body) + 3" using len by (simp add: rx_frame_def Let_def)
  then have ul: "unat l = length f" using f lf by (simp add: unat_eq_nat_uint)
  obtain s2 where r1: "tp_read_exact ops 1 s1 = (Inr [l], s2)"
    and rd2: "ready s2 = f @ rest" and us2: "usable s2"
    using read_exact_ready [OF us, of 1] rd f by auto
  obtain s3 where r2: "tp_read_exact ops (length f) s2 = (Inr f, s3)" and rd3: "ready s3 = rest"
    using read_exact_ready [OF us2, of "length f"] rd2 by auto
  have "parse_frame ([l] @ f) = Inr (frame_of st body)"
    using parse_rx_frame [OF len, of st] f by simp
  with b w r1 r2 ul rd3 show ?thesis by (simp add: probe_xbpi_def)
qed

end

lemma probe_command:
  "0 \<le> src \<Longrightarrow> src \<le> 255 \<Longrightarrow> 0 \<le> dst \<Longrightarrow> dst \<le> 255 \<Longrightarrow>
     \<exists>req. build_command XBPI_PROBE_OPCODE [] src dst = Inr req \<and> xbpi_probe src dst = [req]"
  by (simp add: xbpi_probe_def build_command_def require_byte_def XBPI_PROBE_OPCODE_def
      MAX_LENGTH_def MAX_BYTE_def Let_def)

text \<open>A quiet line: the port is open, nothing has arrived and nothing will before a write.\<close>

definition quiet :: "serial_transport \<Rightarrow> bool" where
  "quiet s \<longleftrightarrow> st_port s \<and> st_pushback s = [] \<and> st_rx s = [] \<and> st_tx s = [] \<and> st_resets s = []"

lemma sniff_quiet:
  "quiet s \<Longrightarrow> sniff_for_autoprint serial_ops ticks s = (Inr (False, []), s)"
  by (cases ticks)
    (simp_all add: quiet_def serial_ops_def serial_read_until_def serial_defs LINE_TERMINATOR_def
      subclass_simps startswith_def)

lemma drain_quiet: "quiet s \<Longrightarrow> tp_drain_input serial_ops s = s"
  by (simp add: quiet_def serial_ops_def serial_drain_input_def)

section \<open>Properties\<close>



text \<open>
  A balance that answers the xBPI probe with any well-formed frame, an error frame
  included, is detected as xBPI, however the reply is cut into chunks, and bytes after the
  frame stay for the first exchange.
\<close>

theorem xbpi_device_detected:
  assumes "quiet s" and "0 \<le> src" "src \<le> 255" "0 \<le> dst" "dst \<le> 255"
    and "st_device s (st_sent s @ xbpi_probe src dst) = map RxChunk cs @ es"
    and "concat cs = rx_frame st body @ rest" and "length body \<le> 252"
  shows "\<exists>s'. detect_protocol serial_ops ticks src dst s =
       (Inr \<lparr>dr_protocol = XBPI, dr_autoprint_active = False, dr_pending_lines = []\<rparr>, s') \<and>
     serial_ready s' = rest @ lead es"
proof -
  obtain req where b: "build_command XBPI_PROBE_OPCODE [] src dst = Inr req"
    and req: "xbpi_probe src dst = [req]"
    using probe_command [OF assms(2-5)] by blast
  let ?s1 = "s\<lparr>st_tx := tl (st_tx s), st_sent := st_sent s @ [req],
               st_rx := st_rx s @ st_device s (st_sent s @ [req])\<rparr>"
  have w: "tp_write serial_ops req s = (Inr (), ?s1)" and p: "st_port ?s1"
    using assms(1) by (simp_all add: serial_ops_def serial_write_def quiet_def)
  have "serial_ready ?s1 = rx_frame st body @ (rest @ lead es)"
    using assms(1,6,7) req by (simp add: serial_ready_def quiet_def)
  from serial.probe_xbpi_answered [OF b w p this assms(8)] obtain s' where
    "probe_xbpi serial_ops src dst s = (Inr True, s')" "serial_ready s' = rest @ lead es" by blast
  with assms(1) show ?thesis by (simp add: detect_protocol_def sniff_quiet drain_quiet)
qed

theorem xbpi_device_detected_witness:
  "\<exists>s'. detect_protocol serial_ops 5 1 9
       (demo_serial [] (\<lambda>_. map RxChunk [[4], [0x41, 1], [4, 0x4A]])) =
     (Inr \<lparr>dr_protocol = XBPI, dr_autoprint_active = False, dr_pending_lines = []\<rparr>, s')"
proof -
  let ?s = "demo_serial [] (\<lambda>_. map RxChunk [[4], [0x41, 1], [4, 0x4A]])"
  have f: "concat [[4], [0x41, 1], [4, 0x4A]] = rx_frame 1 [4] @ []"
    by (simp add: rx_frame_def Let_def byte_of_int_def checksum_mod)
  have "quiet ?s" by (simp add: quiet_def demo_serial_def)
  moreover have "st_device ?s (st_sent ?s @ xbpi_probe 1 9)
      = map RxChunk [[4], [0x41, 1], [4, 0x4A]] @ []"
    by (simp add: demo_serial_def)
  ultimately show ?thesis
    using xbpi_device_detected [OF _ _ _ _ _ _ f, of ?s 1 9 "[]" 5] by auto
qed

text \<open>
  A balance that stays silent on the xBPI probe, as an SBI balance does, is not detected
  over the serial port at all: the receive deadline without a single byte is a transient
  transport error there, which the probe does not catch, so detection ends with that error
  after the xBPI probe alone and never tries the SBI tokens.
\<close>

theorem silent_on_probe_aborts:
  assumes "quiet s" and "0 \<le> src" "src \<le> 255" "0 \<le> dst" "dst \<le> 255"
    and "st_device s (st_sent s @ xbpi_probe src dst) = []"
  shows "\<exists>r s'. detect_protocol serial_ops ticks src dst s = (r, s') \<and>
     fails_with SartoriusTransientTransportError r \<and>
     st_sent s' = st_sent s @ xbpi_probe src dst"
proof -
  obtain req where b: "build_command XBPI_PROBE_OPCODE [] src dst = Inr req"
    and req: "xbpi_probe src dst = [req]"
    using probe_command [OF assms(2-5)] by blast
  have "\<exists>r s'. probe_xbpi serial_ops src dst s = (r, s') \<and> st_sent s' = st_sent s @ [req] \<and>
      (\<exists>e. r = Inl e \<and> exn_is e SartoriusTransientTransportError)"
    using b assms(1,6) req
    by (simp add: probe_xbpi_def serial_ops_def serial_write_def serial_read_exact_def quiet_def
        serial_defs probe_failure_def subclass_simps)
  then show ?thesis
    using assms(1) req by (auto simp: detect_protocol_def sniff_quiet drain_quiet)
qed

text \<open>An SBI balance: it answers \<open>ESC x1_\<close> and nothing else.\<close>

definition sbi_balance :: "bytes list \<Rightarrow> rx_event list" where
  "sbi_balance sent =
     (if last sent = TOKEN_TYPE then [RxChunk (ascii_lit ''MSE'' @ [13, 10])] else [])"

theorem silent_on_probe_aborts_witness:
  "\<exists>r s'. detect_protocol serial_ops 5 1 9 (demo_serial [] sbi_balance) = (r, s') \<and>
     fails_with SartoriusTransientTransportError r \<and> st_sent s' = xbpi_probe 1 9"
proof -
  have q: "quiet (demo_serial [] sbi_balance)" by (simp add: quiet_def demo_serial_def)
  have "xbpi_probe 1 9 = [[4, 1, 9, 2, 16]]" and "[4, 1, 9, 2, 16] \<noteq> TOKEN_TYPE"
    by code_simp+
  then have "st_device (demo_serial [] sbi_balance)
      (st_sent (demo_serial [] sbi_balance) @ xbpi_probe 1 9) = []"
    by (simp add: demo_serial_def sbi_balance_def)
  from silent_on_probe_aborts [OF q _ _ _ _ this, of 5] show ?thesis
    by (simp add: demo_serial_def)
qed

end
