(* ===== verification/Aliases.thy ===== *)
theory Aliases
  imports Registry
begin

text \<open>
  \<open>registry/aliases.py\<close>: the fuzzy-match front door from human-typed unit and mode names to
  enum members.
\<close>

section \<open>Normalisation\<close>

text \<open>The class \<open>[\s\-.]\<close>, and \<open>\w\<close> on Latin-1 text.\<close>

definition is_separator :: "char \<Rightarrow> bool" where
  "is_separator c \<longleftrightarrow> py_isspace c \<or> c = CHR ''-'' \<or> c = CHR ''.''"

definition is_word_char :: "char \<Rightarrow> bool" where
  "is_word_char c \<longleftrightarrow>
     is_letter c \<or> is_digit c \<or> c = CHR ''_'' \<or>
     c \<in> {CHR 0xAA, CHR 0xB2, CHR 0xB3, CHR 0xB5, CHR 0xB9, CHR 0xBA, CHR 0xBC, CHR 0xBD,
          CHR 0xBE} \<or>
     (between 192 255 c \<and> c \<noteq> CHR 0xD7 \<and> c \<noteq> CHR 0xF7)"

text \<open>\<open>_NORMALISE_SEPARATORS.sub("_", text)\<close>; the flag is set inside a run.\<close>

fun sub_separators :: "bool \<Rightarrow> string \<Rightarrow> string" where
  "sub_separators inrun [] = []"
| "sub_separators inrun (c # cs) =
     (if is_separator c
      then (if inrun then sub_separators True cs else CHR ''_'' # sub_separators True cs)
      else c # sub_separators False cs)"

definition normalise :: "string \<Rightarrow> string" where
  "normalise raw = filter is_word_char (sub_separators False (py_lower (py_strip raw)))"

text \<open>A dict display: the last of duplicate keys counts.\<close>

definition dict_display :: "('k \<times> 'v) list \<Rightarrow> 'k \<Rightarrow> 'v option" where
  "dict_display kvs = map_of (rev kvs)"

section \<open>Units\<close>

definition UNIT_AMBIGUOUS_SHORTS :: "Unit list" where
  "UNIT_AMBIGUOUS_SHORTS = [U_PARTS_PER_POUND]"

definition UNIT_ALIASES :: "(string \<times> Unit) list" where
  "UNIT_ALIASES =
     map (\<lambda>(u, v). (normalise v, u))
       (filter (\<lambda>(u, v). u \<noteq> U_UNKNOWN \<and> u \<notin> set UNIT_AMBIGUOUS_SHORTS) Unit_members) @
     [(''parts_per_pound'', U_PARTS_PER_POUND), (''ptplb'', U_PARTS_PER_POUND),
      (''gram'', U_G), (''grams'', U_G), (''gramme'', U_G),
      (''kilogram'', U_KG), (''kilograms'', U_KG),
      (''milligram'', U_MG), (''milligrams'', U_MG),
      (''microgram'', U_UG), (''micrograms'', U_UG), (''ug'', U_UG),
      (''carat'', U_CT), (''carats'', U_CT), (''pound'', U_LB), (''pounds'', U_LB),
      (''ounce'', U_OZ), (''ounces'', U_OZ), (''troy_ounce'', U_OZT), (''troy_ounces'', U_OZT),
      (''grain'', U_GR), (''grains'', U_GR), (''pennyweight'', U_DWT),
      (''newton'', U_NEWTON), (''newtons'', U_NEWTON),
      (''ton'', U_T), (''tons'', U_T), (''tonne'', U_T), (''tonnes'', U_T), (''metric_ton'', U_T),
      (''user_defined'', U_USERDEF), (''user_def'', U_USERDEF),
      (''hongkong_tael'', U_TAEL_HK), (''hk_tael'', U_TAEL_HK),
      (''singapore_tael'', U_TAEL_SG), (''sg_tael'', U_TAEL_SG),
      (''taiwan_tael'', U_TAEL_TW), (''tw_tael'', U_TAEL_TW),
      (''chinese_tael'', U_TAEL_CN), (''cn_tael'', U_TAEL_CN)]"

definition resolve_unit :: "unit_arg \<Rightarrow> Unit res" where
  "resolve_unit raw =
     (case raw of
        UnitMember u \<Rightarrow> Inr u
      | UnitNone \<Rightarrow> Inl (Py AttributeError)
      | UnitText s \<Rightarrow>
          let key = normalise s
          in case dict_display UNIT_ALIASES key of
               Some u \<Rightarrow> Inr u
             | None \<Rightarrow> raise_ctx UnknownUnitError
                         (extra [(''input'', XStr s), (''normalised'', XStr key)]))"

section \<open>Modes\<close>

definition build_mode_aliases :: "mode_enum \<Rightarrow> (string \<times> int) list \<Rightarrow> (string \<times> mode) list" where
  "build_mode_aliases c ext =
     map (\<lambda>(n, v). (normalise n, Mode c v)) (filter (\<lambda>(n, v). v \<noteq> 0) (enum_members c)) @
     map (\<lambda>(k, v). (normalise k, Mode c v)) ext"

definition FILTER_ALIASES :: "(string \<times> mode) list" where
  "FILTER_ALIASES = build_mode_aliases FilterMode
     [(''v_stable'', 1), (''vs'', 1), (''v_unstable'', 4), (''vu'', 4)]"

definition AUTO_ZERO_ALIASES :: "(string \<times> mode) list" where
  "AUTO_ZERO_ALIASES = build_mode_aliases AutoZeroMode
     [(''enabled'', 1), (''disabled'', 2), (''true'', 1), (''false'', 2)]"

definition TARE_ALIASES :: "(string \<times> mode) list" where
  "TARE_ALIASES = build_mode_aliases TareBehavior
     [(''wo_stab'', 1), (''w_stab'', 2), (''at_stab'', 3)]"

definition DISPLAY_ACC_ALIASES :: "(string \<times> mode) list" where
  "DISPLAY_ACC_ALIASES = build_mode_aliases DisplayAccuracyMode
     [(''normal'', 1), (''lponoff'', 2), (''lp_onoff'', 2), (''low_power'', 2),
      (''minus_1_digit'', 7), (''minus_one_digit'', 7), (''_1_digit'', 7), (''1_digit'', 7),
      (''reduced'', 7)]"

definition ISOCAL_ALIASES :: "(string \<times> mode) list" where
  "ISOCAL_ALIASES = build_mode_aliases IsoCalMode [(''enabled'', 3), (''disabled'', 1)]"

definition OUTPUT_ALIASES :: "(string \<times> mode) list" where
  "OUTPUT_ALIASES = build_mode_aliases OutputMode
     [(''ind_no'', 1), (''ind_after'', 2), (''ind_at'', 3), (''auto_wo'', 4), (''auto_w'', 5),
      (''autoprint'', 5)]"

definition MENU_ACCESS_ALIASES :: "(string \<times> mode) list" where
  "MENU_ACCESS_ALIASES = build_mode_aliases MenuAccessMode
     [(''editable'', 1), (''readonly'', 2), (''rd_only'', 2), (''locked'', 2)]"

datatype mode_arg = ArgMode mode | ArgInt int | ArgText string

definition resolve_enum :: "mode_enum \<Rightarrow> (string \<times> mode) list \<Rightarrow> mode_arg \<Rightarrow> mode res" where
  "resolve_enum c aliases raw =
     (let by_value = (\<lambda>n. case enum_call c n of
            Some m \<Rightarrow> Inr m
          | None \<Rightarrow> raise_ctx SartoriusValidationError (extra [(''input'', XInt n)]))
      in case raw of
           ArgMode m \<Rightarrow> if mode_class m = c then Inr m else by_value (mode_val m)
         | ArgInt n \<Rightarrow> by_value n
         | ArgText s \<Rightarrow>
             let key = normalise s
             in case dict_display aliases key of
                  Some m \<Rightarrow> Inr m
                | None \<Rightarrow> raise_ctx SartoriusValidationError
                            (extra [(''input'', XStr s), (''normalised'', XStr key)]))"

definition resolve_filter_mode :: "mode_arg \<Rightarrow> mode res" where
  "resolve_filter_mode raw = resolve_enum FilterMode FILTER_ALIASES raw"

definition resolve_auto_zero :: "mode_arg \<Rightarrow> mode res" where
  "resolve_auto_zero raw = resolve_enum AutoZeroMode AUTO_ZERO_ALIASES raw"

definition resolve_tare_behavior :: "mode_arg \<Rightarrow> mode res" where
  "resolve_tare_behavior raw = resolve_enum TareBehavior TARE_ALIASES raw"

definition resolve_display_accuracy :: "mode_arg \<Rightarrow> mode res" where
  "resolve_display_accuracy raw = resolve_enum DisplayAccuracyMode DISPLAY_ACC_ALIASES raw"

definition resolve_isocal_mode :: "mode_arg \<Rightarrow> mode res" where
  "resolve_isocal_mode raw = resolve_enum IsoCalMode ISOCAL_ALIASES raw"

definition resolve_output_mode :: "mode_arg \<Rightarrow> mode res" where
  "resolve_output_mode raw = resolve_enum OutputMode OUTPUT_ALIASES raw"

definition resolve_menu_access :: "mode_arg \<Rightarrow> mode res" where
  "resolve_menu_access raw = resolve_enum MenuAccessMode MENU_ACCESS_ALIASES raw"

section \<open>Facts\<close>

lemma word_char_not_space: "is_word_char c \<Longrightarrow> \<not> py_isspace c"
  by (auto simp: is_word_char_def py_isspace_def is_letter_def is_upper_letter_def
      is_lower_letter_def is_digit_def between_def Let_def)

lemma word_char_not_separator: "is_word_char c \<Longrightarrow> \<not> is_separator c"
  using word_char_not_space [of c]
  by (auto simp: is_separator_def is_word_char_def is_letter_def is_upper_letter_def
      is_lower_letter_def is_digit_def between_def)

lemma sub_separators_id: "\<forall>c \<in> set s. \<not> is_separator c \<Longrightarrow> sub_separators b s = s"
  by (induction s arbitrary: b) auto

lemma set_sub_separators: "set (sub_separators b s) \<subseteq> insert CHR ''_'' (set s)"
  by (induction s arbitrary: b) auto

lemma lower_char_idem: "lower_char (lower_char c) = lower_char c"
proof -
  have twice: "set_bit5 True (set_bit5 True c) = set_bit5 True c"
    by (cases c) (simp add: set_bit5_def)
  have "lower_char c = c \<or> lower_char c = set_bit5 True c" by (simp add: lower_char_def)
  then show ?thesis
  proof
    assume "lower_char c = set_bit5 True c"
    with twice show ?thesis by (simp add: lower_char_def [of "set_bit5 True c"])
  qed simp
qed

lemma lower_char_underscore: "lower_char CHR ''_'' = CHR ''_''"
  by (simp add: lower_char_def is_upper_letter_def between_def)

lemma normalise_chars:
  assumes "c \<in> set (normalise s)"
  shows "is_word_char c" "lower_char c = c"
proof -
  from assms show "is_word_char c" by (simp add: normalise_def)
  from assms have "c \<in> set (sub_separators False (py_lower (py_strip s)))"
    by (simp add: normalise_def)
  then have "c = CHR ''_'' \<or> c \<in> set (py_lower (py_strip s))"
    using set_sub_separators by blast
  then show "lower_char c = c"
    by (auto simp: py_lower_def lower_char_idem lower_char_underscore)
qed

lemma normalise_fixed:
  assumes "\<forall>c \<in> set s. is_word_char c \<and> lower_char c = c"
  shows "normalise s = s"
proof -
  have "py_strip s = s" using assms word_char_not_space by (intro strip_id) blast
  moreover have "py_lower s = s" using assms by (simp add: py_lower_def map_idI)
  moreover have "sub_separators False s = s"
    using assms word_char_not_separator by (intro sub_separators_id) blast
  ultimately show ?thesis using assms by (simp add: normalise_def)
qed

lemma normalise_idem: "normalise (normalise s) = normalise s"
  by (intro normalise_fixed ballI conjI) (erule normalise_chars)+

lemma dict_display_in: "dict_display kvs k = Some v \<Longrightarrow> (k, v) \<in> set kvs"
  by (auto simp: dict_display_def dest: map_of_SomeD)

text \<open>Every alias of a mode names a member other than \<open>UNKNOWN\<close>.\<close>

definition alias_ok :: "mode_enum \<Rightarrow> string \<times> mode \<Rightarrow> bool" where
  "alias_ok c a \<longleftrightarrow> mode_val (snd a) \<noteq> 0 \<and> enum_call c (mode_val (snd a)) = Some (snd a)"

lemma alias_tables_ok:
  "list_all (alias_ok FilterMode) FILTER_ALIASES"
  "list_all (alias_ok AutoZeroMode) AUTO_ZERO_ALIASES"
  "list_all (alias_ok TareBehavior) TARE_ALIASES"
  "list_all (alias_ok DisplayAccuracyMode) DISPLAY_ACC_ALIASES"
  "list_all (alias_ok IsoCalMode) ISOCAL_ALIASES"
  "list_all (alias_ok OutputMode) OUTPUT_ALIASES"
  "list_all (alias_ok MenuAccessMode) MENU_ACCESS_ALIASES"
  by (simp_all add: alias_ok_def FILTER_ALIASES_def AUTO_ZERO_ALIASES_def TARE_ALIASES_def
      DISPLAY_ACC_ALIASES_def ISOCAL_ALIASES_def OUTPUT_ALIASES_def MENU_ACCESS_ALIASES_def
      build_mode_aliases_def enum_call_def members_defs)

lemma resolve_enum_text:
  assumes "list_all (alias_ok c) aliases" and "resolve_enum c aliases (ArgText s) = Inr m"
  shows "mode_val m \<noteq> 0 \<and> enum_call c (mode_val m) = Some m"
proof -
  from assms(2) have "dict_display aliases (normalise s) = Some m"
    by (simp add: resolve_enum_def Let_def split: option.splits)
  then have "(normalise s, m) \<in> set aliases" by (rule dict_display_in)
  with assms(1) show ?thesis by (auto simp: list_all_iff alias_ok_def)
qed

lemma resolve_enum_normalise:
  "is_ok (resolve_enum c aliases (ArgText s)) = is_ok (resolve_enum c aliases (ArgText (normalise s)))"
  "resolve_enum c aliases (ArgText s) = Inr m \<longleftrightarrow>
     resolve_enum c aliases (ArgText (normalise s)) = Inr m"
  by (auto simp: resolve_enum_def Let_def normalise_idem is_ok_def raise_ctx_def
      split: option.splits)

section \<open>Properties\<close>

text \<open>
  Alias resolution only depends on the canonical form of the text (normalising twice
  changes nothing, and the text and its canonical form resolve alike), and no text ever
  resolves to the \<open>UNKNOWN\<close> member or to a value outside the enum, for each of the seven
  resolvers.
\<close>

theorem alias_resolution_sound:
  "list_all (\<lambda>resolve.
      (\<forall>s m. resolve (ArgText s) = Inr m
         \<longrightarrow> mode_val m \<noteq> 0 \<and> enum_call (mode_class m) (mode_val m) = Some m) \<and>
      (\<forall>s m. resolve (ArgText s) = Inr m \<longleftrightarrow> resolve (ArgText (normalise s)) = Inr m))
     [resolve_filter_mode, resolve_auto_zero, resolve_tare_behavior, resolve_display_accuracy,
      resolve_isocal_mode, resolve_output_mode, resolve_menu_access]"
proof -
  have ok: "(\<forall>s m. resolve_enum c al (ArgText s) = Inr m
         \<longrightarrow> mode_val m \<noteq> 0 \<and> enum_call (mode_class m) (mode_val m) = Some m) \<and>
      (\<forall>s m. resolve_enum c al (ArgText s) = Inr m
         \<longleftrightarrow> resolve_enum c al (ArgText (normalise s)) = Inr m)"
    if "list_all (alias_ok c) al" for c al
  proof (intro conjI allI impI)
    fix s m assume "resolve_enum c al (ArgText s) = Inr m"
    with resolve_enum_text [OF that] have r: "mode_val m \<noteq> 0" "enum_call c (mode_val m) = Some m"
      by blast+
    show "mode_val m \<noteq> 0" by (fact r)
    have "mode_class m = c" using enum_call_val [OF r(2)] by (metis mode.sel(1))
    with r show "enum_call (mode_class m) (mode_val m) = Some m" by simp
  qed (rule resolve_enum_normalise)
  have eqs: "resolve_filter_mode = resolve_enum FilterMode FILTER_ALIASES"
    "resolve_auto_zero = resolve_enum AutoZeroMode AUTO_ZERO_ALIASES"
    "resolve_tare_behavior = resolve_enum TareBehavior TARE_ALIASES"
    "resolve_display_accuracy = resolve_enum DisplayAccuracyMode DISPLAY_ACC_ALIASES"
    "resolve_isocal_mode = resolve_enum IsoCalMode ISOCAL_ALIASES"
    "resolve_output_mode = resolve_enum OutputMode OUTPUT_ALIASES"
    "resolve_menu_access = resolve_enum MenuAccessMode MENU_ACCESS_ALIASES"
    by (simp_all add: fun_eq_iff resolve_filter_mode_def resolve_auto_zero_def
        resolve_tare_behavior_def resolve_display_accuracy_def resolve_isocal_mode_def
        resolve_output_mode_def resolve_menu_access_def)
  show ?thesis
    unfolding eqs list.pred_inject
    by ((rule conjI, rule ok, rule alias_tables_ok)+) simp
qed

theorem alias_resolution_sound_witness:
  "resolve_filter_mode (ArgText ''Very-Stable'') = Inr (Mode FilterMode 1) \<and>
   resolve_filter_mode (ArgText (normalise ''Very-Stable'')) = Inr (Mode FilterMode 1)"
proof -
  have "resolve_filter_mode (ArgText ''Very-Stable'') = Inr (Mode FilterMode 1)" by code_simp
  with alias_resolution_sound show ?thesis by simp
qed

end
