(* ===== verification/Commands.thy ===== *)
theory Commands
  imports Xbpi_Client Sbi_Client Models
begin

text \<open>
  The declarative command layer of \<open>commands/\<close>: a command is plain data with at most one
  variant per protocol, and a variant is an opcode or token with its encoder and decoder.
  \<open>commands/base.py\<close> is generic in the request and response types; a request type stays a type
  parameter here, and all responses are values of one datatype, so that the session can keep
  any of them in its result cache as the code does.
\<close>

section \<open>Commands, variants and context\<close>

record CommandContext =
  cc_protocol :: ProtocolKind
  cc_src_sbn :: int
  cc_dst_sbn :: int
  cc_firmware :: "FirmwareVersion option"
  cc_family :: BalanceFamily

datatype response =
    RNone
  | RReading Reading
  | RStatus BalanceStatus
  | RQuantity Quantity
  | RTemperature TemperatureReading
  | RParameter ParameterEntry
  | RCal CalRecord
  | RInt int
  | RStr string
  | RBytes bytes

record 'req XbpiVariant =
  xv_opcode :: int
  xv_encode :: "CommandContext \<Rightarrow> 'req \<Rightarrow> bytes res"
  xv_decode :: "XbpiFrame \<Rightarrow> CommandContext \<Rightarrow> response res"

record 'req SbiVariant =
  sv_token :: bytes
  sv_expect_lines :: int
  sv_encode :: "CommandContext \<Rightarrow> 'req \<Rightarrow> bytes res"
  sv_decode :: "SbiReply \<Rightarrow> CommandContext \<Rightarrow> response res"

record 'req Command =
  cmd_name :: string
  cmd_xbpi :: "'req XbpiVariant option"
  cmd_sbi :: "'req SbiVariant option"
  cmd_family_hints :: "BalanceFamily set"
  cmd_capability_hints :: "Capability set"
  cmd_safety :: SafetyTier
  cmd_min_firmware :: "FirmwareVersion option"
  cmd_max_firmware :: "FirmwareVersion option"
  cmd_parameterized :: bool

definition NO_CAPABILITY :: "Capability set" where "NO_CAPABILITY = {}"

definition NO_FAMILIES :: "BalanceFamily set" where "NO_FAMILIES = {}"

text \<open>The keyword constructor with the defaults of the dataclass.\<close>

definition Command ::
  "string \<Rightarrow> 'req XbpiVariant option \<Rightarrow> 'req SbiVariant option \<Rightarrow> SafetyTier \<Rightarrow> 'req Command" where
  "Command name xbpi sbi safety =
     \<lparr>cmd_name = name, cmd_xbpi = xbpi, cmd_sbi = sbi, cmd_family_hints = NO_FAMILIES,
      cmd_capability_hints = NO_CAPABILITY, cmd_safety = safety, cmd_min_firmware = None,
      cmd_max_firmware = None, cmd_parameterized = False\<rparr>"

text \<open>\<open>build_command(self.opcode, args, src_sbn=ctx.src_sbn, dst_sbn=ctx.dst_sbn)\<close>.\<close>

definition encode_with :: "int \<Rightarrow> bytes \<Rightarrow> CommandContext \<Rightarrow> bytes res" where
  "encode_with opcode args ctx = build_command opcode args (cc_src_sbn ctx) (cc_dst_sbn ctx)"

section \<open>Raw access\<close>

definition SAFE_READ_ONLY_OPCODES :: "int list" where
  "SAFE_READ_ONLY_OPCODES =
     [0x00, 0x01, 0x02, 0x03, 0x05, 0x07, 0x0A, 0x0F,
      0x0B, 0x0C, 0x0D, 0x0E,
      0x1C, 0x1E, 0x1F, 0x20, 0x21, 0x22, 0x23,
      0x26, 0x57,
      0x2E, 0x2F, 0x30, 0x32, 0x35, 0x36,
      0x76,
      0x54, 0x55,
      0x71,
      0xB9, 0xBA, 0xBC]"

section \<open>Tare and zero\<close>

datatype TareRequest = TareRequest

definition AckOnlyVariant :: "int \<Rightarrow> TareRequest XbpiVariant" where
  "AckOnlyVariant opcode =
     \<lparr>xv_opcode = opcode, xv_encode = (\<lambda>ctx request. encode_with opcode [] ctx),
      xv_decode = (\<lambda>reply ctx. Inr RNone)\<rparr>"

definition SbiNoReplyVariant :: "bytes \<Rightarrow> TareRequest SbiVariant" where
  "SbiNoReplyVariant token =
     \<lparr>sv_token = token, sv_expect_lines = 0, sv_encode = (\<lambda>ctx request. Inr token),
      sv_decode = (\<lambda>reply ctx. Inr RNone)\<rparr>"

definition TARE :: "TareRequest Command" where
  "TARE = Command ''tare'' (Some (AckOnlyVariant 0x14)) (Some (SbiNoReplyVariant TOKEN_TARE)) STATEFUL"

definition ZERO_CMD :: "TareRequest Command" where
  "ZERO_CMD = Command ''zero'' (Some (AckOnlyVariant 0x18)) (Some (SbiNoReplyVariant TOKEN_ZERO)) STATEFUL"

section \<open>Weight\<close>

datatype ReadWeightRequest = ReadWeightRequest
datatype ReadWeightHiresRequest = ReadWeightHiresRequest (rw_resolution: int)

definition measurement_reply_to_reading :: "XbpiFrame \<Rightarrow> CommandContext \<Rightarrow> Reading res" where
  "measurement_reply_to_reading reply ctx =
     res_bind (decode_measurement_body (fr_body reply)) (\<lambda>body.
       Inr \<lparr>rd_value = mb_value body, rd_unit = mb_unit body, rd_sign = mb_sign body,
            rd_stable = mb_stable body, rd_overload = False, rd_underload = False,
            rd_decimals = Some (mb_decimals body), rd_sequence = None,
            rd_status_flags = [(''stable'', mb_stable body), (''off_scale'', mb_off_scale body)],
            rd_protocol = cc_protocol ctx, rd_raw = fr_raw reply\<rparr>)"

definition ReadWeightStdVariant :: "int \<Rightarrow> ReadWeightRequest XbpiVariant" where
  "ReadWeightStdVariant opcode =
     \<lparr>xv_opcode = opcode, xv_encode = (\<lambda>ctx request. encode_with opcode [] ctx),
      xv_decode = (\<lambda>reply ctx.
        res_bind (measurement_reply_to_reading reply ctx) (\<lambda>r. Inr (RReading r)))\<rparr>"

definition SbiPrintWeightVariant :: "ReadWeightRequest SbiVariant" where
  "SbiPrintWeightVariant =
     \<lparr>sv_token = TOKEN_PRINT, sv_expect_lines = 1, sv_encode = (\<lambda>ctx request. Inr TOKEN_PRINT),
      sv_decode = (\<lambda>reply ctx. res_bind (require_reading reply) (\<lambda>r. Inr (RReading r)))\<rparr>"

definition READ_NET :: "ReadWeightRequest Command" where
  "READ_NET =
     Command ''read_net'' (Some (ReadWeightStdVariant 0x1E)) (Some SbiPrintWeightVariant) READ_ONLY"

definition READ_GROSS :: "ReadWeightRequest Command" where
  "READ_GROSS = Command ''read_gross'' (Some (ReadWeightStdVariant 0x20)) None READ_ONLY"

definition READ_TARE_VALUE :: "ReadWeightRequest Command" where
  "READ_TARE_VALUE = Command ''read_tare_value'' (Some (ReadWeightStdVariant 0x22)) None READ_ONLY"

definition ReadWeightHiresVariant :: "int \<Rightarrow> ReadWeightHiresRequest XbpiVariant" where
  "ReadWeightHiresVariant opcode =
     \<lparr>xv_opcode = opcode,
      xv_encode = (\<lambda>ctx request.
        res_bind (encode_tlv 0x21 (TlvInt (rw_resolution request))) (\<lambda>args.
          encode_with opcode args ctx)),
      xv_decode = (\<lambda>reply ctx.
        res_bind (measurement_reply_to_reading reply ctx) (\<lambda>r. Inr (RReading r)))\<rparr>"

definition READ_NET_HIRES :: "ReadWeightHiresRequest Command" where
  "READ_NET_HIRES =
     (Command ''read_net_hires'' (Some (ReadWeightHiresVariant 0x1F)) None READ_ONLY)
       \<lparr>cmd_capability_hints := {HIRES_WEIGHT}\<rparr>"

definition READ_GROSS_HIRES :: "ReadWeightHiresRequest Command" where
  "READ_GROSS_HIRES =
     (Command ''read_gross_hires'' (Some (ReadWeightHiresVariant 0x21)) None READ_ONLY)
       \<lparr>cmd_capability_hints := {HIRES_WEIGHT}\<rparr>"

section \<open>Status\<close>

datatype StatusRequest = StatusRequest

definition state_from_status_block :: "bool \<Rightarrow> bool \<Rightarrow> bool \<Rightarrow> BalanceState" where
  "state_from_status_block overload underload is_stable =
     (if overload then OVERLOAD
      else if underload then UNDERLOAD
      else if is_stable then STABLE
      else UNSTABLE)"

definition StatusBlockVariant :: "StatusRequest XbpiVariant" where
  "StatusBlockVariant =
     \<lparr>xv_opcode = 0x30, xv_encode = (\<lambda>ctx request. encode_with 0x30 [] ctx),
      xv_decode = (\<lambda>reply ctx.
        res_bind (decode_status_block_body (fr_body reply)) (\<lambda>block.
          Inr (RStatus
            \<lparr>bs_stable = Some (sb_stable block),
             bs_state = state_from_status_block (sb_overload block) (sb_underload block)
                          (sb_stable block),
             bs_isocal_due = sb_isocal_due block, bs_adc_trusted = sb_adc_trusted block,
             bs_sequence = Some (sb_sequence block), bs_raw_state = RawInt (sb_state block),
             bs_raw_status = RawInt (sb_status block), bs_raw = RawBytes (fr_raw reply)\<rparr>)))\<rparr>"

definition SbiStatusVariant :: "StatusRequest SbiVariant" where
  "SbiStatusVariant =
     \<lparr>sv_token = TOKEN_PRINT, sv_expect_lines = 1, sv_encode = (\<lambda>ctx request. Inr TOKEN_PRINT),
      sv_decode = (\<lambda>reply ctx.
        res_bind (require_reading reply) (\<lambda>reading.
          Inr (RStatus
            \<lparr>bs_stable = Some (rd_stable reading),
             bs_state = state_from_status_block (rd_overload reading) (rd_underload reading)
                          (rd_stable reading),
             bs_isocal_due = None, bs_adc_trusted = None, bs_sequence = None,
             bs_raw_state = RawNone, bs_raw_status = RawNone,
             bs_raw = RawBytes (sr_raw reply)\<rparr>)))\<rparr>"

definition STATUS_BLOCK :: "StatusRequest Command" where
  "STATUS_BLOCK = Command ''status_block'' (Some StatusBlockVariant) (Some SbiStatusVariant) READ_ONLY"

section \<open>System\<close>

datatype SystemRequest = SystemRequest

definition ConfigCounterVariant :: "SystemRequest XbpiVariant" where
  "ConfigCounterVariant =
     \<lparr>xv_opcode = 0xBA, xv_encode = (\<lambda>ctx request. encode_with 0xBA [] ctx),
      xv_decode = (\<lambda>reply ctx.
        case fr_body reply of
          [b] \<Rightarrow> Inr (RInt (uint b))
        | _ \<Rightarrow> raise_ctx SartoriusParseError
                 [SetCommandName (Some ''config_counter''), SetOpcode (Some 0xBA),
                  SetRawResponse (Some (RawBytes (fr_raw reply)))])\<rparr>"

definition MenuAckVariant :: "int \<Rightarrow> SystemRequest XbpiVariant" where
  "MenuAckVariant opcode =
     \<lparr>xv_opcode = opcode, xv_encode = (\<lambda>ctx request. encode_with opcode [] ctx),
      xv_decode = (\<lambda>reply ctx. Inr RNone)\<rparr>"

definition CONFIG_COUNTER_CMD :: "SystemRequest Command" where
  "CONFIG_COUNTER_CMD =
     (Command ''config_counter'' (Some ConfigCounterVariant) None READ_ONLY)
       \<lparr>cmd_capability_hints := {CONFIG_COUNTER}\<rparr>"

definition SAVE_MENU :: "SystemRequest Command" where
  "SAVE_MENU = Command ''save_menu'' (Some (MenuAckVariant 0x47)) None PERSISTENT"

definition RELOAD_MENU :: "SystemRequest Command" where
  "RELOAD_MENU = Command ''reload_menu'' (Some (MenuAckVariant 0x46)) None PERSISTENT"

section \<open>Metrology\<close>

definition TEMPERATURE_SENTINEL :: bytes where "TEMPERATURE_SENTINEL = [0x7f, 0xff, 0xff, 0xff]"

datatype MetrologyRequest = MetrologyRequest (mr_area: int)
datatype TemperatureRequest = TemperatureRequest (tq_sensor: int)

definition MetrologyVariant :: "int \<Rightarrow> MetrologyRequest XbpiVariant" where
  "MetrologyVariant opcode =
     \<lparr>xv_opcode = opcode,
      xv_encode = (\<lambda>ctx request.
        res_bind (encode_tlv 0x21 (TlvInt (mr_area request))) (\<lambda>args.
          encode_with opcode args ctx)),
      xv_decode = (\<lambda>reply ctx.
        res_bind (decode_typed_float_body (fr_body reply)) (\<lambda>body.
          Inr (RQuantity \<lparr>q_value = tf_value body, q_unit = U_UNKNOWN\<rparr>)))\<rparr>"

definition READ_CAPACITY :: "MetrologyRequest Command" where
  "READ_CAPACITY =
     (Command ''read_capacity'' (Some (MetrologyVariant 0x0C)) None READ_ONLY)
       \<lparr>cmd_parameterized := True\<rparr>"

definition READ_INCREMENT :: "MetrologyRequest Command" where
  "READ_INCREMENT =
     (Command ''read_increment'' (Some (MetrologyVariant 0x0D)) None READ_ONLY)
       \<lparr>cmd_parameterized := True\<rparr>"

definition TemperatureVariant :: "TemperatureRequest XbpiVariant" where
  "TemperatureVariant =
     \<lparr>xv_opcode = 0x76,
      xv_encode = (\<lambda>ctx request.
        res_bind (encode_tlv 0x21 (TlvInt (tq_sensor request))) (\<lambda>args.
          encode_with 0x76 args ctx)),
      xv_decode = (\<lambda>reply ctx.
        res_bind
          (if take 4 (fr_body reply) = TEMPERATURE_SENTINEL then Inr None
           else res_bind (decode_typed_float_body (fr_body reply)) (\<lambda>b. Inr (Some (tf_value b))))
          (\<lambda>celsius.
            Inr (RTemperature \<lparr>tr_sensor = -1, tr_celsius = celsius, tr_raw = fr_body reply\<rparr>)))\<rparr>"

definition READ_TEMPERATURE :: "TemperatureRequest Command" where
  "READ_TEMPERATURE =
     (Command ''read_temperature'' (Some TemperatureVariant) None READ_ONLY)
       \<lparr>cmd_capability_hints := {TEMPERATURE_SENSORS}, cmd_parameterized := True\<rparr>"

section \<open>The parameter table\<close>

definition TLV_U8_TAG :: int where "TLV_U8_TAG = 0x21"
definition EXPECTED_TLV_COUNT :: nat where "EXPECTED_TLV_COUNT = 2"

datatype ReadParameterRequest = ReadParameterRequest (rp_index: int)
datatype WriteParameterRequest = WriteParameterRequest (wp_index: int) (wp_value: int)

definition read_parameter_decode :: "XbpiFrame \<Rightarrow> CommandContext \<Rightarrow> response res" where
  "read_parameter_decode reply ctx =
     (let combined = byte_of_int (fr_subtype reply) # fr_body reply;
          origin = [SetCommandName (Some ''read_parameter''), SetOpcode (Some 0x55),
                    SetRawResponse (Some (RawBytes (fr_raw reply)))]
      in res_bind (parse_tlv_sequence combined) (\<lambda>tlvs.
           if length tlvs \<noteq> EXPECTED_TLV_COUNT
           then raise_ctx SartoriusParseError
                  (origin @ extra [(''tlv_count'', XInt (int (length tlvs)))])
           else
             let (current_tag, current_value) = tlvs ! 0; (max_tag, max_value) = tlvs ! 1
             in if current_tag \<noteq> TLV_U8_TAG \<or> max_tag \<noteq> TLV_U8_TAG
                then raise_ctx SartoriusParseError origin
                else Inr (RParameter
                       \<lparr>pe_index = -1, pe_current = uint (current_value ! 0),
                        pe_max = uint (max_value ! 0), pe_raw = fr_body reply\<rparr>)))"

definition ReadParameterVariant :: "ReadParameterRequest XbpiVariant" where
  "ReadParameterVariant =
     \<lparr>xv_opcode = 0x55,
      xv_encode = (\<lambda>ctx request.
        res_bind (encode_tlv TLV_U8_TAG (TlvInt (rp_index request))) (\<lambda>args.
          encode_with 0x55 args ctx)),
      xv_decode = read_parameter_decode\<rparr>"

definition WriteParameterVariant :: "WriteParameterRequest XbpiVariant" where
  "WriteParameterVariant =
     \<lparr>xv_opcode = 0x56,
      xv_encode = (\<lambda>ctx request.
        res_bind (encode_tlv TLV_U8_TAG (TlvInt (wp_index request))) (\<lambda>a.
        res_bind (encode_tlv TLV_U8_TAG (TlvInt (wp_value request))) (\<lambda>b.
          encode_with 0x56 (a @ b) ctx))),
      xv_decode = (\<lambda>reply ctx. Inr RNone)\<rparr>"

definition READ_PARAMETER :: "ReadParameterRequest Command" where
  "READ_PARAMETER =
     (Command ''read_parameter'' (Some ReadParameterVariant) None READ_ONLY)
       \<lparr>cmd_capability_hints := {PARAMETER_TABLE_CAP}, cmd_parameterized := True\<rparr>"

definition WRITE_PARAMETER :: "WriteParameterRequest Command" where
  "WRITE_PARAMETER =
     (Command ''write_parameter'' (Some WriteParameterVariant) None PERSISTENT)
       \<lparr>cmd_capability_hints := {PARAMETER_TABLE_CAP}, cmd_parameterized := True\<rparr>"

section \<open>Identity\<close>

datatype IdentityRequest = IdentityRequest

definition decode_ascii_blob :: "bytes \<Rightarrow> string" where
  "decode_ascii_blob body = py_strip (ascii_decode_replace (bytes_rstrip [0x00, 0x20] body))"

definition AsciiBlobVariant :: "int \<Rightarrow> IdentityRequest XbpiVariant" where
  "AsciiBlobVariant opcode =
     \<lparr>xv_opcode = opcode, xv_encode = (\<lambda>ctx request. encode_with opcode [] ctx),
      xv_decode = (\<lambda>reply ctx. Inr (RStr (decode_ascii_blob (fr_body reply))))\<rparr>"

definition SbiIdentityTextVariant :: "bytes \<Rightarrow> IdentityRequest SbiVariant" where
  "SbiIdentityTextVariant token =
     \<lparr>sv_token = token, sv_expect_lines = 1, sv_encode = (\<lambda>ctx request. Inr token),
      sv_decode = (\<lambda>reply ctx.
        res_bind (require_identity_text reply False) (\<lambda>t. Inr (RStr t)))\<rparr>"

definition SbiIdentityBytesVariant :: "bytes \<Rightarrow> IdentityRequest SbiVariant" where
  "SbiIdentityBytesVariant token =
     \<lparr>sv_token = token, sv_expect_lines = 1, sv_encode = (\<lambda>ctx request. Inr token),
      sv_decode = (\<lambda>reply ctx.
        res_bind (require_identity_text reply True) (\<lambda>t. Inr (RBytes (ascii_encode_replace t))))\<rparr>"

definition READ_MODEL :: "IdentityRequest Command" where
  "READ_MODEL =
     Command ''read_model'' (Some (AsciiBlobVariant 0x02)) (Some (SbiIdentityTextVariant TOKEN_TYPE))
       READ_ONLY"

definition READ_MANUFACTURER :: "IdentityRequest Command" where
  "READ_MANUFACTURER = Command ''read_manufacturer'' (Some (AsciiBlobVariant 0x07)) None READ_ONLY"

definition READ_OEM_TEXT :: "IdentityRequest Command" where
  "READ_OEM_TEXT = Command ''read_oem_text'' (Some (AsciiBlobVariant 0x05)) None READ_ONLY"

definition RawBlobVariant :: "int \<Rightarrow> IdentityRequest XbpiVariant" where
  "RawBlobVariant opcode =
     \<lparr>xv_opcode = opcode, xv_encode = (\<lambda>ctx request. encode_with opcode [] ctx),
      xv_decode = (\<lambda>reply ctx. Inr (RBytes (fr_body reply)))\<rparr>"

definition READ_SW_VERSION :: "IdentityRequest Command" where
  "READ_SW_VERSION =
     Command ''read_software_version'' (Some (RawBlobVariant 0x00))
       (Some (SbiIdentityBytesVariant TOKEN_SOFTWARE)) READ_ONLY"

definition READ_FACTORY_NUMBER :: "IdentityRequest Command" where
  "READ_FACTORY_NUMBER =
     Command ''read_factory_number'' (Some (RawBlobVariant 0x01))
       (Some (SbiIdentityBytesVariant TOKEN_SERIAL)) READ_ONLY"

definition ReadSbnVariant :: "IdentityRequest XbpiVariant" where
  "ReadSbnVariant =
     \<lparr>xv_opcode = 0x71, xv_encode = (\<lambda>ctx request. encode_with 0x71 [] ctx),
      xv_decode = (\<lambda>reply ctx.
        if length (fr_body reply) < 1 then Inr (RInt 0)
        else Inr (RInt (uint (fr_body reply ! 0))))\<rparr>"

definition READ_SBN :: "IdentityRequest Command" where
  "READ_SBN = Command ''read_sbn'' (Some ReadSbnVariant) None READ_ONLY"

section \<open>Calibration\<close>

definition INTERNAL_ADJUST_CAL_TYPE :: int where "INTERNAL_ADJUST_CAL_TYPE = 0x78"
definition CAL_RECORD_LEN :: nat where "CAL_RECORD_LEN = 17"
definition TEMP_SENTINEL :: bytes where "TEMP_SENTINEL = [0, 0, 0, 0]"

datatype LastCalRecordRequest = LastCalRecordRequest
datatype InternalAdjustRequest = InternalAdjustRequest (ia_cal_type: int)

definition LastCalRecordVariant :: "LastCalRecordRequest XbpiVariant" where
  "LastCalRecordVariant =
     \<lparr>xv_opcode = 0xB9, xv_encode = (\<lambda>ctx request. encode_with 0xB9 [] ctx),
      xv_decode = (\<lambda>reply ctx.
        let body = fr_body reply
        in if length body \<noteq> CAL_RECORD_LEN
           then raise_ctx SartoriusParseError
                  [SetCommandName (Some ''last_cal_record''), SetOpcode (Some 0xB9),
                   SetRawResponse (Some (RawBytes (fr_raw reply)))]
           else
             let temp_bytes = slice 0 4 body
             in Inr (RCal
                  \<lparr>cr_temperature_celsius =
                     (if temp_bytes = TEMP_SENTINEL then None else Some (unpack_f32_be temp_bytes)),
                   cr_signature = slice 4 13 body, cr_counters = slice 13 16 body,
                   cr_padding = uint (body ! 16), cr_raw = body\<rparr>))\<rparr>"

definition InternalAdjustVariant :: "InternalAdjustRequest XbpiVariant" where
  "InternalAdjustVariant =
     \<lparr>xv_opcode = 0x28,
      xv_encode = (\<lambda>ctx request.
        res_bind (encode_tlv 0x21 (TlvInt (ia_cal_type request))) (\<lambda>args.
          encode_with 0x28 args ctx)),
      xv_decode = (\<lambda>reply ctx. Inr RNone)\<rparr>"

definition LAST_CAL_RECORD :: "LastCalRecordRequest Command" where
  "LAST_CAL_RECORD =
     (Command ''last_cal_record'' (Some LastCalRecordVariant) None READ_ONLY)
       \<lparr>cmd_capability_hints := {CAL_RECORD}\<rparr>"

definition INTERNAL_ADJUST :: "InternalAdjustRequest Command" where
  "INTERNAL_ADJUST =
     (Command ''internal_adjust'' (Some InternalAdjustVariant) None DANGEROUS)
       \<lparr>cmd_capability_hints := {INTERNAL_CAL}\<rparr>"

section \<open>The client factory\<close>

datatype protocol_client = XbpiClient xbpi_client | SbiClient sbi_client

fun make_protocol_client :: "ProtocolKind \<Rightarrow> protocol_client res" where
  "make_protocol_client XBPI = Inr (XbpiClient XbpiProtocolClient)"
| "make_protocol_client SBI = Inr (SbiClient SbiProtocolClient)"
| "make_protocol_client AUTO = Inl (Py ValueError)"

section \<open>Facts\<close>

datatype resp_type =
  TNone | TReading | TStatus | TQuantity | TTemperature | TParameter | TCal | TInt | TStr | TBytes

fun response_type :: "response \<Rightarrow> resp_type" where
  "response_type RNone = TNone"
| "response_type (RReading r) = TReading"
| "response_type (RStatus r) = TStatus"
| "response_type (RQuantity r) = TQuantity"
| "response_type (RTemperature r) = TTemperature"
| "response_type (RParameter r) = TParameter"
| "response_type (RCal r) = TCal"
| "response_type (RInt n) = TInt"
| "response_type (RStr t) = TStr"
| "response_type (RBytes b) = TBytes"

text \<open>A decoded value has the type, and a failure to decode is a protocol error.\<close>

definition yields :: "resp_type \<Rightarrow> response res \<Rightarrow> bool" where
  "yields ty r = (case r of Inr x \<Rightarrow> response_type x = ty | Inl e \<Rightarrow> exn_is e SartoriusProtocolError)"

definition decodes_to :: "resp_type \<Rightarrow> 'req Command \<Rightarrow> bool" where
  "decodes_to ty cmd \<longleftrightarrow>
     (\<forall>v reply ctx. cmd_xbpi cmd = Some v \<longrightarrow> yields ty (xv_decode v reply ctx)) \<and>
     (\<forall>v reply ctx. cmd_sbi cmd = Some v \<longrightarrow> yields ty (sv_decode v reply ctx))"

lemma yields_simps [simp]:
  "yields ty (Inr x) \<longleftrightarrow> response_type x = ty"
  "yields ty (Inl e) \<longleftrightarrow> exn_is e SartoriusProtocolError"
  "yields ty (raise_ctx c ups) \<longleftrightarrow> is_subclass c SartoriusProtocolError"
  by (simp_all add: yields_def raise_ctx_def)

lemma yields_bind:
  "(\<And>e. r = Inl e \<Longrightarrow> exn_is e SartoriusProtocolError) \<Longrightarrow>
   (\<And>x. r = Inr x \<Longrightarrow> yields ty (f x)) \<Longrightarrow> yields ty (res_bind r f)"
  by (cases r) simp_all

lemma res_bind_eq_Inl: "res_bind r f = Inl e \<longleftrightarrow> r = Inl e \<or> (\<exists>x. r = Inr x \<and> f x = Inl e)"
  by (cases r) auto

lemma protocol_error_of:
  "exn_is e SartoriusParseError \<Longrightarrow> exn_is e SartoriusProtocolError"
  "exn_is e SartoriusFrameError \<Longrightarrow> exn_is e SartoriusProtocolError"
  by (cases e; auto intro: is_subclass_trans simp: subclass_simps)+

lemma parse_error_is_frame_or_parse:
  "decode_typed_float_body b = Inl e \<Longrightarrow> exn_is e SartoriusParseError"
  "require_reading reply = Inl e \<Longrightarrow> exn_is e SartoriusParseError"
  "require_identity_text reply w = Inl e \<Longrightarrow> exn_is e SartoriusParseError"
  by (auto simp: decode_typed_float_body_def require_reading_def require_identity_text_def
      raise_ctx_def split: if_splits list.splits)

lemma measurement_reply_error:
  "measurement_reply_to_reading reply ctx = Inl e \<Longrightarrow> exn_is e SartoriusParseError"
  by (cases "decode_measurement_body (fr_body reply)")
    (auto simp: measurement_reply_to_reading_def dest: decode_measurement_error)

lemma read_parameter_yields: "yields TParameter (read_parameter_decode reply ctx)"
  unfolding read_parameter_decode_def Let_def
  by (rule yields_bind)
    (auto simp: subclass_simps parse_tlv_sequence_def split: prod.split
      intro!: protocol_error_of(2) parse_tlv_from_error)

text \<open>The opcode and tier of a command, and its token and tier.\<close>

definition opcode_tier :: "'req Command \<Rightarrow> (int \<times> SafetyTier) list" where
  "opcode_tier c = (case cmd_xbpi c of None \<Rightarrow> [] | Some v \<Rightarrow> [(xv_opcode v, cmd_safety c)])"

definition token_tier :: "'req Command \<Rightarrow> (bytes \<times> SafetyTier) list" where
  "token_tier c = (case cmd_sbi c of None \<Rightarrow> [] | Some v \<Rightarrow> [(sv_token v, cmd_safety c)])"

definition opcode_tiers :: "(int \<times> SafetyTier) list" where
  "opcode_tiers =
     opcode_tier TARE @ opcode_tier ZERO_CMD @ opcode_tier READ_NET @ opcode_tier READ_GROSS @
     opcode_tier READ_TARE_VALUE @ opcode_tier READ_NET_HIRES @ opcode_tier READ_GROSS_HIRES @
     opcode_tier STATUS_BLOCK @ opcode_tier CONFIG_COUNTER_CMD @ opcode_tier SAVE_MENU @
     opcode_tier RELOAD_MENU @ opcode_tier READ_CAPACITY @ opcode_tier READ_INCREMENT @
     opcode_tier READ_TEMPERATURE @ opcode_tier READ_PARAMETER @ opcode_tier WRITE_PARAMETER @
     opcode_tier READ_MODEL @ opcode_tier READ_MANUFACTURER @ opcode_tier READ_OEM_TEXT @
     opcode_tier READ_SW_VERSION @ opcode_tier READ_FACTORY_NUMBER @ opcode_tier READ_SBN @
     opcode_tier LAST_CAL_RECORD @ opcode_tier INTERNAL_ADJUST"

definition token_tiers :: "(bytes \<times> SafetyTier) list" where
  "token_tiers =
     token_tier TARE @ token_tier ZERO_CMD @ token_tier READ_NET @ token_tier STATUS_BLOCK @
     token_tier READ_MODEL @ token_tier READ_SW_VERSION @ token_tier READ_FACTORY_NUMBER"

lemmas command_specs =
  TARE_def ZERO_CMD_def READ_NET_def READ_GROSS_def READ_TARE_VALUE_def READ_NET_HIRES_def
  READ_GROSS_HIRES_def STATUS_BLOCK_def CONFIG_COUNTER_CMD_def SAVE_MENU_def RELOAD_MENU_def
  READ_CAPACITY_def READ_INCREMENT_def READ_TEMPERATURE_def READ_PARAMETER_def
  WRITE_PARAMETER_def READ_MODEL_def READ_MANUFACTURER_def READ_OEM_TEXT_def
  READ_SW_VERSION_def READ_FACTORY_NUMBER_def READ_SBN_def LAST_CAL_RECORD_def
  INTERNAL_ADJUST_def Command_def

lemmas variant_specs =
  AckOnlyVariant_def SbiNoReplyVariant_def ReadWeightStdVariant_def SbiPrintWeightVariant_def
  ReadWeightHiresVariant_def StatusBlockVariant_def SbiStatusVariant_def
  ConfigCounterVariant_def MenuAckVariant_def MetrologyVariant_def TemperatureVariant_def
  ReadParameterVariant_def WriteParameterVariant_def AsciiBlobVariant_def
  SbiIdentityTextVariant_def SbiIdentityBytesVariant_def RawBlobVariant_def ReadSbnVariant_def
  LastCalRecordVariant_def InternalAdjustVariant_def

lemma commands_decode:
  "decodes_to TNone TARE" "decodes_to TNone ZERO_CMD" "decodes_to TReading READ_NET"
  "decodes_to TReading READ_GROSS" "decodes_to TReading READ_TARE_VALUE"
  "decodes_to TReading READ_NET_HIRES" "decodes_to TReading READ_GROSS_HIRES"
  "decodes_to TStatus STATUS_BLOCK" "decodes_to TInt CONFIG_COUNTER_CMD"
  "decodes_to TNone SAVE_MENU" "decodes_to TNone RELOAD_MENU"
  "decodes_to TQuantity READ_CAPACITY" "decodes_to TQuantity READ_INCREMENT"
  "decodes_to TTemperature READ_TEMPERATURE" "decodes_to TParameter READ_PARAMETER"
  "decodes_to TNone WRITE_PARAMETER" "decodes_to TStr READ_MODEL"
  "decodes_to TStr READ_MANUFACTURER" "decodes_to TStr READ_OEM_TEXT"
  "decodes_to TBytes READ_SW_VERSION" "decodes_to TBytes READ_FACTORY_NUMBER"
  "decodes_to TInt READ_SBN" "decodes_to TCal LAST_CAL_RECORD" "decodes_to TNone INTERNAL_ADJUST"
  by (simp add: decodes_to_def command_specs variant_specs;
      auto intro!: yields_bind read_parameter_yields protocol_error_of(1)
        dest: measurement_reply_error decode_status_error parse_error_is_frame_or_parse
        simp: Let_def subclass_simps res_bind_eq_Inl split: list.split)+

section \<open>Properties\<close>

text \<open>
  The declared tiers and the safe lists of the raw interfaces agree: the opcode of a
  command is on the raw xBPI safe list exactly when the command is read-only, and its token is
  on the raw SBI safe list exactly when the command is read-only.
\<close>

theorem safe_lists_agree_with_tiers:
  "list_all (\<lambda>(opcode, tier). opcode \<in> set SAFE_READ_ONLY_OPCODES \<longleftrightarrow> tier = READ_ONLY) opcode_tiers \<and>
   list_all (\<lambda>(token, tier). token \<in> set SBI_READ_ONLY_TOKENS \<longleftrightarrow> tier = READ_ONLY) token_tiers"
  by (rule conjI;
      simp add: opcode_tiers_def token_tiers_def opcode_tier_def token_tier_def command_specs
        variant_specs SAFE_READ_ONLY_OPCODES_def; code_simp)


text \<open>
  Writing a parameter puts on the wire exactly the frame that a device reads back as opcode
  \<open>0x56\<close> with the two one-byte records of index and value, and a frame exists exactly when
  index, value and both addresses fit in a byte; anything else raises a frame error before any
  byte is sent.
\<close>

theorem write_parameter_on_wire:
  "xv_encode WriteParameterVariant ctx (WriteParameterRequest i v) = Inr tx \<longleftrightarrow>
     0 \<le> i \<and> i \<le> 255 \<and> 0 \<le> v \<and> v \<le> 255 \<and>
     tx_view tx = Some (cc_src_sbn ctx, cc_dst_sbn ctx, 0x56,
                        tlv_encode_list [(0x21, [byte_of_int i]), (0x21, [byte_of_int v])])"
  by (auto simp: WriteParameterVariant_def res_bind_eq_Inr encode_tlv_int_ok_iff TLV_TAG_SIZES_def
      TLV_U8_TAG_def encode_with_def build_command_iff_view tlv_encode_list_simps tlv_wf_def)

text \<open>
  Reading a parameter: a reply frame decodes exactly when it is one record list of two
  one-byte records, the subtype byte being the first tag; the decoded entry holds the two
  values, and every other reply raises a protocol error.
\<close>

theorem read_parameter_reply:
  "read_parameter_decode (frame_of st body) ctx =
       Inr (RParameter \<lparr>pe_index = -1, pe_current = c, pe_max = m, pe_raw = body\<rparr>)
     \<longleftrightarrow> 0 \<le> c \<and> c \<le> 255 \<and> 0 \<le> m \<and> m \<le> 255 \<and>
         st = 0x21 \<and> body = [byte_of_int c, 0x21, byte_of_int m]"
proof
  let ?l = "st # body"
  have sub: "byte_of_int (fr_subtype (frame_of st body)) = st" "fr_body (frame_of st body) = body"
    by (simp_all add: frame_of_def)
  assume d: "read_parameter_decode (frame_of st body) ctx =
       Inr (RParameter \<lparr>pe_index = -1, pe_current = c, pe_max = m, pe_raw = body\<rparr>)"
  then obtain tlvs where p: "parse_tlv_sequence ?l = Inr tlvs"
    by (auto simp: read_parameter_decode_def Let_def res_bind_eq_Inr sub)
  with d have len: "length tlvs = 2"
    by (auto simp: read_parameter_decode_def Let_def sub EXPECTED_TLV_COUNT_def split: if_splits)
  then obtain t1 v1 t2 v2 where tlvs: "tlvs = [(t1, v1), (t2, v2)]"
    by (metis (no_types, opaque_lifting) One_nat_def Suc_1 length_0_conv length_Suc_conv surj_pair)
  with d p have t: "t1 = 0x21" "t2 = 0x21" and cm: "c = uint (v1 ! 0)" "m = uint (v2 ! 0)"
    by (auto simp: read_parameter_decode_def Let_def sub EXPECTED_TLV_COUNT_def TLV_U8_TAG_def
        split: if_splits)
  from p tlvs t have wf: "tlv_wf (0x21, v1)" "tlv_wf (0x21, v2)"
    and l: "?l = tlv_encode_list [(0x21, v1), (0x21, v2)]"
    by (simp_all add: parse_tlv_sequence_iff)
  from wf have "length v1 = 1" "length v2 = 1" by (simp_all add: tlv_wf_def TLV_TAG_SIZES_def)
  then obtain a b where v: "v1 = [a]" "v2 = [b]" by (auto simp: length_Suc_conv)
  from l wf v have "st = 0x21 \<and> body = [a, 0x21, b]"
    by (simp add: tlv_encode_list_simps byte_of_int_def)
  with cm v show "0 \<le> c \<and> c \<le> 255 \<and> 0 \<le> m \<and> m \<le> 255 \<and>
      st = 0x21 \<and> body = [byte_of_int c, 0x21, byte_of_int m]"
    using byte_uint_bounds by simp
next
  assume r: "0 \<le> c \<and> c \<le> 255 \<and> 0 \<le> m \<and> m \<le> 255 \<and>
      st = 0x21 \<and> body = [byte_of_int c, 0x21, byte_of_int m]"
  let ?rs = "[(0x21, [byte_of_int c]), (0x21, [byte_of_int m])]"
  have wf: "tlv_wf (0x21, [x])" for x by (simp add: tlv_wf_def TLV_TAG_SIZES_def)
  have "parse_tlv_sequence (0x21 # body) = Inr ?rs"
    using wf r by (simp add: parse_tlv_sequence_iff tlv_encode_list_simps byte_of_int_def)
  moreover have "byte_of_int (fr_subtype (frame_of st body)) = 0x21"
    using r by (simp add: frame_of_def byte_of_int_def)
  ultimately show "read_parameter_decode (frame_of st body) ctx =
       Inr (RParameter \<lparr>pe_index = -1, pe_current = c, pe_max = m, pe_raw = body\<rparr>)"
    using r by (simp add: read_parameter_decode_def Let_def EXPECTED_TLV_COUNT_def TLV_U8_TAG_def
        frame_of_def uint_byte_of_int)
qed

end
