(* ===== verification/Session.thy ===== *)
theory Session
  imports Commands
begin

text \<open>
  \<open>devices/session.py\<close>: the single dispatch point between the \<open>Balance\<close> facade and the
  protocol clients. A session holds its clients, what it believes of the device, the
  availability of each command by name, and the result cache; every operation takes the
  session and the transport state and returns them updated, also when it raises. One call runs
  at a time. Warnings are kept as a log; the text of a prior mismatch and the details under
  \<open>extra\<close> are not modelled, nor are timeouts.
\<close>

datatype SessionState = OPERATIONAL | BROKEN

record session =
  se_xbpi :: "xbpi_client option"
  se_sbi :: "sbi_client option"
  se_active :: ProtocolKind
  se_family :: BalanceFamily
  se_capabilities :: "Capability set"
  se_firmware :: "FirmwareVersion option"
  se_src_sbn :: int
  se_dst_sbn :: int
  se_strict :: bool
  se_availability :: "string \<Rightarrow> Availability option"
  se_warned_priors :: "string set"
  se_result_cache :: "string \<Rightarrow> (int \<times> response) option"
  se_state :: SessionState
  se_recoverable_error_count :: int
  se_serial_settings :: "SerialSettings option"
  se_warnings :: "string list"

text \<open>The checks shared by \<open>__init__\<close> and \<open>replace_clients\<close>.\<close>

definition check_clients ::
  "xbpi_client option \<Rightarrow> sbi_client option \<Rightarrow> ProtocolKind \<Rightarrow> unit res" where
  "check_clients xbpi sbi active =
     (if active = AUTO then raise SartoriusError
      else if active = XBPI \<and> xbpi = None then raise SartoriusError
      else if active = SBI \<and> sbi = None then raise SartoriusError
      else Inr ())"

definition Session ::
  "xbpi_client option \<Rightarrow> sbi_client option \<Rightarrow> ProtocolKind \<Rightarrow> BalanceFamily \<Rightarrow> Capability set \<Rightarrow>
   FirmwareVersion option \<Rightarrow> int \<Rightarrow> int \<Rightarrow> bool \<Rightarrow> SerialSettings option \<Rightarrow> session res" where
  "Session xbpi sbi active family capabilities firmware src_sbn dst_sbn strict settings =
     res_bind (check_clients xbpi sbi active) (\<lambda>_.
       Inr \<lparr>se_xbpi = xbpi, se_sbi = sbi, se_active = active, se_family = family,
            se_capabilities = capabilities, se_firmware = firmware, se_src_sbn = src_sbn,
            se_dst_sbn = dst_sbn, se_strict = strict, se_availability = (\<lambda>_. None),
            se_warned_priors = {}, se_result_cache = (\<lambda>_. None), se_state = OPERATIONAL,
            se_recoverable_error_count = 0, se_serial_settings = settings, se_warnings = []\<rparr>)"

definition replace_clients ::
  "xbpi_client option \<Rightarrow> sbi_client option \<Rightarrow> ProtocolKind \<Rightarrow> SerialSettings option \<Rightarrow> session \<Rightarrow>
   unit res \<times> session" where
  "replace_clients xbpi sbi active settings se =
     (case check_clients xbpi sbi active of
        Inl e \<Rightarrow> (Inl e, se)
      | Inr _ \<Rightarrow>
          (Inr (),
           se\<lparr>se_xbpi := xbpi, se_sbi := sbi, se_active := active,
              se_serial_settings := (case settings of None \<Rightarrow> se_serial_settings se | Some x \<Rightarrow> Some x),
              se_availability := (\<lambda>_. None), se_warned_priors := {},
              se_result_cache := (\<lambda>_. None)\<rparr>))"

definition availability_of :: "session \<Rightarrow> string \<Rightarrow> Availability" where
  "availability_of se name = (case se_availability se name of None \<Rightarrow> AV_UNKNOWN | Some a \<Rightarrow> a)"

definition set_availability :: "string \<Rightarrow> Availability \<Rightarrow> session \<Rightarrow> session" where
  "set_availability name a se = se\<lparr>se_availability := (se_availability se)(name \<mapsto> a)\<rparr>"

definition sbi_autoprint_active :: "session \<Rightarrow> bool" where
  "sbi_autoprint_active se \<longleftrightarrow>
     se_active se = SBI \<and> (case se_sbi se of None \<Rightarrow> False | Some c \<Rightarrow> sc_autoprint_active c)"

definition record_recoverable_error :: "session \<Rightarrow> session" where
  "record_recoverable_error se =
     se\<lparr>se_recoverable_error_count := se_recoverable_error_count se + 1\<rparr>"

definition set_dst_sbn :: "int \<Rightarrow> session \<Rightarrow> session" where
  "set_dst_sbn dst se = se\<lparr>se_dst_sbn := dst\<rparr>"

definition update_identity ::
  "BalanceFamily option \<Rightarrow> Capability set option \<Rightarrow> FirmwareVersion option \<Rightarrow> session \<Rightarrow> session" where
  "update_identity family capabilities firmware se =
     (let se = (case family of None \<Rightarrow> se | Some f \<Rightarrow> se\<lparr>se_family := f\<rparr>);
          se = (case capabilities of None \<Rightarrow> se | Some c \<Rightarrow> se\<lparr>se_capabilities := c\<rparr>)
      in (case firmware of None \<Rightarrow> se | Some f \<Rightarrow> se\<lparr>se_firmware := Some f\<rparr>))"

definition mark_broken :: "session \<Rightarrow> session" where
  "mark_broken se = se\<lparr>se_state := BROKEN\<rparr>"

definition check_state :: "session \<Rightarrow> unit res" where
  "check_state se =
     (if se_state se = BROKEN
      then raise_ctx SartoriusConnectionError (extra [(''session_state'', XStr ''broken'')])
      else Inr ())"

section \<open>Gates\<close>

definition gate_protocol :: "'req Command \<Rightarrow> session \<Rightarrow> unit res" where
  "gate_protocol cmd se =
     (if se_active se = XBPI
      then (case cmd_xbpi cmd of
              None \<Rightarrow> raise_ctx SartoriusProtocolUnsupportedError
                        ([SetCommandName (Some (cmd_name cmd)), SetProtocol (Some ''xbpi'')] @
                         extra [(''active_protocol'', XStr ''xbpi'')])
            | Some _ \<Rightarrow> Inr ())
      else (case cmd_sbi cmd of
              None \<Rightarrow> raise_ctx SartoriusProtocolUnsupportedError
                        ([SetCommandName (Some (cmd_name cmd)), SetProtocol (Some ''sbi'')] @
                         extra [(''active_protocol'', XStr ''sbi'')])
            | Some _ \<Rightarrow> Inr ()))"

fun tier_name :: "SafetyTier \<Rightarrow> string" where
  "tier_name READ_ONLY = ''READ_ONLY''"
| "tier_name STATEFUL = ''STATEFUL''"
| "tier_name PERSISTENT = ''PERSISTENT''"
| "tier_name DANGEROUS = ''DANGEROUS''"

definition gate_safety :: "'req Command \<Rightarrow> bool \<Rightarrow> session \<Rightarrow> unit res" where
  "gate_safety cmd confirm se =
     (if cmd_safety cmd \<in> {READ_ONLY, STATEFUL} then Inr ()
      else if confirm then Inr ()
      else raise_ctx SartoriusConfirmationRequiredError
             ([SetCommandName (Some (cmd_name cmd)),
               SetProtocol (Some (protocol_value (se_active se)))] @
              extra [(''safety'', XStr (tier_name (cmd_safety cmd)))]))"

definition gate_known_denied :: "'req Command \<Rightarrow> session \<Rightarrow> unit res" where
  "gate_known_denied cmd se =
     (if se_availability se (cmd_name cmd) = Some UNSUPPORTED
      then raise_ctx SartoriusUnsupportedCommandError
             ([SetCommandName (Some (cmd_name cmd)),
               SetProtocol (Some (protocol_value (se_active se)))] @
              extra [(''availability'', XStr ''unsupported'')])
      else Inr ())"

definition priors_ok :: "'req Command \<Rightarrow> session \<Rightarrow> bool" where
  "priors_ok cmd se \<longleftrightarrow>
     (cmd_family_hints cmd = {} \<or> se_family se \<in> cmd_family_hints cmd) \<and>
     (cmd_capability_hints cmd = NO_CAPABILITY \<or>
      se_capabilities se \<inter> cmd_capability_hints cmd = cmd_capability_hints cmd)"

definition gate_priors :: "'req Command \<Rightarrow> session \<Rightarrow> unit res \<times> session" where
  "gate_priors cmd se =
     (if priors_ok cmd se then (Inr (), se)
      else if se_strict se
      then (raise_ctx SartoriusCapabilityError
              [SetCommandName (Some (cmd_name cmd)),
               SetProtocol (Some (protocol_value (se_active se))),
               SetFamily (Some (family_value (se_family se)))], se)
      else if cmd_name cmd \<in> se_warned_priors se then (Inr (), se)
      else (Inr (), se\<lparr>se_warned_priors := insert (cmd_name cmd) (se_warned_priors se),
                       se_warnings := se_warnings se @ [cmd_name cmd]\<rparr>))"

section \<open>Dispatch\<close>

definition command_context :: "ProtocolKind \<Rightarrow> session \<Rightarrow> CommandContext" where
  "command_context p se =
     \<lparr>cc_protocol = p, cc_src_sbn = se_src_sbn se, cc_dst_sbn = se_dst_sbn se,
      cc_firmware = se_firmware se, cc_family = se_family se\<rparr>"

definition execute_xbpi ::
  "'s transport_ops \<Rightarrow> 'req Command \<Rightarrow> 'req \<Rightarrow> session \<Rightarrow> 's \<Rightarrow> response res \<times> session \<times> 's" where
  "execute_xbpi ops cmd request se s =
     (case cmd_xbpi cmd of
        None \<Rightarrow> (raise_ctx SartoriusProtocolUnsupportedError
                   [SetCommandName (Some (cmd_name cmd)), SetProtocol (Some ''xbpi'')], se, s)
      | Some variant \<Rightarrow>
     (case se_xbpi se of
        None \<Rightarrow> (raise_ctx SartoriusError [SetCommandName (Some (cmd_name cmd))], se, s)
      | Some client \<Rightarrow>
          let ctx = command_context XBPI se
          in (case xv_encode variant ctx request of
                Inl e \<Rightarrow> (Inl e, se, s)
              | Inr request_bytes \<Rightarrow>
             (case xbpi_execute ops client request_bytes (cmd_name cmd) (Some (xv_opcode variant)) s of
                (Inl e, s') \<Rightarrow>
                  if exn_is e SartoriusUnsupportedCommandError
                  then (if cmd_parameterized cmd
                        then (Inl (Sart SartoriusIndexOutOfRangeError (exn_context e)), se, s')
                        else (Inl e, set_availability (cmd_name cmd) UNSUPPORTED se, s'))
                  else if exn_is e SartoriusOperationNotApplicableError
                  then (Inl e, set_availability (cmd_name cmd) INAPPLICABLE se, s')
                  else (Inl e, se, s')
              | (Inr frame, s') \<Rightarrow>
                  (xv_decode variant frame ctx, set_availability (cmd_name cmd) SUPPORTED se, s')))))"

definition raise_sbi_autoprint_active :: "string \<Rightarrow> bytes option \<Rightarrow> 'a res" where
  "raise_sbi_autoprint_active command_name sbi_token =
     raise_ctx SartoriusAutoprintActiveError
       ([SetCommandName (Some command_name), SetSbiToken sbi_token, SetProtocol (Some ''sbi'')] @
        extra [(''autoprint_active'', XBool True)])"

definition reply_is_surprise_autoprint :: "sbi_client \<Rightarrow> SbiReply \<Rightarrow> bytes option \<Rightarrow> bool" where
  "reply_is_surprise_autoprint client reply sbi_token \<longleftrightarrow>
     \<not> sc_autoprint_active client \<and> sbi_token \<noteq> Some TOKEN_PRINT \<and>
     list_ex (\<lambda>line. is_autoprint_line (sl_raw line)) (sr_lines reply)"

text \<open>Sending a token and looking for autoprint output in the reply, for commands and raw access.\<close>

definition sbi_exchange_checked ::
  "'s transport_ops \<Rightarrow> bytes \<Rightarrow> string \<Rightarrow> bytes \<Rightarrow> int \<Rightarrow> sbi_client \<Rightarrow> session \<Rightarrow> 's \<Rightarrow>
   SbiReply res \<times> session \<times> 's" where
  "sbi_exchange_checked ops request_bytes name token expect_lines client se s =
     (if sbi_autoprint_active se \<and> expect_lines > 0
      then (raise_sbi_autoprint_active name (Some token), se, s)
      else
        (case sbi_execute ops request_bytes name (Some token) expect_lines client s of
           (Inl e, s') \<Rightarrow> (Inl e, se, s')
         | (Inr reply, s') \<Rightarrow>
             if reply_is_surprise_autoprint client reply (Some token)
             then (raise_sbi_autoprint_active name (Some token),
                   se\<lparr>se_sbi := Some (mark_autoprint_active (Some (sr_raw reply)) client)\<rparr>, s')
             else (Inr reply, se, s')))"

definition execute_sbi ::
  "'s transport_ops \<Rightarrow> 'req Command \<Rightarrow> 'req \<Rightarrow> session \<Rightarrow> 's \<Rightarrow> response res \<times> session \<times> 's" where
  "execute_sbi ops cmd request se s =
     (case cmd_sbi cmd of
        None \<Rightarrow> (raise_ctx SartoriusProtocolUnsupportedError
                   [SetCommandName (Some (cmd_name cmd)), SetProtocol (Some ''sbi'')], se, s)
      | Some variant \<Rightarrow>
     (case se_sbi se of
        None \<Rightarrow> (raise_ctx SartoriusError [SetCommandName (Some (cmd_name cmd))], se, s)
      | Some client \<Rightarrow>
          let ctx = command_context SBI se
          in (case sv_encode variant ctx request of
                Inl e \<Rightarrow> (Inl e, se, s)
              | Inr request_bytes \<Rightarrow>
             (case sbi_exchange_checked ops request_bytes (cmd_name cmd) (sv_token variant)
                     (sv_expect_lines variant) client se s of
                (Inl e, se', s') \<Rightarrow> (Inl e, se', s')
              | (Inr reply, se', s') \<Rightarrow>
                  (sv_decode variant reply ctx, set_availability (cmd_name cmd) SUPPORTED se', s')))))"

definition session_execute ::
  "'s transport_ops \<Rightarrow> 'req Command \<Rightarrow> 'req \<Rightarrow> bool \<Rightarrow> session \<Rightarrow> 's \<Rightarrow> response res \<times> session \<times> 's"
where
  "session_execute ops cmd request confirm se s =
     (case check_state se of Inl e \<Rightarrow> (Inl e, se, s) | Inr _ \<Rightarrow>
     (case gate_safety cmd confirm se of Inl e \<Rightarrow> (Inl e, se, s) | Inr _ \<Rightarrow>
     (case gate_protocol cmd se of Inl e \<Rightarrow> (Inl e, se, s) | Inr _ \<Rightarrow>
     (case gate_known_denied cmd se of Inl e \<Rightarrow> (Inl e, se, s) | Inr _ \<Rightarrow>
     (case gate_priors cmd se of (Inl e, se1) \<Rightarrow> (Inl e, se1, s) | (Inr _, se1) \<Rightarrow>
       if se_active se1 = XBPI then execute_xbpi ops cmd request se1 s
       else if se_active se1 = SBI then execute_sbi ops cmd request se1 s
       else (raise SartoriusError, se1, s))))))"

section \<open>The result cache\<close>

text \<open>A counter response is always an integer (theorem \<open>commands_well_typed\<close>).\<close>

fun resp_int :: "response \<Rightarrow> int" where
  "resp_int (RInt n) = n"
| "resp_int _ = 0"

definition read_config_counter ::
  "'s transport_ops \<Rightarrow> session \<Rightarrow> 's \<Rightarrow> int res \<times> session \<times> 's" where
  "read_config_counter ops se s =
     (case session_execute ops CONFIG_COUNTER_CMD SystemRequest False se s of
        (Inl e, se', s') \<Rightarrow> (Inl e, se', s')
      | (Inr r, se', s') \<Rightarrow> (Inr (resp_int r), se', s'))"

definition cached_execute ::
  "'s transport_ops \<Rightarrow> 'req Command \<Rightarrow> 'req \<Rightarrow> string \<Rightarrow> bool \<Rightarrow> session \<Rightarrow> 's \<Rightarrow>
   response res \<times> session \<times> 's" where
  "cached_execute ops cmd request cache_key confirm se s =
     (if CONFIG_COUNTER \<notin> se_capabilities se then session_execute ops cmd request confirm se s
      else
     (case read_config_counter ops se s of
        (Inl e, se1, s1) \<Rightarrow> (Inl e, se1, s1)
      | (Inr counter, se1, s1) \<Rightarrow>
          let run = (case session_execute ops cmd request confirm se1 s1 of
                       (Inl e, se2, s2) \<Rightarrow> (Inl e, se2, s2)
                     | (Inr result, se2, s2) \<Rightarrow>
                         (Inr result,
                          se2\<lparr>se_result_cache := (se_result_cache se2)(cache_key \<mapsto> (counter, result))\<rparr>,
                          s2))
          in (case se_result_cache se1 cache_key of
                None \<Rightarrow> run
              | Some (c, v) \<Rightarrow> if c = counter then (Inr v, se1, s1) else run)))"

definition invalidate_cache :: "string option \<Rightarrow> session \<Rightarrow> session" where
  "invalidate_cache cache_key se =
     (case cache_key of
        None \<Rightarrow> se\<lparr>se_result_cache := (\<lambda>_. None)\<rparr>
      | Some k \<Rightarrow> se\<lparr>se_result_cache := (se_result_cache se)(k := None)\<rparr>)"

definition cache_snapshot :: "session \<Rightarrow> string \<Rightarrow> int option" where
  "cache_snapshot se = (\<lambda>k. map_option fst (se_result_cache se k))"

section \<open>Raw access and unsolicited lines\<close>

definition execute_raw_xbpi ::
  "'s transport_ops \<Rightarrow> int \<Rightarrow> bytes \<Rightarrow> bool \<Rightarrow> session \<Rightarrow> 's \<Rightarrow> XbpiFrame res \<times> session \<times> 's" where
  "execute_raw_xbpi ops opcode args confirm se s =
     (case check_state se of Inl e \<Rightarrow> (Inl e, se, s) | Inr _ \<Rightarrow>
      if se_active se \<noteq> XBPI
      then (raise_ctx SartoriusProtocolUnsupportedError
              [SetOpcode (Some opcode), SetProtocol (Some (protocol_value (se_active se)))], se, s)
      else
     (case se_xbpi se of
        None \<Rightarrow> (raise_ctx SartoriusError [SetOpcode (Some opcode), SetProtocol (Some ''xbpi'')], se, s)
      | Some client \<Rightarrow>
          if opcode \<notin> set SAFE_READ_ONLY_OPCODES \<and> \<not> confirm
          then (raise_ctx SartoriusConfirmationRequiredError
                  ([SetOpcode (Some opcode), SetProtocol (Some ''xbpi'')] @
                   extra [(''safe_listed'', XBool False)]), se, s)
          else
         (case build_command opcode args (se_src_sbn se) (se_dst_sbn se) of
            Inl e \<Rightarrow> (Inl e, se, s)
          | Inr request_bytes \<Rightarrow>
         (case xbpi_execute ops client request_bytes (''raw_xbpi['' @ hex_byte opcode @ '']'')
                 (Some opcode) s of
            (r, s') \<Rightarrow> (r, se, s')))))"

definition execute_raw_sbi ::
  "'s transport_ops \<Rightarrow> sbi_command \<Rightarrow> bool \<Rightarrow> int \<Rightarrow> session \<Rightarrow> 's \<Rightarrow> SbiReply res \<times> session \<times> 's" where
  "execute_raw_sbi ops command confirm expect_lines se s =
     (case check_state se of Inl e \<Rightarrow> (Inl e, se, s) | Inr _ \<Rightarrow>
      if se_active se \<noteq> SBI
      then (raise_ctx SartoriusProtocolUnsupportedError
              [SetProtocol (Some (protocol_value (se_active se)))], se, s)
      else
     (case se_sbi se of
        None \<Rightarrow> (raise_ctx SartoriusError [SetProtocol (Some ''sbi'')], se, s)
      | Some client \<Rightarrow>
     (case normalize_token command of
        Inl e \<Rightarrow> (Inl e, se, s)
      | Inr token \<Rightarrow>
          if token \<notin> set SBI_READ_ONLY_TOKENS \<and> \<not> confirm
          then (raise_ctx SartoriusConfirmationRequiredError
                  ([SetSbiToken (Some token), SetProtocol (Some ''sbi'')] @
                   extra [(''safe_listed'', XBool False)]), se, s)
          else sbi_exchange_checked ops token ''raw_sbi'' token expect_lines client se s)))"

text \<open>The two guards that the methods on unsolicited lines share.\<close>

definition require_sbi_client :: "session \<Rightarrow> sbi_client res" where
  "require_sbi_client se =
     (if se_active se \<noteq> SBI
      then raise_ctx SartoriusProtocolUnsupportedError
             [SetProtocol (Some (protocol_value (se_active se)))]
      else case se_sbi se of
             None \<Rightarrow> raise_ctx SartoriusError [SetProtocol (Some ''sbi'')]
           | Some client \<Rightarrow> Inr client)"

definition read_sbi_line ::
  "'s transport_ops \<Rightarrow> session \<Rightarrow> 's \<Rightarrow> SbiReply res \<times> session \<times> 's" where
  "read_sbi_line ops se s =
     (case require_sbi_client se of
        Inl e \<Rightarrow> (Inl e, se, s)
      | Inr client \<Rightarrow>
          (case sbi_read_line ops ''sbi_autoprint'' client s of
             (r, client', s') \<Rightarrow> (r, se\<lparr>se_sbi := Some client'\<rparr>, s')))"

text \<open>
  The loop of \<open>read_sbi_autoprint_reading\<close>; \<open>ticks\<close> counts the checks after an unparsable line
  that still find the deadline ahead.
\<close>

fun autoprint_reading_loop ::
  "'s transport_ops \<Rightarrow> nat \<Rightarrow> sbi_client \<Rightarrow> 's \<Rightarrow> Reading res \<times> sbi_client \<times> 's" where
  "autoprint_reading_loop ops ticks client s =
     (case sbi_read_line ops ''sbi_autoprint'' client s of
        (Inl e, c1, s1) \<Rightarrow> (Inl e, c1, s1)
      | (Inr reply, c1, s1) \<Rightarrow>
          (case require_reading reply of
             Inr reading \<Rightarrow> (Inr reading, mark_autoprint_active None c1, s1)
           | Inl e \<Rightarrow>
               if exn_is e SartoriusParseError
               then (case ticks of
                       0 \<Rightarrow> (Inl e, c1, s1)
                     | Suc left \<Rightarrow> autoprint_reading_loop ops left c1 s1)
               else (Inl e, c1, s1)))"

declare autoprint_reading_loop.simps [simp del]

definition read_sbi_autoprint_reading ::
  "'s transport_ops \<Rightarrow> nat \<Rightarrow> session \<Rightarrow> 's \<Rightarrow> Reading res \<times> session \<times> 's" where
  "read_sbi_autoprint_reading ops ticks se s =
     (case require_sbi_client se of
        Inl e \<Rightarrow> (Inl e, se, s)
      | Inr client \<Rightarrow>
          (case autoprint_reading_loop ops ticks client s of
             (r, client', s') \<Rightarrow> (r, se\<lparr>se_sbi := Some client'\<rparr>, s')))"

definition refresh_sbi_autoprint_state ::
  "'s transport_ops \<Rightarrow> nat \<Rightarrow> session \<Rightarrow> 's \<Rightarrow> bool res \<times> session \<times> 's" where
  "refresh_sbi_autoprint_state ops ticks se s =
     (case require_sbi_client se of
        Inl e \<Rightarrow> (Inl e, se, s)
      | Inr client \<Rightarrow>
          (case refresh_autoprint_state ops 4 ticks client s of
             (r, client', s') \<Rightarrow> (r, se\<lparr>se_sbi := Some client'\<rparr>, s')))"

definition session_close :: "'s transport_ops \<Rightarrow> session \<Rightarrow> 's \<Rightarrow> 's" where
  "session_close ops se s = tp_close ops s"

section \<open>What the gates let through\<close>

definition gates_open :: "'req Command \<Rightarrow> bool \<Rightarrow> session \<Rightarrow> bool" where
  "gates_open cmd confirm se \<longleftrightarrow>
     se_state se = OPERATIONAL \<and> (cmd_safety cmd \<in> {READ_ONLY, STATEFUL} \<or> confirm) \<and>
     (if se_active se = XBPI then cmd_xbpi cmd \<noteq> None else cmd_sbi cmd \<noteq> None) \<and>
     se_availability se (cmd_name cmd) \<noteq> Some UNSUPPORTED \<and>
     (priors_ok cmd se \<or> \<not> se_strict se)"

lemma check_state_iff:
  "check_state se = Inr u \<longleftrightarrow> se_state se = OPERATIONAL"
  "check_state se = Inl e \<Longrightarrow> exn_is e SartoriusConnectionError \<and> se_state se = BROKEN"
  by (cases "se_state se"; auto simp: check_state_def raise_ctx_def)+

lemma gate_safety_iff:
  "gate_safety cmd confirm se = Inr u \<longleftrightarrow> cmd_safety cmd \<in> {READ_ONLY, STATEFUL} \<or> confirm"
  "gate_safety cmd confirm se = Inl e \<Longrightarrow> exn_is e SartoriusConfirmationRequiredError"
  by (auto simp: gate_safety_def raise_ctx_def split: if_splits)

lemma gate_protocol_iff:
  "gate_protocol cmd se = Inr u \<longleftrightarrow>
     (if se_active se = XBPI then cmd_xbpi cmd \<noteq> None else cmd_sbi cmd \<noteq> None)"
  "gate_protocol cmd se = Inl e \<Longrightarrow> exn_is e SartoriusProtocolUnsupportedError"
  by (auto simp: gate_protocol_def raise_ctx_def split: if_splits option.splits)

lemma gate_known_denied_iff:
  "gate_known_denied cmd se = Inr u \<longleftrightarrow> se_availability se (cmd_name cmd) \<noteq> Some UNSUPPORTED"
  "gate_known_denied cmd se = Inl e \<Longrightarrow> exn_is e SartoriusUnsupportedCommandError"
  by (auto simp: gate_known_denied_def raise_ctx_def split: if_splits)

lemma gate_priors_iff:
  "fst (gate_priors cmd se) = Inr u \<longleftrightarrow> priors_ok cmd se \<or> \<not> se_strict se"
  "gate_priors cmd se = (Inl e, se1) \<Longrightarrow> se1 = se \<and> exn_is e SartoriusCapabilityError"
  by (auto simp: gate_priors_def raise_ctx_def split: if_splits)

lemmas gate_iffs = check_state_iff gate_safety_iff gate_protocol_iff gate_known_denied_iff

lemma gate_ladder:
  "session_execute ops cmd request confirm se s =
     (if se_state se \<noteq> OPERATIONAL then (Inl (projl (check_state se)), se, s)
      else if \<not> (cmd_safety cmd \<in> {READ_ONLY, STATEFUL} \<or> confirm)
      then (Inl (projl (gate_safety cmd confirm se)), se, s)
      else if \<not> (if se_active se = XBPI then cmd_xbpi cmd \<noteq> None else cmd_sbi cmd \<noteq> None)
      then (Inl (projl (gate_protocol cmd se)), se, s)
      else if se_availability se (cmd_name cmd) = Some UNSUPPORTED
      then (Inl (projl (gate_known_denied cmd se)), se, s)
      else if \<not> (priors_ok cmd se \<or> \<not> se_strict se)
      then (Inl (projl (fst (gate_priors cmd se))), se, s)
      else let se1 = snd (gate_priors cmd se)
           in if se_active se1 = XBPI then execute_xbpi ops cmd request se1 s
              else if se_active se1 = SBI then execute_sbi ops cmd request se1 s
              else (raise SartoriusError, se1, s))"
proof -
  obtain g se1 where g: "gate_priors cmd se = (g, se1)" by fastforce
  show ?thesis
    using check_state_iff(1) [of se] gate_safety_iff(1) [of cmd confirm se]
      gate_protocol_iff(1) [of cmd se] gate_known_denied_iff(1) [of cmd se]
      gate_priors_iff [of cmd se] g
    unfolding session_execute_def
    by (cases "check_state se"; cases "gate_safety cmd confirm se"; cases "gate_protocol cmd se";
        cases "gate_known_denied cmd se"; cases g; simp only: g sum.case prod.case fst_conv snd_conv
          Let_def sum.sel; fastforce)
qed

lemma gates_closed:
  assumes "\<not> gates_open cmd confirm se"
  shows "\<exists>e. session_execute ops cmd request confirm se s = (Inl e, se, s)"
  using assms unfolding gate_ladder gates_open_def by auto

lemma gates_passed:
  assumes "gates_open cmd confirm se"
  shows "session_execute ops cmd request confirm se s =
     (let se1 = snd (gate_priors cmd se)
      in if se_active se1 = XBPI then execute_xbpi ops cmd request se1 s
         else if se_active se1 = SBI then execute_sbi ops cmd request se1 s
         else (raise SartoriusError, se1, s))"
  using assms unfolding gate_ladder gates_open_def by auto

lemma gate_priors_keeps [simp]:
  "se_active (snd (gate_priors cmd se)) = se_active se"
  "se_state (snd (gate_priors cmd se)) = se_state se"
  "se_xbpi (snd (gate_priors cmd se)) = se_xbpi se"
  "se_sbi (snd (gate_priors cmd se)) = se_sbi se"
  "se_availability (snd (gate_priors cmd se)) = se_availability se"
  "se_result_cache (snd (gate_priors cmd se)) = se_result_cache se"
  "se_capabilities (snd (gate_priors cmd se)) = se_capabilities se"
  "se_src_sbn (snd (gate_priors cmd se)) = se_src_sbn se"
  "se_dst_sbn (snd (gate_priors cmd se)) = se_dst_sbn se"
  "command_context p (snd (gate_priors cmd se)) = command_context p se"
  by (simp_all add: gate_priors_def command_context_def)

lemma set_availability_keeps [simp]:
  "se_active (set_availability n a se) = se_active se"
  "se_state (set_availability n a se) = se_state se"
  "se_xbpi (set_availability n a se) = se_xbpi se"
  "se_sbi (set_availability n a se) = se_sbi se"
  "se_result_cache (set_availability n a se) = se_result_cache se"
  "se_capabilities (set_availability n a se) = se_capabilities se"
  "se_availability (set_availability n a se) = (se_availability se)(n \<mapsto> a)"
  by (simp_all add: set_availability_def)

text \<open>The request a dispatch would put on the wire.\<close>

definition session_request :: "'req Command \<Rightarrow> 'req \<Rightarrow> session \<Rightarrow> bytes res" where
  "session_request cmd request se =
     (if se_active se = XBPI
      then (case cmd_xbpi cmd of
              None \<Rightarrow> raise SartoriusError
            | Some v \<Rightarrow> xv_encode v (command_context XBPI se) request)
      else (case cmd_sbi cmd of
              None \<Rightarrow> raise SartoriusError
            | Some v \<Rightarrow> sv_encode v (command_context SBI se) request))"

text \<open>What a dispatch can do to the session: all of it in one relation.\<close>

definition dispatch_effect :: "'req Command \<Rightarrow> response res \<Rightarrow> session \<Rightarrow> session \<Rightarrow> bool" where
  "dispatch_effect cmd r se se' \<longleftrightarrow>
     se_active se' = se_active se \<and> se_state se' = se_state se \<and> se_xbpi se' = se_xbpi se \<and>
     (se_sbi se' = None \<longleftrightarrow> se_sbi se = None) \<and> se_result_cache se' = se_result_cache se \<and>
     se_capabilities se' = se_capabilities se \<and>
     (\<forall>n. n \<noteq> cmd_name cmd \<longrightarrow> se_availability se' n = se_availability se n) \<and>
     (is_ok r \<longrightarrow> se_availability se' (cmd_name cmd) = Some SUPPORTED) \<and>
     (se_availability se' (cmd_name cmd) = Some UNSUPPORTED \<longrightarrow>
        se_availability se (cmd_name cmd) \<noteq> Some UNSUPPORTED \<longrightarrow>
        \<not> cmd_parameterized cmd \<and> se_active se = XBPI \<and>
        fails_with SartoriusUnsupportedCommandError r)"

lemma execute_xbpi_effect:
  "execute_xbpi ops cmd request se s = (r, se', s') \<Longrightarrow> se_active se = XBPI \<Longrightarrow>
     dispatch_effect cmd r se se'"
  by (auto simp: execute_xbpi_def dispatch_effect_def Let_def raise_ctx_def
      split: option.splits sum.splits prod.splits if_splits)

lemma sbi_exchange_checked_effect:
  "sbi_exchange_checked ops b nm tok n client se s = (r, se', s') \<Longrightarrow> se_sbi se = Some client \<Longrightarrow>
     (\<exists>c. se' = se\<lparr>se_sbi := Some c\<rparr>)"
  by (auto simp: sbi_exchange_checked_def raise_sbi_autoprint_active_def raise_ctx_def
      split: sum.splits prod.splits if_splits intro: exI [where x = client])

lemma execute_sbi_effect:
  assumes "execute_sbi ops cmd request se s = (r, se', s')" and "se_active se = SBI"
  shows "dispatch_effect cmd r se se'"
proof (cases "cmd_sbi cmd")
  case None
  with assms show ?thesis by (auto simp: execute_sbi_def dispatch_effect_def raise_ctx_def)
next
  case (Some v)
  note v = this
  show ?thesis
  proof (cases "se_sbi se")
    case None
    with assms v show ?thesis by (auto simp: execute_sbi_def dispatch_effect_def raise_ctx_def)
  next
    case (Some client)
    note c = this
    show ?thesis
    proof (cases "sv_encode v (command_context SBI se) request")
      case (Inl e)
      with assms v c show ?thesis by (auto simp: execute_sbi_def dispatch_effect_def Let_def)
    next
      case (Inr rb)
      obtain q se1 s1 where x: "sbi_exchange_checked ops rb (cmd_name cmd) (sv_token v)
          (sv_expect_lines v) client se s = (q, se1, s1)" by (metis prod_cases3)
      from sbi_exchange_checked_effect [OF x c] obtain c1 where "se1 = se\<lparr>se_sbi := Some c1\<rparr>" by blast
      with assms v c Inr x show ?thesis
        by (auto simp: execute_sbi_def dispatch_effect_def Let_def split: sum.splits)
    qed
  qed
qed

lemma gate_priors_effect: "dispatch_effect cmd r (snd (gate_priors cmd se)) se' = dispatch_effect cmd r se se'"
  by (simp add: dispatch_effect_def)

lemma execute_effect:
  assumes "session_execute ops cmd request confirm se s = (r, se', s')"
  shows "dispatch_effect cmd r se se'"
proof (cases "gates_open cmd confirm se")
  case False
  from gates_closed [OF this, of ops request s] assms show ?thesis
    by (auto simp: dispatch_effect_def)
next
  case True
  consider "se_active se = XBPI" | "se_active se = SBI" | "se_active se = AUTO"
    by (cases "se_active se") auto
  then show ?thesis
    using assms gates_passed [OF True, of ops request s]
      execute_xbpi_effect [of ops cmd request "snd (gate_priors cmd se)" s r se' s']
      execute_sbi_effect [of ops cmd request "snd (gate_priors cmd se)" s r se' s']
    by cases (auto simp: gate_priors_effect Let_def dispatch_effect_def raise_def)
qed

end
