(* ===== verification/Session_Laws.thy ===== *)
theory Session_Laws
  imports Session
begin

text \<open>
  What the session promises: nothing leaves the host unless every gate is open, at most one
  request per call, unsafe traffic only with a confirmation, availability that is learned from
  the replies and never forgotten when negative, a result cache pinned to the configuration
  counter, and a session that stays broken. Sessions are followed over arbitrary sequences of
  operations by a step relation.
\<close>

section \<open>Requests on the wire\<close>

context transport
begin

lemma execute_xbpi_written:
  assumes "execute_xbpi ops cmd request se s = (r, se', s')" and "se_active se = XBPI"
  shows "written s' = written s \<or>
     (\<exists>b. session_request cmd request se = Inr b \<and> written s' = written s @ [b])"
proof (cases "cmd_xbpi cmd")
  case None
  with assms show ?thesis by (simp add: execute_xbpi_def)
next
  case (Some v)
  note v = this
  show ?thesis
  proof (cases "se_xbpi se")
    case None
    with assms v show ?thesis by (simp add: execute_xbpi_def)
  next
    case (Some client)
    show ?thesis
    proof (cases "xv_encode v (command_context XBPI se) request")
      case (Inl e)
      with assms v Some show ?thesis by (simp add: execute_xbpi_def Let_def)
    next
      case (Inr rb)
      obtain q s1 where x: "xbpi_execute ops client rb (cmd_name cmd) (Some (xv_opcode v)) s = (q, s1)"
        by fastforce
      with assms v Some Inr have "s' = s1"
        by (auto simp: execute_xbpi_def Let_def split: sum.splits if_splits)
      with xbpi_writes(1) [OF x] v Inr assms(2) show ?thesis
        by (auto simp: session_request_def)
    qed
  qed
qed

lemma sbi_exchange_checked_written:
  assumes "sbi_exchange_checked ops b nm tok n client se s = (r, se', s')"
  shows "written s' = written s \<or> written s' = written s @ [b]"
proof -
  obtain q s1 where x: "sbi_execute ops b nm (Some tok) n client s = (q, s1)" by fastforce
  with assms have "s' = s \<or> s' = s1"
    by (auto simp: sbi_exchange_checked_def split: sum.splits if_splits)
  with sbi_execute_written [OF x] show ?thesis by auto
qed

lemma execute_sbi_written:
  assumes "execute_sbi ops cmd request se s = (r, se', s')" and "se_active se = SBI"
  shows "written s' = written s \<or>
     (\<exists>b. session_request cmd request se = Inr b \<and> written s' = written s @ [b])"
proof (cases "cmd_sbi cmd")
  case None
  with assms show ?thesis by (simp add: execute_sbi_def)
next
  case (Some v)
  note v = this
  show ?thesis
  proof (cases "se_sbi se")
    case None
    with assms v show ?thesis by (simp add: execute_sbi_def)
  next
    case (Some client)
    show ?thesis
    proof (cases "sv_encode v (command_context SBI se) request")
      case (Inl e)
      with assms v Some show ?thesis by (simp add: execute_sbi_def Let_def)
    next
      case (Inr rb)
      obtain q se1 s1 where x: "sbi_exchange_checked ops rb (cmd_name cmd) (sv_token v)
          (sv_expect_lines v) client se s = (q, se1, s1)" by (metis prod_cases3)
      with assms v Some Inr have "s' = s1"
        by (auto simp: execute_sbi_def Let_def split: sum.splits)
      with sbi_exchange_checked_written [OF x] v Inr assms(2) show ?thesis
        by (auto simp: session_request_def)
    qed
  qed
qed

lemma session_request_priors [simp]:
  "session_request cmd request (snd (gate_priors cmd se)) = session_request cmd request se"
  by (simp add: session_request_def split: option.split)

lemma execute_written:
  assumes "session_execute ops cmd request confirm se s = (r, se', s')"
  shows "written s' = written s \<or>
     gates_open cmd confirm se \<and>
     (\<exists>b. session_request cmd request se = Inr b \<and> written s' = written s @ [b])"
proof (cases "gates_open cmd confirm se")
  case False
  from gates_closed [OF this, of ops request s] assms show ?thesis by auto
next
  case True
  let ?se = "snd (gate_priors cmd se)"
  consider "se_active se = XBPI" | "se_active se = SBI" | "se_active se = AUTO"
    by (cases "se_active se") auto
  then show ?thesis
    using assms gates_passed [OF True, of ops request s] True
      execute_xbpi_written [of cmd request ?se s r se' s']
      execute_sbi_written [of cmd request ?se s r se' s']
    by cases (auto simp: Let_def)
qed

lemma execute_ok_written:
  assumes "session_execute ops cmd request confirm se s = (Inr x, se', s')" and "se_active se = XBPI"
  shows "\<exists>b. session_request cmd request se = Inr b \<and> written s' = written s @ [b]"
proof -
  let ?se = "snd (gate_priors cmd se)"
  have "gates_open cmd confirm se"
    using assms gates_closed [of cmd confirm se ops request s] by auto
  from gates_passed [OF this, of ops request s] assms
  have "execute_xbpi ops cmd request ?se s = (Inr x, se', s')" by (simp add: Let_def)
  then obtain v client rb q where "cmd_xbpi cmd = Some v"
    "xv_encode v (command_context XBPI ?se) request = Inr rb"
    "xbpi_execute ops client rb (cmd_name cmd) (Some (xv_opcode v)) s = (Inr q, s')"
    by (auto simp: execute_xbpi_def Let_def split: option.splits sum.splits prod.splits if_splits)
  with xbpi_writes(2) [of client rb "cmd_name cmd" "Some (xv_opcode v)" s "Inr q" s' q] assms(2)
  show ?thesis by (simp add: session_request_def)
qed

end

section \<open>Operations and their steps\<close>

text \<open>
  A command together with its request is a command without arguments; dispatching one is
  dispatching the other, so that one operation type covers all commands.
\<close>

definition bind_request :: "'req Command \<Rightarrow> 'req \<Rightarrow> unit Command" where
  "bind_request cmd request =
     \<lparr>cmd_name = cmd_name cmd,
      cmd_xbpi = map_option (\<lambda>v. \<lparr>xv_opcode = xv_opcode v,
        xv_encode = (\<lambda>ctx _. xv_encode v ctx request), xv_decode = xv_decode v\<rparr>) (cmd_xbpi cmd),
      cmd_sbi = map_option (\<lambda>v. \<lparr>sv_token = sv_token v, sv_expect_lines = sv_expect_lines v,
        sv_encode = (\<lambda>ctx _. sv_encode v ctx request), sv_decode = sv_decode v\<rparr>) (cmd_sbi cmd),
      cmd_family_hints = cmd_family_hints cmd, cmd_capability_hints = cmd_capability_hints cmd,
      cmd_safety = cmd_safety cmd, cmd_min_firmware = cmd_min_firmware cmd,
      cmd_max_firmware = cmd_max_firmware cmd, cmd_parameterized = cmd_parameterized cmd\<rparr>"

lemma bind_request_simps [simp]:
  "cmd_name (bind_request cmd q) = cmd_name cmd"
  "cmd_safety (bind_request cmd q) = cmd_safety cmd"
  "cmd_parameterized (bind_request cmd q) = cmd_parameterized cmd"
  "cmd_family_hints (bind_request cmd q) = cmd_family_hints cmd"
  "cmd_capability_hints (bind_request cmd q) = cmd_capability_hints cmd"
  "cmd_xbpi (bind_request cmd q) = map_option (\<lambda>v. \<lparr>xv_opcode = xv_opcode v,
     xv_encode = (\<lambda>ctx _. xv_encode v ctx q), xv_decode = xv_decode v\<rparr>) (cmd_xbpi cmd)"
  "cmd_sbi (bind_request cmd q) = map_option (\<lambda>v. \<lparr>sv_token = sv_token v,
     sv_expect_lines = sv_expect_lines v, sv_encode = (\<lambda>ctx _. sv_encode v ctx q),
     sv_decode = sv_decode v\<rparr>) (cmd_sbi cmd)"
  by (simp_all add: bind_request_def)

lemma execute_bind_request:
  "session_execute ops (bind_request cmd q) () confirm se s = session_execute ops cmd q confirm se s"
proof -
  have p: "gate_priors (bind_request cmd q) se = gate_priors cmd se"
    by (simp add: gate_priors_def priors_ok_def)
  have g: "gate_safety (bind_request cmd q) confirm se = gate_safety cmd confirm se"
    "gate_known_denied (bind_request cmd q) se = gate_known_denied cmd se"
    by (simp_all add: gate_safety_def gate_known_denied_def)
  have v: "gate_protocol (bind_request cmd q) se = gate_protocol cmd se"
    by (simp add: gate_protocol_def split: option.split)
  have x: "execute_xbpi ops (bind_request cmd q) () t s = execute_xbpi ops cmd q t s" for t
    by (cases "cmd_xbpi cmd"; cases "se_xbpi t") (simp_all add: execute_xbpi_def Let_def cong: sum.case_cong prod.case_cong if_cong)
  have y: "execute_sbi ops (bind_request cmd q) () t s = execute_sbi ops cmd q t s" for t
    by (cases "cmd_sbi cmd"; cases "se_sbi t") (simp_all add: execute_sbi_def Let_def cong: sum.case_cong prod.case_cong if_cong)
  show ?thesis unfolding session_execute_def p g v x y ..
qed

datatype session_op =
    OpExecute "unit Command" bool
  | OpCached "unit Command" string bool
  | OpRawXbpi int bytes bool
  | OpRawSbi sbi_command bool int
  | OpReadLine
  | OpAutoprintReading nat
  | OpRefresh nat
  | OpInvalidate "string option"
  | OpMarkBroken
  | OpIdentity "BalanceFamily option" "Capability set option" "FirmwareVersion option"
  | OpSetDst int
  | OpReplace "xbpi_client option" "sbi_client option" ProtocolKind "SerialSettings option"

inductive session_step ::
  "'s transport_ops \<Rightarrow> session_op \<Rightarrow> session \<times> 's \<Rightarrow> session \<times> 's \<Rightarrow> bool" for ops where
  step_execute:
    "session_execute ops cmd () confirm se s = (r, se', s') \<Longrightarrow>
       session_step ops (OpExecute cmd confirm) (se, s) (se', s')"
| step_cached:
    "cached_execute ops cmd () key confirm se s = (r, se', s') \<Longrightarrow>
       session_step ops (OpCached cmd key confirm) (se, s) (se', s')"
| step_raw_xbpi:
    "execute_raw_xbpi ops opcode args confirm se s = (fr, se', s') \<Longrightarrow>
       session_step ops (OpRawXbpi opcode args confirm) (se, s) (se', s')"
| step_raw_sbi:
    "execute_raw_sbi ops c confirm n se s = (rp, se', s') \<Longrightarrow>
       session_step ops (OpRawSbi c confirm n) (se, s) (se', s')"
| step_read_line:
    "read_sbi_line ops se s = (rp, se', s') \<Longrightarrow> session_step ops OpReadLine (se, s) (se', s')"
| step_autoprint_reading:
    "read_sbi_autoprint_reading ops ticks se s = (rd, se', s') \<Longrightarrow>
       session_step ops (OpAutoprintReading ticks) (se, s) (se', s')"
| step_refresh:
    "refresh_sbi_autoprint_state ops ticks se s = (b, se', s') \<Longrightarrow>
       session_step ops (OpRefresh ticks) (se, s) (se', s')"
| step_invalidate:
    "session_step ops (OpInvalidate k) (se, s) (invalidate_cache k se, s)"
| step_mark_broken:
    "session_step ops OpMarkBroken (se, s) (mark_broken se, s)"
| step_identity:
    "session_step ops (OpIdentity f c w) (se, s) (update_identity f c w se, s)"
| step_set_dst:
    "session_step ops (OpSetDst d) (se, s) (set_dst_sbn d se, s)"
| step_replace:
    "replace_clients x b p st se = (u, se') \<Longrightarrow>
       session_step ops (OpReplace x b p st) (se, s) (se', s)"

inductive_cases session_stepE: "session_step ops q (se, s) (se', s')"

inductive session_run ::
  "'s transport_ops \<Rightarrow> session_op list \<Rightarrow> session \<times> 's \<Rightarrow> session \<times> 's \<Rightarrow> bool" for ops where
  run_nil: "session_run ops [] st st"
| run_cons: "session_step ops q st st1 \<Longrightarrow> session_run ops qs st1 st2 \<Longrightarrow>
    session_run ops (q # qs) st st2"

inductive_simps session_run_Nil [simp]: "session_run ops [] st st'"
inductive_simps session_run_Cons: "session_run ops (q # qs) st st'"

section \<open>Invariants along runs\<close>

text \<open>A well-formed session speaks a concrete protocol and has the client for it.\<close>

definition session_wf :: "session \<Rightarrow> bool" where
  "session_wf se \<longleftrightarrow> is_ok (check_clients (se_xbpi se) (se_sbi se) (se_active se))"

lemma session_wf_iff:
  "session_wf se \<longleftrightarrow> se_active se \<noteq> AUTO \<and> (se_active se = XBPI \<longrightarrow> se_xbpi se \<noteq> None) \<and>
     (se_active se = SBI \<longrightarrow> se_sbi se \<noteq> None)"
  by (auto simp: session_wf_def check_clients_def raise_def)

text \<open>What every operation but the replacement of the clients keeps.\<close>

definition keeps :: "session \<Rightarrow> session \<Rightarrow> bool" where
  "keeps se se' \<longleftrightarrow>
     se_active se' = se_active se \<and> se_xbpi se' = se_xbpi se \<and>
     (se_sbi se' = None \<longleftrightarrow> se_sbi se = None) \<and>
     (se_state se = BROKEN \<longrightarrow> se_state se' = BROKEN) \<and>
     (\<forall>n. se_availability se n = Some UNSUPPORTED \<longrightarrow> se_availability se' n = Some UNSUPPORTED)"

lemma keeps_refl [simp]: "keeps se se"
  by (simp add: keeps_def)

lemma keeps_trans: "keeps a b \<Longrightarrow> keeps b c \<Longrightarrow> keeps a c"
  by (auto simp: keeps_def)

lemma keeps_updates [simp]:
  "se_sbi se = Some c \<Longrightarrow> keeps se (se\<lparr>se_sbi := Some c'\<rparr>)"
  "keeps a (b\<lparr>se_result_cache := m\<rparr>) \<longleftrightarrow> keeps a b"
  by (simp_all add: keeps_def)

lemma execute_keeps:
  assumes "session_execute ops cmd request confirm se s = (r, se', s')"
  shows "keeps se se'"
proof (cases "gates_open cmd confirm se")
  case False
  from gates_closed [OF this, of ops request s] assms show ?thesis by auto
next
  case True
  from execute_effect [OF assms] True
  have "se_availability se' n = Some UNSUPPORTED" if "se_availability se n = Some UNSUPPORTED" for n
    using that unfolding dispatch_effect_def gates_open_def by metis
  with execute_effect [OF assms] show ?thesis by (simp add: dispatch_effect_def keeps_def)
qed

lemma read_config_counter_keeps:
  "read_config_counter ops se s = (r, se', s') \<Longrightarrow> keeps se se'"
  by (auto simp: read_config_counter_def split: sum.splits prod.splits dest: execute_keeps)

lemma cached_keeps:
  assumes "cached_execute ops cmd request key confirm se s = (r, se', s')"
  shows "keeps se se'"
proof (cases "CONFIG_COUNTER \<in> se_capabilities se")
  case False
  with assms show ?thesis by (auto simp: cached_execute_def dest: execute_keeps)
next
  case True
  obtain c se1 s1 where c: "read_config_counter ops se s = (c, se1, s1)" by (metis prod_cases3)
  obtain q se2 s2 where q: "session_execute ops cmd request confirm se1 s1 = (q, se2, s2)"
    by (metis prod_cases3)
  have "se' = se1 \<or> (\<exists>m. se' = se2\<lparr>se_result_cache := m\<rparr>) \<or> se' = se2"
    using assms True c q
    by (auto simp: cached_execute_def Let_def split: sum.splits option.splits if_splits)
  with keeps_trans [OF read_config_counter_keeps [OF c] execute_keeps [OF q]]
    read_config_counter_keeps [OF c]
  show ?thesis by auto
qed

lemma sbi_client_keeps:
  "require_sbi_client se = Inr client \<Longrightarrow> keeps se (se\<lparr>se_sbi := Some c\<rparr>)"
  by (auto simp: require_sbi_client_def raise_ctx_def split: if_splits option.splits)

lemma raw_xbpi_keeps: "execute_raw_xbpi ops opcode args confirm se s = (r, se', s') \<Longrightarrow> se' = se"
  by (auto simp: execute_raw_xbpi_def split: sum.splits option.splits if_splits prod.splits)

lemma raw_sbi_keeps:
  assumes "execute_raw_sbi ops c confirm n se s = (r, se', s')"
  shows "keeps se se'"
proof (cases "se' = se")
  case False
  then obtain client token where "se_sbi se = Some client"
    and "sbi_exchange_checked ops token ''raw_sbi'' token n client se s = (r, se', s')"
    using assms by (auto simp: execute_raw_sbi_def split: sum.splits option.splits if_splits)
  with sbi_exchange_checked_effect show ?thesis by fastforce
qed simp

lemma lines_keep:
  "read_sbi_line ops se s = (r1, se', s') \<Longrightarrow> keeps se se'"
  "read_sbi_autoprint_reading ops ticks se s = (r2, se', s') \<Longrightarrow> keeps se se'"
  "refresh_sbi_autoprint_state ops ticks se s = (r3, se', s') \<Longrightarrow> keeps se se'"
  by (auto simp: read_sbi_line_def read_sbi_autoprint_reading_def refresh_sbi_autoprint_state_def
      split: sum.splits prod.splits intro: sbi_client_keeps)

lemma updates_keep [simp]:
  "keeps se (invalidate_cache k se)" "keeps se (mark_broken se)" "keeps se (set_dst_sbn d se)"
  "keeps se (update_identity f c w se)"
  by (auto simp: invalidate_cache_def mark_broken_def set_dst_sbn_def update_identity_def keeps_def
      Let_def split: option.split)

lemmas ops_keep = execute_keeps cached_keeps raw_sbi_keeps lines_keep

lemma step_keeps:
  assumes "session_step ops q (se, s) (se', s')"
    and "\<And>x b p st. q \<noteq> OpReplace x b p st"
  shows "keeps se se'"
  using assms by (elim session_stepE) (auto dest: ops_keep raw_xbpi_keeps)

lemma replace_wf: "replace_clients x b p st se = (u, se') \<Longrightarrow> session_wf se \<Longrightarrow> session_wf se'"
  by (cases "check_clients x b p") (auto simp: replace_clients_def session_wf_iff check_clients_def
      raise_def split: if_splits)

lemma keeps_wf: "keeps se se' \<Longrightarrow> session_wf se \<Longrightarrow> session_wf se'"
  by (simp add: keeps_def session_wf_iff)

lemma step_wf:
  assumes "session_step ops q (se, s) (se', s')" "session_wf se"
  shows "session_wf se'"
proof (cases q)
  case (OpReplace x b p st)
  with assms show ?thesis by (auto elim!: session_stepE dest: replace_wf)
next
  case (OpExecute c cf) with assms show ?thesis by (auto intro: keeps_wf step_keeps)
qed (use assms in \<open>auto intro: keeps_wf step_keeps\<close>)

lemma step_broken:
  assumes "session_step ops q (se, s) (se', s')" "se_state se = BROKEN"
  shows "se_state se' = BROKEN"
proof (cases "\<exists>x b p st. q = OpReplace x b p st")
  case True
  with assms show ?thesis
    by (auto elim!: session_stepE simp: replace_clients_def split: sum.splits)
next
  case False
  with step_keeps [OF assms(1)] assms(2) show ?thesis by (auto simp: keeps_def)
qed
section \<open>Unconfirmed traffic\<close>

text \<open>The commands of the library, each with some request.\<close>

inductive declared :: "unit Command \<Rightarrow> bool" where
  "declared (bind_request TARE t)"
| "declared (bind_request ZERO_CMD t)"
| "declared (bind_request READ_NET w)"
| "declared (bind_request READ_GROSS w)"
| "declared (bind_request READ_TARE_VALUE w)"
| "declared (bind_request READ_NET_HIRES h)"
| "declared (bind_request READ_GROSS_HIRES h)"
| "declared (bind_request STATUS_BLOCK st)"
| "declared (bind_request CONFIG_COUNTER_CMD sy)"
| "declared (bind_request SAVE_MENU sy)"
| "declared (bind_request RELOAD_MENU sy)"
| "declared (bind_request READ_CAPACITY m)"
| "declared (bind_request READ_INCREMENT m)"
| "declared (bind_request READ_TEMPERATURE tq)"
| "declared (bind_request READ_PARAMETER rp)"
| "declared (bind_request WRITE_PARAMETER wp)"
| "declared (bind_request READ_MODEL i)"
| "declared (bind_request READ_MANUFACTURER i)"
| "declared (bind_request READ_OEM_TEXT i)"
| "declared (bind_request READ_SW_VERSION i)"
| "declared (bind_request READ_FACTORY_NUMBER i)"
| "declared (bind_request READ_SBN i)"
| "declared (bind_request LAST_CAL_RECORD l)"
| "declared (bind_request INTERNAL_ADJUST ia)"

text \<open>
  Traffic that cannot change persistent state: frames whose opcode is on the read-only list or
  is tare or zero, and tokens on the read-only list or tare or zero.
\<close>

definition harmless :: "bytes \<Rightarrow> bool" where
  "harmless w \<longleftrightarrow>
     (\<exists>src dst opcode args. tx_view w = Some (src, dst, opcode, args) \<and>
        opcode \<in> set SAFE_READ_ONLY_OPCODES \<union> {0x14, 0x18}) \<or>
     w \<in> set SBI_READ_ONLY_TOKENS \<union> {TOKEN_TARE, TOKEN_ZERO}"

lemma harmless_frame:
  "build_command opcode args src dst = Inr w \<Longrightarrow>
     opcode \<in> set SAFE_READ_ONLY_OPCODES \<union> {0x14, 0x18} \<Longrightarrow> harmless w"
  unfolding harmless_def by (blast dest: tx_view_build)

lemma harmless_token: "w \<in> set SBI_READ_ONLY_TOKENS \<union> {TOKEN_TARE, TOKEN_ZERO} \<Longrightarrow> harmless w"
  by (simp add: harmless_def)

lemma safe_opcodes:
  "list_all (\<lambda>c. c \<in> set SAFE_READ_ONLY_OPCODES)
     [0x1E, 0x20, 0x22, 0x1F, 0x21, 0x30, 0xBA, 0x0C, 0x0D, 0x76, 0x55, 0x02, 0x07, 0x05, 0x00,
      0x01, 0x71, 0xB9]"
  by (simp add: SAFE_READ_ONLY_OPCODES_def)

lemma safe_tokens:
  "TOKEN_PRINT \<in> set SBI_READ_ONLY_TOKENS" "TOKEN_TYPE \<in> set SBI_READ_ONLY_TOKENS"
  "TOKEN_SERIAL \<in> set SBI_READ_ONLY_TOKENS" "TOKEN_SOFTWARE \<in> set SBI_READ_ONLY_TOKENS"
  by (simp_all add: SBI_READ_ONLY_TOKENS_def)

lemma declared_harmless:
  assumes "declared cmd" "cmd_safety cmd \<in> {READ_ONLY, STATEFUL}"
    and "session_request cmd () se = Inr b"
  shows "harmless b"
  using assms safe_opcodes safe_tokens
  by (cases rule: declared.cases)
    (auto simp: session_request_def command_specs variant_specs encode_with_def res_bind_eq_Inr
        raise_def split: if_splits intro: harmless_frame harmless_token)

text \<open>An operation that the caller did not confirm.\<close>

fun unconfirmed :: "session_op \<Rightarrow> bool" where
  "unconfirmed (OpExecute c confirm) = (declared c \<and> \<not> confirm)"
| "unconfirmed (OpCached c key confirm) = (declared c \<and> \<not> confirm)"
| "unconfirmed (OpRawXbpi opcode args confirm) = (\<not> confirm)"
| "unconfirmed (OpRawSbi c confirm n) = (\<not> confirm)"
| "unconfirmed _ = True"

context transport
begin

lemma read_line_written: "sbi_read_line ops nm c s = (r, c', s') \<Longrightarrow> written s' = written s"
  by (auto simp: sbi_read_line_def parse_or_drain_outcome drain_written Let_def
      dest: read_until_written split: sum.splits list.splits if_splits prod.splits)

lemma autoprint_loop_written:
  "autoprint_reading_loop ops ticks c s = (r, c', s') \<Longrightarrow> written s' = written s"
proof (induction ticks arbitrary: c s)
  case 0
  then show ?case
    by (subst (asm) autoprint_reading_loop.simps)
      (auto dest: read_line_written split: sum.splits prod.splits if_splits)
next
  case (Suc ticks)
  from Suc.prems show ?case
    by (subst (asm) autoprint_reading_loop.simps)
      (auto dest!: read_line_written Suc.IH split: sum.splits prod.splits if_splits)
qed

lemma refresh_written:
  "refresh_autoprint_state ops m ticks c s = (r, c', s') \<Longrightarrow> written s' = written s"
  by (auto simp: refresh_autoprint_state_def Let_def
      dest: sniff_loop_stream split: if_splits sum.splits prod.splits)

lemma lines_written:
  "read_sbi_line ops se s = (r1, se', s') \<Longrightarrow> written s' = written s"
  "read_sbi_autoprint_reading ops ticks se s = (r2, se', s') \<Longrightarrow> written s' = written s"
  "refresh_sbi_autoprint_state ops ticks se s = (r3, se', s') \<Longrightarrow> written s' = written s"
  by (auto simp: read_sbi_line_def read_sbi_autoprint_reading_def refresh_sbi_autoprint_state_def
      dest: read_line_written autoprint_loop_written refresh_written split: sum.splits prod.splits)

lemma execute_harmless:
  assumes "session_execute ops cmd () False se s = (r, se', s')" "declared cmd"
  shows "\<exists>ws. written s' = written s @ ws \<and> list_all harmless ws"
proof -
  from execute_written [OF assms(1)]
  consider "written s' = written s"
    | b where "gates_open cmd False se" "session_request cmd () se = Inr b"
        "written s' = written s @ [b]" by blast
  then show ?thesis
  proof cases
    case 2
    with declared_harmless [OF assms(2), of se b] have "harmless b" by (simp add: gates_open_def)
    with 2 show ?thesis by auto
  qed auto
qed

lemma counter_declared: "declared (bind_request CONFIG_COUNTER_CMD SystemRequest)"
  by (rule declared.intros)

lemma counter_harmless:
  assumes "read_config_counter ops se s = (r, se', s')"
  shows "\<exists>ws. written s' = written s @ ws \<and> list_all harmless ws"
proof -
  obtain q where "session_execute ops (bind_request CONFIG_COUNTER_CMD SystemRequest) () False se s
      = (q, se', s')"
    using assms by (auto simp: read_config_counter_def execute_bind_request split: sum.splits prod.splits)
  from execute_harmless [OF this counter_declared] show ?thesis .
qed

lemma cached_harmless:
  assumes "cached_execute ops cmd () key False se s = (r, se', s')" "declared cmd"
  shows "\<exists>ws. written s' = written s @ ws \<and> list_all harmless ws"
proof (cases "CONFIG_COUNTER \<in> se_capabilities se")
  case False
  with assms execute_harmless show ?thesis by (simp add: cached_execute_def)
next
  case True
  obtain c se1 s1 where c: "read_config_counter ops se s = (c, se1, s1)" by (metis prod_cases3)
  obtain q se2 s2 where q: "session_execute ops cmd () False se1 s1 = (q, se2, s2)"
    by (metis prod_cases3)
  have "s' = s1 \<or> s' = s2"
    using assms(1) True c q
    by (auto simp: cached_execute_def Let_def split: sum.splits option.splits if_splits)
  with counter_harmless [OF c] execute_harmless [OF q assms(2)] show ?thesis
    by (metis append.assoc list_all_append)
qed

lemma raw_xbpi_harmless:
  assumes "execute_raw_xbpi ops opcode args False se s = (r, se', s')"
  shows "\<exists>ws. written s' = written s @ ws \<and> list_all harmless ws"
proof (cases "s' = s")
  case False
  then obtain client b where "opcode \<in> set SAFE_READ_ONLY_OPCODES"
    and b: "build_command opcode args (se_src_sbn se) (se_dst_sbn se) = Inr b"
    and x: "xbpi_execute ops client b (''raw_xbpi['' @ hex_byte opcode @ '']'') (Some opcode) s
      = (r, s')"
    using assms
    by (auto simp: execute_raw_xbpi_def split: sum.splits option.splits if_splits prod.splits)
  then have "harmless b" using harmless_frame [OF b] by simp
  with xbpi_writes(1) [OF x] show ?thesis by auto
qed auto

lemma raw_sbi_harmless:
  assumes "execute_raw_sbi ops c False n se s = (r, se', s')"
  shows "\<exists>ws. written s' = written s @ ws \<and> list_all harmless ws"
proof (cases "s' = s")
  case False
  then obtain client token where t: "token \<in> set SBI_READ_ONLY_TOKENS"
    and x: "sbi_exchange_checked ops token ''raw_sbi'' token n client se s = (r, se', s')"
    using assms
    by (auto simp: execute_raw_sbi_def split: sum.splits option.splits if_splits prod.splits)
  from sbi_exchange_checked_written [OF x] harmless_token [of token] t show ?thesis by auto
qed auto

lemma step_harmless:
  "session_step ops q (se, s) (se', s') \<Longrightarrow> unconfirmed q \<Longrightarrow>
     \<exists>ws. written s' = written s @ ws \<and> list_all harmless ws"
  by (elim session_stepE)
    (auto dest: execute_harmless cached_harmless raw_xbpi_harmless raw_sbi_harmless lines_written)

lemma run_harmless:
  "session_run ops qs st st' \<Longrightarrow> list_all unconfirmed qs \<Longrightarrow>
     \<exists>ws. written (snd st') = written (snd st) @ ws \<and> list_all harmless ws"
proof (induction rule: session_run.induct)
  case (run_cons q st st1 qs st2)
  obtain se s where st: "st = (se, s)" by fastforce
  obtain se1 s1 where st1: "st1 = (se1, s1)" by fastforce
  obtain ws where "written s1 = written s @ ws" "list_all harmless ws"
    using step_harmless [of q se s se1 s1] run_cons st st1 by auto
  moreover obtain ws' where "written (snd st2) = written s1 @ ws'" "list_all harmless ws'"
    using run_cons st1 by auto
  ultimately show ?case using st by (intro exI [where x = "ws @ ws'"]) simp
qed auto

end

end
