(* ===== verification/Balance.thy ===== *)
theory Balance
  imports Session_Laws Aliases
begin

text \<open>
  \<open>devices/balance.py\<close>: the facade. A balance is its session and the identity snapshot of the
  last \<open>identify\<close>. A method is a function from balance and transport state to its result and
  the new states; the combinators below chain such methods the way \<open>await\<close>s follow each other.
  Wall-clock stamps are not modelled. The clients that a protocol switch retires are kept in a
  log, because other holders of the old client objects see them as disposed.
\<close>

section \<open>Identity\<close>

datatype factory_number = FactoryText string | FactoryBytes bytes

record DeviceInfo =
  di_manufacturer :: "string option"
  di_model :: string
  di_serial :: "string option"
  di_factory_number :: "factory_number option"
  di_software :: "string option"
  di_firmware :: "FirmwareVersion option"
  di_family :: BalanceFamily
  di_protocol :: ProtocolKind
  di_capacity :: "Quantity option"
  di_increment :: "Quantity option"
  di_sbn :: "int option"
  di_serial_settings :: SerialSettings
  di_capabilities :: "Capability set"
  di_probe_report :: "(Capability \<times> ProbeOutcome) list"
  di_temperature_sensor_indices :: "int list option"

record balance =
  ba_session :: session
  ba_info :: "DeviceInfo option"
  ba_retired :: "protocol_client list"

definition Balance :: "session \<Rightarrow> DeviceInfo option \<Rightarrow> balance" where
  "Balance session info = \<lparr>ba_session = session, ba_info = info, ba_retired = []\<rparr>"

record DeviceSnapshot =
  sn_name :: string
  sn_model :: "string option"
  sn_firmware :: "FirmwareVersion option"
  sn_serial :: "string option"
  sn_connected :: bool
  sn_last_error :: "err_context option"
  sn_recoverable_error_count :: int
  sn_family :: BalanceFamily
  sn_capabilities :: "Capability set"
  sn_protocol :: ProtocolKind
  sn_mode :: "string option"

definition snapshot :: "balance \<Rightarrow> DeviceSnapshot" where
  "snapshot b =
     (let session = ba_session b
      in \<lparr>sn_name = (case ba_info b of None \<Rightarrow> ''balance'' | Some i \<Rightarrow> di_model i),
          sn_model = map_option di_model (ba_info b),
          sn_firmware = (case ba_info b of None \<Rightarrow> None | Some i \<Rightarrow> di_firmware i),
          sn_serial = (case ba_info b of None \<Rightarrow> None | Some i \<Rightarrow> di_serial i),
          sn_connected = (se_state session = OPERATIONAL), sn_last_error = None,
          sn_recoverable_error_count = se_recoverable_error_count session,
          sn_family = (case ba_info b of None \<Rightarrow> se_family session | Some i \<Rightarrow> di_family i),
          sn_capabilities =
            (case ba_info b of None \<Rightarrow> se_capabilities session | Some i \<Rightarrow> di_capabilities i),
          sn_protocol = se_active session, sn_mode = None\<rparr>)"

fun FAMILY_DEFAULT_CAPABILITIES :: "BalanceFamily \<Rightarrow> Capability set" where
  "FAMILY_DEFAULT_CAPABILITIES CUBIS =
     {XBPI_SUPPORT, HIRES_WEIGHT, PARAMETER_TABLE_CAP, TEMPERATURE_SENSORS, CAL_RECORD,
      INTERNAL_CAL, ISOCAL, EXTENDED_OPCODES, APP_MODES, BARGRAPH_CAP}"
| "FAMILY_DEFAULT_CAPABILITIES OEM_WEIGH_CELL =
     {XBPI_SUPPORT, SBI_SUPPORT, HIRES_WEIGHT, PARAMETER_TABLE_CAP, TEMPERATURE_SENSORS,
      BARGRAPH_CAP}"
| "FAMILY_DEFAULT_CAPABILITIES BASIC_LAB = {XBPI_SUPPORT, PARAMETER_TABLE_CAP}"
| "FAMILY_DEFAULT_CAPABILITIES FAMILY_UNKNOWN = {XBPI_SUPPORT}"

definition TEMPERATURE_DISCOVERY_MAX_INDEX :: int where "TEMPERATURE_DISCOVERY_MAX_INDEX = 8"

definition TYPED_ACCESSOR_INDICES :: "(string \<times> int) list" where
  "TYPED_ACCESSOR_INDICES =
     [(''filter_mode'', 1), (''display_unit'', 7), (''auto_zero'', 6), (''isocal_mode'', 15),
      (''tare_behavior'', 5), (''menu_access'', 40)]"

text \<open>The import-time check of the accessor registry.\<close>

definition validate_accessor_registry :: bool where
  "validate_accessor_registry \<longleftrightarrow>
     list_all (\<lambda>(name, idx). get_parameter_spec idx \<noteq> None) TYPED_ACCESSOR_INDICES"

text \<open>Decimal text of an integer, for cache keys.\<close>

function nat_text :: "int \<Rightarrow> string" where
  "nat_text n = (if n < 10 then [char_of (nat (48 + n))]
                 else nat_text (n div 10) @ [char_of (nat (48 + n mod 10))])"
  by auto
termination by (relation "measure nat") auto

declare nat_text.simps [simp del]

definition int_text :: "int \<Rightarrow> string" where
  "int_text n = (if n < 0 then ''-'' @ nat_text (- n) else nat_text n)"

definition cache_key_parameter :: "int \<Rightarrow> string" where
  "cache_key_parameter index = ''parameter:'' @ int_text index"

definition placeholder_serial_settings :: SerialSettings where
  "placeholder_serial_settings = default_settings ''<unknown>''"

definition decode_ascii_identity :: "bytes \<Rightarrow> string" where
  "decode_ascii_identity raw = py_strip (ascii_decode_replace raw)"

section \<open>Methods and how they are chained\<close>

type_synonym ('s, 'a) bal = "balance \<Rightarrow> 's \<Rightarrow> 'a res \<times> balance \<times> 's"

definition b_lift :: "'a res \<Rightarrow> ('s, 'a) bal" where
  "b_lift r = (\<lambda>b s. (r, b, s))"

definition b_bind :: "('s, 'a) bal \<Rightarrow> ('a \<Rightarrow> ('s, 'c) bal) \<Rightarrow> ('s, 'c) bal" where
  "b_bind m f = (\<lambda>b s. case m b s of (Inl e, b', s') \<Rightarrow> (Inl e, b', s') | (Inr x, b', s') \<Rightarrow> f x b' s')"

text \<open>\<open>try: ... except SartoriusError: handler\<close>, with what follows on success.\<close>

definition b_try :: "('s, 'a) bal \<Rightarrow> ('a \<Rightarrow> ('s, 'c) bal) \<Rightarrow> ('s, 'c) bal \<Rightarrow> ('s, 'c) bal" where
  "b_try m f handler =
     (\<lambda>b s. case m b s of
        (Inl e, b', s') \<Rightarrow> if exn_is e SartoriusError then handler b' s' else (Inl e, b', s')
      | (Inr x, b', s') \<Rightarrow> f x b' s')"

definition b_get :: "(balance \<Rightarrow> 'a) \<Rightarrow> ('s, 'a) bal" where
  "b_get f = (\<lambda>b s. (Inr (f b), b, s))"

definition b_update :: "(balance \<Rightarrow> balance) \<Rightarrow> ('s, unit) bal" where
  "b_update f = (\<lambda>b s. (Inr (), f b, s))"

definition on_session :: "(session \<Rightarrow> 's \<Rightarrow> 'a res \<times> session \<times> 's) \<Rightarrow> ('s, 'a) bal" where
  "on_session f =
     (\<lambda>b s. case f (ba_session b) s of (r, se, s') \<Rightarrow> (r, b\<lparr>ba_session := se\<rparr>, s'))"

definition update_session :: "(session \<Rightarrow> session) \<Rightarrow> ('s, unit) bal" where
  "update_session f = b_update (\<lambda>b. b\<lparr>ba_session := f (ba_session b)\<rparr>)"

text \<open>\<open>warnings.catch_warnings\<close> with the package's warning ignored.\<close>

definition without_warnings :: "('s, 'a) bal \<Rightarrow> ('s, 'a) bal" where
  "without_warnings m =
     (\<lambda>b s. case m b s of
        (r, b', s') \<Rightarrow>
          (r, b'\<lparr>ba_session := (ba_session b')\<lparr>se_warnings := se_warnings (ba_session b)\<rparr>\<rparr>, s'))"

definition b_execute :: "'s transport_ops \<Rightarrow> 'req Command \<Rightarrow> 'req \<Rightarrow> bool \<Rightarrow> ('s, response) bal" where
  "b_execute ops cmd request confirm = on_session (session_execute ops cmd request confirm)"

definition b_cached :: "'s transport_ops \<Rightarrow> 'req Command \<Rightarrow> 'req \<Rightarrow> string \<Rightarrow> ('s, response) bal" where
  "b_cached ops cmd request key = on_session (cached_execute ops cmd request key False)"

text \<open>
  Where a method goes on with a response, it has the type its command declares (theorem
  \<open>commands_well_typed\<close>).
\<close>

fun as_str :: "response \<Rightarrow> string res" where
  "as_str (RStr x) = Inr x" | "as_str _ = Inl (Py TypeError)"

fun as_bytes :: "response \<Rightarrow> bytes res" where
  "as_bytes (RBytes x) = Inr x" | "as_bytes _ = Inl (Py TypeError)"

fun as_int :: "response \<Rightarrow> int res" where
  "as_int (RInt x) = Inr x" | "as_int _ = Inl (Py TypeError)"

fun as_quantity :: "response \<Rightarrow> Quantity res" where
  "as_quantity (RQuantity x) = Inr x" | "as_quantity _ = Inl (Py TypeError)"

fun as_parameter :: "response \<Rightarrow> ParameterEntry res" where
  "as_parameter (RParameter x) = Inr x" | "as_parameter _ = Inl (Py TypeError)"

fun as_temperature :: "response \<Rightarrow> TemperatureReading res" where
  "as_temperature (RTemperature x) = Inr x" | "as_temperature _ = Inl (Py TypeError)"

definition b_execute_as ::
  "(response \<Rightarrow> 'a res) \<Rightarrow> 's transport_ops \<Rightarrow> 'req Command \<Rightarrow> 'req \<Rightarrow> ('s, 'a) bal" where
  "b_execute_as view ops cmd request =
     b_bind (b_execute ops cmd request False) (\<lambda>r. b_lift (view r))"

section \<open>Weight, tare and status\<close>

definition poll :: "'s transport_ops \<Rightarrow> nat \<Rightarrow> ('s, response) bal" where
  "poll ops ticks =
     b_bind (b_get (\<lambda>b. sbi_autoprint_active (ba_session b))) (\<lambda>active.
       if active
       then b_bind (on_session (read_sbi_autoprint_reading ops ticks)) (\<lambda>r. b_lift (Inr (RReading r)))
       else b_execute ops READ_NET ReadWeightRequest False)"

definition read_net :: "'s transport_ops \<Rightarrow> nat \<Rightarrow> int \<Rightarrow> ('s, response) bal" where
  "read_net ops ticks hires =
     (if hires = 0
      then b_bind (b_get (\<lambda>b. sbi_autoprint_active (ba_session b))) (\<lambda>active.
             if active
             then b_bind (on_session (read_sbi_autoprint_reading ops ticks))
                    (\<lambda>r. b_lift (Inr (RReading r)))
             else b_execute ops READ_NET ReadWeightRequest False)
      else b_execute ops READ_NET_HIRES (ReadWeightHiresRequest hires) False)"

definition read_gross :: "'s transport_ops \<Rightarrow> int \<Rightarrow> ('s, response) bal" where
  "read_gross ops hires =
     (if hires = 0 then b_execute ops READ_GROSS ReadWeightRequest False
      else b_execute ops READ_GROSS_HIRES (ReadWeightHiresRequest hires) False)"

definition read_tare_value :: "'s transport_ops \<Rightarrow> ('s, response) bal" where
  "read_tare_value ops = b_execute ops READ_TARE_VALUE ReadWeightRequest False"

definition tare :: "'s transport_ops \<Rightarrow> ('s, response) bal" where
  "tare ops = b_execute ops TARE TareRequest False"

definition zero_balance :: "'s transport_ops \<Rightarrow> ('s, response) bal" where
  "zero_balance ops = b_execute ops ZERO_CMD TareRequest False"

definition status :: "'s transport_ops \<Rightarrow> ('s, response) bal" where
  "status ops = b_execute ops STATUS_BLOCK StatusRequest False"

section \<open>Parameters\<close>

definition read_parameter :: "'s transport_ops \<Rightarrow> int \<Rightarrow> ('s, ParameterEntry) bal" where
  "read_parameter ops index =
     b_bind (b_cached ops READ_PARAMETER (ReadParameterRequest index) (cache_key_parameter index))
       (\<lambda>r. b_bind (b_lift (as_parameter r)) (\<lambda>entry. b_lift (Inr (entry\<lparr>pe_index := index\<rparr>))))"

definition write_parameter :: "'s transport_ops \<Rightarrow> int \<Rightarrow> int \<Rightarrow> bool \<Rightarrow> ('s, unit) bal" where
  "write_parameter ops index value confirm =
     b_bind (b_execute ops WRITE_PARAMETER (WriteParameterRequest index value) confirm)
       (\<lambda>_. update_session (invalidate_cache (Some (cache_key_parameter index))))"

definition get_typed :: "'s transport_ops \<Rightarrow> int \<Rightarrow> ('s, int) bal" where
  "get_typed ops index = b_bind (read_parameter ops index) (\<lambda>entry. b_lift (Inr (pe_current entry)))"

definition set_typed :: "'s transport_ops \<Rightarrow> int \<Rightarrow> int \<Rightarrow> bool \<Rightarrow> ('s, unit) bal" where
  "set_typed ops index wire_value confirm = write_parameter ops index wire_value confirm"

text \<open>\<open>PARAMETER_TABLE[_TYPED_ACCESSOR_INDICES[name]]\<close>.\<close>

definition accessor_spec :: "string \<Rightarrow> ParameterSpec res" where
  "accessor_spec name =
     (case map_of TYPED_ACCESSOR_INDICES name of
        None \<Rightarrow> Inl (Py KeyError)
      | Some idx \<Rightarrow> (case map_of PARAMETER_TABLE idx of None \<Rightarrow> Inl (Py KeyError) | Some p \<Rightarrow> Inr p))"

text \<open>The body shared by the typed getters, and by the setters of a mode.\<close>

definition get_accessor :: "'s transport_ops \<Rightarrow> string \<Rightarrow> ('s, param_value) bal" where
  "get_accessor ops name =
     b_bind (b_lift (accessor_spec name)) (\<lambda>sp.
     b_bind (get_typed ops (ps_index sp)) (\<lambda>current. b_lift (spec_decode sp current)))"

definition set_accessor ::
  "'s transport_ops \<Rightarrow> string \<Rightarrow> param_value res \<Rightarrow> bool \<Rightarrow> ('s, unit) bal" where
  "set_accessor ops name resolved confirm =
     b_bind (b_lift (accessor_spec name)) (\<lambda>sp.
     b_bind (b_lift resolved) (\<lambda>v.
     b_bind (b_lift (spec_encode sp v)) (\<lambda>wire. set_typed ops (ps_index sp) wire confirm)))"

definition get_filter_mode :: "'s transport_ops \<Rightarrow> ('s, param_value) bal" where
  "get_filter_mode ops = get_accessor ops ''filter_mode''"

definition get_display_unit :: "'s transport_ops \<Rightarrow> ('s, param_value) bal" where
  "get_display_unit ops = get_accessor ops ''display_unit''"

definition get_auto_zero :: "'s transport_ops \<Rightarrow> ('s, param_value) bal" where
  "get_auto_zero ops = get_accessor ops ''auto_zero''"

definition get_isocal_mode :: "'s transport_ops \<Rightarrow> ('s, param_value) bal" where
  "get_isocal_mode ops = get_accessor ops ''isocal_mode''"

definition get_tare_behavior :: "'s transport_ops \<Rightarrow> ('s, param_value) bal" where
  "get_tare_behavior ops = get_accessor ops ''tare_behavior''"

definition get_menu_access :: "'s transport_ops \<Rightarrow> ('s, param_value) bal" where
  "get_menu_access ops = get_accessor ops ''menu_access''"

definition as_mode :: "mode res \<Rightarrow> param_value res" where
  "as_mode r = res_bind r (\<lambda>m. Inr (PMode m))"

definition set_filter_mode :: "'s transport_ops \<Rightarrow> mode_arg \<Rightarrow> bool \<Rightarrow> ('s, unit) bal" where
  "set_filter_mode ops m = set_accessor ops ''filter_mode'' (as_mode (resolve_filter_mode m))"

text \<open>The \<open>Unit | str | int\<close> argument: an integer is a raw wire code.\<close>

datatype display_unit_arg = UnitArg unit_arg | UnitCode int

definition set_display_unit :: "'s transport_ops \<Rightarrow> display_unit_arg \<Rightarrow> bool \<Rightarrow> ('s, unit) bal" where
  "set_display_unit ops arg =
     set_accessor ops ''display_unit''
       (case arg of
          UnitCode n \<Rightarrow> Inr (PInt n)
        | UnitArg u \<Rightarrow> res_bind (resolve_unit u) (\<lambda>x. Inr (PUnit x)))"

definition set_auto_zero :: "'s transport_ops \<Rightarrow> mode_arg \<Rightarrow> bool \<Rightarrow> ('s, unit) bal" where
  "set_auto_zero ops m = set_accessor ops ''auto_zero'' (as_mode (resolve_auto_zero m))"

definition set_isocal_mode :: "'s transport_ops \<Rightarrow> mode_arg \<Rightarrow> bool \<Rightarrow> ('s, unit) bal" where
  "set_isocal_mode ops m = set_accessor ops ''isocal_mode'' (as_mode (resolve_isocal_mode m))"

definition set_tare_behavior :: "'s transport_ops \<Rightarrow> mode_arg \<Rightarrow> bool \<Rightarrow> ('s, unit) bal" where
  "set_tare_behavior ops m = set_accessor ops ''tare_behavior'' (as_mode (resolve_tare_behavior m))"

definition set_menu_access :: "'s transport_ops \<Rightarrow> mode_arg \<Rightarrow> bool \<Rightarrow> ('s, unit) bal" where
  "set_menu_access ops m = set_accessor ops ''menu_access'' (as_mode (resolve_menu_access m))"

section \<open>Metrology\<close>

fun as_unit :: "param_value \<Rightarrow> Unit res" where
  "as_unit (PUnit u) = Inr u" | "as_unit _ = Inl (Py TypeError)"

definition resolve_metrology_unit :: "'s transport_ops \<Rightarrow> Quantity \<Rightarrow> ('s, Quantity) bal" where
  "resolve_metrology_unit ops raw =
     (if q_unit raw \<noteq> U_UNKNOWN then b_lift (Inr raw)
      else b_try (b_bind (get_display_unit ops) (\<lambda>v. b_lift (as_unit v)))
             (\<lambda>u. b_lift (Inr \<lparr>q_value = q_value raw, q_unit = u\<rparr>))
             (b_lift (Inr raw)))"

definition capacity :: "'s transport_ops \<Rightarrow> int \<Rightarrow> ('s, Quantity) bal" where
  "capacity ops area =
     b_bind (b_cached ops READ_CAPACITY (MetrologyRequest area) (''capacity:'' @ int_text area))
       (\<lambda>r. b_bind (b_lift (as_quantity r)) (resolve_metrology_unit ops))"

definition increment :: "'s transport_ops \<Rightarrow> int \<Rightarrow> ('s, Quantity) bal" where
  "increment ops area =
     b_bind (b_cached ops READ_INCREMENT (MetrologyRequest area) (''increment:'' @ int_text area))
       (\<lambda>r. b_bind (b_lift (as_quantity r)) (resolve_metrology_unit ops))"

definition temperature :: "'s transport_ops \<Rightarrow> int \<Rightarrow> ('s, TemperatureReading) bal" where
  "temperature ops sensor =
     b_bind (b_execute_as as_temperature ops READ_TEMPERATURE (TemperatureRequest sensor))
       (\<lambda>raw. b_lift (Inr (raw\<lparr>tr_sensor := sensor\<rparr>)))"

text \<open>The loop over the sensor indices: \<open>left\<close> indices remain, the next one is \<open>sensor\<close>.\<close>

fun discover_loop :: "'s transport_ops \<Rightarrow> nat \<Rightarrow> int \<Rightarrow> int list \<Rightarrow> ('s, int list) bal" where
  "discover_loop ops 0 sensor found b s = (Inr found, b, s)"
| "discover_loop ops (Suc left) sensor found b s =
     (case temperature ops sensor b s of
        (Inl e, b', s') \<Rightarrow>
          if exn_is e SartoriusValueOutOfRangeError
          then discover_loop ops left (sensor + 1) found b' s'
          else if exn_is e SartoriusIndexOutOfRangeError then (Inr found, b', s')
          else if exn_is e SartoriusUnsupportedCommandError then (Inr found, b', s')
          else (Inl e, b', s')
      | (Inr reading, b', s') \<Rightarrow>
          discover_loop ops left (sensor + 1) (found @ [tr_sensor reading]) b' s')"

definition discover_temperature_sensors :: "'s transport_ops \<Rightarrow> int \<Rightarrow> ('s, int list) bal" where
  "discover_temperature_sensors ops max_index =
     (if max_index < 0 then b_lift (Inl (Py ValueError))
      else b_bind (discover_loop ops (nat (max_index + 1)) 0 []) (\<lambda>result.
           b_bind (b_update (\<lambda>b. b\<lparr>ba_info :=
              map_option (\<lambda>i. i\<lparr>di_temperature_sensor_indices := Some result\<rparr>) (ba_info b)\<rparr>))
             (\<lambda>_. b_lift (Inr result))))"

section \<open>Persistence and calibration\<close>

definition save_menu :: "'s transport_ops \<Rightarrow> bool \<Rightarrow> ('s, unit) bal" where
  "save_menu ops confirm =
     b_bind (b_execute ops SAVE_MENU SystemRequest confirm)
       (\<lambda>_. update_session (invalidate_cache None))"

definition reload_menu :: "'s transport_ops \<Rightarrow> bool \<Rightarrow> ('s, unit) bal" where
  "reload_menu ops confirm =
     b_bind (b_execute ops RELOAD_MENU SystemRequest confirm)
       (\<lambda>_. update_session (invalidate_cache None))"

definition last_cal_record :: "'s transport_ops \<Rightarrow> ('s, response) bal" where
  "last_cal_record ops = b_execute ops LAST_CAL_RECORD LastCalRecordRequest False"

definition internal_adjust :: "'s transport_ops \<Rightarrow> int option \<Rightarrow> bool \<Rightarrow> ('s, response) bal" where
  "internal_adjust ops cal_type confirm =
     b_execute ops INTERNAL_ADJUST
       (InternalAdjustRequest (case cal_type of None \<Rightarrow> INTERNAL_ADJUST_CAL_TYPE | Some c \<Rightarrow> c)) confirm"

section \<open>Identification\<close>

definition probe_dispatch_capabilities :: "'s transport_ops \<Rightarrow> ('s, Capability set) bal" where
  "probe_dispatch_capabilities ops =
     b_bind (b_get (\<lambda>b. se_active (ba_session b))) (\<lambda>active.
       if active \<noteq> XBPI then b_lift (Inr {})
       else without_warnings
              (b_try (b_execute ops CONFIG_COUNTER_CMD SystemRequest False)
                (\<lambda>_. b_lift (Inr {CONFIG_COUNTER})) (b_lift (Inr {}))))"

definition or_none :: "string \<Rightarrow> string option" where
  "or_none x = (if x = [] then None else Some x)"

text \<open>\<open>try: q = await m; except SartoriusError: q = None\<close>.\<close>

definition optional :: "('s, 'a) bal \<Rightarrow> ('s, 'a option) bal" where
  "optional m = b_try m (\<lambda>x. b_lift (Inr (Some x))) (b_lift (Inr None))"

definition store_info :: "DeviceInfo \<Rightarrow> ('s, DeviceInfo) bal" where
  "store_info info = b_bind (b_update (\<lambda>b. b\<lparr>ba_info := Some info\<rparr>)) (\<lambda>_. b_lift (Inr info))"

definition identify_sbi :: "'s transport_ops \<Rightarrow> SerialSettings \<Rightarrow> ('s, DeviceInfo) bal" where
  "identify_sbi ops info_settings =
     b_bind (b_execute_as as_str ops READ_MODEL IdentityRequest) (\<lambda>model.
     b_bind (b_execute_as as_bytes ops READ_FACTORY_NUMBER IdentityRequest) (\<lambda>serial_bytes.
     b_bind (b_execute_as as_bytes ops READ_SW_VERSION IdentityRequest) (\<lambda>software_bytes.
       let sbi_serial = decode_ascii_identity serial_bytes;
           sbi_software = decode_ascii_identity software_bytes;
           family = classify_family model;
           caps_seed = FAMILY_DEFAULT_CAPABILITIES family \<union> {SBI_SUPPORT}
       in b_bind (update_session (update_identity (Some family) (Some caps_seed) None)) (\<lambda>_.
          b_bind (b_get (\<lambda>b. se_active (ba_session b))) (\<lambda>protocol.
            store_info
              \<lparr>di_manufacturer = None, di_model = model, di_serial = or_none sbi_serial,
               di_factory_number =
                 (if sbi_serial \<noteq> [] then Some (FactoryText sbi_serial)
                  else if serial_bytes \<noteq> [] then Some (FactoryBytes serial_bytes) else None),
               di_software = or_none sbi_software, di_firmware = None, di_family = family,
               di_protocol = protocol, di_capacity = None, di_increment = None, di_sbn = None,
               di_serial_settings = info_settings, di_capabilities = caps_seed,
               di_probe_report = [], di_temperature_sensor_indices = None\<rparr>)))))"

definition identify_xbpi :: "'s transport_ops \<Rightarrow> SerialSettings \<Rightarrow> ('s, DeviceInfo) bal" where
  "identify_xbpi ops info_settings =
     b_bind (b_execute_as as_str ops READ_MODEL IdentityRequest) (\<lambda>model.
     b_bind (b_execute_as as_str ops READ_MANUFACTURER IdentityRequest) (\<lambda>manufacturer.
     b_bind (b_execute_as as_bytes ops READ_SW_VERSION IdentityRequest) (\<lambda>software.
     b_bind (b_execute_as as_bytes ops READ_FACTORY_NUMBER IdentityRequest) (\<lambda>factory_number.
     b_bind (b_execute_as as_int ops READ_SBN IdentityRequest) (\<lambda>sbn.
       let family = classify_family model
       in b_bind (probe_dispatch_capabilities ops) (\<lambda>observed.
          let caps_seed = FAMILY_DEFAULT_CAPABILITIES family \<union> observed
          in b_bind (update_session (update_identity (Some family) (Some caps_seed) None)) (\<lambda>_.
             b_bind (without_warnings
               (b_bind (optional (capacity ops 0)) (\<lambda>c.
                b_bind (optional (increment ops 0)) (\<lambda>i. b_lift (Inr (c, i)))))) (\<lambda>(capacity_q, increment_q).
             b_bind (b_get (\<lambda>b. se_active (ba_session b))) (\<lambda>protocol.
               store_info
                 \<lparr>di_manufacturer = or_none manufacturer, di_model = model, di_serial = None,
                  di_factory_number = Some (FactoryBytes factory_number),
                  di_software = (if software = [] then None else Some (bytes_hex software)),
                  di_firmware = None, di_family = family, di_protocol = protocol,
                  di_capacity = capacity_q, di_increment = increment_q, di_sbn = Some sbn,
                  di_serial_settings = info_settings, di_capabilities = caps_seed,
                  di_probe_report = [], di_temperature_sensor_indices = None\<rparr>)))))))))"

definition identify :: "'s transport_ops \<Rightarrow> ('s, DeviceInfo) bal" where
  "identify ops =
     b_bind (b_get ba_session) (\<lambda>session.
       let info_settings = (case se_serial_settings session of
                              None \<Rightarrow> placeholder_serial_settings | Some st \<Rightarrow> st)
       in if se_active session = SBI then identify_sbi ops info_settings
          else identify_xbpi ops info_settings)"

end
