(* ===== verification/Balance_Switch.thy ===== *)
theory Balance_Switch
  imports Balance
begin

text \<open>
  \<open>devices/balance.py\<close>: the life-cycle methods of the facade, which change how host and device
  talk to each other: switching protocol and framing with its rollback, the baud rate, the bus
  address, and the raw interfaces.
\<close>

section \<open>Switching the protocol\<close>

definition overlay_settings ::
  "SerialSettings option \<Rightarrow> int option \<Rightarrow> string option \<Rightarrow> string option \<Rightarrow> SerialSettings option" where
  "overlay_settings base baudrate parity stopbits =
     (case base of
        None \<Rightarrow> None
      | Some new \<Rightarrow>
          let new = (case baudrate of None \<Rightarrow> new | Some x \<Rightarrow> new\<lparr>ss_baudrate := x\<rparr>);
              new = (case parity of None \<Rightarrow> new | Some x \<Rightarrow> new\<lparr>ss_parity := x\<rparr>);
              new = (case stopbits of None \<Rightarrow> new | Some x \<Rightarrow> new\<lparr>ss_stopbits := x\<rparr>)
          in Some new)"

definition verify_identity_probe ::
  "'s transport_ops \<Rightarrow> ProtocolKind \<Rightarrow> xbpi_client option \<Rightarrow> sbi_client option \<Rightarrow> int \<Rightarrow> int \<Rightarrow> 's \<Rightarrow>
   unit res \<times> 's" where
  "verify_identity_probe ops target xbpi sbi src_sbn dst_sbn s =
     (let ctx = \<lparr>cc_protocol = target, cc_src_sbn = src_sbn, cc_dst_sbn = dst_sbn,
                 cc_firmware = None, cc_family = FAMILY_UNKNOWN\<rparr>
      in if target = XBPI
         then (case cmd_xbpi READ_MODEL of
                 None \<Rightarrow> (raise SartoriusError, s)
               | Some variant \<Rightarrow>
              (case xbpi of
                 None \<Rightarrow> (raise SartoriusError, s)
               | Some client \<Rightarrow>
              (case xv_encode variant ctx IdentityRequest of
                 Inl e \<Rightarrow> (Inl e, s)
               | Inr request \<Rightarrow>
              (case xbpi_execute ops client request ''configure_protocol_verify'' (Some 0x02) s of
                 (Inl e, s') \<Rightarrow> (Inl e, s')
               | (Inr _, s') \<Rightarrow> (Inr (), s')))))
         else (case cmd_sbi READ_MODEL of
                 None \<Rightarrow> (raise SartoriusError, s)
               | Some variant \<Rightarrow>
              (case sbi of
                 None \<Rightarrow> (raise SartoriusError, s)
               | Some client \<Rightarrow>
              (case sv_encode variant ctx IdentityRequest of
                 Inl e \<Rightarrow> (Inl e, s)
               | Inr request \<Rightarrow>
              (case sbi_execute ops request ''configure_protocol_verify'' (Some (sv_token variant))
                      (sv_expect_lines variant) client s of
                 (Inl e, s') \<Rightarrow> (Inl e, s')
               | (Inr _, s') \<Rightarrow> (Inr (), s'))))))"

text \<open>
  The old clients that are not among the new ones. A switch always installs a client it has
  just made, so object identity never spares an old one.
\<close>

definition dispose_replaced_clients ::
  "xbpi_client option \<Rightarrow> sbi_client option \<Rightarrow> protocol_client list" where
  "dispose_replaced_clients old_xbpi old_sbi =
     (case old_xbpi of None \<Rightarrow> [] | Some c \<Rightarrow> [XbpiClient (xbpi_dispose c)]) @
     (case old_sbi of None \<Rightarrow> [] | Some c \<Rightarrow> [SbiClient (sbi_dispose c)])"

text \<open>The rollback with the \<open>raise\<close> that follows it: the exception that leaves the method.\<close>

definition rollback_configure_protocol ::
  "'s transport_ops \<Rightarrow> SerialSettings option \<Rightarrow> ProtocolKind \<Rightarrow> exn \<Rightarrow> ('s, 'a) bal" where
  "rollback_configure_protocol ops old_settings target cause b s =
     (case old_settings of
        None \<Rightarrow> (Inl cause, b\<lparr>ba_session := mark_broken (ba_session b)\<rparr>, s)
      | Some old \<Rightarrow>
          (case tp_reopen ops (Some (ss_baudrate old)) (Some (ss_parity old))
                  (Some (ss_stopbits old)) s of
             (Inr _, s') \<Rightarrow> (Inl cause, b, s')
           | (Inl rollback_error, s') \<Rightarrow>
               (raise_ctx SartoriusConnectionError
                  ([SetCommandName (Some ''configure_protocol''), SetPort (Some (ss_port old))] @
                   extra [(''target_protocol'', XStr (protocol_value target)),
                          (''session_state'', XStr ''broken'')]),
                b\<lparr>ba_session := mark_broken (ba_session b)\<rparr>, s')))"

text \<open>The new clients on the reopened transport; \<open>ticks\<close> as for \<open>detect_autoprint\<close>.\<close>

definition make_clients ::
  "'s transport_ops \<Rightarrow> ProtocolKind \<Rightarrow> nat \<Rightarrow> 's \<Rightarrow>
   (xbpi_client option \<times> sbi_client option) res \<times> 's" where
  "make_clients ops target ticks s =
     (if target = XBPI then (Inr (Some XbpiProtocolClient, None), s)
      else (case detect_autoprint ops 4 ticks SbiProtocolClient s of
              (Inl e, c, s') \<Rightarrow> (Inl e, s')
            | (Inr _, c, s') \<Rightarrow> (Inr (None, Some c), s')))"

text \<open>The \<open>try\<close> block, up to the exception that starts the rollback.\<close>

definition switch_clients ::
  "'s transport_ops \<Rightarrow> ProtocolKind \<Rightarrow> int option \<Rightarrow> string option \<Rightarrow> string option \<Rightarrow> nat \<Rightarrow>
   ('s, unit) bal" where
  "switch_clients ops target baudrate parity stopbits ticks b s =
     (let session = ba_session b
      in case tp_reopen ops baudrate parity stopbits (tp_drain_input ops s) of
           (Inl e, s1) \<Rightarrow> (Inl e, b, s1)
         | (Inr _, s1) \<Rightarrow>
        (case make_clients ops target ticks s1 of
           (Inl e, s2) \<Rightarrow> (Inl e, b, s2)
         | (Inr (new_xbpi, new_sbi), s2) \<Rightarrow>
             let printing = (target = SBI \<and>
                   (case new_sbi of None \<Rightarrow> False | Some c \<Rightarrow> sc_autoprint_active c))
             in (case (if printing then (Inr (), s2)
                       else verify_identity_probe ops target new_xbpi new_sbi (se_src_sbn session)
                              (se_dst_sbn session) s2) of
                   (Inl e, s3) \<Rightarrow> (Inl e, b, s3)
                 | (Inr _, s3) \<Rightarrow>
                (case replace_clients new_xbpi new_sbi target
                        (overlay_settings (se_serial_settings session) baudrate parity stopbits)
                        session of
                   (Inl e, se) \<Rightarrow> (Inl e, b\<lparr>ba_session := se\<rparr>, s3)
                 | (Inr _, se) \<Rightarrow>
                     (Inr (),
                      b\<lparr>ba_session := se,
                         ba_retired := ba_retired b @
                           dispose_replaced_clients (se_xbpi session) (se_sbi session)\<rparr>, s3)))))"

text \<open>
  Before the switch: the guards and the short cut for a call that changes nothing. \<open>Inr None\<close>
  is the way on to the switch.
\<close>

definition configure_guards ::
  "'s transport_ops \<Rightarrow> ProtocolKind \<Rightarrow> int option \<Rightarrow> string option \<Rightarrow> string option \<Rightarrow> bool \<Rightarrow>
   ('s, DeviceInfo option) bal" where
  "configure_guards ops target baudrate parity stopbits confirm b s =
     (let session = ba_session b;
          no_framing_change = (baudrate = None \<and> parity = None \<and> stopbits = None)
      in if target = AUTO
         then (raise_ctx SartoriusValidationError
                 (SetCommandName (Some ''configure_protocol'') # extra [(''target'', XStr ''auto'')]),
               b, s)
         else if \<not> confirm
         then (raise_ctx SartoriusConfirmationRequiredError
                 (SetCommandName (Some ''configure_protocol'') #
                  extra [(''target'', XStr (protocol_value target))]), b, s)
         else
        (case check_state session of
           Inl e \<Rightarrow> (Inl e, b, s)
         | Inr _ \<Rightarrow>
             if target = se_active session \<and> no_framing_change
             then (case ba_info b of
                     Some i \<Rightarrow> (Inr (Some i), b, s)
                   | None \<Rightarrow>
                       (case identify ops b s of
                          (Inl e, b', s') \<Rightarrow> (Inl e, b', s')
                        | (Inr i, b', s') \<Rightarrow> (Inr (Some i), b', s')))
             else if \<not> (se_active session = XBPI \<and> se_xbpi session \<noteq> None) \<and> se_sbi session = None
             then (raise_ctx SartoriusError [SetCommandName (Some ''configure_protocol'')], b, s)
             else (Inr None, b, s)))"

definition configure_protocol ::
  "'s transport_ops \<Rightarrow> ProtocolKind \<Rightarrow> int option \<Rightarrow> string option \<Rightarrow> string option \<Rightarrow> nat \<Rightarrow> bool \<Rightarrow>
   ('s, DeviceInfo) bal" where
  "configure_protocol ops target baudrate parity stopbits ticks confirm b s =
     (case configure_guards ops target baudrate parity stopbits confirm b s of
        (Inl e, b1, s1) \<Rightarrow> (Inl e, b1, s1)
      | (Inr (Some i), b1, s1) \<Rightarrow> (Inr i, b1, s1)
      | (Inr None, b1, s1) \<Rightarrow>
          (case switch_clients ops target baudrate parity stopbits ticks b1 s1 of
             (Inl switch_error, b2, s2) \<Rightarrow>
               rollback_configure_protocol ops (se_serial_settings (ba_session b)) target
                 switch_error b2 s2
           | (Inr _, b2, s2) \<Rightarrow> identify ops b2 s2))"

section \<open>Baud rate and bus address\<close>

definition MAX_U8 :: int where "MAX_U8 = 0xFF"

definition raw_xbpi :: "'s transport_ops \<Rightarrow> int \<Rightarrow> bytes \<Rightarrow> bool \<Rightarrow> ('s, XbpiFrame) bal" where
  "raw_xbpi ops opcode args confirm = on_session (execute_raw_xbpi ops opcode args confirm)"

definition raw_sbi :: "'s transport_ops \<Rightarrow> sbi_command \<Rightarrow> bool \<Rightarrow> int \<Rightarrow> ('s, SbiReply) bal" where
  "raw_sbi ops command confirm expect_lines =
     on_session (execute_raw_sbi ops command confirm expect_lines)"

text \<open>\<open>execute_raw_xbpi\<close> with one tagged byte as argument, as the two methods below send it.\<close>

definition raw_u8 :: "'s transport_ops \<Rightarrow> int \<Rightarrow> int \<Rightarrow> ('s, XbpiFrame) bal" where
  "raw_u8 ops opcode value =
     b_bind (b_lift (encode_tlv 0x21 (TlvInt value))) (\<lambda>args. raw_xbpi ops opcode args True)"

definition set_baud_rate ::
  "'s transport_ops \<Rightarrow> int \<Rightarrow> int \<Rightarrow> string option \<Rightarrow> string option \<Rightarrow> nat \<Rightarrow> bool \<Rightarrow>
   ('s, DeviceInfo) bal" where
  "set_baud_rate ops wire_code baudrate parity stopbits ticks confirm =
     (if \<not> confirm
      then b_lift (raise_ctx SartoriusConfirmationRequiredError
             (SetCommandName (Some ''set_baud_rate'') #
              extra [(''wire_code'', XInt wire_code), (''baudrate'', XInt baudrate)]))
      else b_bind (b_get (\<lambda>b. se_active (ba_session b))) (\<lambda>active.
        if active \<noteq> XBPI
        then b_lift (raise_ctx SartoriusError
               [SetCommandName (Some ''set_baud_rate''), SetProtocol (Some (protocol_value active))])
        else if \<not> (0 \<le> wire_code \<and> wire_code \<le> MAX_U8)
        then b_lift (raise_ctx SartoriusValidationError
               (SetCommandName (Some ''set_baud_rate'') # extra [(''wire_code'', XInt wire_code)]))
        else b_bind (b_try (raw_u8 ops 0x5C wire_code) (\<lambda>_. b_lift (Inr ())) (b_lift (Inr ())))
               (\<lambda>_. configure_protocol ops XBPI (Some baudrate) parity stopbits ticks True)))"

definition write_sbn_address ::
  "'s transport_ops \<Rightarrow> int \<Rightarrow> bool \<Rightarrow> bool \<Rightarrow> ('s, int) bal" where
  "write_sbn_address ops sbn update_session_dst confirm =
     (if \<not> confirm
      then b_lift (raise_ctx SartoriusConfirmationRequiredError
             (SetCommandName (Some ''write_sbn_address'') # extra [(''sbn'', XInt sbn)]))
      else if \<not> (0 \<le> sbn \<and> sbn \<le> MAX_U8)
      then b_lift (raise_ctx SartoriusValidationError
             (SetCommandName (Some ''write_sbn_address'') # extra [(''sbn'', XInt sbn)]))
      else b_bind (b_get (\<lambda>b. se_active (ba_session b))) (\<lambda>active.
        if active \<noteq> XBPI
        then b_lift (raise_ctx SartoriusError
               [SetCommandName (Some ''write_sbn_address''),
                SetProtocol (Some (protocol_value active))])
        else b_bind (raw_u8 ops 0x72 sbn) (\<lambda>_.
             b_bind (b_execute_as as_int ops READ_SBN IdentityRequest) (\<lambda>readback.
             b_bind (if update_session_dst then update_session (set_dst_sbn sbn)
                     else b_lift (Inr ())) (\<lambda>_. b_lift (Inr readback))))))"

section \<open>Autoprint state and closing\<close>

definition b_refresh_autoprint :: "'s transport_ops \<Rightarrow> nat \<Rightarrow> ('s, bool) bal" where
  "b_refresh_autoprint ops ticks = on_session (refresh_sbi_autoprint_state ops ticks)"

definition balance_close :: "'s transport_ops \<Rightarrow> ('s, unit) bal" where
  "balance_close ops b s = (Inr (), b, session_close ops (ba_session b) s)"

end
