(* ===== verification/Io_Relation.thy ===== *)
theory Io_Relation
  imports Session_Laws
begin

text \<open>
  What reading and writing cannot change. A preorder on transport states that every write, read
  and drain respects is respected by every exchange of the clients and every operation of the
  session. One instance is used below: no exchange changes the framing of the port, which only
  \<open>reopen\<close> does.
\<close>

locale io_relation =
  fixes ops :: "'s transport_ops"
    and R :: "'s \<Rightarrow> 's \<Rightarrow> bool"
  assumes R_refl: "R s s"
    and R_trans: "R a b \<Longrightarrow> R b c \<Longrightarrow> R a c"
    and R_write: "tp_write ops d s = (u, s') \<Longrightarrow> R s s'"
    and R_read_exact: "tp_read_exact ops n s = (r, s') \<Longrightarrow> R s s'"
    and R_read_until: "tp_read_until ops sep s = (r, s') \<Longrightarrow> R s s'"
    and R_drain: "R s (tp_drain_input ops s)"
begin

lemma R_xbpi_execute:
  assumes "xbpi_execute ops c request nm opc s = (r, s')"
  shows "R s s'"
proof -
  obtain w s1 where w: "tp_write ops request s = (w, s1)" by fastforce
  obtain q s2 where q: "tp_read_exact ops 1 s1 = (q, s2)" by fastforce
  obtain z s3 where z: "tp_read_exact ops (unat (projr q ! 0)) s2 = (z, s3)" by fastforce
  have "s' \<in> {s, s1, s2, s3, tp_drain_input ops s3}"
    using assms w q z
    by (auto simp: xbpi_execute_def xbpi_execute_locked_def split: sum.splits prod.splits if_splits)
  moreover have "R s s1" "R s1 s2" "R s2 s3" "R s3 (tp_drain_input ops s3)"
    by (rule R_write [OF w] R_read_exact [OF q] R_read_exact [OF z] R_drain)+
  ultimately show ?thesis using R_refl R_trans by (metis empty_iff insert_iff)
qed

lemma R_read_chunks: "read_chunks ops n s = (r, s') \<Longrightarrow> R s s'"
proof (induction n arbitrary: s r s')
  case (Suc n)
  obtain q s1 where q: "tp_read_until ops LINE_TERMINATOR s = (q, s1)" by fastforce
  obtain z s2 where z: "read_chunks ops n s1 = (z, s2)" by fastforce
  have "s' = s1 \<or> s' = s2" using Suc.prems q z by (auto split: sum.splits)
  with R_read_until [OF q] Suc.IH [OF z] R_trans show ?case by blast
qed (simp add: R_refl)

lemma R_parse_or_drain: "parse_or_drain ops raw nm tok s = (r, s') \<Longrightarrow> R s s'"
  by (auto simp: parse_or_drain_def R_refl R_drain split: sum.splits list.splits)

lemma R_sbi_execute:
  assumes "sbi_execute ops request nm tok n c s = (r, s')"
  shows "R s s'"
proof -
  obtain w s1 where w: "tp_write ops request s = (w, s1)" by fastforce
  obtain q s2 where q: "read_chunks ops (nat n) s1 = (q, s2)" by fastforce
  obtain z s3 where z: "parse_or_drain ops (concat (projr q)) nm tok s2 = (z, s3)" by fastforce
  have "s' \<in> {s, s1, s2, s3}"
    using assms w q z
    by (auto simp: sbi_execute_def sbi_execute_locked_def split: sum.splits prod.splits if_splits)
  moreover have "R s s1" "R s1 s2" "R s2 s3"
    by (rule R_write [OF w] R_read_chunks [OF q] R_parse_or_drain [OF z])+
  ultimately show ?thesis using R_refl R_trans by (metis empty_iff insert_iff)
qed

lemma R_sniff_loop: "sniff_loop ops m ticks c s = (r, c', s') \<Longrightarrow> R s s'"
proof (induction ticks arbitrary: c s)
  case (Suc ticks)
  obtain q s1 where q: "tp_read_until ops LINE_TERMINATOR s = (q, s1)" by fastforce
  have "s' = s \<or> s' = s1 \<or> (\<exists>c1. sniff_loop ops m ticks c1 s1 = (r, c', s'))"
    using Suc.prems q by (auto simp: Let_def split: sum.splits if_splits)
  with R_read_until [OF q] Suc.IH R_refl R_trans show ?case by blast
qed (simp add: R_refl)

lemma R_detect_autoprint: "detect_autoprint ops m ticks c s = (r, c', s') \<Longrightarrow> R s s'"
  by (auto simp: detect_autoprint_def R_refl dest: R_sniff_loop split: if_splits sum.splits prod.splits)

lemma R_refresh: "refresh_autoprint_state ops m ticks c s = (r, c', s') \<Longrightarrow> R s s'"
  by (auto simp: refresh_autoprint_state_def Let_def R_refl dest: R_sniff_loop
      split: if_splits sum.splits prod.splits)

lemma R_read_line:
  assumes "sbi_read_line ops nm c s = (r, c', s')"
  shows "R s s'"
proof -
  obtain q s1 where q: "tp_read_until ops LINE_TERMINATOR s = (q, s1)" by fastforce
  have "s' = s \<or> s' = s1 \<or> (\<exists>raw r1. parse_or_drain ops raw nm None s = (r1, s')) \<or>
      (\<exists>raw r1. parse_or_drain ops raw nm None s1 = (r1, s'))"
    using assms q by (auto simp: sbi_read_line_def Let_def split: sum.splits list.splits prod.splits)
  with R_read_until [OF q] R_parse_or_drain R_refl R_trans show ?thesis by blast
qed

lemma R_autoprint_loop: "autoprint_reading_loop ops ticks c s = (r, c', s') \<Longrightarrow> R s s'"
proof (induction ticks arbitrary: c s)
  case 0
  then show ?case
    by (subst (asm) autoprint_reading_loop.simps)
      (auto dest: R_read_line split: sum.splits prod.splits if_splits)
next
  case (Suc ticks)
  obtain q c1 s1 where q: "sbi_read_line ops ''sbi_autoprint'' c s = (q, c1, s1)"
    by (metis prod_cases3)
  have "s' = s1 \<or> autoprint_reading_loop ops ticks c1 s1 = (r, c', s')"
    using Suc.prems q
    by (subst (asm) autoprint_reading_loop.simps) (auto split: sum.splits if_splits)
  with R_read_line [OF q] Suc.IH R_trans show ?case by blast
qed

section \<open>The session\<close>

lemma R_execute_xbpi:
  assumes "execute_xbpi ops cmd request se s = (r, se', s')"
  shows "R s s'"
proof (cases "s' = s")
  case False
  with assms obtain c b nm opc q where "xbpi_execute ops c b nm opc s = (q, s')"
    by (auto simp: execute_xbpi_def Let_def split: option.splits sum.splits prod.splits if_splits)
  then show ?thesis by (rule R_xbpi_execute)
qed (simp add: R_refl)

lemma R_exchange_checked:
  assumes "sbi_exchange_checked ops b nm tok n client se s = (r, se', s')"
  shows "R s s'"
proof (cases "s' = s")
  case False
  with assms obtain q where "sbi_execute ops b nm (Some tok) n client s = (q, s')"
    by (auto simp: sbi_exchange_checked_def split: sum.splits prod.splits if_splits)
  then show ?thesis by (rule R_sbi_execute)
qed (simp add: R_refl)

lemma R_execute_sbi:
  assumes "execute_sbi ops cmd request se s = (r, se', s')"
  shows "R s s'"
proof (cases "s' = s")
  case False
  with assms obtain b nm tok n client q se1
    where "sbi_exchange_checked ops b nm tok n client se s = (q, se1, s')"
    by (auto simp: execute_sbi_def Let_def split: option.splits sum.splits prod.splits)
  then show ?thesis by (rule R_exchange_checked)
qed (simp add: R_refl)

lemma R_execute:
  assumes "session_execute ops cmd request confirm se s = (r, se', s')"
  shows "R s s'"
proof (cases "gates_open cmd confirm se")
  case False
  with gates_closed [OF this, of ops request s] assms R_refl show ?thesis by auto
next
  case True
  let ?se = "snd (gate_priors cmd se)"
  from gates_passed [OF True, of ops request s] assms
  consider "execute_xbpi ops cmd request ?se s = (r, se', s')"
    | "execute_sbi ops cmd request ?se s = (r, se', s')" | "s' = s"
    by (auto simp: Let_def split: if_splits)
  then show ?thesis using R_execute_xbpi R_execute_sbi R_refl by cases auto
qed

lemma R_counter: "read_config_counter ops se s = (r, se', s') \<Longrightarrow> R s s'"
  by (auto simp: read_config_counter_def dest: R_execute split: sum.splits prod.splits)

lemma R_cached:
  assumes "cached_execute ops cmd request key confirm se s = (r, se', s')"
  shows "R s s'"
proof (cases "CONFIG_COUNTER \<in> se_capabilities se")
  case False
  with assms R_execute show ?thesis by (simp add: cached_execute_def)
next
  case True
  obtain c se1 s1 where c: "read_config_counter ops se s = (c, se1, s1)" by (metis prod_cases3)
  obtain q se2 s2 where q: "session_execute ops cmd request confirm se1 s1 = (q, se2, s2)"
    by (metis prod_cases3)
  have "s' = s1 \<or> s' = s2"
    using assms True c q
    by (auto simp: cached_execute_def Let_def split: sum.splits option.splits if_splits)
  with R_counter [OF c] R_execute [OF q] R_trans show ?thesis by blast
qed

lemma R_raw_xbpi: "execute_raw_xbpi ops opcode args confirm se s = (r, se', s') \<Longrightarrow> R s s'"
  by (auto simp: execute_raw_xbpi_def R_refl dest: R_xbpi_execute
      split: sum.splits option.splits if_splits prod.splits)

lemma R_raw_sbi: "execute_raw_sbi ops c confirm n se s = (r, se', s') \<Longrightarrow> R s s'"
  by (auto simp: execute_raw_sbi_def R_refl dest: R_exchange_checked
      split: sum.splits option.splits if_splits)

lemma R_lines:
  "read_sbi_line ops se s = (r1, se', s') \<Longrightarrow> R s s'"
  "read_sbi_autoprint_reading ops ticks se s = (r2, se', s') \<Longrightarrow> R s s'"
  "refresh_sbi_autoprint_state ops ticks se s = (r3, se', s') \<Longrightarrow> R s s'"
  by (auto simp: read_sbi_line_def read_sbi_autoprint_reading_def refresh_sbi_autoprint_state_def
      R_refl dest: R_read_line R_autoprint_loop R_refresh split: sum.splits prod.splits)

end

section \<open>The framing of the port\<close>

text \<open>
  Baud rate, parity and stop bits. \<open>overlay\<close> is what the arguments of \<open>reopen\<close> that are given
  make of the framing before.
\<close>

type_synonym framing = "int \<times> string \<times> string"

fun overlay :: "int option \<Rightarrow> string option \<Rightarrow> string option \<Rightarrow> framing \<Rightarrow> framing" where
  "overlay b p t (b0, p0, t0) =
     (case b of None \<Rightarrow> b0 | Some x \<Rightarrow> x, case p of None \<Rightarrow> p0 | Some x \<Rightarrow> x,
      case t of None \<Rightarrow> t0 | Some x \<Rightarrow> x)"

definition settings_framing :: "SerialSettings \<Rightarrow> framing" where
  "settings_framing st = (ss_baudrate st, ss_parity st, ss_stopbits st)"

locale framed_transport = transport +
  fixes framing :: "'a \<Rightarrow> framing"
  assumes framing_write: "tp_write ops d s = (u, s') \<Longrightarrow> framing s' = framing s"
    and framing_read_exact: "tp_read_exact ops n s = (r, s') \<Longrightarrow> framing s' = framing s"
    and framing_read_until: "tp_read_until ops sep s = (r, s') \<Longrightarrow> framing s' = framing s"
    and framing_drain: "framing (tp_drain_input ops s) = framing s"
    and framing_reopen: "tp_reopen ops b p t s = (u, s') \<Longrightarrow> framing s' = overlay b p t (framing s)"
    and reopen_written: "tp_reopen ops b p t s = (u, s') \<Longrightarrow> written s' = written s"

sublocale framed_transport \<subseteq> framing: io_relation ops "\<lambda>s s'. framing s' = framing s"
  by unfold_locales
    (auto dest: framing_write framing_read_exact framing_read_until simp: framing_drain)

definition serial_framing :: "serial_transport \<Rightarrow> framing" where
  "serial_framing s = settings_framing (st_settings s)"

lemma serial_drain_settings: "st_settings (serial_drain_input s) = st_settings s"
  by (simp add: serial_drain_input_def Let_def)

lemma serial_io_settings:
  "serial_write d s = (u, s') \<Longrightarrow> st_settings s' = st_settings s"
  "serial_read_exact n s = (r, s') \<Longrightarrow> st_settings s' = st_settings s"
  "serial_read_until sep s = (r, s') \<Longrightarrow> st_settings s' = st_settings s"
  by (auto simp: serial_write_def serial_read_exact_def serial_read_until_def
      serial_error_def raise_ctx_def Let_def
      split: if_splits recv_end.splits tx_outcome.splits list.splits prod.splits option.splits)

lemma serial_open_settings:
  "serial_open s = (u, s') \<Longrightarrow> st_settings s' = st_settings s \<and> st_sent s' = st_sent s"
  by (auto simp: serial_open_def serial_error_def raise_ctx_def Let_def
      split: if_splits open_outcome.splits)

lemma serial_reopen_settings:
  assumes "serial_reopen b p t s = (u, s')"
  shows "serial_framing s' = overlay b p t (serial_framing s) \<and> st_sent s' = st_sent s"
proof -
  have "st_settings (serial_close s) = st_settings s" "st_sent (serial_close s) = st_sent s"
    by (simp_all add: serial_close_def)
  with serial_open_settings [OF assms [unfolded serial_reopen_def Let_def]] show ?thesis
    by (cases b; cases p; cases t) (simp_all add: serial_framing_def settings_framing_def)
qed

interpretation serial_framed:
  framed_transport serial_ops st_sent serial_ready serial_pending st_port serial_framing
  by unfold_locales
    (auto simp: serial_ops_def serial_framing_def serial_drain_settings
      dest: serial_io_settings serial_reopen_settings [unfolded serial_framing_def])

end
