(* ===== verification/Session_Types.thy ===== *)
theory Session_Types
  imports Session_Laws
begin

text \<open>
  What a dispatch returns: a value of the type its command declares, or an exception of the
  package. No Python exception can escape a dispatch of a library command, whatever the device
  sends, because encoders, exchanges and decoders only raise errors of the package.
\<close>

lemma package_error: "exn_is e c \<Longrightarrow> exn_is e SartoriusError"
  by (cases e) simp_all

section \<open>Errors of the parsers\<close>

lemma parse_line_error:
  assumes "parse_line raw = Inl e"
  shows "exn_is e SartoriusParseError"
proof (cases "ascii_decode (strip_line_terminator raw)")
  case None
  with assms show ?thesis by (auto simp: parse_line_def raise_ctx_def)
next
  case (Some body)
  with assms weight_line_ok [OF Some] show ?thesis
    by (cases "parse_weight_line raw") (auto simp: parse_line_def Let_def split: if_splits)
qed

lemma parse_lines_error: "parse_lines ls = Inl e \<Longrightarrow> exn_is e SartoriusParseError"
  by (induction ls) (auto simp: res_bind_eq_Inl dest: parse_line_error)

lemma parse_reply_error: "parse_reply raw = Inl e \<Longrightarrow> exn_is e SartoriusProtocolError"
  by (auto simp: parse_reply_def res_bind_eq_Inl split_lines_def
      dest!: split_lines_from_error parse_lines_error intro: protocol_error_of)

section \<open>Encoders and decoders of the library's commands\<close>

lemma decodes_bind_request: "decodes_to ty cmd \<Longrightarrow> decodes_to ty (bind_request cmd q)"
  by (auto simp: decodes_to_def)

lemma declared_decodes: "declared cmd \<Longrightarrow> \<exists>ty. decodes_to ty cmd"
  by (cases rule: declared.cases) (auto intro: decodes_bind_request commands_decode)

lemma declared_encodes:
  assumes "declared cmd"
  shows "cmd_xbpi cmd = Some v \<Longrightarrow> xv_encode v ctx () = Inl e \<Longrightarrow> exn_is e SartoriusFrameError"
    and "cmd_sbi cmd = Some w \<Longrightarrow> sv_encode w ctx () = Inr (sv_token w) \<and> 0 \<le> sv_expect_lines w"
  using assms
  by (cases rule: declared.cases;
      auto simp: command_specs variant_specs encode_with_def res_bind_eq_Inl
        dest: build_command_error encode_tlv_error)+

section \<open>Dispatch\<close>

lemma gate_errors:
  "check_state se = Inl e \<Longrightarrow> exn_is e SartoriusError"
  "gate_safety cmd confirm se = Inl e \<Longrightarrow> exn_is e SartoriusError"
  "gate_protocol cmd se = Inl e \<Longrightarrow> exn_is e SartoriusError"
  "gate_known_denied cmd se = Inl e \<Longrightarrow> exn_is e SartoriusError"
  "gate_priors cmd se = (Inl e, se1) \<Longrightarrow> exn_is e SartoriusError"
  using check_state_iff(2) gate_safety_iff(2) gate_protocol_iff(2) gate_known_denied_iff(2)
    gate_priors_iff(2) package_error
  by metis+

context transport
begin

lemma xbpi_package_error: "xbpi_execute ops c req nm opc s = (Inl e, s') \<Longrightarrow> exn_is e SartoriusError"
  using xbpi_errors package_error by blast

lemma read_chunks_error: "read_chunks ops n s = (Inl e, s') \<Longrightarrow> exn_is e SartoriusTransportError"
proof (induction n arbitrary: s s')
  case (Suc n)
  then show ?case by (auto split: sum.splits prod.splits dest: read_until_fail)
qed simp

lemma sbi_package_error:
  assumes "sbi_execute ops req nm tok n c s = (Inl e, s')" and "0 \<le> n"
  shows "exn_is e SartoriusError"
  using assms
  by (auto simp: sbi_execute_def sbi_execute_locked_def sbi_raise_if_disposed_def raise_ctx_def
      parse_or_drain_def refusal_error_def split: sum.splits prod.splits if_splits list.splits
      dest!: write_fail read_chunks_error parse_reply_error dest: package_error)

lemma execute_xbpi_package_error:
  assumes "execute_xbpi ops cmd () se s = (Inl e, se', s')" and "declared cmd"
  shows "exn_is e SartoriusError"
proof -
  obtain ty where d: "decodes_to ty cmd" using declared_decodes [OF assms(2)] by blast
  have dec: "exn_is e SartoriusError" if "cmd_xbpi cmd = Some v" "xv_decode v fr ctx = Inl e"
    for v fr ctx
    using d that unfolding decodes_to_def by (metis package_error yields_simps(2))
  have enc: "exn_is e SartoriusError" if "cmd_xbpi cmd = Some v" "xv_encode v ctx () = Inl e"
    for v ctx using declared_encodes(1) [OF assms(2) that] package_error by blast
  show ?thesis
    using assms(1)
    by (auto simp: execute_xbpi_def Let_def raise_ctx_def
        split: option.splits sum.splits prod.splits if_splits
        dest: enc dec xbpi_package_error)
qed

lemma execute_sbi_package_error:
  assumes "execute_sbi ops cmd () se s = (Inl e, se', s')" and "declared cmd"
  shows "exn_is e SartoriusError"
proof -
  obtain ty where d: "decodes_to ty cmd" using declared_decodes [OF assms(2)] by blast
  have dec: "exn_is e SartoriusError" if "cmd_sbi cmd = Some v" "sv_decode v fr ctx = Inl e"
    for v fr ctx
    using d that unfolding decodes_to_def by (metis package_error yields_simps(2))
  have ex: "exn_is e SartoriusError"
    if "sbi_exchange_checked ops rb nm tok n client se s = (Inl e, se1, s1)" "0 \<le> n"
    for rb nm tok n client se1 s1
    using that
    by (auto simp: sbi_exchange_checked_def raise_sbi_autoprint_active_def raise_ctx_def
        split: if_splits sum.splits prod.splits dest: sbi_package_error)
  show ?thesis
    using assms(1) declared_encodes(2) [OF assms(2)]
    by (auto simp: execute_sbi_def Let_def raise_ctx_def
        split: option.splits sum.splits prod.splits dest: dec ex)
qed

lemma execute_package_error:
  assumes "session_execute ops cmd () confirm se s = (Inl e, se', s')" and "declared cmd"
  shows "exn_is e SartoriusError"
  using assms(1) unfolding session_execute_def
  by (auto dest: gate_errors execute_xbpi_package_error [OF _ assms(2)]
      execute_sbi_package_error [OF _ assms(2)] split: sum.splits prod.splits if_splits
      simp: raise_def)

lemma cached_package_error:
  assumes "cached_execute ops cmd () key confirm se s = (Inl e, se', s')" and "declared cmd"
  shows "exn_is e SartoriusError"
proof -
  have "exn_is e SartoriusError" if "read_config_counter ops se s = (Inl e, se1, s1)" for se1 s1
    using that execute_package_error [OF _ counter_declared]
    by (auto simp: read_config_counter_def execute_bind_request split: sum.splits prod.splits)
  with assms execute_package_error [OF _ assms(2)] show ?thesis
    by (auto simp: cached_execute_def Let_def split: if_splits sum.splits prod.splits option.splits)
qed

end

section \<open>Types of responses\<close>

lemma execute_type:
  assumes "session_execute ops cmd q confirm se s = (Inr x, se', s')" and "decodes_to ty cmd"
  shows "response_type x = ty"
proof -
  let ?se = "snd (gate_priors cmd se)"
  have "gates_open cmd confirm se"
    using assms(1) gates_closed [of cmd confirm se ops q s] by auto
  from gates_passed [OF this, of ops q s] assms(1)
  consider "execute_xbpi ops cmd q ?se s = (Inr x, se', s')"
    | "execute_sbi ops cmd q ?se s = (Inr x, se', s')"
    by (auto simp: Let_def raise_def split: if_splits)
  then show ?thesis
  proof cases
    case 1
    then obtain v fr where "cmd_xbpi cmd = Some v" "xv_decode v fr (command_context XBPI ?se) = Inr x"
      by (auto simp: execute_xbpi_def Let_def raise_ctx_def
          split: option.splits sum.splits prod.splits if_splits)
    with assms(2) show ?thesis unfolding decodes_to_def by (metis yields_simps(1))
  next
    case 2
    then obtain v rp where "cmd_sbi cmd = Some v" "sv_decode v rp (command_context SBI ?se) = Inr x"
      by (auto simp: execute_sbi_def Let_def raise_ctx_def
          split: option.splits sum.splits prod.splits if_splits)
    with assms(2) show ?thesis unfolding decodes_to_def by (metis yields_simps(1))
  qed
qed

text \<open>The addresses, firmware and family a dispatch encodes with do not change.\<close>

lemma exchange_checked_context:
  "sbi_exchange_checked ops b nm tok n client se s = (r, se', s') \<Longrightarrow>
     command_context p se' = command_context p se"
  by (auto simp: sbi_exchange_checked_def command_context_def split: sum.splits prod.splits if_splits)

lemma set_availability_context [simp]:
  "command_context p (set_availability n a se) = command_context p se"
  by (simp add: command_context_def set_availability_def)

lemma execute_context:
  assumes "session_execute ops cmd q confirm se s = (r, se', s')"
  shows "command_context p se' = command_context p se"
proof (cases "gates_open cmd confirm se")
  case False
  with gates_closed [OF this, of ops q s] assms show ?thesis by auto
next
  case True
  let ?se = "snd (gate_priors cmd se)"
  from gates_passed [OF True, of ops q s] assms
  consider "execute_xbpi ops cmd q ?se s = (r, se', s')"
    | "execute_sbi ops cmd q ?se s = (r, se', s')" | "se' = ?se"
    by (auto simp: Let_def split: if_splits)
  then have "command_context p se' = command_context p ?se"
    by cases
      (auto simp: execute_xbpi_def execute_sbi_def Let_def raise_ctx_def
        dest: exchange_checked_context [of _ _ _ _ _ _ _ _ _ _ _ p]
        split: option.splits sum.splits prod.splits if_splits)
  then show ?thesis by simp
qed

text \<open>A cache entry under a key has the type of the command that is read under it.\<close>

definition cache_typed :: "string \<Rightarrow> resp_type \<Rightarrow> session \<Rightarrow> bool" where
  "cache_typed key ty se \<longleftrightarrow> (\<forall>c x. se_result_cache se key = Some (c, x) \<longrightarrow> response_type x = ty)"

lemma execute_cache: "session_execute ops cmd q confirm se s = (r, se', s') \<Longrightarrow>
    se_result_cache se' = se_result_cache se"
  by (drule execute_effect) (simp add: dispatch_effect_def)

lemma counter_cache: "read_config_counter ops se s = (r, se', s') \<Longrightarrow>
    se_result_cache se' = se_result_cache se"
  by (auto simp: read_config_counter_def dest: execute_cache split: sum.splits prod.splits)

lemma cached_type:
  assumes "cached_execute ops cmd q key confirm se s = (r, se', s')"
    and "decodes_to ty cmd" and "cache_typed key ty se"
  shows "(\<forall>x. r = Inr x \<longrightarrow> response_type x = ty) \<and> cache_typed key ty se'"
proof (cases "CONFIG_COUNTER \<in> se_capabilities se")
  case False
  with assms execute_type execute_cache show ?thesis
    by (fastforce simp: cached_execute_def cache_typed_def)
next
  case True
  obtain c se1 s1 where c: "read_config_counter ops se s = (c, se1, s1)" by (metis prod_cases3)
  obtain z se2 s2 where z: "session_execute ops cmd q confirm se1 s1 = (z, se2, s2)"
    by (metis prod_cases3)
  note ch = counter_cache [OF c] execute_cache [OF z]
  show ?thesis
    using assms True c z ch execute_type [of ops cmd q confirm se1 s1 _ se2 s2 ty]
    by (auto simp: cached_execute_def Let_def cache_typed_def
        split: sum.splits option.splits if_splits)
qed

end
