(* ===== verification/Balance_Laws.thy ===== *)
theory Balance_Laws
  imports Balance_Switch Io_Relation Session_Types
begin

text \<open>
  Laws of the facade. A preorder on balance and transport that every dispatch of the session and
  every bookkeeping update respects is respected by every method built from them; the locale
  proves this once for each method. Its instances: what an unconfirmed method may send, what
  every method keeps of the session, and that only a switch changes the framing of the port.
\<close>

definition obeys ::
  "(balance \<times> 's \<Rightarrow> balance \<times> 's \<Rightarrow> bool) \<Rightarrow> ('s, 'a) bal \<Rightarrow> bool" where
  "obeys Q m \<longleftrightarrow> (\<forall>b s. Q (b, s) (snd (m b s)))"

lemma obeysD: "obeys Q m \<Longrightarrow> m b s = (r, b', s') \<Longrightarrow> Q (b, s) (b', s')"
  unfolding obeys_def by (metis snd_conv)

lemma cached_bind_request:
  "cached_execute ops (bind_request cmd q) () key confirm se s = cached_execute ops cmd q key confirm se s"
  unfolding cached_execute_def execute_bind_request ..

section \<open>Methods respect a preorder\<close>

locale dispatch_relation =
  fixes ops :: "'s transport_ops"
    and allow :: bool
    and Q :: "balance \<times> 's \<Rightarrow> balance \<times> 's \<Rightarrow> bool"
  assumes Q_refl: "Q x x"
    and Q_trans: "Q x y \<Longrightarrow> Q y z \<Longrightarrow> Q x z"
    and Q_execute:
      "declared cmd \<Longrightarrow> (confirm \<longrightarrow> allow) \<Longrightarrow>
         session_execute ops cmd () confirm (ba_session b) s = (r, se', s') \<Longrightarrow>
         Q (b, s) (b\<lparr>ba_session := se'\<rparr>, s')"
    and Q_cached:
      "declared cmd \<Longrightarrow> cached_execute ops cmd () key False (ba_session b) s = (r, se', s') \<Longrightarrow>
         Q (b, s) (b\<lparr>ba_session := se'\<rparr>, s')"
    and Q_raw_xbpi:
      "(confirm \<longrightarrow> allow) \<Longrightarrow>
         execute_raw_xbpi ops opcode args confirm (ba_session b) s = (fr, se', s') \<Longrightarrow>
         Q (b, s) (b\<lparr>ba_session := se'\<rparr>, s')"
    and Q_raw_sbi:
      "(confirm \<longrightarrow> allow) \<Longrightarrow>
         execute_raw_sbi ops c confirm n (ba_session b) s = (rp, se', s') \<Longrightarrow>
         Q (b, s) (b\<lparr>ba_session := se'\<rparr>, s')"
    and Q_autoprint:
      "read_sbi_autoprint_reading ops ticks (ba_session b) s = (rd, se', s') \<Longrightarrow>
         Q (b, s) (b\<lparr>ba_session := se'\<rparr>, s')"
    and Q_refresh:
      "refresh_sbi_autoprint_state ops ticks (ba_session b) s = (a, se', s') \<Longrightarrow>
         Q (b, s) (b\<lparr>ba_session := se'\<rparr>, s')"
    and Q_invalidate: "Q (b, s) (b\<lparr>ba_session := invalidate_cache k (ba_session b)\<rparr>, s)"
    and Q_set_dst: "Q (b, s) (b\<lparr>ba_session := set_dst_sbn d (ba_session b)\<rparr>, s)"
    and Q_warnings: "Q (b, s) (b\<lparr>ba_session := (ba_session b)\<lparr>se_warnings := ws\<rparr>\<rparr>, s)"
begin

lemma obeys_lift: "obeys Q (b_lift r)"
  by (simp add: obeys_def b_lift_def Q_refl)

lemma obeys_get: "obeys Q (b_get f)"
  by (simp add: obeys_def b_get_def Q_refl)

lemma obeys_bind:
  assumes "obeys Q m" "\<And>x. obeys Q (f x)"
  shows "obeys Q (b_bind m f)"
  unfolding obeys_def
proof (intro allI)
  fix b s
  obtain r b1 s1 where m: "m b s = (r, b1, s1)" by (metis prod_cases3)
  have "Q (b, s) (b1, s1)" using obeysD [OF assms(1) m] .
  moreover have "Q (b1, s1) (snd (f x b1 s1))" for x using assms(2) by (simp add: obeys_def)
  ultimately show "Q (b, s) (snd (b_bind m f b s))"
    using m Q_trans [of "(b, s)" "(b1, s1)"] by (cases r) (simp_all add: b_bind_def)
qed

lemma obeys_try:
  assumes "obeys Q m" "\<And>x. obeys Q (f x)" "obeys Q h"
  shows "obeys Q (b_try m f h)"
  unfolding obeys_def
proof (intro allI)
  fix b s
  obtain r b1 s1 where m: "m b s = (r, b1, s1)" by (metis prod_cases3)
  have "Q (b, s) (b1, s1)" using obeysD [OF assms(1) m] .
  moreover have "Q (b1, s1) (snd (f x b1 s1))" "Q (b1, s1) (snd (h b1 s1))" for x
    using assms(2,3) by (simp_all add: obeys_def)
  ultimately show "Q (b, s) (snd (b_try m f h b s))"
    using m Q_trans [of "(b, s)" "(b1, s1)"] by (cases r) (simp_all add: b_try_def)
qed

lemma obeys_without_warnings:
  assumes "obeys Q m" shows "obeys Q (without_warnings m)"
  unfolding obeys_def
proof (intro allI)
  fix b s
  obtain r b1 s1 where m: "m b s = (r, b1, s1)" by (metis prod_cases3)
  from Q_trans [OF obeysD [OF assms m] Q_warnings] m
  show "Q (b, s) (snd (without_warnings m b s))" by (simp add: without_warnings_def)
qed

lemma obeys_if: "obeys Q m \<Longrightarrow> obeys Q n \<Longrightarrow> obeys Q (if c then m else n)" by simp
lemma obeys_let: "obeys Q (f x) \<Longrightarrow> obeys Q (Let x f)" by simp
lemma obeys_pair: "(\<And>x y. obeys Q (f x y)) \<Longrightarrow> obeys Q (case p of (x, y) \<Rightarrow> f x y)"
  by (cases p) simp

lemma obeys_updates:
  "obeys Q (update_session (invalidate_cache k))" "obeys Q (update_session (set_dst_sbn d))"
  by (simp_all add: obeys_def update_session_def b_update_def Q_invalidate Q_set_dst)

lemma obeys_on_session:
  assumes "\<And>b s r se' s'. f (ba_session b) s = (r, se', s') \<Longrightarrow> Q (b, s) (b\<lparr>ba_session := se'\<rparr>, s')"
  shows "obeys Q (on_session f)"
  unfolding obeys_def
proof (intro allI)
  fix b :: balance and s
  obtain r se' s' where f: "f (ba_session b) s = (r, se', s')" by (metis prod_cases3)
  from assms [OF this] show "Q (b, s) (snd (on_session f b s))" by (simp add: on_session_def f)
qed

lemma obeys_execute:
  assumes "declared (bind_request cmd q)" "confirm \<longrightarrow> allow"
  shows "obeys Q (b_execute ops cmd q confirm)"
  unfolding b_execute_def execute_bind_request [of ops cmd q, symmetric]
  by (rule obeys_on_session) (rule Q_execute [OF assms])

lemma obeys_cached:
  assumes "declared (bind_request cmd q)"
  shows "obeys Q (b_cached ops cmd q key)"
  unfolding b_cached_def cached_bind_request [of ops cmd q, symmetric]
  by (rule obeys_on_session) (rule Q_cached [OF assms])

lemma obeys_autoprint: "obeys Q (on_session (read_sbi_autoprint_reading ops ticks))"
  by (rule obeys_on_session) (rule Q_autoprint)

lemma obeys_refresh: "obeys Q (b_refresh_autoprint ops ticks)"
  unfolding b_refresh_autoprint_def by (rule obeys_on_session) (rule Q_refresh)

lemma obeys_raw_xbpi: "(confirm \<longrightarrow> allow) \<Longrightarrow> obeys Q (raw_xbpi ops opcode args confirm)"
  unfolding raw_xbpi_def by (rule obeys_on_session) (rule Q_raw_xbpi)

lemma obeys_raw_sbi: "(confirm \<longrightarrow> allow) \<Longrightarrow> obeys Q (raw_sbi ops c confirm n)"
  unfolding raw_sbi_def by (rule obeys_on_session) (rule Q_raw_sbi)

lemma obeys_execute_as:
  "declared (bind_request cmd q) \<Longrightarrow> obeys Q (b_execute_as view ops cmd q)"
  unfolding b_execute_as_def by (intro obeys_bind obeys_execute obeys_lift) simp_all

lemmas obeys_intros =
  obeys_lift obeys_get obeys_bind obeys_try obeys_without_warnings obeys_if obeys_let obeys_pair
  obeys_updates obeys_execute obeys_cached obeys_autoprint obeys_refresh obeys_execute_as
  obeys_raw_xbpi obeys_raw_sbi

lemma obeys_weights:
  "obeys Q (poll ops ticks)" "obeys Q (read_net ops ticks hires)" "obeys Q (read_gross ops hires)"
  "obeys Q (read_tare_value ops)" "obeys Q (tare ops)" "obeys Q (zero_balance ops)"
  "obeys Q (status ops)" "obeys Q (last_cal_record ops)"
  unfolding poll_def read_net_def read_gross_def read_tare_value_def tare_def zero_balance_def
    status_def last_cal_record_def
  by (intro obeys_intros declared.intros; simp)+

lemma obeys_parameters:
  "obeys Q (read_parameter ops index)"
  "(confirm \<longrightarrow> allow) \<Longrightarrow> obeys Q (write_parameter ops index value confirm)"
  "obeys Q (get_typed ops index)"
  "(confirm \<longrightarrow> allow) \<Longrightarrow> obeys Q (set_typed ops index value confirm)"
  unfolding read_parameter_def write_parameter_def get_typed_def set_typed_def
  by (intro obeys_intros declared.intros; simp)+

lemma obeys_accessors:
  "obeys Q (get_accessor ops name)"
  "(confirm \<longrightarrow> allow) \<Longrightarrow> obeys Q (set_accessor ops name resolved confirm)"
  unfolding get_accessor_def set_accessor_def
  by (intro obeys_intros obeys_parameters; simp)+

lemma obeys_unit: "obeys Q (resolve_metrology_unit ops raw)"
  unfolding resolve_metrology_unit_def get_display_unit_def
  by (intro obeys_intros obeys_accessors)

lemma obeys_metrology:
  "obeys Q (capacity ops area)" "obeys Q (increment ops area)" "obeys Q (temperature ops sensor)"
  unfolding capacity_def increment_def temperature_def
  by (intro obeys_intros declared.intros obeys_unit)+

lemma obeys_discover_loop: "Q (b, s) (snd (discover_loop ops left sensor found b s))"
proof (induction left arbitrary: sensor found b s)
  case 0
  then show ?case by (simp add: Q_refl)
next
  case (Suc left)
  obtain r b1 s1 where t: "temperature ops sensor b s = (r, b1, s1)" by (metis prod_cases3)
  have "Q (b, s) (b1, s1)" using obeysD [OF obeys_metrology(3) t] .
  with Suc.IH Q_trans t show ?case by (auto split: sum.split)
qed

lemma obeys_persistence:
  "(confirm \<longrightarrow> allow) \<Longrightarrow> obeys Q (save_menu ops confirm)"
  "(confirm \<longrightarrow> allow) \<Longrightarrow> obeys Q (reload_menu ops confirm)"
  "(confirm \<longrightarrow> allow) \<Longrightarrow> obeys Q (internal_adjust ops cal confirm)"
  unfolding save_menu_def reload_menu_def internal_adjust_def
  by (intro obeys_intros declared.intros; simp)+

lemma obeys_probe: "obeys Q (probe_dispatch_capabilities ops)"
  unfolding probe_dispatch_capabilities_def
  by (intro obeys_intros declared.intros; simp)

lemma obeys_optional: "obeys Q m \<Longrightarrow> obeys Q (optional m)"
  unfolding optional_def by (intro obeys_intros)

lemma obeys_write_sbn:
  "(confirm \<longrightarrow> allow) \<Longrightarrow> obeys Q (write_sbn_address ops sbn upd confirm)"
proof (cases confirm)
  case True
  assume "confirm \<longrightarrow> allow"
  with True show ?thesis unfolding write_sbn_address_def raw_u8_def
    by (intro obeys_intros declared.intros; simp)
qed (simp add: write_sbn_address_def obeys_lift)

end

text \<open>The methods that also record what they learned about the device.\<close>

locale balance_relation = dispatch_relation +
  assumes Q_identity: "Q (b, s) (b\<lparr>ba_session := update_identity fam caps fw (ba_session b)\<rparr>, s)"
    and Q_info: "Q (b, s) (b\<lparr>ba_info := i\<rparr>, s)"
begin

lemma obeys_records:
  "obeys Q (update_session (update_identity fam caps fw))" "obeys Q (b_update (\<lambda>b. b\<lparr>ba_info := g b\<rparr>))"
  by (simp_all add: obeys_def update_session_def b_update_def Q_identity Q_info)

lemma obeys_discover: "obeys Q (discover_temperature_sensors ops max_index)"
proof -
  have "obeys Q (discover_loop ops n 0 [])" for n by (simp add: obeys_def obeys_discover_loop)
  then show ?thesis unfolding discover_temperature_sensors_def by (intro obeys_intros obeys_records)
qed

lemma obeys_identify: "obeys Q (identify ops)"
  unfolding identify_def identify_sbi_def identify_xbpi_def store_info_def
  by (intro obeys_intros obeys_records declared.intros obeys_metrology obeys_probe obeys_optional; simp)

end

section \<open>What a dispatch keeps of the session\<close>

definition session_frame :: "session \<Rightarrow> session \<Rightarrow> bool" where
  "session_frame se se' \<longleftrightarrow>
     se_active se' = se_active se \<and> se_xbpi se' = se_xbpi se \<and> se_state se' = se_state se \<and>
     se_serial_settings se' = se_serial_settings se \<and>
     se_recoverable_error_count se' = se_recoverable_error_count se \<and>
     map_option sc_disposed (se_sbi se') = map_option sc_disposed (se_sbi se)"

lemma frame_refl [simp]: "session_frame se se"
  by (simp add: session_frame_def)

lemma frame_trans: "session_frame a b \<Longrightarrow> session_frame b c \<Longrightarrow> session_frame a c"
  by (simp add: session_frame_def)

lemma frame_updates [simp]:
  "session_frame se (set_availability n a se)" "session_frame se (snd (gate_priors cmd se))"
  "session_frame se (se\<lparr>se_result_cache := m\<rparr>)" "session_frame se (se\<lparr>se_warnings := ws\<rparr>)"
  "session_frame se (invalidate_cache k se)" "session_frame se (set_dst_sbn d se)"
  "session_frame se (update_identity f c w se)"
  by (auto simp: session_frame_def set_availability_def gate_priors_def invalidate_cache_def
      set_dst_sbn_def update_identity_def Let_def split: option.split)

lemma frame_client:
  "se_sbi se = Some c \<Longrightarrow> sc_disposed c' = sc_disposed c \<Longrightarrow> session_frame se (se\<lparr>se_sbi := Some c'\<rparr>)"
  by (simp add: session_frame_def)

lemma mark_autoprint_disposed [simp]: "sc_disposed (mark_autoprint_active raw c) = sc_disposed c"
  by (simp add: mark_autoprint_active_def queue_pending_front_def Let_def split: option.split sum.split)

lemma sniff_disposed: "sniff_loop ops m ticks c s = (r, c', s') \<Longrightarrow> sc_disposed c' = sc_disposed c"
proof (induction ticks arbitrary: c s)
  case (Suc ticks)
  then show ?case by (fastforce simp: Let_def split: if_splits sum.splits prod.splits)
qed simp

lemma detect_disposed:
  "detect_autoprint ops m ticks c s = (r, c', s') \<Longrightarrow> sc_disposed c' = sc_disposed c"
  by (auto simp: detect_autoprint_def dest: sniff_disposed split: if_splits sum.splits prod.splits)

lemma refresh_disposed:
  "refresh_autoprint_state ops m ticks c s = (r, c', s') \<Longrightarrow> sc_disposed c' = sc_disposed c"
  by (auto simp: refresh_autoprint_state_def Let_def dest!: sniff_disposed
      split: if_splits sum.splits prod.splits)

lemma read_line_disposed: "sbi_read_line ops nm c s = (r, c', s') \<Longrightarrow> sc_disposed c' = sc_disposed c"
  by (auto simp: sbi_read_line_def Let_def split: sum.splits list.splits prod.splits)

lemma autoprint_loop_disposed:
  "autoprint_reading_loop ops ticks c s = (r, c', s') \<Longrightarrow> sc_disposed c' = sc_disposed c"
proof (induction ticks arbitrary: c s)
  case 0
  then show ?case
    by (subst (asm) autoprint_reading_loop.simps)
      (auto dest!: read_line_disposed split: sum.splits prod.splits if_splits)
next
  case (Suc ticks)
  from Suc.prems show ?case
    by (subst (asm) autoprint_reading_loop.simps)
      (auto dest!: read_line_disposed Suc.IH split: sum.splits prod.splits if_splits)
qed

lemma lines_frame:
  "read_sbi_autoprint_reading ops ticks se s = (r2, se', s') \<Longrightarrow> session_frame se se'"
  "refresh_sbi_autoprint_state ops ticks se s = (r3, se', s') \<Longrightarrow> session_frame se se'"
  by (auto simp: read_sbi_autoprint_reading_def refresh_sbi_autoprint_state_def
      require_sbi_client_def raise_ctx_def intro!: frame_client
      dest: autoprint_loop_disposed refresh_disposed split: sum.splits prod.splits if_splits option.splits)

lemma exchange_checked_frame:
  "sbi_exchange_checked ops b nm tok n client se s = (r, se', s') \<Longrightarrow> se_sbi se = Some client \<Longrightarrow>
     session_frame se se'"
  by (auto simp: sbi_exchange_checked_def intro: frame_client split: sum.splits prod.splits if_splits)

lemma execute_xbpi_frame: "execute_xbpi ops cmd q se s = (r, se', s') \<Longrightarrow> session_frame se se'"
  by (auto simp: execute_xbpi_def Let_def split: option.splits sum.splits prod.splits if_splits)

lemma execute_sbi_frame:
  assumes "execute_sbi ops cmd q se s = (r, se', s')"
  shows "session_frame se se'"
proof (cases "se' = se")
  case False
  with assms obtain b nm tok n client z se1
    where x: "sbi_exchange_checked ops b nm tok n client se s = (z, se1, s')"
      and c: "se_sbi se = Some client"
      and e: "se' = se1 \<or> (\<exists>n a. se' = set_availability n a se1)"
    by (auto simp: execute_sbi_def Let_def split: option.splits sum.splits prod.splits) blast
  from exchange_checked_frame [OF x c] e frame_trans show ?thesis by auto
qed simp

lemma execute_frame:
  assumes "session_execute ops cmd q confirm se s = (r, se', s')"
  shows "session_frame se se'"
proof (cases "gates_open cmd confirm se")
  case False
  with gates_closed [OF this, of ops q s] assms show ?thesis by auto
next
  case True
  let ?se = "snd (gate_priors cmd se)"
  from gates_passed [OF True, of ops q s] assms
  consider "execute_xbpi ops cmd q ?se s = (r, se', s')"
    | "execute_sbi ops cmd q ?se s = (r, se', s')" | "se' = ?se"
    by (auto simp: Let_def split: if_splits)
  then have "session_frame ?se se'" using execute_xbpi_frame execute_sbi_frame by cases auto
  with frame_trans [OF frame_updates(2)] show ?thesis .
qed

lemma cached_frame:
  assumes "cached_execute ops cmd q key confirm se s = (r, se', s')"
  shows "session_frame se se'"
proof (cases "CONFIG_COUNTER \<in> se_capabilities se")
  case False
  with assms execute_frame show ?thesis by (simp add: cached_execute_def)
next
  case True
  obtain c se1 s1 where c: "read_config_counter ops se s = (c, se1, s1)" by (metis prod_cases3)
  obtain z se2 s2 where z: "session_execute ops cmd q confirm se1 s1 = (z, se2, s2)"
    by (metis prod_cases3)
  have "se' = se1 \<or> se' = se2 \<or> (\<exists>m. se' = se2\<lparr>se_result_cache := m\<rparr>)"
    using assms True c z
    by (auto simp: cached_execute_def Let_def split: sum.splits option.splits if_splits)
  moreover have "session_frame se se1"
    using c by (auto simp: read_config_counter_def dest: execute_frame split: sum.splits prod.splits)
  ultimately show ?thesis using execute_frame [OF z] frame_trans frame_updates(3) by metis
qed

lemma raw_sbi_frame:
  "execute_raw_sbi ops c confirm n se s = (r, se', s') \<Longrightarrow> session_frame se se'"
  by (auto simp: execute_raw_sbi_def dest: exchange_checked_frame
      split: sum.splits option.splits if_splits)

lemma raw_xbpi_frame:
  "execute_raw_xbpi ops opcode args confirm se s = (r, se', s') \<Longrightarrow> session_frame se se'"
  using raw_xbpi_keeps by fastforce

lemmas session_ops_frame = execute_frame cached_frame lines_frame raw_sbi_frame raw_xbpi_frame

section \<open>What a dispatch keeps of the identity\<close>

definition identity_kept :: "balance \<times> 's \<Rightarrow> balance \<times> 's \<Rightarrow> bool" where
  "identity_kept x y \<longleftrightarrow>
     ba_info (fst y) = ba_info (fst x) \<and>
     se_family (ba_session (fst y)) = se_family (ba_session (fst x)) \<and>
     se_capabilities (ba_session (fst y)) = se_capabilities (ba_session (fst x))"

definition same_identity :: "session \<Rightarrow> session \<Rightarrow> bool" where
  "same_identity se se' \<longleftrightarrow>
     se_family se' = se_family se \<and> se_capabilities se' = se_capabilities se"

lemma same_identity_trans: "same_identity a b \<Longrightarrow> same_identity b c \<Longrightarrow> same_identity a c"
  by (simp add: same_identity_def)

lemma execute_identity: "session_execute ops cmd q confirm se s = (r, se', s') \<Longrightarrow> same_identity se se'"
  using execute_effect [of ops cmd q confirm se s r se' s']
    execute_context [of ops cmd q confirm se s r se' s' XBPI]
  by (simp add: dispatch_effect_def command_context_def same_identity_def)

lemma cached_identity:
  assumes "cached_execute ops cmd q key confirm se s = (r, se', s')"
  shows "same_identity se se'"
proof (cases "CONFIG_COUNTER \<in> se_capabilities se")
  case False
  with assms execute_identity show ?thesis by (simp add: cached_execute_def)
next
  case True
  obtain c se1 s1 where c: "read_config_counter ops se s = (c, se1, s1)" by (metis prod_cases3)
  obtain z se2 s2 where z: "session_execute ops cmd q confirm se1 s1 = (z, se2, s2)"
    by (metis prod_cases3)
  have "same_identity se se1"
    using c by (auto simp: read_config_counter_def dest: execute_identity split: sum.splits prod.splits)
  moreover have "se' = se1 \<or> se' = se2 \<or> (\<exists>m. se' = se2\<lparr>se_result_cache := m\<rparr>)"
    using assms True c z
    by (auto simp: cached_execute_def Let_def split: sum.splits option.splits if_splits)
  ultimately show ?thesis using execute_identity [OF z] by (auto simp: same_identity_def)
qed

lemma other_ops_identity:
  "read_sbi_autoprint_reading ops ticks se s = (r2, se', s') \<Longrightarrow> same_identity se se'"
  "refresh_sbi_autoprint_state ops ticks se s = (r3, se', s') \<Longrightarrow> same_identity se se'"
  "execute_raw_sbi ops c confirm n se s = (r4, se', s') \<Longrightarrow> same_identity se se'"
  "execute_raw_xbpi ops opcode args confirm se s = (r5, se', s') \<Longrightarrow> same_identity se se'"
  by (auto simp: same_identity_def read_sbi_autoprint_reading_def refresh_sbi_autoprint_state_def
      execute_raw_sbi_def sbi_exchange_checked_def dest: raw_xbpi_keeps
      split: sum.splits prod.splits if_splits option.splits)

interpretation identity_kept: dispatch_relation ops True identity_kept for ops
  by unfold_locales
    (auto simp: identity_kept_def same_identity_def invalidate_cache_def set_dst_sbn_def
      dest: execute_identity cached_identity other_ops_identity split: option.split)

text \<open>
  \<open>identify\<close> records exactly what it returns, in the balance and in the session; when it fails,
  the record of the balance is as before.
\<close>

lemma bindE:
  assumes "b_bind m f b s = (r, b', s')"
  obtains e where "m b s = (Inl e, b', s')" "r = Inl e"
  | x b1 s1 where "m b s = (Inr x, b1, s1)" "f x b1 s1 = (r, b', s')"
  using assms by (auto simp: b_bind_def split: sum.splits prod.splits)

definition identity_recorded :: "DeviceInfo \<Rightarrow> balance \<Rightarrow> bool" where
  "identity_recorded i b \<longleftrightarrow>
     ba_info b = Some i \<and> di_family i = classify_family (di_model i) \<and>
     se_family (ba_session b) = di_family i \<and> se_capabilities (ba_session b) = di_capabilities i \<and>
     di_protocol i = se_active (ba_session b) \<and>
     FAMILY_DEFAULT_CAPABILITIES (di_family i) \<subseteq> di_capabilities i \<and>
     di_capabilities i \<subseteq> FAMILY_DEFAULT_CAPABILITIES (di_family i) \<union> {SBI_SUPPORT, CONFIG_COUNTER}"

lemma kept_info: "obeys identity_kept m \<Longrightarrow> m b s = (r, b', s') \<Longrightarrow> ba_info b' = ba_info b"
  by (drule (1) obeysD) (simp add: identity_kept_def)

lemma kept_read:
  "declared (bind_request cmd q) \<Longrightarrow> b_execute_as view ops cmd q b s = (r, b', s') \<Longrightarrow>
     ba_info b' = ba_info b"
  by (rule kept_info [OF identity_kept.obeys_execute_as])

lemma store_result:
  "b_bind (b_get g) (\<lambda>p. store_info (h p)) b s = (r, b', s') \<Longrightarrow>
     r = Inr (h (g b)) \<and> b' = b\<lparr>ba_info := Some (h (g b))\<rparr> \<and> s' = s"
  by (auto simp: b_bind_def b_get_def store_info_def b_update_def b_lift_def)

lemma identify_sbi_records:
  assumes "identify_sbi ops st b s = (r, b', s')"
  shows "case r of Inl e \<Rightarrow> ba_info b' = ba_info b
     | Inr i \<Rightarrow> identity_recorded i b' \<and> di_serial_settings i = st"
  using assms unfolding identify_sbi_def Let_def
  by (elim bindE)
    (auto dest!: kept_read [OF declared.intros(17)] kept_read [OF declared.intros(21)]
      kept_read [OF declared.intros(20)]
      simp: identity_recorded_def update_session_def b_update_def b_get_def store_info_def
        b_bind_def b_lift_def update_identity_def)

lemma probe_result:
  assumes "probe_dispatch_capabilities ops b s = (Inr c, b', s')"
  shows "c \<subseteq> {CONFIG_COUNTER}"
  using assms
  by (auto simp: probe_dispatch_capabilities_def without_warnings_def b_try_def b_lift_def
      b_bind_def b_get_def split: if_splits sum.splits prod.splits)

text \<open>A step that keeps the identity: either it fails, or the rest runs on an unchanged record.\<close>

lemma bind_kept:
  assumes "b_bind m f b s = (r, b', s')" and "obeys identity_kept m"
    and "\<And>x b1 s1. m b s = (Inr x, b1, s1) \<Longrightarrow> f x b1 s1 = (r, b', s') \<Longrightarrow> ba_info b1 = ba_info b \<Longrightarrow> P"
    and "\<And>e. r = Inl e \<Longrightarrow> ba_info b' = ba_info b \<Longrightarrow> P"
  shows P
  using assms(1)
  by (cases rule: bindE) (use assms(3,4) kept_info [OF assms(2)] in blast)+

lemma bind_update:
  "b_bind (update_session g) f b s = f () (b\<lparr>ba_session := g (ba_session b)\<rparr>) s"
  by (simp add: b_bind_def update_session_def b_update_def)

lemma identity_tail:
  assumes "b_bind (update_session (update_identity (Some f) (Some c) None)) (\<lambda>_.
       b_bind m (\<lambda>(cq, iq). b_bind (b_get (\<lambda>b. se_active (ba_session b))) (\<lambda>p. store_info (h cq iq p))))
       b s = (r, b', s')"
    and "obeys identity_kept m"
  shows "case r of Inl e \<Rightarrow> ba_info b' = ba_info b
     | Inr i \<Rightarrow> ba_info b' = Some i \<and> se_family (ba_session b') = f \<and>
         se_capabilities (ba_session b') = c \<and> (\<exists>cq iq. i = h cq iq (se_active (ba_session b')))"
proof -
  let ?b = "b\<lparr>ba_session := (ba_session b)\<lparr>se_family := f, se_capabilities := c\<rparr>\<rparr>"
  have "b_bind m (\<lambda>(cq, iq). b_bind (b_get (\<lambda>b. se_active (ba_session b)))
      (\<lambda>p. store_info (h cq iq p))) ?b s = (r, b', s')"
    using assms(1) by (simp add: bind_update update_identity_def)
  then show ?thesis
  proof (cases rule: bindE)
    case (1 e)
    with kept_info [OF assms(2) 1(1)] show ?thesis by simp
  next
    case (2 x b1 s1)
    obtain cq iq where x: "x = (cq, iq)" by fastforce
    have "identity_kept (?b, s) (b1, s1)" by (rule obeysD [OF assms(2) 2(1)])
    with store_result [OF 2(2) [unfolded x prod.case]] show ?thesis
      by (auto simp: identity_kept_def)
  qed
qed

lemma identify_xbpi_records:
  assumes "identify_xbpi ops st b s = (r, b', s')"
  shows "case r of Inl e \<Rightarrow> ba_info b' = ba_info b
     | Inr i \<Rightarrow> identity_recorded i b' \<and> di_serial_settings i = st"
  apply (rule bind_kept [OF assms [unfolded identify_xbpi_def Let_def]
        identity_kept.obeys_execute_as [OF declared.intros(17)]])
  apply (erule bind_kept [OF _ identity_kept.obeys_execute_as [OF declared.intros(18)]])
  apply (erule bind_kept [OF _ identity_kept.obeys_execute_as [OF declared.intros(20)]])
  apply (erule bind_kept [OF _ identity_kept.obeys_execute_as [OF declared.intros(21)]])
  apply (erule bind_kept [OF _ identity_kept.obeys_execute_as [OF declared.intros(22)]])
  apply (erule bind_kept [OF _ identity_kept.obeys_probe])
  apply (drule identity_tail)
  apply (intro identity_kept.obeys_without_warnings identity_kept.obeys_bind
        identity_kept.obeys_optional identity_kept.obeys_metrology identity_kept.obeys_lift)
  apply (drule probe_result)
  apply (cases r; simp)
   apply (clarsimp simp: identity_recorded_def)
   apply blast
  apply simp_all
  done

lemma identify_records:
  assumes "identify ops b s = (r, b', s')"
  shows "case r of Inl e \<Rightarrow> ba_info b' = ba_info b
     | Inr i \<Rightarrow> identity_recorded i b' \<and>
         di_serial_settings i = (case se_serial_settings (ba_session b) of
            None \<Rightarrow> placeholder_serial_settings | Some st \<Rightarrow> st)"
  using assms identify_sbi_records [of ops _ b s r b' s'] identify_xbpi_records [of ops _ b s r b' s']
  by (auto simp: identify_def b_bind_def b_get_def Let_def split: if_splits)


section \<open>Switching\<close>

text \<open>What every method but a switch keeps: the protocol, the clients and the port settings.\<close>

definition unswitched :: "balance \<times> 's \<Rightarrow> balance \<times> 's \<Rightarrow> bool" where
  "unswitched x y \<longleftrightarrow>
     session_frame (ba_session (fst x)) (ba_session (fst y)) \<and>
     ba_retired (fst y) = ba_retired (fst x)"

interpretation unswitched: balance_relation ops True unswitched for ops
  by unfold_locales
    (auto simp: unswitched_def intro: frame_trans dest: session_ops_frame)

text \<open>The new clients have just been made, so they are not retired.\<close>

definition fresh_clients :: "ProtocolKind \<Rightarrow> session \<Rightarrow> bool" where
  "fresh_clients target se \<longleftrightarrow>
     se_active se = target \<and>
     (if target = XBPI then se_xbpi se = Some XbpiProtocolClient \<and> se_sbi se = None
      else se_xbpi se = None \<and> map_option sc_disposed (se_sbi se) = Some False)"

definition switched ::
  "ProtocolKind \<Rightarrow> int option \<Rightarrow> string option \<Rightarrow> string option \<Rightarrow> balance \<Rightarrow> balance \<Rightarrow> bool" where
  "switched target p t u b b' \<longleftrightarrow>
     fresh_clients target (ba_session b') \<and>
     se_state (ba_session b') = se_state (ba_session b) \<and>
     se_serial_settings (ba_session b') =
       overlay_settings (se_serial_settings (ba_session b)) p t u \<and>
     ba_retired b' = ba_retired b @
       dispose_replaced_clients (se_xbpi (ba_session b)) (se_sbi (ba_session b))"

lemma make_clients_cases:
  assumes "make_clients ops target ticks s = (Inr (x, y), s')"
  shows "if target = XBPI then x = Some XbpiProtocolClient \<and> y = None
     else x = None \<and> map_option sc_disposed y = Some False"
  using assms detect_disposed [of ops 4 ticks SbiProtocolClient s]
  by (auto simp: make_clients_def SbiProtocolClient_def split: if_splits sum.splits prod.splits)

lemma switch_success:
  assumes "switch_clients ops target p t u ticks b s = (Inr v, b', s')"
  shows "switched target p t u b b'"
proof -
  let ?st = "overlay_settings (se_serial_settings (ba_session b)) p t u"
  from assms obtain s1 s2 x y se
    where m: "make_clients ops target ticks s1 = (Inr (x, y), s2)"
      and r: "replace_clients x y target ?st (ba_session b) = (Inr (), se)"
      and b': "b' = b\<lparr>ba_session := se, ba_retired := ba_retired b @
           dispose_replaced_clients (se_xbpi (ba_session b)) (se_sbi (ba_session b))\<rparr>"
    by (auto simp: switch_clients_def Let_def split: sum.splits prod.splits)
  have "?st = None \<Longrightarrow> se_serial_settings (ba_session b) = None"
    by (simp add: overlay_settings_def Let_def split: option.splits)
  with r have "se_xbpi se = x \<and> se_sbi se = y \<and> se_active se = target \<and>
      se_state se = se_state (ba_session b) \<and> se_serial_settings se = ?st"
    by (auto simp: replace_clients_def split: sum.splits option.splits)
  with make_clients_cases [OF m] b' show ?thesis
    by (auto simp: switched_def fresh_clients_def split: if_splits)
qed

lemma switch_failure:
  "switch_clients ops target p t u ticks b s = (Inl e, b', s') \<Longrightarrow> b' = b"
  by (auto simp: switch_clients_def Let_def replace_clients_def split: sum.splits prod.splits)

context framed_transport
begin

lemma framing_probe:
  "verify_identity_probe ops target x y src dst s = (r, s') \<Longrightarrow> framing s' = framing s"
  by (auto simp: verify_identity_probe_def Let_def dest: framing.R_xbpi_execute framing.R_sbi_execute
      split: if_splits option.splits sum.splits prod.splits)

lemma framing_make:
  "make_clients ops target ticks s = (r, s') \<Longrightarrow> framing s' = framing s"
  by (auto simp: make_clients_def dest: framing.R_detect_autoprint
      split: if_splits sum.splits prod.splits)

lemma framing_switch:
  assumes "switch_clients ops target p t u ticks b s = (r, b', s')"
  shows "framing s' = overlay p t u (framing s)"
proof -
  obtain w s1 where w: "tp_reopen ops p t u (tp_drain_input ops s) = (w, s1)" by fastforce
  obtain q s2 where q: "make_clients ops target ticks s1 = (q, s2)" by fastforce
  obtain z s3 where z: "verify_identity_probe ops target (fst (projr q)) (snd (projr q))
      (se_src_sbn (ba_session b)) (se_dst_sbn (ba_session b)) s2 = (z, s3)" by fastforce
  have "s' \<in> {s1, s2, s3}"
    using assms w q z
    by (auto simp: switch_clients_def Let_def split: sum.splits prod.splits if_splits)
  with framing_reopen [OF w] framing_make [OF q] framing_probe [OF z] framing_drain
  show ?thesis by auto
qed

end

end
