(* ===== verification/Facade.thy ===== *)
theory Facade
  imports Balance_Laws
begin

text \<open>
  Sequences of facade calls. An operation is a method with its arguments; a run applies
  operations one after the other, going on after an exception. The outcomes of
  \<open>configure_protocol\<close> and the invariants of runs are proved here for every transport; the
  properties over the serial port are in \<open>Balance_Props\<close>.
\<close>

datatype facade_op =
    FPoll nat | FReadNet nat int | FReadGross int | FReadTareValue | FTare | FZero | FStatus
  | FIdentify | FCapacity int | FIncrement int | FTemperature int | FDiscover int
  | FReadParameter int | FWriteParameter int int bool
  | FGetFilter | FGetUnit | FGetAutoZero | FGetIsocal | FGetTare | FGetMenu
  | FSetFilter mode_arg bool | FSetUnit display_unit_arg bool | FSetAutoZero mode_arg bool
  | FSetIsocal mode_arg bool | FSetTare mode_arg bool | FSetMenu mode_arg bool
  | FSaveMenu bool | FReloadMenu bool | FLastCal | FAdjust "int option" bool
  | FConfigure ProtocolKind "int option" "string option" "string option" nat bool
  | FSetBaud int int "string option" "string option" nat bool
  | FWriteSbn int bool bool
  | FRawXbpi int bytes bool | FRawSbi sbi_command bool int
  | FRefresh nat

abbreviation after :: "('s, 'a) bal \<Rightarrow> balance \<times> 's \<Rightarrow> balance \<times> 's" where
  "after m x \<equiv> snd (m (fst x) (snd x))"

fun facade_apply :: "'s transport_ops \<Rightarrow> facade_op \<Rightarrow> balance \<times> 's \<Rightarrow> balance \<times> 's" where
  "facade_apply ops (FPoll ticks) x = after (poll ops ticks) x"
| "facade_apply ops (FReadNet ticks h) x = after (read_net ops ticks h) x"
| "facade_apply ops (FReadGross h) x = after (read_gross ops h) x"
| "facade_apply ops FReadTareValue x = after (read_tare_value ops) x"
| "facade_apply ops FTare x = after (tare ops) x"
| "facade_apply ops FZero x = after (zero_balance ops) x"
| "facade_apply ops FStatus x = after (status ops) x"
| "facade_apply ops FIdentify x = after (identify ops) x"
| "facade_apply ops (FCapacity a) x = after (capacity ops a) x"
| "facade_apply ops (FIncrement a) x = after (increment ops a) x"
| "facade_apply ops (FTemperature n) x = after (temperature ops n) x"
| "facade_apply ops (FDiscover m) x = after (discover_temperature_sensors ops m) x"
| "facade_apply ops (FReadParameter i) x = after (read_parameter ops i) x"
| "facade_apply ops (FWriteParameter i v c) x = after (write_parameter ops i v c) x"
| "facade_apply ops FGetFilter x = after (get_filter_mode ops) x"
| "facade_apply ops FGetUnit x = after (get_display_unit ops) x"
| "facade_apply ops FGetAutoZero x = after (get_auto_zero ops) x"
| "facade_apply ops FGetIsocal x = after (get_isocal_mode ops) x"
| "facade_apply ops FGetTare x = after (get_tare_behavior ops) x"
| "facade_apply ops FGetMenu x = after (get_menu_access ops) x"
| "facade_apply ops (FSetFilter m c) x = after (set_filter_mode ops m c) x"
| "facade_apply ops (FSetUnit u c) x = after (set_display_unit ops u c) x"
| "facade_apply ops (FSetAutoZero m c) x = after (set_auto_zero ops m c) x"
| "facade_apply ops (FSetIsocal m c) x = after (set_isocal_mode ops m c) x"
| "facade_apply ops (FSetTare m c) x = after (set_tare_behavior ops m c) x"
| "facade_apply ops (FSetMenu m c) x = after (set_menu_access ops m c) x"
| "facade_apply ops (FSaveMenu c) x = after (save_menu ops c) x"
| "facade_apply ops (FReloadMenu c) x = after (reload_menu ops c) x"
| "facade_apply ops FLastCal x = after (last_cal_record ops) x"
| "facade_apply ops (FAdjust cal c) x = after (internal_adjust ops cal c) x"
| "facade_apply ops (FConfigure k p t u ticks c) x = after (configure_protocol ops k p t u ticks c) x"
| "facade_apply ops (FSetBaud w p t u ticks c) x = after (set_baud_rate ops w p t u ticks c) x"
| "facade_apply ops (FWriteSbn n upd c) x = after (write_sbn_address ops n upd c) x"
| "facade_apply ops (FRawXbpi opc args c) x = after (raw_xbpi ops opc args c) x"
| "facade_apply ops (FRawSbi cmd c n) x = after (raw_sbi ops cmd c n) x"
| "facade_apply ops (FRefresh ticks) x = after (b_refresh_autoprint ops ticks) x"

definition facade_run :: "'s transport_ops \<Rightarrow> facade_op list \<Rightarrow> balance \<times> 's \<Rightarrow> balance \<times> 's" where
  "facade_run ops qs x = fold (facade_apply ops) qs x"

lemma facade_run_simps [simp]:
  "facade_run ops [] x = x"
  "facade_run ops (q # qs) x = facade_run ops qs (facade_apply ops q x)"
  by (simp_all add: facade_run_def)

text \<open>Whether the caller passed \<open>confirm=True\<close>.\<close>

fun confirmed :: "facade_op \<Rightarrow> bool" where
  "confirmed (FWriteParameter i v c) = c"
| "confirmed (FSetFilter m c) = c"
| "confirmed (FSetUnit u c) = c"
| "confirmed (FSetAutoZero m c) = c"
| "confirmed (FSetIsocal m c) = c"
| "confirmed (FSetTare m c) = c"
| "confirmed (FSetMenu m c) = c"
| "confirmed (FSaveMenu c) = c"
| "confirmed (FReloadMenu c) = c"
| "confirmed (FAdjust cal c) = c"
| "confirmed (FConfigure k p t u ticks c) = c"
| "confirmed (FSetBaud w p t u ticks c) = c"
| "confirmed (FWriteSbn n upd c) = c"
| "confirmed (FRawXbpi opc args c) = c"
| "confirmed (FRawSbi cmd c n) = c"
| "confirmed _ = False"

fun switches :: "facade_op \<Rightarrow> bool" where
  "switches (FConfigure k p t u ticks c) = True"
| "switches (FSetBaud w p t u ticks c) = True"
| "switches _ = False"

lemma unconfirmed_switch:
  "\<not> c \<Longrightarrow> \<exists>e. configure_protocol ops k p t u ticks c b s = (Inl e, b, s)"
  "\<not> c \<Longrightarrow> \<exists>e. set_baud_rate ops w bd t u ticks c b s = (Inl e, b, s)"
  by (simp_all add: configure_protocol_def configure_guards_def set_baud_rate_def b_lift_def
      Let_def raise_ctx_def)

context balance_relation
begin

lemma obeys_typed:
  "obeys Q (get_filter_mode ops)" "obeys Q (get_display_unit ops)" "obeys Q (get_auto_zero ops)"
  "obeys Q (get_isocal_mode ops)" "obeys Q (get_tare_behavior ops)" "obeys Q (get_menu_access ops)"
  "(c \<longrightarrow> allow) \<Longrightarrow> obeys Q (set_filter_mode ops m c)"
  "(c \<longrightarrow> allow) \<Longrightarrow> obeys Q (set_display_unit ops u c)"
  "(c \<longrightarrow> allow) \<Longrightarrow> obeys Q (set_auto_zero ops m c)"
  "(c \<longrightarrow> allow) \<Longrightarrow> obeys Q (set_isocal_mode ops m c)"
  "(c \<longrightarrow> allow) \<Longrightarrow> obeys Q (set_tare_behavior ops m c)"
  "(c \<longrightarrow> allow) \<Longrightarrow> obeys Q (set_menu_access ops m c)"
  unfolding get_filter_mode_def get_display_unit_def get_auto_zero_def get_isocal_mode_def
    get_tare_behavior_def get_menu_access_def set_filter_mode_def set_display_unit_def
    set_auto_zero_def set_isocal_mode_def set_tare_behavior_def set_menu_access_def
  by (rule obeys_accessors; simp)+

lemmas obeys_methods =
  obeys_weights obeys_metrology obeys_discover obeys_identify obeys_parameters obeys_typed
  obeys_persistence obeys_write_sbn obeys_raw_xbpi obeys_raw_sbi obeys_refresh

lemma obeys_after: "obeys Q m \<Longrightarrow> Q (b, s) (snd (m b s))"
  by (simp add: obeys_def)

lemma switch_refused:
  "\<not> c \<Longrightarrow> Q (b, s) (snd (configure_protocol ops k p t u ticks c b s))"
  "\<not> c \<Longrightarrow> Q (b, s) (snd (set_baud_rate ops w bd t u ticks c b s))"
  using unconfirmed_switch [of c ops _ _ _ _ _ b s] Q_refl by (metis snd_conv)+

lemma apply_obeys:
  assumes "\<not> switches q \<or> \<not> confirmed q" "confirmed q \<longrightarrow> allow"
  shows "Q x (facade_apply ops q x)"
proof -
  obtain b s where x: "x = (b, s)" by fastforce
  show ?thesis unfolding x
    using assms
    by (cases q; simp; intro switch_refused obeys_after obeys_methods; simp)
qed

lemma run_obeys:
  "list_all (\<lambda>q. (\<not> switches q \<or> \<not> confirmed q) \<and> (confirmed q \<longrightarrow> allow)) qs \<Longrightarrow>
     Q x (facade_run ops qs x)"
proof (induction qs arbitrary: x)
  case (Cons q qs)
  then have "Q x (facade_apply ops q x)" by (auto intro: apply_obeys)
  with Cons Q_trans show ?case by auto
qed (simp add: Q_refl)

end

section \<open>Unconfirmed runs\<close>

text \<open>What a run without confirmation does: it sends harmless requests only.\<close>

sublocale transport \<subseteq> harmless: balance_relation ops False
  "\<lambda>x y. \<exists>ws. written (snd y) = written (snd x) @ ws \<and> list_all harmless ws"
proof (unfold_locales, goal_cases)
  case (2 x y z)
  then show ?case by (metis append.assoc list_all_append)
next
  case 3
  then show ?case by (auto dest: execute_harmless)
next
  case 4
  then show ?case by (auto dest: cached_harmless)
next
  case 5
  then show ?case by (auto dest: raw_xbpi_harmless)
next
  case 6
  then show ?case by (auto dest: raw_sbi_harmless)
next
  case 7
  then show ?case by (auto dest: lines_written)
next
  case 8
  then show ?case by (auto dest: lines_written)
qed auto

sublocale framed_transport \<subseteq> facade_framing: balance_relation ops True
  "\<lambda>x y. framing (snd y) = framing (snd x)"
  by unfold_locales
    (auto dest: framing.R_execute framing.R_cached framing.R_raw_xbpi framing.R_raw_sbi framing.R_lines)

section \<open>Outcomes of a switch\<close>

definition broken_balance :: "balance \<Rightarrow> balance" where
  "broken_balance b = b\<lparr>ba_session := mark_broken (ba_session b)\<rparr>"

text \<open>The port is left as the session believes it to be.\<close>

definition port_known :: "('s \<Rightarrow> framing) \<Rightarrow> balance \<Rightarrow> 's \<Rightarrow> bool" where
  "port_known framing_of b s \<longleftrightarrow>
     (case se_serial_settings (ba_session b) of
        None \<Rightarrow> True | Some st \<Rightarrow> settings_framing st = framing_of s)"

lemma overlay_framing:
  "overlay_settings (Some st) p t u = Some st' \<Longrightarrow>
     settings_framing st' = overlay p t u (settings_framing st)"
  by (auto simp: overlay_settings_def settings_framing_def Let_def split: option.splits)

lemma overlay_None [simp]: "overlay_settings None p t u = None"
  by (simp add: overlay_settings_def)

lemma overlay_Some: "\<exists>st'. overlay_settings (Some st) p t u = Some st'"
  by (simp add: overlay_settings_def Let_def split: option.split)

context framed_transport
begin

lemma configure_guards_cases:
  assumes "configure_guards ops k p t u confirm b s = (q, b1, s1)"
  obtains e where "q = Inl e" "b1 = b" "s1 = s"
  | "q \<noteq> Inr None" "k = se_active (ba_session b)" "p = None" "t = None" "u = None"
      "unswitched (b, s) (b1, s1)" "framing s1 = framing s"
  | "q = Inr None" "b1 = b" "s1 = s" "k \<noteq> AUTO" "confirm" "se_state (ba_session b) = OPERATIONAL"
proof -
  obtain r b2 s2 where i: "identify ops b s = (r, b2, s2)" by (metis prod_cases3)
  have keep: "unswitched (b, s) (b2, s2)" "framing s2 = framing s"
    using obeysD [OF unswitched.obeys_identify i] obeysD [OF facade_framing.obeys_identify i] by simp_all
  have refl: "unswitched (b, s) (b, s)" by (rule unswitched.Q_refl)
  have q: "(\<exists>e. q = Inl e) \<and> b1 = b \<and> s1 = s \<or>
      q \<noteq> Inr None \<and> k = se_active (ba_session b) \<and> p = None \<and> t = None \<and> u = None \<and>
        (b1 = b \<and> s1 = s \<or> b1 = b2 \<and> s1 = s2) \<or>
      q = Inr None \<and> b1 = b \<and> s1 = s \<and> k \<noteq> AUTO \<and> confirm \<and>
        se_state (ba_session b) = OPERATIONAL"
    using assms i SessionState.exhaust [of "se_state (ba_session b)"]
    by (auto simp: configure_guards_def Let_def raise_ctx_def check_state_def
        split: if_splits option.splits sum.splits prod.splits)
  from q show thesis using that keep refl by blast
qed

text \<open>
  A call of \<open>configure_protocol\<close> ends in one of four ways: refused without any effect; nothing
  to change; switched, with what \<open>identify\<close> then says; or rolled back, and when even that is
  impossible, broken.
\<close>

lemma configure_outcomes:
  assumes "configure_protocol ops k p t u ticks confirm b s = (r, b', s')"
  obtains (refused) "\<not> is_ok r" "b' = b" "s' = s"
  | (unchanged) "k = se_active (ba_session b)" "p = None" "t = None" "u = None"
      "unswitched (b, s) (b', s')" "framing s' = framing s"
  | (switched) b2 s2 where "switched k p t u b b2" "framing s2 = overlay p t u (framing s)"
      "identify ops b2 s2 = (r, b', s')" "unswitched (b2, s2) (b', s')" "framing s' = framing s2"
  | (restored) st where "\<not> is_ok r" "b' = b" "se_serial_settings (ba_session b) = Some st"
      "framing s' = settings_framing st"
  | (broken) "\<not> is_ok r" "b' = broken_balance b"
      "se_serial_settings (ba_session b) \<noteq> None \<longrightarrow> fails_with SartoriusConnectionError r"
proof -
  obtain q b1 s1 where g: "configure_guards ops k p t u confirm b s = (q, b1, s1)"
    by (metis prod_cases3)
  then show thesis
  proof (cases rule: configure_guards_cases)
    case 1
    with assms g refused show thesis by (auto simp: configure_protocol_def)
  next
    case 2
    with assms g have "b' = b1 \<and> s' = s1"
      by (auto simp: configure_protocol_def split: sum.splits option.splits)
    with 2 unchanged show thesis by blast
  next
    case 3
    obtain w b2 s2 where w: "switch_clients ops k p t u ticks b s = (w, b2, s2)"
      by (metis prod_cases3)
    note f = framing_switch [OF w]
    show thesis
    proof (cases w)
      case (Inr v)
      with assms g 3 w have i: "identify ops b2 s2 = (r, b', s')"
        by (simp add: configure_protocol_def)
      have "unswitched (b2, s2) (b', s')" "framing s' = framing s2"
        using obeysD [OF unswitched.obeys_identify i] obeysD [OF facade_framing.obeys_identify i]
        by simp_all
      with switched [OF _ f i] switch_success [OF w [unfolded Inr]] show thesis by blast
    next
      case (Inl e)
      with assms g 3 w switch_failure [OF w [unfolded Inl]]
      have rb: "rollback_configure_protocol ops (se_serial_settings (ba_session b)) k e b s2 = (r, b', s')"
        by (simp add: configure_protocol_def)
      show thesis
      proof (cases "se_serial_settings (ba_session b)")
        case None
        with rb broken show thesis
          by (auto simp: rollback_configure_protocol_def broken_balance_def)
      next
        case (Some st)
        obtain v s3 where v: "tp_reopen ops (Some (ss_baudrate st)) (Some (ss_parity st))
            (Some (ss_stopbits st)) s2 = (v, s3)" by fastforce
        have "framing s3 = settings_framing st"
          using framing_reopen [OF v] by (cases "framing s2") (simp add: settings_framing_def)
        with rb Some v restored [of st] broken show thesis
          by (cases v)
            (auto simp: rollback_configure_protocol_def broken_balance_def raise_ctx_def subclass_simps)
      qed
    qed
  qed
qed

lemma configure_port_known:
  assumes "configure_protocol ops k p t u ticks confirm b s = (r, b', s')"
    and "port_known framing b s"
  shows "port_known framing b' s' \<or> se_state (ba_session b') = BROKEN"
  using assms(1)
proof (cases rule: configure_outcomes)
  case unchanged
  with assms(2) show ?thesis
    by (simp add: port_known_def unswitched_def session_frame_def split: option.splits)
next
  case (switched b2 s2)
  then have "se_serial_settings (ba_session b') =
      overlay_settings (se_serial_settings (ba_session b)) p t u"
    by (simp add: unswitched_def session_frame_def switched_def)
  with switched assms(2) overlay_framing show ?thesis
    by (auto simp: port_known_def split: option.splits)
qed (use assms(2) in \<open>simp_all add: port_known_def broken_balance_def mark_broken_def\<close>)

lemma set_baud_cases:
  assumes "set_baud_rate ops w bd t u ticks confirm b s = (r, b', s')"
  obtains "\<not> is_ok r" "unswitched (b, s) (b', s')" "framing s' = framing s"
  | b1 s1 where "unswitched (b, s) (b1, s1)" "framing s1 = framing s"
      "configure_protocol ops XBPI (Some bd) t u ticks True b1 s1 = (r, b', s')"
proof -
  let ?m = "b_try (raw_u8 ops 0x5C w) (\<lambda>_. b_lift (Inr ())) (b_lift (Inr ()))"
  obtain q b1 s1 where q: "?m b s = (q, b1, s1)" by (metis prod_cases3)
  have o: "obeys unswitched ?m" "obeys (\<lambda>x y. framing (snd y) = framing (snd x)) ?m"
    unfolding raw_u8_def
    by (intro unswitched.obeys_intros; simp) (intro facade_framing.obeys_intros; simp)
  note keep = obeysD [OF o(1) q] obeysD [OF o(2) q]
  have "(\<not> is_ok r \<and> b' = b \<and> s' = s) \<or> (\<not> is_ok r \<and> b' = b1 \<and> s' = s1) \<or>
      configure_protocol ops XBPI (Some bd) t u ticks True b1 s1 = (r, b', s')"
    using assms q
    by (auto simp: set_baud_rate_def b_bind_def b_get_def b_lift_def raise_ctx_def
        split: if_splits sum.splits prod.splits)
  with that keep unswitched.Q_refl show thesis by fastforce
qed

text \<open>Along every run, the session knows the framing of the port unless it is broken.\<close>

lemma unswitched_port_known:
  "unswitched (b, s) (b', s') \<Longrightarrow> framing s' = framing s \<Longrightarrow>
     port_known framing b s \<or> se_state (ba_session b) = BROKEN \<Longrightarrow>
     port_known framing b' s' \<or> se_state (ba_session b') = BROKEN"
  by (auto simp: port_known_def unswitched_def session_frame_def split: option.splits)

lemma configure_broken:
  assumes "configure_protocol ops k p t u ticks confirm b s = (r, b', s')"
    and "se_state (ba_session b) = BROKEN"
  shows "se_state (ba_session b') = BROKEN"
  using assms(1)
  by (cases rule: configure_outcomes)
    (use assms(2) in \<open>simp_all add: unswitched_def session_frame_def switched_def
      broken_balance_def mark_broken_def\<close>)

lemma configure_known_or_broken:
  assumes "configure_protocol ops k p t u ticks confirm b s = (r, b', s')"
    and "port_known framing b s \<or> se_state (ba_session b) = BROKEN"
  shows "port_known framing b' s' \<or> se_state (ba_session b') = BROKEN"
  using configure_port_known [OF assms(1)] configure_broken [OF assms(1)] assms(2) by blast

lemma apply_port_known:
  assumes "facade_apply ops q (b, s) = (b', s')"
    and "port_known framing b s \<or> se_state (ba_session b) = BROKEN"
  shows "port_known framing b' s' \<or> se_state (ba_session b') = BROKEN"
proof (cases "switches q")
  case False
  from unswitched.apply_obeys [of q "(b, s)" ops] facade_framing.apply_obeys [of q "(b, s)"]
    False assms unswitched_port_known
  show ?thesis by fastforce
next
  case True
  then consider k p t u n c where "q = FConfigure k p t u n c"
    | w bd t u n c where "q = FSetBaud w bd t u n c"
    by (cases q) auto
  then show ?thesis
  proof cases
    case 1
    with assms(1) obtain r where "configure_protocol ops k p t u n c b s = (r, b', s')"
      by (metis facade_apply.simps(31) fst_conv prod.collapse snd_conv)
    from configure_known_or_broken [OF this assms(2)] show ?thesis .
  next
    case 2
    with assms(1) obtain r where "set_baud_rate ops w bd t u n c b s = (r, b', s')"
      by (metis facade_apply.simps(32) fst_conv prod.collapse snd_conv)
    then show ?thesis
    proof (cases rule: set_baud_cases)
      case 1
      from unswitched_port_known [OF 1(2,3) assms(2)] show ?thesis .
    next
      case (2 b1 s1)
      from configure_known_or_broken [OF 2(3) unswitched_port_known [OF 2(1,2) assms(2)]]
      show ?thesis .
    qed
  qed
qed

lemma run_port_known:
  "facade_run ops qs x = y \<Longrightarrow>
     port_known framing (fst x) (snd x) \<or> se_state (ba_session (fst x)) = BROKEN \<Longrightarrow>
     port_known framing (fst y) (snd y) \<or> se_state (ba_session (fst y)) = BROKEN"
proof (induction qs arbitrary: x)
  case (Cons q qs)
  obtain b s where x: "x = (b, s)" by fastforce
  obtain b1 s1 where q: "facade_apply ops q (b, s) = (b1, s1)" by fastforce
  from Cons.IH [of "(b1, s1)"] apply_port_known [OF q] Cons.prems x q show ?case by simp
qed simp

end

end
