(* ===== verification/Factory.thy ===== *)
theory Factory
  imports Facade Detect
begin

text \<open>
  \<open>devices/factory.py\<close>: opening a device. The constructor of the transport class is the argument
  \<open>connect\<close>: from the settings it makes a transport that is not open yet. \<open>ticks\<close> counts the
  checks of the one sniffing loop an open may run, the back-off between the attempts is not
  modelled. What a failed open leaves behind is the final state of the transport, if one was
  made at all.
\<close>

datatype 's port_arg = PortPath string | PreBuilt 's

record open_options =
  oo_protocol :: ProtocolKind
  oo_settings :: "SerialSettings option"
  oo_src_sbn :: int
  oo_dst_sbn :: int
  oo_strict :: bool
  oo_identify :: bool

definition default_open_options :: open_options where
  "default_open_options =
     \<lparr>oo_protocol = XBPI, oo_settings = None, oo_src_sbn = 1, oo_dst_sbn = 9, oo_strict = False,
      oo_identify = True\<rparr>"

section \<open>Opening\<close>

definition COLD_OPEN_MAX_RETRIES :: nat where "COLD_OPEN_MAX_RETRIES = 3"

definition resolve_transport ::
  "'s transport_ops \<Rightarrow> (SerialSettings \<Rightarrow> 's) \<Rightarrow> 's port_arg \<Rightarrow> SerialSettings option \<Rightarrow>
   ('s \<times> SerialSettings) res" where
  "resolve_transport ops connect port serial_settings =
     (case port of
        PortPath path \<Rightarrow>
          let settings = (case serial_settings of None \<Rightarrow> default_settings path | Some st \<Rightarrow> st)
          in if ss_port settings \<noteq> path
             then raise_ctx SartoriusValidationError
                    (extra [(''port'', XStr path), (''settings_port'', XStr (ss_port settings))])
             else Inr (connect settings, settings)
      | PreBuilt t \<Rightarrow>
          Inr (t, case serial_settings of None \<Rightarrow> default_settings (tp_label ops t) | Some st \<Rightarrow> st))"

definition resolve_protocol ::
  "'s transport_ops \<Rightarrow> ProtocolKind \<Rightarrow> nat \<Rightarrow> int \<Rightarrow> int \<Rightarrow> 's \<Rightarrow>
   (ProtocolKind \<times> DetectionResult option) res \<times> 's" where
  "resolve_protocol ops protocol ticks src_sbn dst_sbn s =
     (if protocol \<noteq> AUTO then (Inr (protocol, None), s)
      else case detect_protocol ops ticks src_sbn dst_sbn s of
             (Inl e, s') \<Rightarrow> (Inl e, s')
           | (Inr detection, s') \<Rightarrow> (Inr (dr_protocol detection, Some detection), s'))"

definition build_clients :: "ProtocolKind \<Rightarrow> (xbpi_client option \<times> sbi_client option) res" where
  "build_clients protocol =
     (if protocol = XBPI then Inr (Some XbpiProtocolClient, None)
      else if protocol = SBI then Inr (None, Some SbiProtocolClient)
      else raise_ctx SartoriusError (extra [(''protocol'', XStr (protocol_value protocol))]))"

definition prime_sbi_autoprint_state ::
  "'s transport_ops \<Rightarrow> DetectionResult option \<Rightarrow> nat \<Rightarrow> sbi_client \<Rightarrow> 's \<Rightarrow>
   unit res \<times> sbi_client \<times> 's" where
  "prime_sbi_autoprint_state ops detection ticks c s =
     (case detection of
        None \<Rightarrow>
          (case detect_autoprint ops 4 ticks c s of
             (Inl e, c', s') \<Rightarrow> (Inl e, c', s') | (Inr _, c', s') \<Rightarrow> (Inr (), c', s'))
      | Some d \<Rightarrow>
          (Inr (),
           if dr_autoprint_active d
           then fold (\<lambda>line c. mark_autoprint_active (Some line) c) (dr_pending_lines d) c else c, s))"

text \<open>The attempts to identify: \<open>left\<close> more may follow this one.\<close>

fun cold_open_loop :: "'s transport_ops \<Rightarrow> nat \<Rightarrow> ('s, unit) bal" where
  "cold_open_loop ops left b s =
     (case identify ops b s of
        (Inr _, b', s') \<Rightarrow> (Inr (), b', s')
      | (Inl e, b', s') \<Rightarrow>
          if exn_is e SartoriusTransientTransportError
          then let b' = b'\<lparr>ba_session := record_recoverable_error (ba_session b')\<rparr>
               in (case left of
                     Suc again \<Rightarrow> cold_open_loop ops again b' s'
                   | 0 \<Rightarrow>
                       (raise_ctx SartoriusConnectionError
                          ([SetCommandName (Some ''open_device.identify''),
                            SetPort (map_option ss_port (se_serial_settings (ba_session b')))] @
                           extra [(''cold_open_attempts'', XInt (int COLD_OPEN_MAX_RETRIES))]),
                        b', s'))
          else (Inl e, b', s'))"

declare cold_open_loop.simps [simp del]

definition identify_with_cold_open_retry :: "'s transport_ops \<Rightarrow> ('s, unit) bal" where
  "identify_with_cold_open_retry ops = cold_open_loop ops COLD_OPEN_MAX_RETRIES"

text \<open>The body of the \<open>try\<close> block: everything after the port is open.\<close>

definition open_balance ::
  "'s transport_ops \<Rightarrow> open_options \<Rightarrow> SerialSettings \<Rightarrow> nat \<Rightarrow> 's \<Rightarrow> balance res \<times> 's" where
  "open_balance ops opts settings ticks s =
     (case resolve_protocol ops (oo_protocol opts) ticks (oo_src_sbn opts) (oo_dst_sbn opts) s of
        (Inl e, s1) \<Rightarrow> (Inl e, s1)
      | (Inr (resolved, detection), s1) \<Rightarrow>
     (case build_clients resolved of
        Inl e \<Rightarrow> (Inl e, s1)
      | Inr (xbpi, sbi) \<Rightarrow>
     (case (case sbi of
              None \<Rightarrow> (Inr (), None, s1)
            | Some c \<Rightarrow>
                (case prime_sbi_autoprint_state ops detection ticks c s1 of
                   (r, c', s2) \<Rightarrow> (r, Some c', s2))) of
        (Inl e, _, s2) \<Rightarrow> (Inl e, s2)
      | (Inr _, sbi', s2) \<Rightarrow>
     (case Session xbpi sbi' resolved FAMILY_UNKNOWN NO_CAPABILITY None (oo_src_sbn opts)
             (oo_dst_sbn opts) (oo_strict opts) (Some settings) of
        Inl e \<Rightarrow> (Inl e, s2)
      | Inr session \<Rightarrow>
          if oo_identify opts \<and> sbi_autoprint_active session
          then (raise_ctx SartoriusAutoprintActiveError
                  ([SetCommandName (Some ''identify''), SetProtocol (Some ''sbi'')] @
                   extra [(''autoprint_active'', XBool True)]), s2)
          else if oo_identify opts
          then (case identify_with_cold_open_retry ops (Balance session None) s2 of
                  (Inl e, _, s3) \<Rightarrow> (Inl e, s3) | (Inr _, b, s3) \<Rightarrow> (Inr b, s3))
          else (Inr (Balance session None), s2)))))"

definition open_device ::
  "'s transport_ops \<Rightarrow> (SerialSettings \<Rightarrow> 's) \<Rightarrow> 's port_arg \<Rightarrow> open_options \<Rightarrow> nat \<Rightarrow>
   balance res \<times> 's option" where
  "open_device ops connect port opts ticks =
     (case resolve_transport ops connect port (oo_settings opts) of
        Inl e \<Rightarrow> (Inl e, None)
      | Inr (s, settings) \<Rightarrow>
     (case (if tp_is_open ops s then (Inr (), s) else tp_open ops s) of
        (Inl e, s1) \<Rightarrow> (Inl e, Some s1)
      | (Inr _, s1) \<Rightarrow>
     (case open_balance ops opts settings ticks s1 of
        (Inl e, s2) \<Rightarrow> (Inl e, Some (tp_close ops s2))
      | (Inr b, s2) \<Rightarrow> (Inr b, Some s2))))"

section \<open>The attempts to identify\<close>

text \<open>The state after \<open>k\<close> attempts that all ended in a transient error.\<close>

fun transients :: "'s transport_ops \<Rightarrow> nat \<Rightarrow> balance \<times> 's \<Rightarrow> (balance \<times> 's) option" where
  "transients ops 0 x = Some x"
| "transients ops (Suc k) (b, s) =
     (case identify ops b s of
        (Inl e, b', s') \<Rightarrow>
          if exn_is e SartoriusTransientTransportError
          then transients ops k (b'\<lparr>ba_session := record_recoverable_error (ba_session b')\<rparr>, s')
          else None
      | (Inr i, b', s') \<Rightarrow> None)"

lemma cold_open_cases:
  assumes "cold_open_loop ops left b s = (r, b', s')"
  obtains (settled) k b1 s1 q where "k \<le> left" "transients ops k (b, s) = Some (b1, s1)"
      "identify ops b1 s1 = (q, b', s')" "\<not> fails_with SartoriusTransientTransportError q"
      "r = res_bind q (\<lambda>_. Inr ())"
  | (exhausted) "transients ops (Suc left) (b, s) = Some (b', s')"
      "fails_with SartoriusConnectionError r"
  using assms
proof (induction left arbitrary: b s thesis)
  case 0
  obtain q b1 s1 where i: "identify ops b s = (q, b1, s1)" by (metis prod_cases3)
  show ?case
  proof (cases "fails_with SartoriusTransientTransportError q")
    case True
    with 0(2,3) i show ?thesis
      by (cases q) (auto simp: cold_open_loop.simps Let_def raise_ctx_def subclass_simps)
  next
    case False
    with 0(1) [of 0 b s q] 0(3) i show ?thesis
      by (cases q) (auto simp: cold_open_loop.simps Let_def res_bind_def)
  qed
next
  case (Suc left)
  obtain q b1 s1 where i: "identify ops b s = (q, b1, s1)" by (metis prod_cases3)
  show ?case
  proof (cases "fails_with SartoriusTransientTransportError q")
    case True
    let ?b = "b1\<lparr>ba_session := record_recoverable_error (ba_session b1)\<rparr>"
    from True i Suc.prems(3) have l: "cold_open_loop ops left ?b s1 = (r, b', s')"
      and t: "transients ops (Suc k) (b, s) = transients ops k (?b, s1)" for k
      by (cases q; auto simp: cold_open_loop.simps [of _ "Suc left"] Let_def)+
    show ?thesis
    proof (rule Suc.IH [OF _ _ l])
      fix k b2 s2 q'
      assume "k \<le> left" "transients ops k (?b, s1) = Some (b2, s2)"
        "identify ops b2 s2 = (q', b', s')" "\<not> fails_with SartoriusTransientTransportError q'"
        "r = res_bind q' (\<lambda>_. Inr ())"
      with Suc.prems(1) [of "Suc k" b2 s2 q'] t show ?thesis by simp
    next
      assume "transients ops (Suc left) (?b, s1) = Some (b', s')"
        "fails_with SartoriusConnectionError r"
      with Suc.prems(2) t [of "Suc left"] show ?thesis by simp
    qed
  next
    case False
    with Suc.prems(1) [of 0 b s q] Suc.prems(3) i show ?thesis
      by (cases q) (auto simp: cold_open_loop.simps Let_def res_bind_def)
  qed
qed

text \<open>What the retries leave of the balance: all but the count of recoverable errors.\<close>

definition retried :: "nat \<Rightarrow> balance \<Rightarrow> balance \<Rightarrow> bool" where
  "retried k b b' \<longleftrightarrow>
     session_frame ((ba_session b)\<lparr>se_recoverable_error_count :=
       se_recoverable_error_count (ba_session b) + int k\<rparr>) (ba_session b') \<and>
     ba_retired b' = ba_retired b"

lemma identify_retried: "identify ops b s = (q, b', s') \<Longrightarrow> retried 0 b b'"
  by (drule obeysD [OF unswitched.obeys_identify]) (simp add: unswitched_def retried_def)

lemma transients_retried:
  "transients ops k (b, s) = Some (b', s') \<Longrightarrow> retried k b b'"
proof (induction k arbitrary: b s)
  case (Suc k)
  obtain q b1 s1 where i: "identify ops b s = (q, b1, s1)" by (metis prod_cases3)
  let ?b = "b1\<lparr>ba_session := record_recoverable_error (ba_session b1)\<rparr>"
  from Suc.prems i have "transients ops k (?b, s1) = Some (b', s')"
    by (auto split: sum.splits if_splits)
  from Suc.IH [OF this] identify_retried [OF i] show ?case
    by (simp add: retried_def session_frame_def record_recoverable_error_def)
qed (simp add: retried_def)

lemma cold_open_retried:
  assumes "cold_open_loop ops left b s = (r, b', s')"
  shows "\<exists>k \<le> Suc left. retried k b b' \<and> (is_ok r \<longrightarrow> k \<le> left)"
  using assms
proof (cases rule: cold_open_cases)
  case (settled k b1 s1 q)
  with transients_retried [OF settled(2)] identify_retried [OF settled(3)] show ?thesis
    by (intro exI [where x = k]) (simp add: retried_def session_frame_def)
next
  case exhausted
  with transients_retried [OF exhausted(1)] show ?thesis
    by (intro exI [where x = "Suc left"]) (cases r; simp)
qed

text \<open>A preorder that the methods and the count of retries respect is respected by the loop.\<close>

locale retry_relation = balance_relation +
  assumes Q_retry: "Q (b, s) (b\<lparr>ba_session := record_recoverable_error (ba_session b)\<rparr>, s)"
begin

lemma Q_transients: "transients ops k x = Some y \<Longrightarrow> Q x y"
proof (induction k arbitrary: x)
  case (Suc k)
  obtain b s where x: "x = (b, s)" by fastforce
  obtain q b1 s1 where i: "identify ops b s = (q, b1, s1)" by (metis prod_cases3)
  from Suc.prems x i
  have "transients ops k (b1\<lparr>ba_session := record_recoverable_error (ba_session b1)\<rparr>, s1) = Some y"
    by (auto split: sum.splits if_splits)
  from Q_trans [OF Q_trans [OF obeysD [OF obeys_identify i] Q_retry] Suc.IH [OF this]] x
  show ?case by simp
qed (simp add: Q_refl)

lemma obeys_cold_open: "obeys Q (cold_open_loop ops left)"
  unfolding obeys_def
proof (intro allI)
  fix b s
  obtain r b' s' where l: "cold_open_loop ops left b s = (r, b', s')" by (metis prod_cases3)
  then have "Q (b, s) (b', s')"
  proof (cases rule: cold_open_cases)
    case (settled k b1 s1 q)
    from Q_trans [OF Q_transients [OF settled(2)] obeysD [OF obeys_identify settled(3)]] show ?thesis .
  next
    case exhausted
    from Q_transients [OF exhausted(1)] show ?thesis .
  qed
  with l show "Q (b, s) (snd (cold_open_loop ops left b s))" by simp
qed

end

text \<open>
  What detection, sniffing and the attempts to identify respect, a whole open respects. Two
  instances: relations that reading and writing respect, and what may be written.
\<close>

locale opening_relation =
  fixes ops :: "'s transport_ops" and P :: "'s \<Rightarrow> 's \<Rightarrow> bool"
  assumes P_refl: "P s s"
    and P_trans: "P x y \<Longrightarrow> P y z \<Longrightarrow> P x z"
    and P_detect: "detect_protocol ops ticks src dst s = (d, s') \<Longrightarrow> P s s'"
    and P_autoprint: "detect_autoprint ops m ticks c s = (u, c', s') \<Longrightarrow> P s s'"
    and P_cold: "cold_open_loop ops left b s = (r, b', s') \<Longrightarrow> P s s'"
begin

lemma P_open_balance:
  assumes "open_balance ops opts settings ticks s = (r, s')"
  shows "P s s'"
proof -
  obtain q s1 where q: "resolve_protocol ops (oo_protocol opts) ticks (oo_src_sbn opts)
      (oo_dst_sbn opts) s = (q, s1)" by fastforce
  have P1: "P s s1"
    using q by (auto simp: resolve_protocol_def P_refl dest: P_detect split: if_splits sum.splits prod.splits)
  have prime: "prime_sbi_autoprint_state ops d ticks c a = (u, c', a') \<Longrightarrow> P a a'" for d c a u c' a'
    by (auto simp: prime_sbi_autoprint_state_def P_refl dest: P_autoprint
        split: option.splits sum.splits prod.splits)
  have cold: "identify_with_cold_open_retry ops b a = (u, b', a') \<Longrightarrow> P a a'" for b a u b' a'
    unfolding identify_with_cold_open_retry_def by (rule P_cold)
  consider "s' = s1" | d c u c' where "prime_sbi_autoprint_state ops d ticks c s1 = (u, c', s')"
    | d c u c' s2 b v b' where "prime_sbi_autoprint_state ops d ticks c s1 = (u, c', s2)"
        "identify_with_cold_open_retry ops b s2 = (v, b', s')"
    | b v b' where "identify_with_cold_open_retry ops b s1 = (v, b', s')"
    using assms q
    by (auto simp: open_balance_def split: sum.splits prod.splits option.splits if_splits)
  then show ?thesis
  proof cases
    case 1
    with P1 show ?thesis by simp
  next
    case 2
    from P_trans [OF P1 prime [OF this]] show ?thesis .
  next
    case 3
    from P_trans [OF P1 P_trans [OF prime [OF 3(1)] cold [OF 3(2)]]] show ?thesis .
  next
    case 4
    from P_trans [OF P1 cold [OF this]] show ?thesis .
  qed
qed

end

section \<open>What reading and writing cannot change\<close>

context io_relation
begin

lemma R_probe_xbpi:
  assumes "probe_xbpi ops src dst s = (r, s')"
  shows "R s s'"
proof (cases "build_command XBPI_PROBE_OPCODE [] src dst")
  case (Inl e)
  with assms show ?thesis by (simp add: probe_xbpi_def R_refl)
next
  case (Inr req)
  obtain w s1 where w: "tp_write ops req s = (w, s1)" by fastforce
  obtain q s2 where q: "tp_read_exact ops 1 s1 = (q, s2)" by fastforce
  obtain z s3 where z: "tp_read_exact ops (unat (projr q ! 0)) s2 = (z, s3)" by fastforce
  have "s' \<in> {s1, s2, s3}"
    using assms Inr w q z by (auto simp: probe_xbpi_def Let_def split: sum.splits if_splits)
  moreover note R1 = R_write [OF w]
  moreover note R2 = R_trans [OF R1 R_read_exact [OF q]]
  moreover note R_trans [OF R2 R_read_exact [OF z]]
  ultimately show ?thesis by auto
qed

lemma R_sniff: "sniff_for_autoprint ops t s = (r, s') \<Longrightarrow> R s s'"
proof (induction t arbitrary: s)
  case (Suc t)
  obtain q s1 where q: "tp_read_until ops LINE_TERMINATOR s = (q, s1)" by fastforce
  have "s' = s1 \<or> sniff_for_autoprint ops t s1 = (r, s')"
    using Suc.prems q by (auto split: sum.splits if_splits)
  with R_read_until [OF q] Suc.IH R_trans show ?case by blast
qed (simp add: R_refl)

lemma R_probe_sbi: "probe_sbi_tokens ops toks s = (r, s') \<Longrightarrow> R s s'"
proof (induction toks arbitrary: s)
  case (Cons tok toks)
  obtain w s1 where w: "tp_write ops tok s = (w, s1)" by fastforce
  obtain q s2 where q: "tp_read_until ops LINE_TERMINATOR s1 = (q, s2)" by fastforce
  have "s' \<in> {s1, s2} \<or> probe_sbi_tokens ops toks (tp_drain_input ops s1) = (r, s') \<or>
      probe_sbi_tokens ops toks (tp_drain_input ops s2) = (r, s')"
    using Cons.prems w q by (auto simp: Let_def split: sum.splits if_splits)
  moreover have R1: "R s s1" and R2: "R s s2"
    by (rule R_write [OF w]) (rule R_trans [OF R_write [OF w] R_read_until [OF q]])
  moreover have "R s s'" if "probe_sbi_tokens ops toks (tp_drain_input ops s0) = (r, s')" "R s s0" for s0
    by (rule R_trans [OF that(2) R_trans [OF R_drain Cons.IH [OF that(1)]]])
  ultimately show ?case by auto
qed (simp add: R_refl)

lemma R_detect:
  assumes "detect_protocol ops ticks src dst s = (r, s')"
  shows "R s s'"
proof -
  obtain q s1 where q: "sniff_for_autoprint ops ticks s = (q, s1)" by fastforce
  obtain x s2 where x: "probe_xbpi ops src dst (tp_drain_input ops s1) = (x, s2)" by fastforce
  obtain y s3 where y: "probe_sbi ops (tp_drain_input ops s2) = (y, s3)" by fastforce
  have "s' \<in> {s1, s2, s3}"
    using assms q x y
    by (auto simp: detect_protocol_def split: sum.splits prod.splits if_splits bool.splits)
  moreover note R1 = R_sniff [OF q]
  moreover note R2 = R_trans [OF R1 R_trans [OF R_drain R_probe_xbpi [OF x]]]
  moreover note R_trans [OF R2 R_trans [OF R_drain R_probe_sbi [OF y [unfolded probe_sbi_def]]]]
  ultimately show ?thesis by auto
qed

end

sublocale io_relation \<subseteq> facade_io: retry_relation ops True "\<lambda>x y. R (snd x) (snd y)"
  by unfold_locales
    (auto intro: R_refl R_trans dest: R_execute R_cached R_raw_xbpi R_raw_sbi R_lines)

sublocale io_relation \<subseteq> opening_io: opening_relation ops R
  by unfold_locales
    (auto intro: R_refl R_trans dest: R_detect R_detect_autoprint obeysD [OF facade_io.obeys_cold_open])

end
