(* ===== verification/Session_Props.thy ===== *)
theory Session_Props
  imports Session_Types
begin

text \<open>
  The properties of the session over the serial transport: safety of unconfirmed traffic, the
  gates, the life cycle, and the way replies of the device come back through the session.
\<close>

section \<open>Sessions used in the examples\<close>

definition demo_session :: session where
  "demo_session =
     \<lparr>se_xbpi = Some XbpiProtocolClient, se_sbi = None, se_active = XBPI, se_family = CUBIS,
      se_capabilities = {}, se_firmware = None, se_src_sbn = 1, se_dst_sbn = 9,
      se_strict = False, se_availability = (\<lambda>_. None), se_warned_priors = {},
      se_result_cache = (\<lambda>_. None), se_state = OPERATIONAL, se_recoverable_error_count = 0,
      se_serial_settings = None, se_warnings = []\<rparr>"

definition demo_sbi_session :: session where
  "demo_sbi_session =
     demo_session\<lparr>se_xbpi := None, se_sbi := Some SbiProtocolClient, se_active := SBI\<rparr>"

section \<open>Safety\<close>

text \<open>
  However long a session is used, as long as the caller confirms nothing, every frame and
  token it ever sends is harmless: an opcode of the read-only list, tare or zero on xBPI, a
  token of the read-only list, tare or zero on SBI. This covers every command of the library
  with any request, cached execution, both raw interfaces with any opcode, arguments or token,
  and all line reads, in any order, whatever the device answers and however the line fails.
\<close>

theorem unconfirmed_runs_are_harmless:
  assumes "session_run serial_ops qs (se, s) (se', s')" and "list_all unconfirmed qs"
  shows "\<exists>ws. st_sent s' = st_sent s @ ws \<and> list_all harmless ws"
  using serial.run_harmless [OF assms] by simp

theorem unconfirmed_runs_are_harmless_witness:
  "\<exists>se' s'. session_run serial_ops
       [OpExecute (bind_request TARE TareRequest) False, OpRawXbpi 0x47 [] False]
       (demo_session, demo_serial [] (\<lambda>_. [])) (se', s') \<and>
     (\<exists>ws. st_sent s' = ws \<and> list_all harmless ws)"
proof -
  let ?s = "demo_serial [] (\<lambda>_. [])"
  let ?tare = "bind_request TARE TareRequest"
  obtain r se1 s1 where t: "session_execute serial_ops ?tare () False demo_session ?s = (r, se1, s1)"
    by (metis prod_cases3)
  obtain q se2 s2 where x: "execute_raw_xbpi serial_ops 0x47 [] False se1 s1 = (q, se2, s2)"
    by (metis prod_cases3)
  have run: "session_run serial_ops [OpExecute ?tare False, OpRawXbpi 0x47 [] False]
      (demo_session, ?s) (se2, s2)"
    by (rule run_cons [OF step_execute [OF t] run_cons [OF step_raw_xbpi [OF x] run_nil]])
  have "list_all unconfirmed [OpExecute ?tare False, OpRawXbpi 0x47 [] False]"
    by (auto intro: declared.intros)
  from unconfirmed_runs_are_harmless [OF run this] run show ?thesis by (auto simp: demo_serial_def)
qed

text \<open>
  C27. Dispatching a command sends at most one request, the one its encoder built for the
  session's addresses, and only when every gate is open: the session is operational, the
  command is read-only or stateful or the caller confirmed, the command has a variant for the
  active protocol, the device has not refused it as unsupported before, and the priors match
  or are not strict. When a gate is closed the call raises and neither the session nor the
  port is touched.
\<close>

theorem gates_guard_the_wire:
  assumes "session_execute serial_ops cmd request confirm se s = (r, se', s')"
  shows "(if gates_open cmd confirm se
      then st_sent s' = st_sent s \<or>
           (\<exists>b. session_request cmd request se = Inr b \<and> st_sent s' = st_sent s @ [b])
      else se' = se \<and> s' = s \<and> \<not> is_ok r)"
  using serial.execute_written [OF assms] gates_closed [of cmd confirm se serial_ops request s] assms
  by auto

theorem gates_guard_the_wire_witness:
  "\<exists>r. session_execute serial_ops WRITE_PARAMETER (WriteParameterRequest 1 2) False demo_session
       (demo_serial [] (\<lambda>_. [])) = (r, demo_session, demo_serial [] (\<lambda>_. [])) \<and> \<not> is_ok r"
proof -
  obtain r se' s' where x: "session_execute serial_ops WRITE_PARAMETER (WriteParameterRequest 1 2)
      False demo_session (demo_serial [] (\<lambda>_. [])) = (r, se', s')" by (metis prod_cases3)
  have "\<not> gates_open WRITE_PARAMETER False demo_session"
    by (simp add: gates_open_def WRITE_PARAMETER_def Command_def)
  with gates_guard_the_wire [OF x] x show ?thesis by auto
qed

text \<open>
  A session that was well-formed stays so along every run, replacement of its clients
  included: it speaks a concrete protocol and has the client for it.
\<close>

theorem session_well_formed:
  assumes "session_run ops qs (se, s) (se', s')" and "session_wf se"
  shows "session_wf se'"
proof -
  have "session_run ops qs st st' \<Longrightarrow> session_wf (fst st) \<Longrightarrow> session_wf (fst st')" for st st'
    by (induction rule: session_run.induct) (metis step_wf prod.collapse)+
  from this [OF assms(1)] assms(2) show ?thesis by simp
qed

theorem session_well_formed_witness:
  "session_wf (snd (replace_clients None (Some SbiProtocolClient) SBI None demo_session))"
proof -
  let ?r = "replace_clients None (Some SbiProtocolClient) SBI None demo_session"
  have "session_run serial_ops [OpReplace None (Some SbiProtocolClient) SBI None]
      (demo_session, demo_serial [] (\<lambda>_. [])) (snd ?r, demo_serial [] (\<lambda>_. []))"
    by (rule run_cons [OF step_replace run_nil]) (rule surjective_pairing)
  moreover have "session_wf demo_session" by (simp add: session_wf_iff demo_session_def)
  ultimately show ?thesis by (rule session_well_formed)
qed

text \<open>
  C28. A broken session never recovers: along every run it stays broken, and from then on every
  command and every raw request is refused with a connection error and leaves session and port
  as they are.
\<close>

theorem broken_is_final:
  assumes "session_run serial_ops qs (se, s) (se', s')" and "se_state se = BROKEN"
  shows "se_state se' = BROKEN \<and>
     (\<exists>e. exn_is e SartoriusConnectionError \<and>
        session_execute serial_ops cmd request confirm se' s' = (Inl e, se', s') \<and>
        execute_raw_xbpi serial_ops opcode args confirm se' s' = (Inl e, se', s') \<and>
        execute_raw_sbi serial_ops token confirm n se' s' = (Inl e, se', s'))"
proof -
  have "session_run serial_ops qs st st' \<Longrightarrow> se_state (fst st) = BROKEN \<Longrightarrow>
      se_state (fst st') = BROKEN" for st st'
    by (induction rule: session_run.induct) (metis step_broken prod.collapse)+
  from this [OF assms(1)] assms(2) have "se_state se' = BROKEN" by simp
  then show ?thesis
    by (simp add: session_execute_def execute_raw_xbpi_def execute_raw_sbi_def check_state_def
        raise_ctx_def)
qed

theorem broken_is_final_witness:
  "\<exists>e. session_execute serial_ops READ_NET ReadWeightRequest True (mark_broken demo_session)
       (demo_serial [] (\<lambda>_. [])) = (Inl e, mark_broken demo_session, demo_serial [] (\<lambda>_. []))"
proof -
  have "session_run serial_ops [] (mark_broken demo_session, demo_serial [] (\<lambda>_. []))
      (mark_broken demo_session, demo_serial [] (\<lambda>_. []))" by simp
  from broken_is_final [OF this, of READ_NET ReadWeightRequest True 0 "[]" "CmdBytes []" 1]
  show ?thesis by (auto simp: mark_broken_def)
qed

text \<open>
  A command the device has refused as unsupported stays refused: along every run that does
  not replace the clients, its entry remains and dispatching any command of that name raises
  without touching the port.
\<close>

theorem denial_is_sticky:
  assumes "session_run serial_ops qs (se, s) (se', s')"
    and "\<And>x b p st. OpReplace x b p st \<notin> set qs"
    and "se_availability se (cmd_name cmd) = Some UNSUPPORTED"
  shows "se_availability se' (cmd_name cmd) = Some UNSUPPORTED \<and>
     (\<exists>e. session_execute serial_ops cmd request confirm se' s' = (Inl e, se', s'))"
proof -
  have "session_run serial_ops qs st st' \<Longrightarrow> (\<And>x b p st. OpReplace x b p st \<notin> set qs) \<Longrightarrow>
      keeps (fst st) (fst st')" for st st'
  proof (induction rule: session_run.induct)
    case (run_cons q st st1 qs st2)
    from run_cons.hyps(1) run_cons.prems have "keeps (fst st) (fst st1)"
      by (cases st; cases st1) (auto intro!: step_keeps)
    with run_cons show ?case by (auto intro: keeps_trans)
  qed simp
  from this [OF assms(1)] assms(2,3)
  have u: "se_availability se' (cmd_name cmd) = Some UNSUPPORTED" by (simp add: keeps_def)
  then have "\<not> gates_open cmd confirm se'" by (simp add: gates_open_def)
  from gates_closed [OF this, of serial_ops request s'] u show ?thesis by simp
qed

theorem denial_is_sticky_witness:
  "\<exists>e. session_execute serial_ops READ_NET ReadWeightRequest True
       (set_availability ''read_net'' UNSUPPORTED demo_session) (demo_serial [] (\<lambda>_. []))
     = (Inl e, set_availability ''read_net'' UNSUPPORTED demo_session, demo_serial [] (\<lambda>_. []))"
proof -
  let ?se = "set_availability ''read_net'' UNSUPPORTED demo_session"
  have "session_run serial_ops [] (?se, demo_serial [] (\<lambda>_. [])) (?se, demo_serial [] (\<lambda>_. []))"
    by simp
  from denial_is_sticky [OF this, of READ_NET ReadWeightRequest True] show ?thesis
    by (simp add: READ_NET_def Command_def)
qed

section \<open>Replies through the session\<close>

text \<open>
  The device answers a request: the port is open and quiet, and what the device sends on it is
  the given bytes, in any chunks, followed by whatever else happens on the line.
\<close>

definition answers ::
  "serial_transport \<Rightarrow> bytes \<Rightarrow> bytes list \<Rightarrow> rx_event list \<Rightarrow> bytes \<Rightarrow> bool" where
  "answers s req cs es bs \<longleftrightarrow>
     st_port s \<and> st_pushback s = [] \<and> st_rx s = [] \<and> st_tx s = [] \<and>
     st_device s (st_sent s @ [req]) = map RxChunk cs @ es \<and> concat cs = bs"

lemma answers_write:
  assumes "answers s req cs es bs"
  shows "\<exists>s1. tp_write serial_ops req s = (Inr (), s1) \<and> st_port s1 \<and>
     serial_ready s1 = bs @ lead es \<and> st_sent s1 = st_sent s @ [req]"
  using assms by (simp add: answers_def serial_ops_def serial_write_def serial_ready_def)

text \<open>What a dispatch makes of a reply frame, and what the session learns from it.\<close>

definition reply_effect ::
  "'req Command \<Rightarrow> 'req XbpiVariant \<Rightarrow> byte \<Rightarrow> bytes \<Rightarrow> session \<Rightarrow> response res \<times> session" where
  "reply_effect cmd v st body se =
     (case exchange_result st body (cmd_name cmd) (Some (xv_opcode v)) of
        Inr frame \<Rightarrow> (xv_decode v frame (command_context XBPI se),
                      set_availability (cmd_name cmd) SUPPORTED se)
      | Inl e \<Rightarrow>
          if exn_is e SartoriusUnsupportedCommandError
          then (if cmd_parameterized cmd
                then (Inl (Sart SartoriusIndexOutOfRangeError (exn_context e)), se)
                else (Inl e, set_availability (cmd_name cmd) UNSUPPORTED se))
          else if exn_is e SartoriusOperationNotApplicableError
          then (Inl e, set_availability (cmd_name cmd) INAPPLICABLE se)
          else (Inl e, se))"

context transport
begin

lemma xbpi_dispatch_reply:
  assumes g: "gates_open cmd confirm se" and a: "se_active se = XBPI"
    and v: "cmd_xbpi cmd = Some v" and c: "se_xbpi se = Some client" "\<not> xc_disposed client"
    and rb: "xv_encode v (command_context XBPI se) request = Inr rb"
    and w: "tp_write ops rb s = (Inr u, s1)" and us: "usable s1"
    and rd: "ready s1 = rx_frame st body @ rest" and len: "length body \<le> 252"
  shows "\<exists>s'. session_execute ops cmd request confirm se s =
       (fst (reply_effect cmd v st body (snd (gate_priors cmd se))),
        snd (reply_effect cmd v st body (snd (gate_priors cmd se))), s') \<and>
     ready s' = rest \<and> written s' = written s @ [rb]"
proof -
  obtain s' where x: "xbpi_execute ops client rb (cmd_name cmd) (Some (xv_opcode v)) s
      = (exchange_result st body (cmd_name cmd) (Some (xv_opcode v)), s')"
    and s': "ready s' = rest" "written s' = written s @ [rb]"
    using xbpi_frame_consumed [OF w us rd len c(2), of "cmd_name cmd" "Some (xv_opcode v)"] by blast
  have "execute_xbpi ops cmd request (snd (gate_priors cmd se)) s =
      (fst (reply_effect cmd v st body (snd (gate_priors cmd se))),
       snd (reply_effect cmd v st body (snd (gate_priors cmd se))), s')"
    using v c rb x by (simp add: execute_xbpi_def reply_effect_def split: sum.split)
  with g a s' show ?thesis by (simp add: gates_passed Let_def)
qed

lemma sbi_dispatch_reply:
  assumes g: "gates_open cmd confirm se" and a: "se_active se = SBI"
    and v: "cmd_sbi cmd = Some v" "sv_expect_lines v = int (length ls)"
    and c: "se_sbi se = Some client" "\<not> sc_disposed client" "\<not> sc_autoprint_active client"
    and rb: "sv_encode v (command_context SBI se) request = Inr rb"
    and w: "tp_write ops rb s = (Inr u, s1)" and us: "usable s1"
    and rd: "ready s1 = concat ls @ rest" and ls: "list_all crlf_line ls" "ls \<noteq> []"
    and ok: "reply_outcome (concat ls) (cmd_name cmd) (Some (sv_token v)) = Inr reply"
  shows "\<exists>s'. session_execute ops cmd request confirm se s =
      (if reply_is_surprise_autoprint client reply (Some (sv_token v))
       then (raise_sbi_autoprint_active (cmd_name cmd) (Some (sv_token v)),
             (snd (gate_priors cmd se))
               \<lparr>se_sbi := Some (mark_autoprint_active (Some (sr_raw reply)) client)\<rparr>, s')
       else (sv_decode v reply (command_context SBI se),
             set_availability (cmd_name cmd) SUPPORTED (snd (gate_priors cmd se)), s')) \<and>
      written s' = written s @ [rb]"
proof -
  let ?se = "snd (gate_priors cmd se)"
  obtain s' where x: "sbi_execute ops rb (cmd_name cmd) (Some (sv_token v)) (int (length ls)) client s
      = (Inr reply, s')" and s': "written s' = written s @ [rb]"
    using sbi_exchange [OF w us rd ls(1) c(2), of "cmd_name cmd" "Some (sv_token v)"] ls(2) ok by auto
  have "\<not> sbi_autoprint_active ?se" using c by (simp add: sbi_autoprint_active_def)
  with x have "sbi_exchange_checked ops rb (cmd_name cmd) (sv_token v) (sv_expect_lines v) client ?se s =
      (if reply_is_surprise_autoprint client reply (Some (sv_token v))
       then (raise_sbi_autoprint_active (cmd_name cmd) (Some (sv_token v)),
             ?se\<lparr>se_sbi := Some (mark_autoprint_active (Some (sr_raw reply)) client)\<rparr>, s')
       else (Inr reply, ?se, s'))"
    by (simp add: sbi_exchange_checked_def v(2))
  then have "execute_sbi ops cmd request ?se s =
      (if reply_is_surprise_autoprint client reply (Some (sv_token v))
       then (raise_sbi_autoprint_active (cmd_name cmd) (Some (sv_token v)),
             ?se\<lparr>se_sbi := Some (mark_autoprint_active (Some (sr_raw reply)) client)\<rparr>, s')
       else (sv_decode v reply (command_context SBI se),
             set_availability (cmd_name cmd) SUPPORTED ?se, s'))"
    using v(1) c(1) rb
    by (auto simp: execute_sbi_def raise_sbi_autoprint_active_def raise_ctx_def Let_def)
  with g a s' show ?thesis by (auto simp: gates_passed Let_def)
qed

end

lemma queue_pending_concat:
  "concat (sc_pending (queue_pending_front raw c)) = raw @ concat (sc_pending c)"
proof (cases "raw = [] \<or> \<not> endswith raw [10]")
  case False
  then have "raw = take (length raw - 1) raw @ [10]"
    by (metis append_take_drop_id endswith_def length_Cons list.size(3) One_nat_def)
  then obtain u where u: "raw = u @ [10]" by blast
  have "split_lines raw \<noteq> Inl e" for e
    using split_lines_from_error [of raw raw "[]" e] u by (auto simp: split_lines_def)
  then obtain ls where ls: "split_lines raw = Inr ls" by (cases "split_lines raw") auto
  then have "concat ls = raw" using split_lines_iff by blast
  with False ls show ?thesis by (simp add: queue_pending_front_def)
qed (auto simp: queue_pending_front_def)

lemma mark_active_queue:
  "sc_autoprint_active (mark_autoprint_active p c)"
  "concat (sc_pending (mark_autoprint_active (Some raw) c)) = raw @ concat (sc_pending c)"
  by (auto simp: mark_autoprint_active_def queue_pending_concat Let_def split: option.split)
    (simp add: queue_pending_front_def split: sum.split)

text \<open>
  C31. End to end on xBPI: when every gate is open and the device answers the request with a
  well-formed frame, in any chunks, the call sends the request once, returns exactly what the
  command's decoder makes of that frame, marks the command as supported, and leaves the bytes
  after the frame for the next call.
\<close>

theorem xbpi_command_end_to_end:
  assumes "gates_open cmd confirm se" and "se_active se = XBPI" and "cmd_xbpi cmd = Some v"
    and "se_xbpi se = Some client" and "\<not> xc_disposed client"
    and "xv_encode v (command_context XBPI se) request = Inr rb"
    and "answers s rb cs es (rx_frame st body @ rest)" and "length body \<le> 252" and "st \<noteq> 1"
  shows "\<exists>se' s'. session_execute serial_ops cmd request confirm se s
        = (xv_decode v (frame_of st body) (command_context XBPI se), se', s') \<and>
     se_availability se' (cmd_name cmd) = Some SUPPORTED \<and>
     st_sent s' = st_sent s @ [rb] \<and> serial_ready s' = rest @ lead es"
proof -
  from answers_write [OF assms(7)] obtain s1 where w: "tp_write serial_ops rb s = (Inr (), s1)"
    and p: "st_port s1" and rd: "serial_ready s1 = rx_frame st body @ (rest @ lead es)" by auto
  from serial.xbpi_dispatch_reply [OF assms(1-6) w p rd assms(8)] assms(9) show ?thesis
    by (auto simp: reply_effect_def exchange_result_def)
qed

theorem xbpi_command_end_to_end_witness:
  "\<exists>se' s'. session_execute serial_ops READ_PARAMETER (ReadParameterRequest 7) False demo_session
       (demo_serial [] (\<lambda>_. map RxChunk [[6, 0x41, 0x21], [3, 0x21, 5, 0x91]]))
     = (Inr (RParameter \<lparr>pe_index = -1, pe_current = 3, pe_max = 5, pe_raw = [3, 0x21, 5]\<rparr>), se', s')"
proof -
  let ?s = "demo_serial [] (\<lambda>_. map RxChunk [[6, 0x41, 0x21], [3, 0x21, 5, 0x91]])"
  let ?q = "ReadParameterRequest 7" and ?v = ReadParameterVariant
  have v: "cmd_xbpi READ_PARAMETER = Some ?v" by (simp add: READ_PARAMETER_def Command_def)
  have g: "gates_open READ_PARAMETER False demo_session"
    by (simp add: gates_open_def v) (simp add: READ_PARAMETER_def Command_def demo_session_def)
  obtain rb where rb: "xv_encode ?v (command_context XBPI demo_session) ?q = Inr rb"
    by (simp add: ReadParameterVariant_def encode_tlv_def TLV_TAG_SIZES_def TLV_U8_TAG_def
        int_to_bytes_be_def encode_with_def command_context_def demo_session_def build_command_def
        require_byte_def MAX_BYTE_def MAX_LENGTH_def Let_def)
  have "concat [[6, 0x41, 0x21], [3, 0x21, 5, 0x91]] = rx_frame 0x21 [3, 0x21, 5] @ []"
    by (simp add: rx_frame_def Let_def byte_of_int_def checksum_mod)
  then have an: "answers ?s rb [[6, 0x41, 0x21], [3, 0x21, 5, 0x91]] [] (rx_frame 0x21 [3, 0x21, 5] @ [])"
    by (simp add: answers_def demo_serial_def)
  have c: "se_active demo_session = XBPI" "se_xbpi demo_session = Some XbpiProtocolClient"
    "\<not> xc_disposed XbpiProtocolClient"
    by (simp_all add: demo_session_def XbpiProtocolClient_def)
  have d: "xv_decode ?v (frame_of 0x21 [3, 0x21, 5]) ctx
      = Inr (RParameter \<lparr>pe_index = -1, pe_current = 3, pe_max = 5, pe_raw = [3, 0x21, 5]\<rparr>)" for ctx
    by (simp add: ReadParameterVariant_def read_parameter_decode_def frame_of_def
        parse_tlv_sequence_def parse_tlv_from.simps decode_tlv_def TLV_TAG_SIZES_def Let_def
        EXPECTED_TLV_COUNT_def TLV_U8_TAG_def byte_of_int_def)
  from xbpi_command_end_to_end [OF g c(1) v c(2,3) rb an] d show ?thesis by auto
qed

text \<open>
  What the session learns from a refusal: error \<open>0x04\<close> marks a command as unsupported for
  good, unless the command takes an index, in which case the caller gets an index error and
  nothing is remembered; error \<open>0x06\<close> marks it as inapplicable, which does not block later
  calls; any other code raises the class of the code and changes no availability.
\<close>

theorem refusals_are_learned:
  assumes "gates_open cmd confirm se" and "se_active se = XBPI" and "cmd_xbpi cmd = Some v"
    and "se_xbpi se = Some client" and "\<not> xc_disposed client"
    and "xv_encode v (command_context XBPI se) request = Inr rb"
    and "answers s rb cs es (rx_frame 1 [code] @ rest)"
  shows "\<exists>r se' s'. session_execute serial_ops cmd request confirm se s = (r, se', s') \<and>
     (if code = 4 \<and> cmd_parameterized cmd
      then fails_with SartoriusIndexOutOfRangeError r \<and> se_availability se' = se_availability se
      else fails_with (refusal_class (uint code)) r \<and>
           se_availability se' =
             (if code = 4 then (se_availability se)(cmd_name cmd \<mapsto> UNSUPPORTED)
              else if code = 6 then (se_availability se)(cmd_name cmd \<mapsto> INAPPLICABLE)
              else se_availability se))"
proof -
  from answers_write [OF assms(7)] obtain s1 where w: "tp_write serial_ops rb s = (Inr (), s1)"
    and p: "st_port s1" and rd: "serial_ready s1 = rx_frame 1 [code] @ (rest @ lead es)" by auto
  obtain ctx where ctx: "make_refusal (uint code) (frame_of 1 [code]) (cmd_name cmd)
      (Some (xv_opcode v)) = Sart (refusal_class (uint code)) ctx"
    using make_refusal_class by blast
  have "uint code = 4 \<longleftrightarrow> code = 4" "uint code = 6 \<longleftrightarrow> code = 6"
    using word_uint_eq_iff [of code 4] word_uint_eq_iff [of code 6] by simp_all
  moreover have "is_subclass (refusal_class n) SartoriusUnsupportedCommandError \<longleftrightarrow> n = 4"
    "is_subclass (refusal_class n) SartoriusOperationNotApplicableError \<longleftrightarrow> n = 6" for n
    by (simp_all add: refusal_class_def subclass_simps)
  ultimately have e: "reply_effect cmd v 1 [code] t =
      (if code = 4
       then (if cmd_parameterized cmd then (Inl (Sart SartoriusIndexOutOfRangeError ctx), t)
             else (Inl (Sart (refusal_class (uint code)) ctx), set_availability (cmd_name cmd) UNSUPPORTED t))
       else if code = 6
       then (Inl (Sart (refusal_class (uint code)) ctx), set_availability (cmd_name cmd) INAPPLICABLE t)
       else (Inl (Sart (refusal_class (uint code)) ctx), t))" for t
    by (simp add: reply_effect_def exchange_result_def ctx)
  have "length [code] \<le> 252" by simp
  from serial.xbpi_dispatch_reply [OF assms(1-6) w p rd this] show ?thesis
    by (cases "cmd_parameterized cmd") (auto simp: e split: if_splits)
qed

theorem refusals_are_learned_witness:
  "\<exists>r se' s'. session_execute serial_ops READ_GROSS ReadWeightRequest False demo_session
       (demo_serial [] (\<lambda>_. map RxChunk [[4, 0x41], [1, 4, 0x4A]])) = (r, se', s') \<and>
     fails_with SartoriusUnsupportedCommandError r \<and>
     se_availability se' ''read_gross'' = Some UNSUPPORTED"
proof -
  let ?s = "demo_serial [] (\<lambda>_. map RxChunk [[4, 0x41], [1, 4, 0x4A]])"
  let ?v = "ReadWeightStdVariant 0x20"
  have v: "cmd_xbpi READ_GROSS = Some ?v" by (simp add: READ_GROSS_def Command_def)
  have g: "gates_open READ_GROSS False demo_session"
    by (simp add: gates_open_def v) (simp add: READ_GROSS_def Command_def demo_session_def)
  obtain rb where rb: "xv_encode ?v (command_context XBPI demo_session) ReadWeightRequest = Inr rb"
    by (simp add: ReadWeightStdVariant_def encode_with_def command_context_def demo_session_def
        build_command_def require_byte_def MAX_BYTE_def MAX_LENGTH_def Let_def)
  have "concat [[4, 0x41], [1, 4, 0x4A]] = rx_frame 1 [4] @ []"
    by (simp add: rx_frame_def Let_def byte_of_int_def checksum_mod)
  then have an: "answers ?s rb [[4, 0x41], [1, 4, 0x4A]] [] (rx_frame 1 [4] @ [])"
    by (simp add: answers_def demo_serial_def)
  have c: "se_active demo_session = XBPI" "se_xbpi demo_session = Some XbpiProtocolClient"
    "\<not> xc_disposed XbpiProtocolClient"
    by (simp_all add: demo_session_def XbpiProtocolClient_def)
  from refusals_are_learned [OF g c(1) v c(2,3) rb an] show ?thesis
    by (auto simp: READ_GROSS_def Command_def refusal_class_def)
qed
text \<open>
  End to end on SBI: a command whose reply contains autoprint output, although the session
  had not seen any, is not decoded. The call raises the autoprint error, the session switches
  to autoprint mode, and no line is lost: the queue of unread lines is the whole reply followed
  by what was queued before. From then on every command that expects a reply is refused and
  leaves session and port as they are.
\<close>

theorem surprise_autoprint_is_kept:
  assumes "gates_open cmd confirm se" and "se_active se = SBI"
    and "cmd_sbi cmd = Some v" and "sv_expect_lines v = int (length ls)"
    and "se_sbi se = Some client" and "\<not> sc_disposed client" and "\<not> sc_autoprint_active client"
    and "sv_encode v (command_context SBI se) request = Inr rb"
    and "answers s rb cs es (concat ls @ rest)" and "list_all crlf_line ls" and "ls \<noteq> []"
    and "reply_outcome (concat ls) (cmd_name cmd) (Some (sv_token v)) = Inr reply"
    and "sv_token v \<noteq> TOKEN_PRINT"
    and "list_ex (\<lambda>line. is_autoprint_line (sl_raw line)) (sr_lines reply)"
  shows "\<exists>r se' s' client'. session_execute serial_ops cmd request confirm se s = (r, se', s') \<and>
     fails_with SartoriusAutoprintActiveError r \<and> st_sent s' = st_sent s @ [rb] \<and>
     se_sbi se' = Some client' \<and> sc_autoprint_active client' \<and>
     concat (sc_pending client') = concat ls @ concat (sc_pending client) \<and>
     (\<forall>t. \<exists>r. session_execute serial_ops cmd request confirm se' t = (r, se', t) \<and>
        fails_with SartoriusAutoprintActiveError r)"
proof -
  let ?se = "snd (gate_priors cmd se)"
  let ?c = "mark_autoprint_active (Some (sr_raw reply)) client"
  let ?se' = "?se\<lparr>se_sbi := Some ?c\<rparr>"
  let ?err = "raise_sbi_autoprint_active (cmd_name cmd) (Some (sv_token v)) :: response res"
  have err: "fails_with SartoriusAutoprintActiveError ?err"
    by (simp add: raise_sbi_autoprint_active_def)
  have raw: "sr_raw reply = concat ls" using reply_outcome_ok [OF assms(12)] by simp
  have sup: "reply_is_surprise_autoprint client reply (Some (sv_token v))"
    using assms(7,13,14) by (simp add: reply_is_surprise_autoprint_def)
  from answers_write [OF assms(9)] obtain s1 where w: "tp_write serial_ops rb s = (Inr (), s1)"
    and p: "st_port s1" and rd: "serial_ready s1 = concat ls @ (rest @ lead es)" by auto
  from serial.sbi_dispatch_reply [OF assms(1-8) w p rd assms(10,11,12)] sup obtain s' where
    x: "session_execute serial_ops cmd request confirm se s = (?err, ?se', s')"
    and sent: "st_sent s' = st_sent s @ [rb]" by auto
  have open': "gates_open cmd confirm ?se'"
    using assms(1) by (auto simp: gates_open_def gate_priors_def priors_ok_def)
  have gp: "snd (gate_priors cmd ?se') = ?se'"
    by (simp add: gate_priors_def priors_ok_def)
  have ctx: "command_context SBI ?se' = command_context SBI se"
    by (simp add: gate_priors_def command_context_def)
  have act: "sbi_autoprint_active ?se'"
    using assms(2) mark_active_queue(1) by (simp add: sbi_autoprint_active_def)
  have "0 < sv_expect_lines v" using assms(4,11) by simp
  then have again: "session_execute serial_ops cmd request confirm ?se' t = (?err, ?se', t)" for t
    unfolding gates_passed [OF open'] gp
    using assms(2,3,8) act ctx
    by (simp add: execute_sbi_def sbi_exchange_checked_def raise_sbi_autoprint_active_def
        raise_ctx_def)
  show ?thesis
    using x sent err raw mark_active_queue again
    by (intro exI [where x = ?err] exI [where x = ?se'] exI [where x = s'] exI [where x = ?c]) auto
qed

definition weight_reply :: bytes where
  "weight_reply = ascii_lit ''+      1.0 g'' @ [13, 10]"

theorem surprise_autoprint_is_kept_witness:
  "\<exists>r se' s' client'. session_execute serial_ops READ_MODEL IdentityRequest False demo_sbi_session
       (demo_serial [] (\<lambda>_. [RxChunk weight_reply])) = (r, se', s') \<and>
     fails_with SartoriusAutoprintActiveError r \<and>
     se_sbi se' = Some client' \<and> concat (sc_pending client') = weight_reply"
proof -
  let ?s = "demo_serial [] (\<lambda>_. [RxChunk weight_reply])"
  let ?v = "SbiIdentityTextVariant TOKEN_TYPE" and ?se = demo_sbi_session
  let ?ro = "reply_outcome weight_reply ''read_model'' (Some TOKEN_TYPE)"
  have v: "cmd_sbi READ_MODEL = Some ?v" "cmd_name READ_MODEL = ''read_model''"
    by (simp_all add: READ_MODEL_def Command_def)
  have t: "sv_token ?v = TOKEN_TYPE" "sv_expect_lines ?v = int (length [weight_reply])"
    "sv_encode ?v (command_context SBI ?se) IdentityRequest = Inr TOKEN_TYPE"
    by (simp_all add: SbiIdentityTextVariant_def)
  have g: "gates_open READ_MODEL False ?se"
    by (simp add: gates_open_def v)
      (simp add: READ_MODEL_def Command_def demo_sbi_session_def demo_session_def priors_ok_def
        NO_FAMILIES_def NO_CAPABILITY_def)
  have c: "se_active ?se = SBI" "se_sbi ?se = Some SbiProtocolClient"
    "\<not> sc_disposed SbiProtocolClient" "\<not> sc_autoprint_active SbiProtocolClient"
    "sc_pending SbiProtocolClient = []"
    by (simp_all add: demo_sbi_session_def SbiProtocolClient_def)
  have l: "list_all crlf_line [weight_reply]" and ne: "[weight_reply] \<noteq> []"
    and tok: "TOKEN_TYPE \<noteq> TOKEN_PRINT"
    by code_simp+
  have "case ?ro of Inr reply \<Rightarrow> list_ex (\<lambda>line. is_autoprint_line (sl_raw line)) (sr_lines reply)
      | Inl e \<Rightarrow> False" by code_simp
  then obtain reply where ro: "?ro = Inr reply"
    and ap: "list_ex (\<lambda>line. is_autoprint_line (sl_raw line)) (sr_lines reply)"
    by (cases ?ro) auto
  have an: "answers ?s TOKEN_TYPE [weight_reply] [] (concat [weight_reply] @ [])"
    by (simp add: answers_def demo_serial_def)
  note p = surprise_autoprint_is_kept [OF g c(1) v(1) t(2) c(2-4) t(3) an l ne _ _ ap]
  have "reply_outcome (concat [weight_reply]) (cmd_name READ_MODEL) (Some (sv_token ?v)) = Inr reply"
    "sv_token ?v \<noteq> TOKEN_PRINT"
    using ro t v tok by simp_all
  from p [OF this] c show ?thesis by auto
qed

text \<open>A session whose device answers the counter 7, with a value cached under 7.\<close>

definition counter_session :: session where
  "counter_session =
     demo_session\<lparr>se_capabilities := {CONFIG_COUNTER},
       se_result_cache := [''capacity'' \<mapsto> (7, RInt 42)]\<rparr>"

definition counter_device :: serial_transport where
  "counter_device = demo_serial [] (\<lambda>_. [RxChunk [4, 0x41, 0x21, 7, 0x6D]])"

text \<open>What the code computes in the examples, evaluated once for all witnesses.\<close>

lemma session_evaluations:
  "is_ok (fst (cached_execute serial_ops READ_CAPACITY (MetrologyRequest 0) ''capacity'' False
     counter_session counter_device)) \<and>
   (case read_config_counter serial_ops counter_session counter_device of (c, se1, s1) \<Rightarrow>
      (case c of Inr n \<Rightarrow> n = 7 | Inl e \<Rightarrow> False) \<and>
      \<not> is_ok (fst (session_execute serial_ops READ_CAPACITY (MetrologyRequest 0) False se1 s1))) \<and>
   \<not> is_ok (fst (cached_execute serial_ops (bind_request READ_CAPACITY (MetrologyRequest 0)) ()
     ''capacity:0'' False demo_session (demo_serial [] (\<lambda>_. []))))"
  by code_simp

lemmas counter_cached = session_evaluations [THEN conjunct1]
lemmas counter_read = session_evaluations [THEN conjunct2, THEN conjunct1]
lemmas silent_cached = session_evaluations [THEN conjunct2, THEN conjunct2]

text \<open>
  The result cache is pinned to the configuration counter. On a session whose device has
  the counter, a successful cached call first reads it, and leaves the returned value cached
  under the value it read; the value is the cached one exactly when the entry was pinned to
  that same counter value, and otherwise the result of dispatching the command now. A call that
  raises changes no entry.
\<close>

theorem cache_is_pinned:
  assumes "cached_execute ops cmd request key confirm se s = (r, se', s')"
    and "CONFIG_COUNTER \<in> se_capabilities se"
  shows "(\<forall>e. r = Inl e \<longrightarrow> se_result_cache se' = se_result_cache se) \<and>
     (\<forall>v. r = Inr v \<longrightarrow>
        (\<exists>c se1 s1. read_config_counter ops se s = (Inr c, se1, s1) \<and>
           se_result_cache se' = (se_result_cache se)(key \<mapsto> (c, v)) \<and>
           (if map_option fst (se_result_cache se key) = Some c
            then se_result_cache se key = Some (c, v) \<and> se' = se1 \<and> s' = s1
            else \<exists>se2. session_execute ops cmd request confirm se1 s1 = (Inr v, se2, s'))))"
proof -
  obtain c se1 s1 where c: "read_config_counter ops se s = (c, se1, s1)" by (metis prod_cases3)
  obtain q se2 s2 where q: "session_execute ops cmd request confirm se1 s1 = (q, se2, s2)"
    by (metis prod_cases3)
  have k1: "se_result_cache se1 = se_result_cache se"
  proof -
    obtain p where "session_execute ops CONFIG_COUNTER_CMD SystemRequest False se s = (p, se1, s1)"
      using c by (auto simp: read_config_counter_def split: sum.splits prod.splits)
    from execute_effect [OF this] show ?thesis by (simp add: dispatch_effect_def)
  qed
  have k2: "se_result_cache se2 = se_result_cache se1"
    using execute_effect [OF q] by (simp add: dispatch_effect_def)
  show ?thesis
  proof (cases c)
    case (Inl e)
    with assms c k1 show ?thesis by (auto simp: cached_execute_def)
  next
    case (Inr n)
    consider (hit) v where "se_result_cache se key = Some (n, v)"
      | (miss) "map_option fst (se_result_cache se key) \<noteq> Some n"
      by (cases "map_option fst (se_result_cache se key) = Some n") auto
    then show ?thesis
    proof cases
      case hit
      with assms c k1 Inr show ?thesis by (auto simp: cached_execute_def Let_def fun_upd_idem)
    next
      case miss
      with assms c k1 Inr q
      have "(r, se', s') = (case q of Inl e \<Rightarrow> (Inl e, se2, s2) | Inr v \<Rightarrow>
          (Inr v, se2\<lparr>se_result_cache := (se_result_cache se2)(key \<mapsto> (n, v))\<rparr>, s2))"
        by (auto simp: cached_execute_def Let_def split: option.splits sum.splits if_splits)
      with miss c k1 k2 Inr q show ?thesis by (cases q) auto
    qed
  qed
qed

theorem cache_is_pinned_witness:
  "\<exists>se' s'. cached_execute serial_ops READ_CAPACITY (MetrologyRequest 0) ''capacity'' False
       counter_session counter_device = (Inr (RInt 42), se', s')"
proof -
  let ?x = "cached_execute serial_ops READ_CAPACITY (MetrologyRequest 0) ''capacity'' False
      counter_session counter_device"
  have caps: "CONFIG_COUNTER \<in> se_capabilities counter_session"
    and hit: "se_result_cache counter_session ''capacity'' = Some (7, RInt 42)"
    by (simp_all add: counter_session_def)
  obtain v se' s' where x: "?x = (Inr v, se', s')"
    using counter_cached by (cases ?x) (auto simp: is_ok_def split: sum.splits)
  obtain se1 s1 where c: "read_config_counter serial_ops counter_session counter_device = (Inr 7, se1, s1)"
    using counter_read by (auto split: prod.splits sum.splits)
  from cache_is_pinned [OF x caps] c hit have "v = RInt 42" by auto
  with x show ?thesis by blast
qed

text \<open>
  No Python exception escapes a dispatch: for every command of the library with any request,
  whatever the device answers and however the port fails, direct and cached execution fail only
  with an exception of the package, and what they return has the type the command declares,
  provided the cache entry under the key has it.
\<close>

theorem dispatch_is_typed:
  assumes "declared cmd" and "decodes_to ty cmd" and "cache_typed key ty se"
    and "session_execute serial_ops cmd () confirm se s = (r1, se1, s1)"
    and "cached_execute serial_ops cmd () key confirm se s = (r2, se2, s2)"
  shows "(case r1 of Inr x \<Rightarrow> response_type x = ty | Inl e \<Rightarrow> exn_is e SartoriusError) \<and>
     (case r2 of Inr x \<Rightarrow> response_type x = ty | Inl e \<Rightarrow> exn_is e SartoriusError) \<and>
     cache_typed key ty se2"
proof -
  have "exn_is e SartoriusError" if "r1 = Inl e" for e
    using serial.execute_package_error assms(1,4) that by blast
  moreover have "response_type x = ty" if "r1 = Inr x" for x
    using execute_type [OF assms(4) [unfolded that] assms(2)] .
  moreover have "exn_is e SartoriusError" if "r2 = Inl e" for e
    using serial.cached_package_error assms(1,5) that by blast
  ultimately show ?thesis
    using cached_type [OF assms(5,2,3)] by (auto split: sum.split)
qed

theorem dispatch_is_typed_witness:
  "\<exists>e se2 s2. cached_execute serial_ops (bind_request READ_CAPACITY (MetrologyRequest 0)) ()
       ''capacity:0'' False demo_session (demo_serial [] (\<lambda>_. [])) = (Inl e, se2, s2) \<and>
     exn_is e SartoriusError"
proof -
  let ?c = "bind_request READ_CAPACITY (MetrologyRequest 0)" and ?s = "demo_serial [] (\<lambda>_. [])"
  let ?x = "cached_execute serial_ops ?c () ''capacity:0'' False demo_session ?s"
  have d: "declared ?c" "decodes_to TQuantity ?c" "cache_typed ''capacity:0'' TQuantity demo_session"
    by (auto intro: declared.intros decodes_bind_request commands_decode
        simp: cache_typed_def demo_session_def)
  obtain r1 se1 s1 where e: "session_execute serial_ops ?c () False demo_session ?s = (r1, se1, s1)"
    by (metis prod_cases3)
  have "\<not> is_ok (fst ?x)" by (rule silent_cached)
  then obtain e2 se2 s2 where x: "?x = (Inl e2, se2, s2)"
    by (cases ?x) (auto simp: is_ok_def split: sum.splits)
  from dispatch_is_typed [OF d e x] x show ?thesis by auto
qed

text \<open>
  The abstract device behind the cache: what a command answers is a function of the
  configuration, which the counter numbers. The cache agrees with it when every entry under the
  key is the answer for the counter it is pinned to.
\<close>

definition cache_agrees :: "(int \<Rightarrow> response) \<Rightarrow> string \<Rightarrow> session \<Rightarrow> bool" where
  "cache_agrees answer key se \<longleftrightarrow> (\<forall>c v. se_result_cache se key = Some (c, v) \<longrightarrow> v = answer c)"

lemma cached_execute_refines:
  assumes "cached_execute ops cmd request key confirm se s = (r, se', s')"
    and "CONFIG_COUNTER \<in> se_capabilities se" and "cache_agrees answer key se"
    and dev: "\<And>c se1 s1 v se2 s2. read_config_counter ops se s = (Inr c, se1, s1) \<Longrightarrow>
          session_execute ops cmd request confirm se1 s1 = (Inr v, se2, s2) \<Longrightarrow> v = answer c"
  shows "(\<forall>v. r = Inr v \<longrightarrow> (\<exists>c se1 s1. read_config_counter ops se s = (Inr c, se1, s1) \<and> v = answer c))
     \<and> cache_agrees answer key se'"
proof -
  obtain c se1 s1 where c: "read_config_counter ops se s = (c, se1, s1)" by (metis prod_cases3)
  obtain q se2 s2 where q: "session_execute ops cmd request confirm se1 s1 = (q, se2, s2)"
    by (metis prod_cases3)
  note ch = counter_cache [OF c] execute_cache [OF q]
  show ?thesis
  proof (cases c)
    case (Inl e)
    with assms(1-3) c ch show ?thesis by (auto simp: cached_execute_def cache_agrees_def)
  next
    case (Inr n)
    with dev [of n se1 s1] c q have "v = answer n" if "q = Inr v" for v using that by blast
    with assms(1-3) c q ch Inr show ?thesis
      by (auto simp: cached_execute_def Let_def cache_agrees_def
          split: sum.splits option.splits if_splits)
  qed
qed



end
