(* ===== verification/Balance_Props.thy ===== *)
theory Balance_Props
  imports Facade Session_Types Session_Props
begin

text \<open>
  The properties of the facade over the serial port: what it may send, that a switch of protocol
  or framing never leaves host and port disagreeing unnoticed, and what its methods return.
\<close>

definition demo_balance :: balance where
  "demo_balance =
     Balance (demo_session\<lparr>se_serial_settings := Some (default_settings ''/dev/ttyUSB0'')\<rparr>) None"

text \<open>A device that acknowledges the first request and answers a parameter to the others.\<close>

definition demo_parameter_device :: "byte \<Rightarrow> serial_transport" where
  "demo_parameter_device v =
     demo_serial [] (\<lambda>sent. if length sent = 1 then [RxChunk (rx_frame 0x40 [])]
                            else [RxChunk (rx_frame 0x21 [v, 0x21, 4])])"

definition demo_identity_device :: serial_transport where
  "demo_identity_device =
     demo_serial [] (\<lambda>sent. [RxChunk (ascii_lit ''MSE1203S'' @ [13, 10])])"

definition demo_capacity_device :: serial_transport where
  "demo_capacity_device = demo_serial [] (\<lambda>sent. if length sent = 1
     then [RxChunk (rx_frame 0x24 [0x43, 0x96, 0, 0, 0x04])] else [RxChunk (rx_frame 0x01 [4])])"

text \<open>What the code computes in the examples, evaluated once for all witnesses.\<close>

lemma demo_evaluations:
  "(case configure_protocol serial_ops SBI (Some 19200) None None 1 True demo_balance
        (demo_serial [] (\<lambda>_. [])) of
      (r, b', s') \<Rightarrow> \<not> is_ok r \<and> \<not> fails_with SartoriusConnectionError r \<and>
        se_active (ba_session b') = XBPI) \<and>
   (case write_parameter serial_ops 1 2 True demo_balance (demo_parameter_device 2) of (r, b1, s1) \<Rightarrow>
      (case read_parameter serial_ops 1 b1 s1 of (q, b2, s2) \<Rightarrow>
         is_ok r \<and> (case q of Inr entry \<Rightarrow> pe_current entry = 2 | Inl e \<Rightarrow> False))) \<and>
   length (st_sent (snd (facade_apply serial_ops (FSetFilter (ArgText ''stable'') True)
     (demo_balance, demo_parameter_device 2)))) = 1 \<and>
   (case fst (b_cached serial_ops READ_CAPACITY (MetrologyRequest 0) (''capacity:'' @ int_text 0)
        demo_balance demo_capacity_device) of Inr (RQuantity q) \<Rightarrow> True | _ \<Rightarrow> False) \<and>
   (case fst (identify serial_ops (Balance demo_sbi_session None) demo_identity_device) of
      Inr i \<Rightarrow> di_family i = CUBIS | Inl e \<Rightarrow> False)"
  by code_simp

lemmas demo_configure = demo_evaluations [THEN conjunct1]
lemmas demo_write_read = demo_evaluations [THEN conjunct2, THEN conjunct1]
lemmas demo_setter = demo_evaluations [THEN conjunct2, THEN conjunct2, THEN conjunct1]
lemmas demo_capacity =
  demo_evaluations [THEN conjunct2, THEN conjunct2, THEN conjunct2, THEN conjunct1]
lemmas demo_identify =
  demo_evaluations [THEN conjunct2, THEN conjunct2, THEN conjunct2, THEN conjunct2]

section \<open>Confirmation\<close>

text \<open>
  C1. However long a balance is used through any of its methods, as long as the caller never
  passes a confirmation, every byte sequence it sends is a harmless request (a read-only opcode
  or token, tare or zero), the framing of the port is untouched, and protocol, clients and port
  settings of the session stay as they are.
\<close>

theorem unconfirmed_facade_is_harmless:
  assumes "facade_run serial_ops qs (b, s) = (b', s')" and "list_all (\<lambda>q. \<not> confirmed q) qs"
  shows "(\<exists>ws. st_sent s' = st_sent s @ ws \<and> list_all harmless ws) \<and>
     serial_framing s' = serial_framing s \<and> session_frame (ba_session b) (ba_session b')"
proof -
  have all: "list_all (\<lambda>q. (\<not> switches q \<or> \<not> confirmed q) \<and> (confirmed q \<longrightarrow> allow)) qs" for allow
    using assms(2) by (auto simp: list_all_iff)
  from serial.harmless.run_obeys [OF all, of "(b, s)"]
    serial_framed.facade_framing.run_obeys [OF all, of "(b, s)"]
    unswitched.run_obeys [OF all, of "(b, s)" serial_ops] assms(1)
  show ?thesis by (simp add: unswitched_def)
qed

theorem unconfirmed_facade_is_harmless_witness:
  "\<exists>b' s'. facade_run serial_ops [FTare, FSaveMenu False, FConfigure SBI None None None 0 False]
       (demo_balance, demo_serial [] (\<lambda>_. [])) = (b', s') \<and> list_all harmless (st_sent s')"
proof -
  let ?qs = "[FTare, FSaveMenu False, FConfigure SBI None None None 0 False]"
  obtain b' s' where r: "facade_run serial_ops ?qs (demo_balance, demo_serial [] (\<lambda>_. [])) = (b', s')"
    by fastforce
  from unconfirmed_facade_is_harmless [OF r] r show ?thesis by (auto simp: demo_serial_def)
qed

lemma unconfirmed_execute:
  assumes "cmd_safety cmd \<notin> {READ_ONLY, STATEFUL}"
  shows "\<exists>e. b_execute ops cmd q False b s = (Inl e, b, s)"
proof -
  have "\<not> gates_open cmd False (ba_session b)" using assms by (simp add: gates_open_def)
  from gates_closed [OF this, of ops q s] show ?thesis by (auto simp: b_execute_def on_session_def)
qed

lemma unconfirmed_write: "\<exists>e. write_parameter ops i v False b s = (Inl e, b, s)"
proof -
  have "cmd_safety WRITE_PARAMETER \<notin> {READ_ONLY, STATEFUL}" by (simp add: command_specs)
  from unconfirmed_execute [OF this, of ops "WriteParameterRequest i v" b s] show ?thesis
    by (auto simp: write_parameter_def b_bind_def)
qed

lemma unconfirmed_accessor: "\<exists>e. set_accessor ops name r False b s = (Inl e, b, s)"
proof (cases "accessor_spec name")
  case (Inr sp)
  show ?thesis
  proof (cases "res_bind r (spec_encode sp)")
    case (Inr w)
    then obtain v where "r = Inr v" "spec_encode sp v = Inr w" by (auto simp: res_bind_eq_Inr)
    with \<open>accessor_spec name = Inr sp\<close> unconfirmed_write [of ops "ps_index sp" w b s] show ?thesis
      by (auto simp: set_accessor_def b_bind_def b_lift_def set_typed_def)
  qed (use Inr in \<open>auto simp: set_accessor_def b_bind_def b_lift_def res_bind_def split: sum.splits\<close>)
qed (simp add: set_accessor_def b_bind_def b_lift_def)

text \<open>
  Every method that can change persistent state raises when it is not confirmed, and then
  neither the balance nor the port is touched, whatever the arguments.
\<close>

theorem unconfirmed_changes_refused:
  "(\<exists>e. write_parameter ops i v False b s = (Inl e, b, s)) \<and>
   (\<exists>e. set_filter_mode ops m False b s = (Inl e, b, s)) \<and>
   (\<exists>e. set_display_unit ops du False b s = (Inl e, b, s)) \<and>
   (\<exists>e. set_auto_zero ops m False b s = (Inl e, b, s)) \<and>
   (\<exists>e. set_isocal_mode ops m False b s = (Inl e, b, s)) \<and>
   (\<exists>e. set_tare_behavior ops m False b s = (Inl e, b, s)) \<and>
   (\<exists>e. set_menu_access ops m False b s = (Inl e, b, s)) \<and>
   (\<exists>e. save_menu ops False b s = (Inl e, b, s)) \<and>
   (\<exists>e. reload_menu ops False b s = (Inl e, b, s)) \<and>
   (\<exists>e. internal_adjust ops cal False b s = (Inl e, b, s)) \<and>
   (\<exists>e. configure_protocol ops k p t u ticks False b s = (Inl e, b, s)) \<and>
   (\<exists>e. set_baud_rate ops w bd t u ticks False b s = (Inl e, b, s)) \<and>
   (\<exists>e. write_sbn_address ops n upd False b s = (Inl e, b, s))"
proof (intro conjI)
  have safety: "cmd_safety SAVE_MENU \<notin> {READ_ONLY, STATEFUL}"
    "cmd_safety RELOAD_MENU \<notin> {READ_ONLY, STATEFUL}"
    "cmd_safety INTERNAL_ADJUST \<notin> {READ_ONLY, STATEFUL}" by (simp_all add: command_specs)
  show "\<exists>e. save_menu ops False b s = (Inl e, b, s)"
    using unconfirmed_execute [OF safety(1), of ops SystemRequest b s]
    by (auto simp: save_menu_def b_bind_def)
  show "\<exists>e. reload_menu ops False b s = (Inl e, b, s)"
    using unconfirmed_execute [OF safety(2), of ops SystemRequest b s]
    by (auto simp: reload_menu_def b_bind_def)
  show "\<exists>e. internal_adjust ops cal False b s = (Inl e, b, s)"
    unfolding internal_adjust_def by (rule unconfirmed_execute [OF safety(3)])
qed (use unconfirmed_write unconfirmed_accessor in
      \<open>auto simp: set_filter_mode_def set_display_unit_def set_auto_zero_def set_isocal_mode_def
        set_tare_behavior_def set_menu_access_def write_sbn_address_def b_lift_def raise_ctx_def
        unconfirmed_switch\<close>)

section \<open>Switching protocol and framing\<close>



text \<open>
  C3. The session never loses track of the port: when its recorded settings agree with the
  framing of the port, then after any sequence of facade calls, switches and baud-rate changes
  included, they agree again or the session is broken, whatever the device does and however
  the port fails.
\<close>

theorem framing_is_tracked:
  assumes "facade_run serial_ops qs (b, s) = (b', s')" and "port_known serial_framing b s"
  shows "port_known serial_framing b' s' \<or> se_state (ba_session b') = BROKEN"
  using serial_framed.run_port_known [OF assms(1)] assms(2) by simp

theorem framing_is_tracked_witness:
  "\<exists>b' s'. facade_run serial_ops [FSetBaud 1 19200 None None 1 True, FTare]
       (demo_balance, demo_serial [] (\<lambda>_. [])) = (b', s') \<and>
     (port_known serial_framing b' s' \<or> se_state (ba_session b') = BROKEN)"
proof -
  obtain b' s' where r: "facade_run serial_ops [FSetBaud 1 19200 None None 1 True, FTare]
      (demo_balance, demo_serial [] (\<lambda>_. [])) = (b', s')" by fastforce
  have "port_known serial_framing demo_balance (demo_serial [] (\<lambda>_. []))"
    by (simp add: port_known_def demo_balance_def Balance_def demo_serial_def serial_framing_def)
  from framing_is_tracked [OF r this] r show ?thesis by blast
qed

section \<open>Parameters\<close>

text \<open>Reading a parameter after writing it never serves the value of the cache.\<close>

lemma write_parameter_cache:
  assumes "write_parameter ops i v confirm b s = (Inr x, b', s')"
  shows "se_result_cache (ba_session b') (cache_key_parameter i) = None"
proof -
  obtain r b1 s1 where w: "b_execute ops WRITE_PARAMETER (WriteParameterRequest i v) confirm b s
      = (r, b1, s1)" by (metis prod_cases3)
  with assms show ?thesis
    by (cases r) (auto simp: write_parameter_def b_bind_def update_session_def b_update_def
        invalidate_cache_def)
qed

context transport
begin

lemma cached_miss_written:
  assumes "cached_execute ops cmd q key confirm se s = (Inr x, se', s')"
    and "se_active se = XBPI" and "se_result_cache se key = None"
  shows "\<exists>ws req. session_request cmd q se = Inr req \<and> written s' = written s @ ws @ [req]"
proof (cases "CONFIG_COUNTER \<in> se_capabilities se")
  case False
  with assms(1) have "session_execute ops cmd q confirm se s = (Inr x, se', s')"
    by (simp add: cached_execute_def)
  from execute_ok_written [OF this assms(2)] show ?thesis by (metis append_Nil)
next
  case True
  obtain c se1 s1 where c: "read_config_counter ops se s = (c, se1, s1)" by (metis prod_cases3)
  obtain z se2 s2 where z: "session_execute ops cmd q confirm se1 s1 = (z, se2, s2)"
    by (metis prod_cases3)
  have "z = Inr x \<and> s' = s2"
    using assms(1,3) True c z counter_cache [OF c]
    by (auto simp: cached_execute_def Let_def split: sum.splits option.splits if_splits)
  moreover obtain rr where "session_execute ops CONFIG_COUNTER_CMD SystemRequest False se s
      = (rr, se1, s1)"
    using c by (auto simp: read_config_counter_def split: sum.splits prod.splits)
  note cc = this
  have "session_frame se se1" by (rule execute_frame [OF cc])
  moreover have "session_request cmd q se1 = session_request cmd q se"
    using execute_context [OF cc] execute_effect [OF cc]
    by (simp add: session_request_def dispatch_effect_def split: option.split)
  moreover obtain ws where "written s1 = written s @ ws" using execute_written [OF cc] append_Nil2
    by metis
  ultimately show ?thesis
    using execute_ok_written [of cmd q confirm se1 s1 x se2 s2] z assms(2)
    by (auto simp: session_frame_def)
qed

end

lemma read_parameter_session:
  assumes "read_parameter ops i b s = (r, b', s')"
  shows "\<exists>q. cached_execute ops READ_PARAMETER (ReadParameterRequest i) (cache_key_parameter i) False
      (ba_session b) s = (q, ba_session b', s') \<and>
    r = res_bind q (\<lambda>x. res_bind (as_parameter x) (\<lambda>en. Inr (en\<lparr>pe_index := i\<rparr>)))"
proof -
  obtain q se1 s1 where q: "cached_execute ops READ_PARAMETER (ReadParameterRequest i)
      (cache_key_parameter i) False (ba_session b) s = (q, se1, s1)" by (metis prod_cases3)
  with assms show ?thesis
    by (cases q) (auto simp: read_parameter_def b_cached_def on_session_def b_bind_def b_lift_def
        res_bind_def split: sum.splits)
qed

text \<open>
  C26. After a parameter has been written through the facade, the next read of it goes to the
  device: the value returned is never the one the cache held before the write. The read sends
  the read request for that index last.
\<close>

theorem write_then_read_asks_device:
  assumes "write_parameter serial_ops i v True b s = (Inr u, b1, s1)"
    and "read_parameter serial_ops i b1 s1 = (Inr entry, b2, s2)"
    and "se_active (ba_session b) = XBPI"
  shows "\<exists>ws req. st_sent s2 = st_sent s1 @ ws @ [req] \<and> pe_index entry = i \<and>
     session_request READ_PARAMETER (ReadParameterRequest i) (ba_session b1) = Inr req"
proof -
  have none: "se_result_cache (ba_session b1) (cache_key_parameter i) = None"
    by (rule write_parameter_cache [OF assms(1)])
  have "unswitched (b, s) (b1, s1)"
    using obeysD [OF unswitched.obeys_parameters(2) assms(1)] by simp
  with assms(3) have act: "se_active (ba_session b1) = XBPI"
    by (simp add: unswitched_def session_frame_def)
  from read_parameter_session [OF assms(2)] obtain x
    where x: "cached_execute serial_ops READ_PARAMETER (ReadParameterRequest i) (cache_key_parameter i)
        False (ba_session b1) s1 = (Inr x, ba_session b2, s2)" and i: "pe_index entry = i"
    by (auto simp: res_bind_eq_Inr dest!: sym [of "Inr entry"])
  from serial.cached_miss_written [OF x act none] i show ?thesis by auto
qed

theorem write_then_read_asks_device_witness:
  "\<exists>entry b1 s1 b2 s2. read_parameter serial_ops 1 b1 s1 = (Inr entry, b2, s2) \<and>
     pe_current entry = 2 \<and> (\<exists>ws req. st_sent s2 = st_sent s1 @ ws @ [req])"
proof -
  let ?w = "write_parameter serial_ops 1 2 True demo_balance (demo_parameter_device 2)"
  have "case ?w of (r, b1, s1) \<Rightarrow>
      (case read_parameter serial_ops 1 b1 s1 of (q, b2, s2) \<Rightarrow>
         is_ok r \<and> (case q of Inr entry \<Rightarrow> pe_current entry = 2 | Inl e \<Rightarrow> False))"
    by (rule demo_write_read)
  then obtain u b1 s1 entry b2 s2 where w: "?w = (Inr u, b1, s1)"
    and r: "read_parameter serial_ops 1 b1 s1 = (Inr entry, b2, s2)" and c: "pe_current entry = 2"
    by (auto simp: is_ok_def split: prod.splits sum.splits)
  have "se_active (ba_session demo_balance) = XBPI"
    by (simp add: demo_balance_def Balance_def demo_session_def)
  from write_then_read_asks_device [OF w r this] r c show ?thesis by blast
qed

text \<open>The frame of a parameter write.\<close>

definition write_frame :: "session \<Rightarrow> int \<Rightarrow> int \<Rightarrow> bytes \<Rightarrow> bool" where
  "write_frame se i v w \<longleftrightarrow>
     tx_view w = Some (se_src_sbn se, se_dst_sbn se, 0x56,
                       [0x21, byte_of_int i, 0x21, byte_of_int v])"

lemma write_request_frame:
  assumes "session_request WRITE_PARAMETER (WriteParameterRequest i v) se = Inr w"
  shows "write_frame se i v w"
proof -
  from assms have "xv_encode WriteParameterVariant (command_context XBPI se)
      (WriteParameterRequest i v) = Inr w"
    by (simp add: session_request_def command_specs raise_def split: if_splits)
  then show ?thesis
    by (auto simp: WriteParameterVariant_def res_bind_eq_Inr encode_tlv_int_ok_iff
        TLV_TAG_SIZES_def TLV_U8_TAG_def encode_with_def build_command_iff_view write_frame_def
        command_context_def byte_of_int_def)
qed

context transport
begin

lemma write_parameter_written:
  assumes "write_parameter ops i v confirm b s = (r, b', s')"
  shows "written s' = written s \<or>
     confirm \<and> (\<exists>w. write_frame (ba_session b) i v w \<and> written s' = written s @ [w])"
proof -
  obtain q se1 s1 where x: "session_execute ops WRITE_PARAMETER (WriteParameterRequest i v) confirm
      (ba_session b) s = (q, se1, s1)" by (metis prod_cases3)
  with assms have "s' = s1"
    by (cases q) (auto simp: write_parameter_def b_execute_def on_session_def b_bind_def
        update_session_def b_update_def)
  moreover have "confirm" if "gates_open WRITE_PARAMETER confirm se" for se
    using that by (simp add: gates_open_def command_specs)
  ultimately show ?thesis using execute_written [OF x] write_request_frame by blast
qed

lemma set_accessor_written:
  assumes "set_accessor ops name resolved confirm b s = (r, b', s')"
    and "\<And>m. resolved = Inr (PMode m) \<Longrightarrow> enum_call (mode_class m) (mode_val m) = Some m"
  shows "written s' = written s \<or>
     confirm \<and> (\<exists>i sp v w. map_of TYPED_ACCESSOR_INDICES name = Some i \<and>
       get_parameter_spec i = Some sp \<and> 1 \<le> v \<and> v \<le> 24 \<and>
       (\<exists>x. spec_decode sp v = Inr x \<and> \<not> is_unknown_value x) \<and>
       write_frame (ba_session b) i v w \<and> written s' = written s @ [w])"
proof (cases "written s' = written s")
  case False
  with assms(1) obtain sp x v where sp: "accessor_spec name = Inr sp"
    and x: "resolved = Inr x" "spec_encode sp x = Inr v"
    and w: "write_parameter ops (ps_index sp) v confirm b s = (r, b', s')"
    by (auto simp: set_accessor_def b_bind_def b_lift_def set_typed_def split: sum.splits)
  from sp obtain i where i: "map_of TYPED_ACCESSOR_INDICES name = Some i"
    "get_parameter_spec i = Some sp"
    by (auto simp: accessor_spec_def get_parameter_spec_def split: option.splits)
  have "case x of PMode m \<Rightarrow> enum_call (mode_class m) (mode_val m) = Some m | _ \<Rightarrow> True"
    using x assms(2) by (auto split: param_value.split)
  from spec_encode_sound [OF i(2) x(2) this] write_parameter_written [OF w] False i
    get_parameter_spec_Some [OF i(2)]
  show ?thesis by auto
qed simp

end

text \<open>The typed setters with the index they write.\<close>

fun setter_index :: "facade_op \<Rightarrow> int option" where
  "setter_index (FSetFilter m c) = Some 1"
| "setter_index (FSetUnit u c) = Some 7"
| "setter_index (FSetAutoZero m c) = Some 6"
| "setter_index (FSetIsocal m c) = Some 15"
| "setter_index (FSetTare m c) = Some 5"
| "setter_index (FSetMenu m c) = Some 40"
| "setter_index _ = None"

text \<open>An argument that is an enum member is a member of its enum.\<close>

fun member_arg :: "mode_arg \<Rightarrow> bool" where
  "member_arg (ArgMode m) = (enum_call (mode_class m) (mode_val m) = Some m)"
| "member_arg _ = True"

fun setter_arg_ok :: "facade_op \<Rightarrow> bool" where
  "setter_arg_ok (FSetFilter m c) = member_arg m"
| "setter_arg_ok (FSetAutoZero m c) = member_arg m"
| "setter_arg_ok (FSetIsocal m c) = member_arg m"
| "setter_arg_ok (FSetTare m c) = member_arg m"
| "setter_arg_ok (FSetMenu m c) = member_arg m"
| "setter_arg_ok _ = True"


lemma enum_call_member: "enum_call c n = Some m \<Longrightarrow> enum_call (mode_class m) (mode_val m) = Some m"
  using enum_call_val [of c n m] by simp

lemma resolve_enum_member:
  assumes "list_all (alias_ok c) aliases" "resolve_enum c aliases a = Inr m" "member_arg a"
  shows "enum_call (mode_class m) (mode_val m) = Some m"
proof (cases a)
  case (ArgText t)
  with resolve_enum_text [OF assms(1)] assms(2) show ?thesis
    using enum_call_member by blast
qed (use assms enum_call_member in
      \<open>auto simp: resolve_enum_def Let_def raise_ctx_def split: option.splits if_splits\<close>)

lemmas resolve_members =
  resolve_enum_member [OF alias_tables_ok(1)] resolve_enum_member [OF alias_tables_ok(2)]
  resolve_enum_member [OF alias_tables_ok(3)] resolve_enum_member [OF alias_tables_ok(4)]
  resolve_enum_member [OF alias_tables_ok(5)] resolve_enum_member [OF alias_tables_ok(6)]
  resolve_enum_member [OF alias_tables_ok(7)]

text \<open>
  The six typed setters, with any argument (text, integer or member): a setter sends nothing,
  or, only when confirmed, exactly one frame, the write of the parameter it is named after with a
  code between 1 and 24 that the device's table decodes to a value other than \<open>UNKNOWN\<close>.
\<close>

theorem typed_setters_write_known_codes:
  assumes "setter_index q = Some i" and "setter_arg_ok q"
    and "facade_apply serial_ops q (b, s) = (b', s')"
  shows "st_sent s' = st_sent s \<or>
     confirmed q \<and> (\<exists>sp v w. get_parameter_spec i = Some sp \<and> 1 \<le> v \<and> v \<le> 24 \<and>
       (\<exists>x. spec_decode sp v = Inr x \<and> \<not> is_unknown_value x) \<and>
       write_frame (ba_session b) i v w \<and> st_sent s' = st_sent s @ [w])"
proof -
  have mem: "enum_call (mode_class y) (mode_val y) = Some y"
    if "as_mode r = Inr (PMode y)" "\<And>z. r = Inr z \<Longrightarrow> enum_call (mode_class z) (mode_val z) = Some z"
    for r y
    using that by (cases r) (simp_all add: as_mode_def)
  have key: ?thesis
    if "after (set_accessor serial_ops name resolved (confirmed q)) (b, s) = (b', s')"
      "map_of TYPED_ACCESSOR_INDICES name = Some i"
      "\<And>y. resolved = Inr (PMode y) \<Longrightarrow> enum_call (mode_class y) (mode_val y) = Some y"
    for name resolved
  proof -
    from that(1) obtain r where "set_accessor serial_ops name resolved (confirmed q) b s = (r, b', s')"
      by (metis fst_conv prod.collapse snd_conv)
    from serial.set_accessor_written [OF this that(3)] that(2) show ?thesis by fastforce
  qed
  show ?thesis
  proof (cases q)
    case (FSetFilter m c)
    show ?thesis
      by (rule key [of "''filter_mode''" "as_mode (resolve_filter_mode m)"])
        (use FSetFilter assms in \<open>auto simp: set_filter_mode_def TYPED_ACCESSOR_INDICES_def
          resolve_filter_mode_def intro: mem resolve_members\<close>)
  next
    case (FSetAutoZero m c)
    show ?thesis
      by (rule key [of "''auto_zero''" "as_mode (resolve_auto_zero m)"])
        (use FSetAutoZero assms in \<open>auto simp: set_auto_zero_def TYPED_ACCESSOR_INDICES_def
          resolve_auto_zero_def intro: mem resolve_members\<close>)
  next
    case (FSetIsocal m c)
    show ?thesis
      by (rule key [of "''isocal_mode''" "as_mode (resolve_isocal_mode m)"])
        (use FSetIsocal assms in \<open>auto simp: set_isocal_mode_def TYPED_ACCESSOR_INDICES_def
          resolve_isocal_mode_def intro: mem resolve_members\<close>)
  next
    case (FSetTare m c)
    show ?thesis
      by (rule key [of "''tare_behavior''" "as_mode (resolve_tare_behavior m)"])
        (use FSetTare assms in \<open>auto simp: set_tare_behavior_def TYPED_ACCESSOR_INDICES_def
          resolve_tare_behavior_def intro: mem resolve_members\<close>)
  next
    case (FSetMenu m c)
    show ?thesis
      by (rule key [of "''menu_access''" "as_mode (resolve_menu_access m)"])
        (use FSetMenu assms in \<open>auto simp: set_menu_access_def TYPED_ACCESSOR_INDICES_def
          resolve_menu_access_def intro: mem resolve_members\<close>)
  next
    case (FSetUnit u c)
    show ?thesis
      by (rule key [of "''display_unit''" "case u of UnitCode n \<Rightarrow> Inr (PInt n)
          | UnitArg a \<Rightarrow> res_bind (resolve_unit a) (\<lambda>x. Inr (PUnit x))"])
        (use FSetUnit assms in \<open>auto simp: set_display_unit_def TYPED_ACCESSOR_INDICES_def
          res_bind_def split: display_unit_arg.splits sum.splits\<close>)
  qed (use assms(1) in simp_all)
qed

theorem typed_setters_write_known_codes_witness:
  "\<exists>b' s'. facade_apply serial_ops (FSetFilter (ArgText ''stable'') True)
       (demo_balance, demo_parameter_device 2) = (b', s') \<and>
     (\<exists>v w. 1 \<le> v \<and> v \<le> 24 \<and> write_frame (ba_session demo_balance) 1 v w \<and> st_sent s' = [w])"
proof -
  let ?q = "FSetFilter (ArgText ''stable'') True"
  obtain b' s' where r: "facade_apply serial_ops ?q (demo_balance, demo_parameter_device 2) = (b', s')"
    by fastforce
  have "length (st_sent (snd (facade_apply serial_ops ?q (demo_balance, demo_parameter_device 2)))) = 1"
    by (rule demo_setter)
  with r have "st_sent s' \<noteq> []" by auto
  with typed_setters_write_known_codes [OF _ _ r, of 1] r show ?thesis
    by (auto simp: demo_parameter_device_def demo_serial_def)
qed

section \<open>Discovery of temperature sensors\<close>

lemma temperature_sensor:
  "temperature ops n b s = (Inr t, b', s') \<Longrightarrow> tr_sensor t = n"
  by (auto simp: temperature_def b_bind_def b_lift_def split: sum.splits prod.splits)

lemma discover_loop_indices:
  assumes "discover_loop ops left sensor found b s = (Inr ix, b', s')"
  shows "\<exists>ys. ix = found @ ys \<and> sorted_wrt (<) ys \<and> set ys \<subseteq> {sensor ..< sensor + int left}"
  using assms
proof (induction left arbitrary: sensor found b s)
  case (Suc left)
  obtain r b1 s1 where t: "temperature ops sensor b s = (r, b1, s1)" by (metis prod_cases3)
  consider "ix = found" | "discover_loop ops left (sensor + 1) found b1 s1 = (Inr ix, b', s')"
    | "discover_loop ops left (sensor + 1) (found @ [sensor]) b1 s1 = (Inr ix, b', s')"
    using Suc.prems t temperature_sensor [of ops sensor b s] by (auto split: sum.splits if_splits)
  then show ?case
  proof cases
    case 2
    from Suc.IH [OF 2] show ?thesis by force
  next
    case 3
    from Suc.IH [OF 3] obtain ys where ys: "ix = found @ sensor # ys" "sorted_wrt (<) ys"
      "set ys \<subseteq> {sensor + 1 ..< sensor + 1 + int left}" by auto
    then have "sorted_wrt (<) (sensor # ys)" "set (sensor # ys) \<subseteq> {sensor ..< sensor + int (Suc left)}"
      by auto
    with ys(1) show ?thesis by blast
  qed simp
qed simp

context transport
begin

lemma b_execute_bounded:
  "b_execute ops cmd q confirm b s = (r, b', s') \<Longrightarrow> length (written s') \<le> length (written s) + 1"
  by (auto simp: b_execute_def on_session_def dest!: execute_written split: prod.splits)

lemma temperature_bounded:
  "temperature ops n b s = (r, b', s') \<Longrightarrow> length (written s') \<le> length (written s) + 1"
  by (auto simp: temperature_def b_execute_as_def b_bind_def b_lift_def
      dest: b_execute_bounded split: sum.splits prod.splits)

lemma discover_loop_bounded:
  "discover_loop ops left sensor found b s = (r, b', s') \<Longrightarrow>
     length (written s') \<le> length (written s) + left"
proof (induction left arbitrary: sensor found b s)
  case (Suc left)
  obtain q b1 s1 where t: "temperature ops sensor b s = (q, b1, s1)" by (metis prod_cases3)
  consider "s' = s1" | f where "discover_loop ops left (sensor + 1) f b1 s1 = (r, b', s')"
    using Suc.prems t by (auto split: sum.splits if_splits)
  then show ?case using temperature_bounded [OF t] Suc.IH by cases fastforce+
qed simp

end

text \<open>
  Sensor discovery is bounded and orderly: it sends at most one request per index from 0 to
  the given maximum, and the indices it reports are strictly increasing and within that range.
\<close>

theorem sensor_discovery_bounded:
  assumes "discover_temperature_sensors serial_ops m b s = (r, b', s')" and "0 \<le> m"
  shows "length (st_sent s') \<le> length (st_sent s) + nat (m + 1) \<and>
     (\<forall>ix. r = Inr ix \<longrightarrow> sorted_wrt (<) ix \<and> set ix \<subseteq> {0..m})"
proof -
  obtain q b1 s1 where l: "discover_loop serial_ops (nat (m + 1)) 0 [] b s = (q, b1, s1)"
    by (metis prod_cases3)
  with assms have s: "s' = s1" and r: "\<And>ix. r = Inr ix \<Longrightarrow> q = Inr ix"
    by (auto simp: discover_temperature_sensors_def b_bind_def b_lift_def b_update_def
        split: sum.splits)
  from serial.discover_loop_bounded [OF l] s have "length (st_sent s') \<le> length (st_sent s) + nat (m + 1)"
    by simp
  moreover have "sorted_wrt (<) ix \<and> set ix \<subseteq> {0..m}" if "r = Inr ix" for ix
    using discover_loop_indices [of serial_ops _ 0 "[]" b s ix b1 s1] l r [OF that] assms(2) by fastforce
  ultimately show ?thesis by blast
qed

theorem sensor_discovery_bounded_witness:
  "\<exists>r b' s'. discover_temperature_sensors serial_ops 3 demo_balance (demo_serial [] (\<lambda>_. [])) = (r, b', s') \<and>
     length (st_sent s') \<le> 4"
proof -
  obtain r b' s' where d: "discover_temperature_sensors serial_ops 3 demo_balance
      (demo_serial [] (\<lambda>_. [])) = (r, b', s')" by (metis prod_cases3)
  from sensor_discovery_bounded [OF d] d show ?thesis by (auto simp: demo_serial_def)
qed

section \<open>Metrology and identity\<close>

lemma parameter_7: "accessor_spec ''display_unit'' = Inr (spec 7 ''display_unit'' None True True ALL_FAMILIES)"
  by (simp add: accessor_spec_def TYPED_ACCESSOR_INDICES_def PARAMETER_TABLE_def)

context transport
begin

lemma read_parameter_typed:
  assumes "read_parameter ops i b s = (r, b', s')"
    and "cache_typed (cache_key_parameter i) TParameter (ba_session b)"
  shows "\<forall>e. r = Inl e \<longrightarrow> exn_is e SartoriusError"
proof -
  from read_parameter_session [OF assms(1)] obtain q
    where q: "cached_execute ops READ_PARAMETER (ReadParameterRequest i) (cache_key_parameter i)
        False (ba_session b) s = (q, ba_session b', s')"
      and r: "r = res_bind q (\<lambda>x. res_bind (as_parameter x) (\<lambda>en. Inr (en\<lparr>pe_index := i\<rparr>)))"
    by blast
  have "exn_is e SartoriusError" if "q = Inl e" for e
    using cached_package_error [of "bind_request READ_PARAMETER (ReadParameterRequest i)"]
      q that declared.intros(15) by (simp add: cached_bind_request)
  moreover have "\<exists>en. x = RParameter en" if "q = Inr x" for x
    using cached_type [OF q commands_decode(15) assms(2)] that by (cases x) auto
  ultimately show ?thesis using r by (cases q) auto
qed

lemma display_unit_typed:
  assumes "get_display_unit ops b s = (r, b', s')"
    and "cache_typed (cache_key_parameter 7) TParameter (ba_session b)"
  shows "(\<exists>u. r = Inr (PUnit u)) \<or> (\<exists>e. r = Inl e \<and> exn_is e SartoriusError)"
proof -
  obtain q b1 s1 where q: "read_parameter ops 7 b s = (q, b1, s1)" by (metis prod_cases3)
  with assms(1) have "r = res_bind q (\<lambda>en. spec_decode (spec 7 ''display_unit'' None True True
      ALL_FAMILIES) (pe_current en))"
    by (cases q) (auto simp: get_display_unit_def get_accessor_def parameter_7 b_bind_def b_lift_def
        get_typed_def spec_def)
  with read_parameter_typed [OF q assms(2)] show ?thesis
    by (cases q) (auto simp: spec_decode_def spec_def)
qed

lemma resolve_unit_total:
  assumes "cache_typed (cache_key_parameter 7) TParameter (ba_session b)"
  shows "\<exists>u b' s'. resolve_metrology_unit ops raw b s = (Inr \<lparr>q_value = q_value raw, q_unit = u\<rparr>, b', s') \<and>
     (q_unit raw \<noteq> U_UNKNOWN \<longrightarrow> u = q_unit raw \<and> b' = b \<and> s' = s)"
proof (cases "q_unit raw = U_UNKNOWN")
  case False
  then show ?thesis by (simp add: resolve_metrology_unit_def b_lift_def)
next
  case True
  obtain q b1 s1 where q: "get_display_unit ops b s = (q, b1, s1)" by (metis prod_cases3)
  from display_unit_typed [OF q assms] True q show ?thesis
    by (cases raw) (auto simp: resolve_metrology_unit_def b_try_def b_bind_def b_lift_def)
qed

end

text \<open>
  Reading capacity or increment never fails because of the display unit: once the value has
  been read, the call returns that value, with the display unit when it can be read and without
  a unit otherwise; a value that comes with a unit is returned as it is, without further
  requests.
\<close>

theorem metrology_value_survives:
  assumes "cmd = READ_CAPACITY \<and> call = capacity serial_ops area \<and> prefix = ''capacity:'' \<or>
     cmd = READ_INCREMENT \<and> call = increment serial_ops area \<and> prefix = ''increment:''"
    and "b_cached serial_ops cmd (MetrologyRequest area) (prefix @ int_text area) b s
       = (Inr (RQuantity q), b1, s1)"
    and "cache_typed (cache_key_parameter 7) TParameter (ba_session b1)"
  shows "\<exists>u b' s'. call b s = (Inr \<lparr>q_value = q_value q, q_unit = u\<rparr>, b', s') \<and>
     (q_unit q \<noteq> U_UNKNOWN \<longrightarrow> u = q_unit q \<and> st_sent s' = st_sent s1)"
proof -
  from serial.resolve_unit_total [OF assms(3), of q s1] obtain u b' s'
    where r: "resolve_metrology_unit serial_ops q b1 s1 = (Inr \<lparr>q_value = q_value q, q_unit = u\<rparr>, b', s')"
      and k: "q_unit q \<noteq> U_UNKNOWN \<longrightarrow> u = q_unit q \<and> b' = b1 \<and> s' = s1" by blast
  have "call b s = resolve_metrology_unit serial_ops q b1 s1"
    using assms(1,2) by (auto simp: capacity_def increment_def b_bind_def b_lift_def)
  with r k show ?thesis by auto
qed

theorem metrology_value_survives_witness:
  "\<exists>v u b' s'. capacity serial_ops 0 demo_balance demo_capacity_device
       = (Inr \<lparr>q_value = v, q_unit = u\<rparr>, b', s')"
proof -
  let ?x = "b_cached serial_ops READ_CAPACITY (MetrologyRequest 0) (''capacity:'' @ int_text 0)
      demo_balance demo_capacity_device"
  have "case fst ?x of Inr (RQuantity q) \<Rightarrow> True | _ \<Rightarrow> False"
    by (rule demo_capacity)
  then obtain q b1 s1 where x: "?x = (Inr (RQuantity q), b1, s1)"
    by (cases ?x) (auto split: sum.splits response.splits)
  have "se_result_cache (ba_session demo_balance) = (\<lambda>_. None)"
    by (simp add: demo_balance_def Balance_def demo_session_def)
  moreover have "CONFIG_COUNTER \<notin> se_capabilities (ba_session demo_balance)"
    by (simp add: demo_balance_def Balance_def demo_session_def)
  then have "se_result_cache (ba_session b1) = se_result_cache (ba_session demo_balance)"
    using x by (auto simp: b_cached_def on_session_def cached_execute_def dest: execute_cache
        split: prod.splits)
  ultimately have "cache_typed (cache_key_parameter 7) TParameter (ba_session b1)"
    by (simp add: cache_typed_def)
  from metrology_value_survives [OF _ x this, of "capacity serial_ops 0"] show ?thesis by auto
qed

text \<open>
  \<open>identify\<close> records exactly what it returns: the balance keeps the snapshot, its family is
  the classification of its model, the session takes over family and capabilities, the protocol
  and the port settings are the session's, and no capability is claimed beyond those of the
  family, SBI support and the probed configuration counter. When it fails, the snapshot of
  before is kept.
\<close>

theorem identify_records_identity:
  assumes "identify ops b s = (r, b', s')"
  shows "case r of Inl e \<Rightarrow> ba_info b' = ba_info b
     | Inr i \<Rightarrow> identity_recorded i b' \<and>
         di_serial_settings i = (case se_serial_settings (ba_session b) of
            None \<Rightarrow> placeholder_serial_settings | Some st \<Rightarrow> st) \<and>
         sn_model (snapshot b') = Some (di_model i) \<and>
         sn_capabilities (snapshot b') = se_capabilities (ba_session b')"
  using identify_records [OF assms]
  by (auto simp: snapshot_def Let_def identity_recorded_def split: sum.splits)

theorem identify_records_identity_witness:
  "\<exists>i b' s'. identify serial_ops (Balance demo_sbi_session None) demo_identity_device = (Inr i, b', s') \<and>
     identity_recorded i b' \<and> di_family i = CUBIS"
proof -
  let ?x = "identify serial_ops (Balance demo_sbi_session None) demo_identity_device"
  have "case fst ?x of Inr i \<Rightarrow> di_family i = CUBIS | Inl e \<Rightarrow> False"
    by (rule demo_identify)
  then obtain i b' s' where x: "?x = (Inr i, b', s')" and f: "di_family i = CUBIS"
    by (cases ?x) (auto split: sum.splits)
  from identify_records_identity [OF x] x f show ?thesis by simp
qed

section \<open>A balance that prints by itself\<close>

text \<open>The lines still to be handed out: those the client holds, then those on the port.\<close>

definition lines_ahead :: "('s \<Rightarrow> bytes) \<Rightarrow> sbi_client \<Rightarrow> 's \<Rightarrow> bytes list \<Rightarrow> bytes \<Rightarrow> bool" where
  "lines_ahead ready_of c s ls rest \<longleftrightarrow>
     (\<exists>held. list_all crlf_line held \<and> sc_pending c @ held = ls \<and> ready_of s = concat held @ rest)"

text \<open>A line that parses without a refusal but carries no weight.\<close>

definition without_weight :: "bytes \<Rightarrow> bool" where
  "without_weight l \<longleftrightarrow>
     (case reply_outcome l ''sbi_autoprint'' None of
        Inl e \<Rightarrow> False | Inr reply \<Rightarrow> \<not> is_ok (require_reading reply))"

definition carries_weight :: "bytes \<Rightarrow> Reading \<Rightarrow> bool" where
  "carries_weight l reading \<longleftrightarrow>
     (case reply_outcome l ''sbi_autoprint'' None of
        Inl e \<Rightarrow> False | Inr reply \<Rightarrow> require_reading reply = Inr reading)"

context transport
begin

lemma read_line_ahead:
  assumes "lines_ahead ready c s (l # ls) rest" and "usable s" and "\<not> sc_disposed c"
    and "reply_outcome l nm None = Inr reply"
  shows "\<exists>c' s'. sbi_read_line ops nm c s = (Inr reply, c', s') \<and>
     lines_ahead ready c' s' ls rest \<and> usable s' \<and> \<not> sc_disposed c'"
proof -
  from reply_outcome_ok [OF assms(4)] have ok: "is_ok (parse_reply l)" by simp
  from assms(1) obtain held where h: "list_all crlf_line held" "sc_pending c @ held = l # ls"
    "ready s = concat held @ rest" by (auto simp: lines_ahead_def)
  show ?thesis
  proof (cases "sc_pending c")
    case (Cons x xs)
    with h assms ok show ?thesis
      by (auto simp: sbi_read_line_def sbi_raise_if_disposed_def parse_or_drain_outcome
          lines_ahead_def)
  next
    case Nil
    with h(1,2) have "held = l # ls" "crlf_line l" by auto
    with read_until_crlf [OF assms(2), of l "concat ls @ rest"] h(3)
    obtain s' where "tp_read_until ops LINE_TERMINATOR s = (Inr l, s')" "ready s' = concat ls @ rest"
      "usable s'" by auto
    with Nil h assms ok \<open>held = l # ls\<close> show ?thesis
      by (auto simp: sbi_read_line_def sbi_raise_if_disposed_def parse_or_drain_outcome
          lines_ahead_def)
  qed
qed

lemma autoprint_loop_finds:
  assumes "lines_ahead ready c s (junk @ w # later) rest" and "usable s" and "\<not> sc_disposed c"
    and "list_all without_weight junk" and "carries_weight w reading" and "length junk \<le> ticks"
  shows "\<exists>c' s'. autoprint_reading_loop ops ticks c s = (Inr reading, c', s') \<and>
     lines_ahead ready c' s' later rest \<and> sc_autoprint_active c' \<and> usable s' \<and>
     \<not> sc_disposed c'"
  using assms
proof (induction junk arbitrary: c s ticks)
  case Nil
  then obtain reply where r: "reply_outcome w ''sbi_autoprint'' None = Inr reply"
    "require_reading reply = Inr reading" by (auto simp: carries_weight_def split: sum.splits)
  from read_line_ahead [OF _ Nil.prems(2,3) r(1), of later rest] Nil.prems(1) obtain c' s'
    where "sbi_read_line ops ''sbi_autoprint'' c s = (Inr reply, c', s')"
      "lines_ahead ready c' s' later rest" "usable s'" "\<not> sc_disposed c'" by auto
  with r(2) show ?case
    by (subst autoprint_reading_loop.simps)
      (auto simp: lines_ahead_def mark_autoprint_active_def)
next
  case (Cons j junk)
  then obtain reply where r: "reply_outcome j ''sbi_autoprint'' None = Inr reply"
    and q: "\<not> is_ok (require_reading reply)" by (auto simp: without_weight_def split: sum.splits)
  then obtain e where e: "require_reading reply = Inl e" by (cases "require_reading reply") auto
  with parse_error_is_frame_or_parse(2) have pe: "exn_is e SartoriusParseError" by blast
  from Cons.prems(6) obtain left where t: "ticks = Suc left" "length junk \<le> left"
    by (cases ticks) auto
  from read_line_ahead [OF _ Cons.prems(2,3) r, of "junk @ w # later" rest] Cons.prems(1)
  obtain c1 s1 where l: "sbi_read_line ops ''sbi_autoprint'' c s = (Inr reply, c1, s1)"
    and n: "lines_ahead ready c1 s1 (junk @ w # later) rest" "usable s1" "\<not> sc_disposed c1" by auto
  from Cons.IH [OF n _ Cons.prems(5) t(2)] Cons.prems(4) l e pe t(1) show ?case
    by (subst autoprint_reading_loop.simps) auto
qed

lemma poll_finds:
  assumes "se_active (ba_session b) = SBI" and "se_sbi (ba_session b) = Some c"
    and "sc_autoprint_active c" and "\<not> sc_disposed c" and "usable s"
    and "lines_ahead ready c s (junk @ w # later) rest"
    and "list_all without_weight junk" and "carries_weight w reading" and "length junk \<le> ticks"
  shows "\<exists>b' c' s'. poll ops ticks b s = (Inr (RReading reading), b', s') \<and>
     se_sbi (ba_session b') = Some c' \<and> lines_ahead ready c' s' later rest \<and>
     written s' = written s"
proof -
  from autoprint_loop_finds [OF assms(6,5,4,7-9)] obtain c' s'
    where l: "autoprint_reading_loop ops ticks c s = (Inr reading, c', s')"
      and n: "lines_ahead ready c' s' later rest" by blast
  from autoprint_loop_written [OF l] have "written s' = written s" .
  with l n assms(1-3) show ?thesis
    by (simp add: poll_def b_bind_def b_get_def b_lift_def on_session_def sbi_autoprint_active_def
        read_sbi_autoprint_reading_def require_sbi_client_def)
qed

end

text \<open>
  C29. On a balance that prints by itself, \<open>poll\<close> does return: when the lines waiting in the client
  and on the port are some lines without a weight and then a weight line, and the deadline leaves
  time for as many checks as there are lines before it, \<open>poll\<close> returns the reading of that line,
  having consumed exactly the lines up to it and sent nothing.
\<close>

theorem poll_returns_printed_weight:
  assumes "se_active (ba_session b) = SBI" and "se_sbi (ba_session b) = Some c"
    and "sc_autoprint_active c" and "\<not> sc_disposed c" and "st_port s"
    and "lines_ahead serial_ready c s (junk @ w # later) rest"
    and "list_all without_weight junk" and "carries_weight w reading" and "length junk \<le> ticks"
  shows "\<exists>b' c' s'. poll serial_ops ticks b s = (Inr (RReading reading), b', s') \<and>
     se_sbi (ba_session b') = Some c' \<and> lines_ahead serial_ready c' s' later rest \<and>
     st_sent s' = st_sent s"
  by (rule serial.poll_finds [OF assms])

definition printing_balance :: balance where
  "printing_balance =
     Balance (demo_sbi_session\<lparr>se_sbi := Some (SbiProtocolClient\<lparr>sc_autoprint_active := True\<rparr>)\<rparr>) None"

theorem poll_returns_printed_weight_witness:
  "\<exists>reading b' s'. poll serial_ops 1 printing_balance (demo_serial [RxChunk
       (ascii_lit ''MSE1203S'' @ [13, 10] @ ascii_lit ''N     +   12.345 g  '' @ [13, 10])] (\<lambda>_. []))
     = (Inr (RReading reading), b', s') \<and> rd_unit reading = U_G"
proof -
  let ?j = "ascii_lit ''MSE1203S'' @ [13, 10]" and ?w = "ascii_lit ''N     +   12.345 g  '' @ [13, 10]"
  let ?s = "demo_serial [RxChunk (?j @ ?w)] (\<lambda>_. [])"
  let ?c = "SbiProtocolClient\<lparr>sc_autoprint_active := True\<rparr>"
  have "case reply_outcome ?w ''sbi_autoprint'' None of Inl e \<Rightarrow> False
      | Inr reply \<Rightarrow> (case require_reading reply of Inl e \<Rightarrow> False | Inr rd \<Rightarrow> rd_unit rd = U_G)"
    by code_simp
  then obtain rd where rd: "carries_weight ?w rd" "rd_unit rd = U_G"
    by (auto simp: carries_weight_def split: sum.splits)
  have j: "without_weight ?j" by code_simp
  have "crlf_line ?j" "crlf_line ?w" by code_simp+
  then have "lines_ahead serial_ready ?c ?s ([?j] @ ?w # []) []"
    unfolding lines_ahead_def
    by (intro exI [where x = "[?j, ?w]"])
      (simp add: SbiProtocolClient_def serial_ready_def demo_serial_def)
  from poll_returns_printed_weight [OF _ _ _ _ _ this _ rd(1), of printing_balance 1] j rd(2)
  show ?thesis
    by (auto simp: printing_balance_def Balance_def demo_sbi_session_def demo_serial_def
        SbiProtocolClient_def)
qed

section \<open>The strict mode and the counter\<close>

text \<open>
  In strict mode the probe for the configuration counter never reaches the device: the command
  carries the very capability the probe is to establish as a prior, so the gate refuses it.
\<close>

lemma strict_probe_sees_nothing:
  assumes "se_strict (ba_session b)" and "CONFIG_COUNTER \<notin> se_capabilities (ba_session b)"
  shows "probe_dispatch_capabilities ops b s = (Inr {}, b, s)"
proof -
  have "\<not> gates_open CONFIG_COUNTER_CMD False (ba_session b)"
    using assms by (simp add: gates_open_def priors_ok_def command_specs NO_CAPABILITY_def)
  moreover obtain r se' s' where
    x: "session_execute ops CONFIG_COUNTER_CMD SystemRequest False (ba_session b) s = (r, se', s')"
    by (metis prod_cases3)
  ultimately obtain e where e: "r = Inl e" "se' = ba_session b" "s' = s"
    using gates_closed [of CONFIG_COUNTER_CMD False "ba_session b" ops SystemRequest s] by auto
  with x have "session_execute ops CONFIG_COUNTER_CMD SystemRequest False (ba_session b) s
      = (Inl e, ba_session b, s)" by simp
  moreover from this have "exn_is e SartoriusError"
    using assms \<open>\<not> gates_open _ _ _\<close> unfolding session_execute_def
    by (auto dest: gate_errors split: sum.splits prod.splits if_splits simp: raise_def
        gates_open_def gate_priors_def raise_ctx_def priors_ok_def command_specs NO_CAPABILITY_def)
  ultimately show ?thesis
    by (auto simp: probe_dispatch_capabilities_def b_bind_def b_get_def b_lift_def
        without_warnings_def b_try_def b_execute_def on_session_def)
qed

end
