(* ===== verification/Opening.thy ===== *)
theory Opening
  imports Factory Balance_Props
begin

text \<open>
  What opening a device promises: which states of the port it can leave behind, what it may
  write, how often it retries, and that it loses nothing a printing balance sends meanwhile.
\<close>

section \<open>Opening and closing\<close>

text \<open>
  The life cycle of a transport, over the view \<open>opened\<close>: the transport holds a port. A port that
  has died is still held, although \<open>is_open\<close> already denies it.
\<close>

locale lifecycle = transport +
  fixes opened :: "'a \<Rightarrow> bool"
  assumes opened_write: "tp_write ops d s = (w, s') \<Longrightarrow> opened s' = opened s"
    and opened_read_exact: "tp_read_exact ops n s = (r, s') \<Longrightarrow> opened s' = opened s"
    and opened_read_until: "tp_read_until ops sep s = (r, s') \<Longrightarrow> opened s' = opened s"
    and opened_drain: "opened (tp_drain_input ops s) = opened s"
    and is_open_opened: "tp_is_open ops s \<Longrightarrow> opened s"
    and open_ok: "tp_open ops s = (Inr u, s') \<Longrightarrow> opened s'"
    and open_fails: "tp_open ops s = (Inl e, s') \<Longrightarrow> tp_is_open ops s' = tp_is_open ops s"
    and open_error: "tp_open ops s = (Inl e, s') \<Longrightarrow> exn_is e SartoriusTransportError"
    and open_written: "tp_open ops s = (w, s') \<Longrightarrow> written s' = written s"
    and close_closed: "\<not> tp_is_open ops (tp_close ops s)"
    and close_written: "written (tp_close ops s) = written s"

sublocale lifecycle \<subseteq> held: io_relation ops "\<lambda>s s'. opened s' = opened s"
  by unfold_locales
    (auto dest: opened_write opened_read_exact opened_read_until simp: opened_drain)

lemma serial_io_port:
  "serial_write d s = (u, s') \<Longrightarrow> st_port s' = st_port s"
  "serial_read_exact n s = (r, s') \<Longrightarrow> st_port s' = st_port s"
  "serial_read_until sep s = (r, s') \<Longrightarrow> st_port s' = st_port s"
  "st_port (serial_drain_input s) = st_port s"
  by (auto simp: serial_write_def serial_read_exact_def serial_read_until_def
      serial_drain_input_def serial_error_def raise_ctx_def Let_def
      split: if_splits recv_end.splits tx_outcome.splits list.splits prod.splits option.splits)

lemma serial_open_port:
  "serial_open s = (Inr u, s') \<Longrightarrow> st_port s'"
  "serial_open s = (Inl e, s') \<Longrightarrow> exn_is e SartoriusTransportError"
  "serial_open s = (Inl e, s') \<Longrightarrow> serial_is_open s' = serial_is_open s"
  by (auto simp: serial_open_def serial_error_def raise_ctx_def Let_def serial_is_open_def subclass_simps
      split: if_splits open_outcome.splits)

interpretation serial_life: lifecycle serial_ops st_sent serial_ready serial_pending st_port st_port
  by unfold_locales
    (auto simp: serial_ops_def serial_is_open_def serial_close_def serial_io_port(4)
      dest: serial_io_port(1-3) serial_open_port [unfolded serial_is_open_def] serial_open_settings)

interpretation fake_life:
  lifecycle fake_ops fk_writes fk_read_buffer fk_read_buffer fake_usable fk_is_open
  by unfold_locales
    (auto simp: fake_defs fake_open_def fake_close_def raise_ctx_def subclass_simps
      split: if_splits option.splits ScriptedReply.splits)

section \<open>What an open may write\<close>

lemma harmless_probe: "list_all harmless (xbpi_probe src dst @ [TOKEN_TYPE, TOKEN_PRINT])"
proof -
  have "build_command XBPI_PROBE_OPCODE [] src dst = Inr w \<Longrightarrow> harmless w" for w
    by (erule harmless_frame) (use safe_opcodes in \<open>simp add: XBPI_PROBE_OPCODE_def\<close>)
  with safe_tokens show ?thesis by (auto simp: xbpi_probe_def harmless_token split: sum.split)
qed

context transport
begin

lemma sniff_loop_written: "sniff_loop ops m ticks c s = (r, c', s') \<Longrightarrow> written s' = written s"
proof (induction ticks arbitrary: c s)
  case (Suc ticks)
  obtain q s1 where q: "tp_read_until ops LINE_TERMINATOR s = (q, s1)" by fastforce
  have "s' = s \<or> s' = s1 \<or> (\<exists>c1. sniff_loop ops m ticks c1 s1 = (r, c', s'))"
    using Suc.prems q by (auto simp: Let_def split: sum.splits if_splits)
  with read_until_written [OF q] Suc.IH show ?case by auto
qed simp

lemma detect_autoprint_written:
  "detect_autoprint ops m ticks c s = (r, c', s') \<Longrightarrow> written s' = written s"
  by (auto simp: detect_autoprint_def dest: sniff_loop_written
      split: if_splits sum.splits prod.splits)

end

sublocale transport \<subseteq> harmless_retry: retry_relation ops False
  "\<lambda>x y. \<exists>ws. written (snd y) = written (snd x) @ ws \<and> list_all harmless ws"
  by (rule retry_relation.intro [OF harmless.balance_relation_axioms])
    (rule retry_relation_axioms.intro, rule exI [where x = "[]"], simp)

sublocale transport \<subseteq> harmless_opening: opening_relation ops
  "\<lambda>s s'. \<exists>ws. written s' = written s @ ws \<and> list_all harmless ws"
proof (unfold_locales, goal_cases)
  case (2 x y z)
  then show ?case by (metis append.assoc list_all_append)
next
  case (3 ticks src dst s d s')
  from detect_writes [OF 3] obtain ws where w: "written s' = written s @ ws"
    "subseq ws (xbpi_probe src dst @ [TOKEN_TYPE, TOKEN_PRINT])" by blast
  obtain N where "ws = nths (xbpi_probe src dst @ [TOKEN_TYPE, TOKEN_PRINT]) N"
    using w(2) by (auto simp: subseq_conv_nths)
  with harmless_probe [of src dst] set_nths_subset have "list_all harmless ws"
    unfolding list_all_iff by fast
  with w(1) show ?case by blast
next
  case (4 m ticks c s u c' s')
  then show ?case using detect_autoprint_written by (intro exI [where x = "[]"]) simp
next
  case (5 left b s r b' s')
  from obeysD [OF harmless_retry.obeys_cold_open 5] show ?case by simp
qed auto

section \<open>What an open leaves behind\<close>

text \<open>The session of a balance that was just opened.\<close>

definition opened_balance :: "open_options \<Rightarrow> SerialSettings \<Rightarrow> balance \<Rightarrow> bool" where
  "opened_balance opts settings b \<longleftrightarrow>
     session_wf (ba_session b) \<and> se_state (ba_session b) = OPERATIONAL \<and>
     (oo_protocol opts = AUTO \<or> se_active (ba_session b) = oo_protocol opts) \<and>
     se_serial_settings (ba_session b) = Some settings \<and> ba_retired b = [] \<and>
     se_recoverable_error_count (ba_session b) \<in> {0..int COLD_OPEN_MAX_RETRIES} \<and>
     (if oo_identify opts then \<exists>i. ba_info b = Some i \<and> identity_recorded i b
      else ba_info b = None \<and> se_recoverable_error_count (ba_session b) = 0)"

lemma frame_wf:
  assumes "session_frame se se'" "session_wf se"
  shows "session_wf se'"
proof -
  have "map_option sc_disposed (se_sbi se') = map_option sc_disposed (se_sbi se)"
    using assms(1) by (simp add: session_frame_def)
  then have "se_sbi se' = None \<longleftrightarrow> se_sbi se = None" by (metis option.map_disc_iff)
  with assms show ?thesis by (simp add: session_wf_iff session_frame_def)
qed

lemma Session_fresh:
  assumes "Session x y p f c w src dst strict st = Inr se"
  shows "session_wf se \<and> se_state se = OPERATIONAL \<and> se_active se = p \<and> se_serial_settings se = st \<and>
     se_recoverable_error_count se = 0 \<and> se_xbpi se = x \<and> se_sbi se = y"
  using assms by (auto simp: Session_def res_bind_eq_Inr session_wf_def)

lemma cold_open_identified:
  assumes "cold_open_loop ops left b s = (Inr u, b', s')"
  shows "(\<exists>i. ba_info b' = Some i \<and> identity_recorded i b') \<and> (\<exists>k \<le> left. retried k b b')"
  using assms
proof (cases rule: cold_open_cases)
  case (settled k b1 s1 q)
  then obtain i where q: "q = Inr i" by (cases q) (simp_all add: res_bind_def)
  from identify_records [OF settled(3)] q have "identity_recorded i b'" by simp
  moreover from this have "ba_info b' = Some i" unfolding identity_recorded_def by (rule conjunct1)
  ultimately have "ba_info b' = Some i \<and> identity_recorded i b'" by blast
  with cold_open_retried [OF assms] show ?thesis by auto
qed simp

lemma open_balance_opened:
  assumes "open_balance ops opts settings ticks s = (Inr b, s')"
  shows "opened_balance opts settings b"
proof -
  from assms obtain resolved detection s1 x y y' s2 se
    where p: "resolve_protocol ops (oo_protocol opts) ticks (oo_src_sbn opts) (oo_dst_sbn opts) s
        = (Inr (resolved, detection), s1)"
      and se: "Session x y' resolved FAMILY_UNKNOWN NO_CAPABILITY None (oo_src_sbn opts)
        (oo_dst_sbn opts) (oo_strict opts) (Some settings) = Inr se"
      and b: "if oo_identify opts
        then identify_with_cold_open_retry ops (Balance se None) s2 = (Inr (), b, s')
        else b = Balance se None"
    by (auto simp: open_balance_def raise_ctx_def split: sum.splits prod.splits if_splits)
  have active: "oo_protocol opts = AUTO \<or> resolved = oo_protocol opts"
    using p by (auto simp: resolve_protocol_def split: if_splits)
  note fresh = Session_fresh [OF se]
  show ?thesis
  proof (cases "oo_identify opts")
    case False
    with b fresh active show ?thesis by (auto simp: opened_balance_def Balance_def)
  next
    case True
    with b have "cold_open_loop ops COLD_OPEN_MAX_RETRIES (Balance se None) s2 = (Inr (), b, s')"
      by (simp add: identify_with_cold_open_retry_def)
    from cold_open_identified [OF this] obtain i k where i: "ba_info b = Some i" "identity_recorded i b"
      and k: "k \<le> COLD_OPEN_MAX_RETRIES" "retried k (Balance se None) b" by blast
    let ?se = "se\<lparr>se_recoverable_error_count := int k\<rparr>"
    from k(2) fresh have f: "session_frame ?se (ba_session b)" "ba_retired b = []"
      by (simp_all add: retried_def Balance_def)
    from fresh have "session_wf se" by blast
    then have "session_wf ?se" by (simp add: session_wf_def)
    with frame_wf [OF f(1)] have wf: "session_wf (ba_session b)" by blast
    have "se_state (ba_session b) = OPERATIONAL" "se_active (ba_session b) = resolved"
      "se_serial_settings (ba_session b) = Some settings"
      "se_recoverable_error_count (ba_session b) = int k"
      using f(1) fresh by (simp_all add: session_frame_def)
    with wf i k(1) f(2) active True show ?thesis unfolding opened_balance_def by auto
  qed
qed

context lifecycle
begin

lemma open_device_leaves:
  assumes "open_device ops connect port opts ticks = (r, t)"
  shows "case t of
       None \<Rightarrow> fails_with SartoriusValidationError r
     | Some s' \<Rightarrow>
         (\<exists>s settings ws. resolve_transport ops connect port (oo_settings opts) = Inr (s, settings) \<and>
            written s' = written s @ ws \<and> list_all harmless ws \<and>
            (case r of Inl e \<Rightarrow> \<not> tp_is_open ops s'
             | Inr b \<Rightarrow> opened s' \<and> opened_balance opts settings b))"
proof (cases "resolve_transport ops connect port (oo_settings opts)")
  case (Inl e)
  with assms show ?thesis
    by (auto simp: open_device_def resolve_transport_def raise_ctx_def Let_def subclass_simps
        split: port_arg.splits if_splits)
next
  case (Inr x)
  obtain s settings where x: "x = (s, settings)" by fastforce
  obtain u s1 where o: "(if tp_is_open ops s then (Inr (), s) else tp_open ops s) = (u, s1)"
    by fastforce
  have w1: "written s1 = written s" using o open_written by (auto split: if_splits)
  show ?thesis
  proof (cases u)
    case (Inl e)
    with o have "\<not> tp_is_open ops s1" using open_fails by (auto split: if_splits)
    with assms Inr x o Inl w1 show ?thesis by (auto simp: open_device_def)
  next
    case (Inr v)
    then have "opened s1" using o open_ok is_open_opened by (auto split: if_splits)
    obtain q s2 where q: "open_balance ops opts settings ticks s1 = (q, s2)" by fastforce
    from harmless_opening.P_open_balance [OF q] obtain ws
      where ws: "written s2 = written s1 @ ws" "list_all harmless ws" by blast
    have "opened s2" using held.opening_io.P_open_balance [OF q] \<open>opened s1\<close> by simp
    with assms \<open>resolve_transport _ _ _ _ = _\<close> x o Inr q w1 ws open_balance_opened [of ops opts]
      close_closed close_written
    show ?thesis by (cases q) (auto simp: open_device_def)
  qed
qed

end

section \<open>Properties\<close>

text \<open>What the code computes in the examples, evaluated once for all witnesses.\<close>

definition demo_connect :: "rx_event list \<Rightarrow> SerialSettings \<Rightarrow> serial_transport" where
  "demo_connect rx settings =
     (demo_serial rx (\<lambda>_. []))\<lparr>st_settings := settings, st_port := False\<rparr>"

definition demo_junk :: bytes where "demo_junk = ascii_lit ''MSE1203S'' @ [13, 10]"

definition demo_weight :: bytes where "demo_weight = ascii_lit ''N     +   12.345 g  '' @ [13, 10]"

definition demo_printout :: bytes where "demo_printout = demo_junk @ demo_weight"

lemma opening_evaluations:
  "(case open_device serial_ops (demo_connect []) (PortPath ''/dev/ttyUSB0'') default_open_options 0 of
      (Inl e, Some s') \<Rightarrow> True | _ \<Rightarrow> False) \<and>
   (case identify_with_cold_open_retry serial_ops demo_balance (demo_serial [] (\<lambda>_. [])) of
      (r, b', s') \<Rightarrow> fails_with SartoriusConnectionError r \<and> length (st_sent s') = 4 \<and>
        se_recoverable_error_count (ba_session b') = 4) \<and>
   (case reply_outcome demo_weight ''sbi_autoprint'' None of
      Inl e \<Rightarrow> False
    | Inr reply \<Rightarrow> (case require_reading reply of Inl e \<Rightarrow> False | Inr rd \<Rightarrow> rd_unit rd = U_G)) \<and>
   crlf_line demo_weight \<and> complete_line demo_weight \<and> is_autoprint_line demo_weight \<and>
   crlf_line demo_junk \<and> \<not> is_autoprint_line demo_junk"
  by code_simp

lemmas demo_open = opening_evaluations [THEN conjunct1]
lemmas demo_cold_open = opening_evaluations [THEN conjunct2, THEN conjunct1]
lemmas demo_weight_printed = opening_evaluations [THEN conjunct2, THEN conjunct2]



text \<open>
  The attempts to identify on a fresh port: at most three transient errors are swallowed, each
  counted once in the session; the call ends with the result of the first attempt that does not
  end in a transient error, or, after the fourth, with a connection error.
\<close>

theorem cold_open_retries_bounded:
  assumes "identify_with_cold_open_retry ops b s = (r, b', s')"
  shows "(\<exists>k b1 s1 q. k \<le> 3 \<and> transients ops k (b, s) = Some (b1, s1) \<and>
       identify ops b1 s1 = (q, b', s') \<and> \<not> fails_with SartoriusTransientTransportError q \<and>
       r = res_bind q (\<lambda>_. Inr ()) \<and> retried k b b') \<or>
     (transients ops 4 (b, s) = Some (b', s') \<and> fails_with SartoriusConnectionError r \<and> retried 4 b b')"
proof -
  have l: "cold_open_loop ops 3 b s = (r, b', s')"
    using assms by (simp add: identify_with_cold_open_retry_def COLD_OPEN_MAX_RETRIES_def)
  then show ?thesis
  proof (cases rule: cold_open_cases)
    case (settled k b1 s1 q)
    with transients_retried [OF settled(2)] identify_retried [OF settled(3)]
    have "retried k b b'" by (simp add: retried_def session_frame_def)
    with settled show ?thesis by blast
  next
    case exhausted
    with transients_retried [OF exhausted(1)] show ?thesis by (simp add: eval_nat_numeral)
  qed
qed

theorem cold_open_retries_bounded_witness:
  "\<exists>r b' s'. identify_with_cold_open_retry serial_ops demo_balance (demo_serial [] (\<lambda>_. [])) = (r, b', s') \<and>
     fails_with SartoriusConnectionError r \<and>
     se_recoverable_error_count (ba_session b') = 4 \<and> length (st_sent s') = 4"
proof -
  let ?x = "identify_with_cold_open_retry serial_ops demo_balance (demo_serial [] (\<lambda>_. []))"
  obtain r b' s' where x: "?x = (r, b', s')" and f: "fails_with SartoriusConnectionError r"
    "length (st_sent s') = 4" "se_recoverable_error_count (ba_session b') = 4"
    using demo_cold_open by (auto split: prod.splits)
  from cold_open_retries_bounded [OF x] f x show ?thesis by blast
qed

section \<open>Printing balances\<close>

text \<open>A printed line: one complete line that carries a weight.\<close>

definition printed_weight :: "bytes \<Rightarrow> Reading \<Rightarrow> bool" where
  "printed_weight w reading \<longleftrightarrow>
     crlf_line w \<and> complete_line w \<and> is_autoprint_line w \<and> carries_weight w reading"

context transport
begin

lemma sniff_finds:
  assumes "usable s" and "ready s = concat junk @ w @ rest" and "list_all crlf_line junk"
    and "list_all (\<lambda>l. \<not> is_autoprint_line l) junk" and "crlf_line w" and "is_autoprint_line w"
    and "length junk < ticks"
  shows "\<exists>s'. sniff_for_autoprint ops ticks s = (Inr (True, [w]), s') \<and> ready s' = rest \<and> usable s'"
  using assms
proof (induction junk arbitrary: s ticks)
  case Nil
  then obtain t where t: "ticks = Suc t" by (cases ticks) auto
  from read_until_crlf [OF Nil.prems(1) _ Nil.prems(5), of rest] Nil.prems(2) obtain s'
    where "tp_read_until ops LINE_TERMINATOR s = (Inr w, s')" "ready s' = rest" "usable s'" by auto
  with t Nil.prems(6) show ?case by simp
next
  case (Cons j junk)
  then obtain t where t: "ticks = Suc t" "length junk < t" by (cases ticks) auto
  from read_until_crlf [OF Cons.prems(1), of j "concat junk @ w @ rest"] Cons.prems(2,3) obtain s1
    where s1: "tp_read_until ops LINE_TERMINATOR s = (Inr j, s1)" "ready s1 = concat junk @ w @ rest"
      "usable s1" by auto
  from Cons.IH [OF s1(3,2) _ _ Cons.prems(5,6) t(2)] Cons.prems(3,4) s1(1) t(1) show ?case by simp
qed

lemma detect_printing:
  assumes "sniff_for_autoprint ops ticks s = (Inr (True, ls), s')"
  shows "detect_protocol ops ticks src dst s =
    (Inr \<lparr>dr_protocol = SBI, dr_autoprint_active = True, dr_pending_lines = ls\<rparr>, s')"
  using assms by (simp add: detect_protocol_def)

end

lemma queue_line:
  "complete_line w \<Longrightarrow> mark_autoprint_active (Some w) SbiProtocolClient =
     SbiProtocolClient\<lparr>sc_pending := [w], sc_autoprint_active := True\<rparr>"
proof -
  assume w: "complete_line w"
  then have "split_lines w = Inr [w]" by (simp add: split_lines_iff)
  moreover have "endswith w [10]" "w \<noteq> []"
    using w by (auto simp: complete_line_snoc endswith_def)
  ultimately show ?thesis
    by (simp add: mark_autoprint_active_def queue_pending_front_def SbiProtocolClient_def)
qed

definition auto_options :: open_options where
  "auto_options = default_open_options\<lparr>oo_protocol := AUTO, oo_identify := False\<rparr>"

text \<open>
  C11. Opening a printing balance with \<open>AUTO\<close> loses nothing: when the lines waiting on the port
  are some lines that are no autoprint output and then a printed weight, and the window leaves
  time for one check more than there are lines before it, the open succeeds as SBI, the first
  \<open>poll\<close> returns the weight of that very line, the bytes after it are still to be read, and not
  a single byte was written.
\<close>

theorem auto_open_keeps_first_weight:
  assumes "connect (default_settings path) = s" and "\<not> st_port s" and "st_opens s = []"
    and "serial_ready s = concat junk @ w @ rest" and "list_all crlf_line junk"
    and "list_all (\<lambda>l. \<not> is_autoprint_line l) junk" and "printed_weight w reading"
    and "length junk < ticks"
  shows "\<exists>b s1 b' s2. open_device serial_ops connect (PortPath path) auto_options ticks
       = (Inr b, Some s1) \<and> se_active (ba_session b) = SBI \<and>
     poll serial_ops 0 b s1 = (Inr (RReading reading), b', s2) \<and>
     serial_ready s2 = rest \<and> st_sent s2 = st_sent s"
proof -
  from assms(7) have w: "crlf_line w" "complete_line w" "is_autoprint_line w" "carries_weight w reading"
    by (simp_all add: printed_weight_def)
  let ?s = "s\<lparr>st_opens := [], st_port := True\<rparr>"
  have o: "serial_open s = (Inr (), ?s)" "\<not> serial_is_open s"
    using assms(2,3) by (simp_all add: serial_open_def serial_is_open_def)
  have r: "st_port ?s" "serial_ready ?s = concat junk @ w @ rest"
    using assms(4) by (simp_all add: serial_ready_def)
  from serial.sniff_finds [OF r assms(5,6) w(1,3) assms(8)] obtain s1
    where s1: "sniff_for_autoprint serial_ops ticks ?s = (Inr (True, [w]), s1)"
      "serial_ready s1 = rest" "st_port s1" by blast
  from serial.sniff_written [OF s1(1)] have sent: "st_sent s1 = st_sent s" by simp
  let ?c = "SbiProtocolClient\<lparr>sc_pending := [w], sc_autoprint_active := True\<rparr>"
  obtain se where se: "Session None (Some ?c) SBI FAMILY_UNKNOWN NO_CAPABILITY None 1 9 False
      (Some (default_settings path)) = Inr se"
    by (simp add: Session_def res_bind_def check_clients_def)
  note fresh = Session_fresh [OF se]
  have "open_balance serial_ops auto_options (default_settings path) ticks ?s
      = (Inr (Balance se None), s1)"
    by (simp add: open_balance_def auto_options_def default_open_options_def resolve_protocol_def
        serial.detect_printing [OF s1(1)] build_clients_def prime_sbi_autoprint_state_def
        queue_line [OF w(2)] se)
  moreover have "ss_port (default_settings path) = path" by (simp add: default_settings_def)
  ultimately have od: "open_device serial_ops connect (PortPath path) auto_options ticks
      = (Inr (Balance se None), Some s1)"
    using o assms(1)
    by (simp add: open_device_def resolve_transport_def auto_options_def default_open_options_def
        serial_ops_def)
  have la: "lines_ahead serial_ready ?c s1 ([] @ w # []) rest"
    unfolding lines_ahead_def by (rule exI [where x = "[]"]) (simp add: s1(2))
  have "\<exists>b' c' s'. poll serial_ops 0 (Balance se None) s1 = (Inr (RReading reading), b', s') \<and>
      se_sbi (ba_session b') = Some c' \<and> lines_ahead serial_ready c' s' [] rest \<and>
      st_sent s' = st_sent s1"
    by (rule serial.poll_finds [OF _ _ _ _ s1(3) la _ w(4)])
      (use fresh in \<open>simp_all add: Balance_def SbiProtocolClient_def\<close>)
  then show ?thesis using od fresh sent by (auto simp: lines_ahead_def Balance_def)
qed

theorem auto_open_keeps_first_weight_witness:
  "\<exists>b s1 b' s2 reading. open_device serial_ops (demo_connect [RxChunk demo_printout])
       (PortPath ''/dev/ttyUSB0'') auto_options 2 = (Inr b, Some s1) \<and>
     poll serial_ops 0 b s1 = (Inr (RReading reading), b', s2) \<and> rd_unit reading = U_G"
proof -
  let ?path = "''/dev/ttyUSB0''" and ?c = "demo_connect [RxChunk demo_printout]"
  let ?s = "?c (default_settings ?path)"
  obtain rd where rd: "printed_weight demo_weight rd" "rd_unit rd = U_G"
    using demo_weight_printed by (auto simp: printed_weight_def carries_weight_def split: sum.splits)
  have s: "\<not> st_port ?s" "st_opens ?s = []" "serial_ready ?s = concat [demo_junk] @ demo_weight @ []"
    by (simp_all add: demo_connect_def demo_serial_def serial_ready_def demo_printout_def)
  have "list_all crlf_line [demo_junk]" "list_all (\<lambda>l. \<not> is_autoprint_line l) [demo_junk]"
    "length [demo_junk] < 2"
    using demo_weight_printed by simp_all
  from auto_open_keeps_first_weight [of ?c ?path, OF refl s this(1,2) rd(1) this(3)] rd(2) show ?thesis by blast
qed

end
