(* ===== verification/Dictionary.thy ===== *)
theory Dictionary
  imports Prelude
begin

text \<open>
  Python dictionaries that keep the order of insertion, as association lists with distinct
  keys: updating a key in place, removing one, and grouping a sequence by a key.
\<close>

section \<open>Lists under a key\<close>

text \<open>
  \<open>d.setdefault(k, []).append(v)\<close> on a dictionary, which keeps the order of insertion, and the
  loop that groups a sequence by a key with it.
\<close>

fun setdefault_append :: "'k \<Rightarrow> 'v \<Rightarrow> ('k \<times> 'v list) list \<Rightarrow> ('k \<times> 'v list) list" where
  "setdefault_append k v [] = [(k, [v])]"
| "setdefault_append k v ((k', vs) # d) =
     (if k' = k then (k', vs @ [v]) # d else (k', vs) # setdefault_append k v d)"

definition group_by :: "('v \<Rightarrow> 'k) \<Rightarrow> 'v list \<Rightarrow> ('k \<times> 'v list) list" where
  "group_by key xs = fold (\<lambda>x d. setdefault_append (key x) x d) xs []"

text \<open>The elements of a list in the order of their first occurrence.\<close>

definition firsts :: "'a list \<Rightarrow> 'a list" where
  "firsts xs = rev (remdups (rev xs))"

lemma firsts_simps [simp]:
  "firsts [] = []" "set (firsts xs) = set xs" "distinct (firsts xs)"
  "firsts (xs @ [x]) = (if x \<in> set xs then firsts xs else firsts xs @ [x])"
  by (simp_all add: firsts_def)

lemma firsts_distinct: "distinct xs \<Longrightarrow> firsts xs = xs"
  by (simp add: firsts_def distinct_remdups_id)

lemma setdefault_append_map:
  "distinct ks \<Longrightarrow> setdefault_append k v (map (\<lambda>x. (x, f x)) ks) =
     (if k \<in> set ks then map (\<lambda>x. (x, if x = k then f x @ [v] else f x)) ks
      else map (\<lambda>x. (x, f x)) ks @ [(k, [v])])"
  by (induction ks) auto

lemma group_by_firsts:
  "group_by key xs = map (\<lambda>k. (k, filter (\<lambda>x. key x = k) xs)) (firsts (map key xs))"
proof (induction xs rule: rev_induct)
  case (snoc x xs)
  have "group_by key (xs @ [x]) = setdefault_append (key x) x (group_by key xs)"
    by (simp add: group_by_def)
  also have "\<dots> = map (\<lambda>k. (k, filter (\<lambda>y. key y = k) (xs @ [x]))) (firsts (map key (xs @ [x])))"
    unfolding snoc by (auto simp: setdefault_append_map filter_empty_conv image_iff)
  finally show ?case .
qed (simp add: group_by_def)

text \<open>Blocks with distinct keys, one after the other, are the groups.\<close>

lemma setdefault_append_new:
  "k \<notin> set (map fst d) \<Longrightarrow> setdefault_append k v d = d @ [(k, [v])]"
  by (induction d) auto

lemma setdefault_append_last:
  "k \<notin> set (map fst d) \<Longrightarrow> setdefault_append k v (d @ [(k, vs)]) = d @ [(k, vs @ [v])]"
  by (induction d) auto

lemma fold_setdefault_block:
  "k \<notin> set (map fst d) \<Longrightarrow> g \<noteq> [] \<Longrightarrow> list_all (\<lambda>x. key x = k) g \<Longrightarrow>
     fold (\<lambda>x d. setdefault_append (key x) x d) g d = d @ [(k, g)]"
proof (induction g rule: rev_induct)
  case (snoc x g)
  then show ?case
    by (cases "g = []") (simp_all add: setdefault_append_new setdefault_append_last)
qed simp

lemma group_by_blocks:
  "list_all2 (\<lambda>k g. g \<noteq> [] \<and> list_all (\<lambda>x. key x = k) g) ks gs \<Longrightarrow> distinct ks \<Longrightarrow>
     group_by key (concat gs) = zip ks gs"
proof (induction ks arbitrary: gs rule: rev_induct)
  case (snoc k ks)
  then obtain gs' g where gs: "gs = gs' @ [g]" and l: "length gs' = length ks"
    by (metis length_append_singleton list_all2_lengthD length_Suc_conv_rev)
  with snoc.prems have b: "list_all2 (\<lambda>k g. g \<noteq> [] \<and> list_all (\<lambda>x. key x = k) g) ks gs'"
    "g \<noteq> []" "list_all (\<lambda>x. key x = k) g" by (simp_all add: list_all2_append)
  from snoc.IH [OF b(1)] snoc.prems(2) have "group_by key (concat gs') = zip ks gs'" by simp
  moreover have k: "k \<notin> set (map fst (zip ks gs'))" using snoc.prems(2) l by simp
  ultimately show ?case
    using fold_setdefault_block [OF k b(2,3)] gs l by (simp add: group_by_def)
qed (simp add: group_by_def)

section \<open>Setting and removing a key\<close>

text \<open>\<open>d[k] = v\<close> keeps the place of a key that is there; \<open>d.pop(k, None)\<close>.\<close>

fun dict_set :: "'k \<Rightarrow> 'v \<Rightarrow> ('k \<times> 'v) list \<Rightarrow> ('k \<times> 'v) list" where
  "dict_set k v [] = [(k, v)]"
| "dict_set k v ((k', w) # d) = (if k' = k then (k', v) # d else (k', w) # dict_set k v d)"

definition dict_pop :: "'k \<Rightarrow> ('k \<times> 'v) list \<Rightarrow> ('k \<times> 'v) list" where
  "dict_pop k d = filter (\<lambda>(k', v). k' \<noteq> k) d"

abbreviation keys :: "('k \<times> 'v) list \<Rightarrow> 'k list" where
  "keys d \<equiv> map fst d"

lemma map_of_dict_set [simp]: "map_of (dict_set k v d) = (map_of d)(k \<mapsto> v)"
  by (induction k v d rule: dict_set.induct) (auto simp: fun_eq_iff)

lemma map_of_dict_pop [simp]: "map_of (dict_pop k d) = (map_of d)(k := None)"
  by (induction d) (auto simp: dict_pop_def fun_eq_iff)

lemma keys_dict_set [simp]:
  "keys (dict_set k v d) = (if k \<in> set (keys d) then keys d else keys d @ [k])"
  by (induction k v d rule: dict_set.induct) auto

lemma keys_dict_pop [simp]: "keys (dict_pop k d) = filter (\<lambda>x. x \<noteq> k) (keys d)"
  by (induction d) (auto simp: dict_pop_def)

lemma in_keys: "k \<in> set (keys d) \<longleftrightarrow> map_of d k \<noteq> None"
  by (simp add: map_of_eq_None_iff)

lemma in_keysI: "map_of d k = Some v \<Longrightarrow> k \<in> set (keys d)"
  unfolding in_keys by simp

end
