(* ===== verification/Discovery.thy ===== *)
theory Discovery
  imports Opening Dictionary
begin

text \<open>
  \<open>devices/discovery.py\<close>: probing ports for devices without changing them. As for opening, the
  constructor of the transport class is an argument, here one per probe, because every probe
  makes a transport of its own; the final states of these transports are returned with the
  results. The times that results carry are not modelled.
\<close>

section \<open>Results\<close>

record DiscoveryResult =
  dv_ok :: bool
  dv_port :: string
  dv_address :: "int option"
  dv_baudrate :: "int option"
  dv_protocol :: "ProtocolKind option"
  dv_device_info :: "DeviceInfo option"
  dv_error :: "exn option"

record SartoriusDiscoveryResult = DiscoveryResult +
  dv_parity :: string
  dv_stopbits :: int
  dv_autoprint_active :: bool
  dv_pending_lines :: "bytes list"

record DiscoverySummary =
  ds_port :: string
  ds_ok :: bool
  ds_baudrate :: "int option"
  ds_protocol :: "ProtocolKind option"
  ds_autoprint_active :: bool
  ds_error :: "exn option"

definition DEFAULT_DISCOVERY_BAUDRATES :: "int list" where
  "DEFAULT_DISCOVERY_BAUDRATES = [9600, 19200, 38400, 57600, 115200]"

section \<open>One probe\<close>

text \<open>\<open>int(settings.stopbits.value)\<close>, on the three values the settings admit.\<close>

definition stopbits_int :: "string \<Rightarrow> int res" where
  "stopbits_int v =
     (if v = ''1'' then Inr 1 else if v = ''2'' then Inr 2 else Inl (Py ValueError))"

definition discovery_transport ::
  "'s transport_ops \<Rightarrow> (SerialSettings \<Rightarrow> 's) \<Rightarrow> 's port_arg \<Rightarrow> SerialSettings option \<Rightarrow>
   's \<times> SerialSettings" where
  "discovery_transport ops connect port serial_settings =
     (case port of
        PortPath path \<Rightarrow>
          (let settings = (case serial_settings of None \<Rightarrow> default_settings path | Some st \<Rightarrow> st)
           in (connect settings, settings))
      | PreBuilt t \<Rightarrow>
          (t, case serial_settings of None \<Rightarrow> default_settings (tp_label ops t) | Some st \<Rightarrow> st))"

definition missed :: "string \<Rightarrow> SerialSettings \<Rightarrow> exn \<Rightarrow> SartoriusDiscoveryResult res" where
  "missed label settings e =
     res_bind (stopbits_int (ss_stopbits settings)) (\<lambda>stopbits.
       Inr \<lparr>dv_ok = False, dv_port = label, dv_address = None,
            dv_baudrate = Some (ss_baudrate settings), dv_protocol = None, dv_device_info = None,
            dv_error = Some e, dv_parity = ss_parity settings, dv_stopbits = stopbits,
            dv_autoprint_active = False, dv_pending_lines = []\<rparr>)"

definition found :: "string \<Rightarrow> SerialSettings \<Rightarrow> int \<Rightarrow> DetectionResult \<Rightarrow> SartoriusDiscoveryResult res"
where
  "found label settings dst_sbn detection =
     res_bind (stopbits_int (ss_stopbits settings)) (\<lambda>stopbits.
       Inr \<lparr>dv_ok = True, dv_port = label,
            dv_address = (if dr_protocol detection = XBPI then Some dst_sbn else None),
            dv_baudrate = Some (ss_baudrate settings), dv_protocol = Some (dr_protocol detection),
            dv_device_info = None, dv_error = None, dv_parity = ss_parity settings,
            dv_stopbits = stopbits, dv_autoprint_active = dr_autoprint_active detection,
            dv_pending_lines = dr_pending_lines detection\<rparr>)"

text \<open>The \<open>finally\<close> clause closes the transport on every way out.\<close>

definition discover_port ::
  "'s transport_ops \<Rightarrow> (SerialSettings \<Rightarrow> 's) \<Rightarrow> 's port_arg \<Rightarrow> SerialSettings option \<Rightarrow> nat \<Rightarrow>
   int \<Rightarrow> int \<Rightarrow> SartoriusDiscoveryResult res \<times> 's" where
  "discover_port ops connect port serial_settings ticks src_sbn dst_sbn =
     (case discovery_transport ops connect port serial_settings of (s, settings) \<Rightarrow>
        let label = tp_label ops s;
            handle = (\<lambda>e. if exn_is e SartoriusError then missed label settings e else Inl e)
        in case (if tp_is_open ops s then (Inr (), s) else tp_open ops s) of
             (Inl e, s1) \<Rightarrow> (handle e, tp_close ops s1)
           | (Inr _, s1) \<Rightarrow>
               (case detect_protocol ops ticks src_sbn dst_sbn s1 of
                  (Inl e, s2) \<Rightarrow> (handle e, tp_close ops s2)
                | (Inr detection, s2) \<Rightarrow>
                    (found label settings dst_sbn detection, tp_close ops s2)))"

section \<open>Sweeping ports and baud rates\<close>

definition is_port_open_failure :: "SartoriusDiscoveryResult \<Rightarrow> bool" where
  "is_port_open_failure result =
     (case dv_error result of None \<Rightarrow> False | Some e \<Rightarrow> exn_is e SartoriusConnectionError)"

text \<open>A result after which the remaining baud rates of a port are not tried.\<close>

definition ends_sweep :: "SartoriusDiscoveryResult \<Rightarrow> bool" where
  "ends_sweep result \<longleftrightarrow> dv_ok result \<or> is_port_open_failure result"

text \<open>The inner loop, over the baud rates of one port; \<open>n\<close> probes were made before.\<close>

fun sweep_port ::
  "'s transport_ops \<Rightarrow> (nat \<Rightarrow> SerialSettings \<Rightarrow> 's) \<Rightarrow> nat \<Rightarrow> nat \<Rightarrow> string \<Rightarrow> int list \<Rightarrow>
   SartoriusDiscoveryResult list res \<times> 's list" where
  "sweep_port ops connect ticks n port [] = (Inr [], [])"
| "sweep_port ops connect ticks n port (baud # bauds) =
     (case discover_port ops (connect n) (PortPath port)
             (Some ((default_settings port)\<lparr>ss_baudrate := baud\<rparr>)) ticks 1 9 of
        (Inl e, s) \<Rightarrow> (Inl e, [s])
      | (Inr result, s) \<Rightarrow>
          if ends_sweep result then (Inr [result], [s])
          else (case sweep_port ops connect ticks (Suc n) port bauds of
                  (Inl e, ss) \<Rightarrow> (Inl e, s # ss)
                | (Inr results, ss) \<Rightarrow> (Inr (result # results), s # ss)))"

text \<open>The outer loop, over the ports.\<close>

fun sweep_ports ::
  "'s transport_ops \<Rightarrow> (nat \<Rightarrow> SerialSettings \<Rightarrow> 's) \<Rightarrow> nat \<Rightarrow> nat \<Rightarrow> int list \<Rightarrow> string list \<Rightarrow>
   SartoriusDiscoveryResult list res \<times> 's list" where
  "sweep_ports ops connect ticks n bauds [] = (Inr [], [])"
| "sweep_ports ops connect ticks n bauds (port # ports) =
     (case sweep_port ops connect ticks n port bauds of
        (Inl e, ss) \<Rightarrow> (Inl e, ss)
      | (Inr results, ss) \<Rightarrow>
          (case sweep_ports ops connect ticks (n + length ss) bauds ports of
             (Inl e, ss') \<Rightarrow> (Inl e, ss @ ss')
           | (Inr results', ss') \<Rightarrow> (Inr (results @ results'), ss @ ss')))"

text \<open>\<open>listed\<close> is what \<open>anyserial.list_serial_ports\<close> enumerates.\<close>

definition resolve_ports :: "string list option \<Rightarrow> string list \<Rightarrow> string list" where
  "resolve_ports ports listed = (case ports of Some ps \<Rightarrow> ps | None \<Rightarrow> listed)"

definition find_devices ::
  "'s transport_ops \<Rightarrow> (nat \<Rightarrow> SerialSettings \<Rightarrow> 's) \<Rightarrow> string list \<Rightarrow> string list option \<Rightarrow>
   int list option \<Rightarrow> nat \<Rightarrow> SartoriusDiscoveryResult list res \<times> 's list" where
  "find_devices ops connect listed ports baudrates ticks =
     (let bauds = (case baudrates of Some bs \<Rightarrow> bs | None \<Rightarrow> DEFAULT_DISCOVERY_BAUDRATES)
      in sweep_ports ops connect ticks 0 bauds (resolve_ports ports listed))"

section \<open>Summaries\<close>

text \<open>The row of one port; its probes are never empty.\<close>

definition summarize_port :: "string \<times> SartoriusDiscoveryResult list \<Rightarrow> DiscoverySummary" where
  "summarize_port entry =
     (case entry of (port, probes) \<Rightarrow>
        case find dv_ok probes of
          Some hit \<Rightarrow>
            \<lparr>ds_port = port, ds_ok = True, ds_baudrate = dv_baudrate hit,
             ds_protocol = dv_protocol hit, ds_autoprint_active = dv_autoprint_active hit,
             ds_error = None\<rparr>
        | None \<Rightarrow>
            \<lparr>ds_port = port, ds_ok = False, ds_baudrate = dv_baudrate (last probes),
             ds_protocol = None, ds_autoprint_active = False,
             ds_error = (case find (\<lambda>p. dv_error p \<noteq> None) probes of
                           None \<Rightarrow> None | Some p \<Rightarrow> dv_error p)\<rparr>)"

definition summarize_discovery :: "SartoriusDiscoveryResult list \<Rightarrow> DiscoverySummary list" where
  "summarize_discovery results = map summarize_port (group_by dv_port results)"

section \<open>Laws of a probe\<close>

context transport
begin

lemma probe_xbpi_error:
  assumes "probe_xbpi ops src dst s = (Inl e, s')"
  shows "exn_is e SartoriusError"
proof -
  have "\<exists>c. exn_is e c"
    using assms
    by (auto simp: probe_xbpi_def Let_def dest!: write_fail read_exact_fail parse_frame_error
        build_command_error split: sum.splits prod.splits if_splits)
  then show ?thesis by (blast intro: package_error)
qed

lemma probe_sbi_tokens_error:
  "probe_sbi_tokens ops toks s = (Inl e, s') \<Longrightarrow> exn_is e SartoriusError"
proof (induction toks arbitrary: s)
  case (Cons tok toks)
  then show ?case
    by (auto simp: Let_def dest!: write_fail read_until_fail intro: package_error
        split: sum.splits prod.splits if_splits)
qed simp

lemma sniff_error: "sniff_for_autoprint ops t s = (Inl e, s') \<Longrightarrow> exn_is e SartoriusError"
proof (induction t arbitrary: s)
  case (Suc t)
  then show ?case
    by (auto dest!: read_until_fail intro: package_error split: sum.splits prod.splits if_splits)
qed simp

lemma detect_error: "detect_protocol ops t src dst s = (Inl e, s') \<Longrightarrow> exn_is e SartoriusError"
  by (auto simp: detect_protocol_def raise_ctx_def probe_sbi_def subclass_simps
      simp del: probe_sbi_tokens.simps dest: sniff_error probe_xbpi_error probe_sbi_tokens_error
      split: sum.splits prod.splits bool.splits if_splits)

end

definition whole_stopbits :: "SerialSettings \<Rightarrow> bool" where
  "whole_stopbits st \<longleftrightarrow> ss_stopbits st = ''1'' \<or> ss_stopbits st = ''2''"

context lifecycle
begin

text \<open>A probe leaves its transport closed and writes no more than detection does.\<close>

lemma discover_effect:
  assumes "discover_port ops connect port st ticks src dst = (r, s')"
  shows "\<not> tp_is_open ops s' \<and>
     (\<exists>ws. written s' = written (fst (discovery_transport ops connect port st)) @ ws \<and>
        subseq ws (xbpi_probe src dst @ [TOKEN_TYPE, TOKEN_PRINT]))"
proof -
  obtain s settings where t: "discovery_transport ops connect port st = (s, settings)" by fastforce
  obtain q s1 where o: "(if tp_is_open ops s then (Inr (), s) else tp_open ops s) = (q, s1)"
    by fastforce
  obtain d s2 where d: "detect_protocol ops ticks src dst s1 = (d, s2)" by fastforce
  have w1: "written s1 = written s" using o open_written by (auto split: if_splits)
  from detect_writes [OF d] obtain ws where ws: "written s2 = written s1 @ ws"
    "subseq ws (xbpi_probe src dst @ [TOKEN_TYPE, TOKEN_PRINT])" by blast
  have "s' = tp_close ops s1 \<or> s' = tp_close ops s2"
    using assms t o d by (auto simp: discover_port_def Let_def split: sum.splits)
  then show ?thesis
  proof
    assume "s' = tp_close ops s1"
    with t w1 close_closed close_written show ?thesis by (auto intro: exI [where x = "[]"])
  next
    assume "s' = tp_close ops s2"
    with t w1 ws close_closed close_written show ?thesis by auto
  qed
qed

text \<open>With one or two stop bits every failure ends up in the result.\<close>

lemma discover_never_raises:
  assumes "discover_port ops connect port st ticks src dst = (r, s')"
    and "discovery_transport ops connect port st = (s, settings)" and "whole_stopbits settings"
  shows "\<exists>result. r = Inr result \<and> dv_port result = tp_label ops s \<and>
     dv_baudrate result = Some (ss_baudrate settings) \<and> (dv_ok result \<longleftrightarrow> dv_error result = None)"
proof -
  obtain n where n: "stopbits_int (ss_stopbits settings) = Inr n"
    using assms(3) by (auto simp: whole_stopbits_def stopbits_int_def)
  obtain q s1 where o: "(if tp_is_open ops s then (Inr (), s) else tp_open ops s) = (q, s1)"
    by fastforce
  have oe: "q = Inl e \<Longrightarrow> exn_is e SartoriusError" for e
    using o by (auto dest: open_error intro: package_error split: if_splits)
  obtain d s2 where d: "detect_protocol ops ticks src dst s1 = (d, s2)" by fastforce
  have de: "d = Inl e \<Longrightarrow> exn_is e SartoriusError" for e using d detect_error by simp
  show ?thesis
    using assms(1,2) n o oe d de
    by (cases q; cases d)
      (auto simp: discover_port_def Let_def missed_def found_def res_bind_def)
qed

end

section \<open>Laws of a sweep\<close>

text \<open>
  The attempts at one port: a prefix of the baud rates, in order, that goes on exactly while
  the results do not end it.
\<close>

definition port_attempts :: "int list \<Rightarrow> string \<Rightarrow> SartoriusDiscoveryResult list \<Rightarrow> bool" where
  "port_attempts bauds port g \<longleftrightarrow>
     map dv_baudrate g = map Some (take (length g) bauds) \<and>
     list_all (\<lambda>r. dv_port r = port \<and> (dv_ok r \<longleftrightarrow> dv_error r = None)) g \<and>
     list_all (\<lambda>r. \<not> ends_sweep r) (butlast g) \<and>
     (length g < length bauds \<longrightarrow> g \<noteq> [] \<and> ends_sweep (last g))"

lemma attempts_cons:
  assumes "port_attempts bauds port g" and "dv_baudrate r = Some b" and "dv_port r = port"
    and "dv_ok r \<longleftrightarrow> dv_error r = None" and "\<not> ends_sweep r"
  shows "port_attempts (b # bauds) port (r # g)"
  using assms by (auto simp: port_attempts_def)

lemma attempts_nonempty: "port_attempts bauds port g \<Longrightarrow> bauds \<noteq> [] \<Longrightarrow> g \<noteq> []"
  by (auto simp: port_attempts_def)

text \<open>A hit can only be the last attempt.\<close>

lemma find_last:
  "list_all (\<lambda>r. \<not> P r) xs \<Longrightarrow> find P (xs @ [x]) = (if P x then Some x else None)"
  by (induction xs) auto

lemma attempts_hit:
  assumes "port_attempts bauds port g" and "g \<noteq> []"
  shows "find dv_ok g = (if dv_ok (last g) then Some (last g) else None)"
proof -
  have g: "g = butlast g @ [last g]" using assms(2) by simp
  have "list_all (\<lambda>r. \<not> dv_ok r) (butlast g)"
    using assms(1) by (auto simp: port_attempts_def ends_sweep_def list_all_iff)
  then have "find dv_ok (butlast g @ [x]) = (if dv_ok x then Some x else None)" for x
    by (rule find_last)
  then show ?thesis using g by metis
qed

text \<open>What is left of the transports: one per probe, each closed, with bounded traffic.\<close>

definition probed ::
  "'s transport_ops \<Rightarrow> ('s \<Rightarrow> bytes list) \<Rightarrow> (nat \<Rightarrow> SerialSettings \<Rightarrow> 's) \<Rightarrow> nat \<Rightarrow> 's list \<Rightarrow> bool" where
  "probed ops written connect n ss \<longleftrightarrow>
     (\<forall>i < length ss. \<not> tp_is_open ops (ss ! i) \<and>
        (\<exists>st ws. written (ss ! i) = written (connect (n + i) st) @ ws \<and>
           subseq ws (xbpi_probe 1 9 @ [TOKEN_TYPE, TOKEN_PRINT])))"

context lifecycle
begin

lemma probed_append:
  "probed ops written connect n ss \<Longrightarrow> probed ops written connect (n + length ss) ss' \<Longrightarrow> probed ops written connect n (ss @ ss')"
  by (auto simp: probed_def nth_append) (metis add.assoc add_diff_inverse_nat nat_add_left_cancel_less)

lemma sweep_port_attempts:
  assumes "\<And>n st. tp_label ops (connect n st) = ss_port st"
    and "sweep_port ops connect ticks n port bauds = (r, ss)"
  shows "\<exists>g. r = Inr g \<and> port_attempts bauds port g \<and> length ss = length g \<and> probed ops written connect n ss"
  using assms(2)
proof (induction bauds arbitrary: n r ss)
  case Nil
  then show ?case by (simp add: port_attempts_def probed_def)
next
  case (Cons b bauds)
  let ?st = "(default_settings port)\<lparr>ss_baudrate := b\<rparr>"
  obtain q s where d: "discover_port ops (connect n) (PortPath port) (Some ?st) ticks 1 9 = (q, s)"
    by fastforce
  have t: "discovery_transport ops (connect n) (PortPath port) (Some ?st) = (connect n ?st, ?st)"
    by (simp add: discovery_transport_def Let_def)
  have "whole_stopbits ?st" by (simp add: whole_stopbits_def default_settings_def)
  from discover_never_raises [OF d t this] assms(1) obtain result
    where q: "q = Inr result" "dv_port result = port" "dv_baudrate result = Some b"
      "dv_ok result \<longleftrightarrow> dv_error result = None" by (auto simp: default_settings_def)
  have p1: "probed ops written connect n [s]"
    using discover_effect [OF d] t by (auto simp: probed_def)
  obtain r' ss' where rec: "sweep_port ops connect ticks (Suc n) port bauds = (r', ss')" by fastforce
  show ?case
  proof (cases "ends_sweep result")
    case True
    with Cons.prems d q p1 show ?thesis by (auto simp: port_attempts_def)
  next
    case False
    from Cons.IH [OF rec] obtain g where g: "r' = Inr g" "port_attempts bauds port g"
      "length ss' = length g" "probed ops written connect (Suc n) ss'" by blast
    from attempts_cons [OF g(2) q(3,2,4) False] probed_append [OF p1] g Cons.prems d q False rec
    show ?thesis by auto
  qed
qed

lemma sweep_ports_attempts:
  assumes "\<And>n st. tp_label ops (connect n st) = ss_port st"
    and "sweep_ports ops connect ticks n bauds ports = (r, ss)"
  shows "\<exists>gs. r = Inr (concat gs) \<and> list_all2 (port_attempts bauds) ports gs \<and>
     length ss = length (concat gs) \<and> probed ops written connect n ss"
  using assms(2)
proof (induction ports arbitrary: n r ss)
  case Nil
  then show ?case by (intro exI [where x = "[]"]) (simp add: probed_def)
next
  case (Cons port ports)
  obtain q ss1 where s1: "sweep_port ops connect ticks n port bauds = (q, ss1)" by fastforce
  from sweep_port_attempts [OF assms(1) s1] obtain g where g: "q = Inr g"
    "port_attempts bauds port g" "length ss1 = length g" "probed ops written connect n ss1" by blast
  obtain q2 ss2 where s2: "sweep_ports ops connect ticks (n + length ss1) bauds ports = (q2, ss2)"
    by fastforce
  from Cons.IH [OF s2] obtain gs where gs: "q2 = Inr (concat gs)"
    "list_all2 (port_attempts bauds) ports gs" "length ss2 = length (concat gs)"
    "probed ops written connect (n + length ss1) ss2" by blast
  from Cons.prems s1 s2 g gs have "r = Inr (concat (g # gs))" "ss = ss1 @ ss2" by auto
  with probed_append [OF g(4) gs(4)] g gs show ?case by (intro exI [where x = "g # gs"]) simp
qed

end

text \<open>The summary of such attempts.\<close>

lemma summary_of_attempts:
  assumes "list_all2 (port_attempts bauds) ports gs" and "distinct ports" and "bauds \<noteq> []"
  shows "summarize_discovery (concat gs) = map summarize_port (zip ports gs)"
proof -
  have "list_all2 (\<lambda>k g. g \<noteq> [] \<and> list_all (\<lambda>x. dv_port x = k) g) ports gs"
    by (rule list_all2_mono [OF assms(1)])
      (use assms(3) in \<open>auto simp: port_attempts_def list_all_iff\<close>)
  from group_by_blocks [OF this assms(2)] show ?thesis by (simp add: summarize_discovery_def)
qed

lemma summarize_attempts:
  assumes "port_attempts bauds port g" and "bauds \<noteq> []"
  shows "summarize_port (port, g) =
     (if dv_ok (last g)
      then \<lparr>ds_port = port, ds_ok = True, ds_baudrate = dv_baudrate (last g),
            ds_protocol = dv_protocol (last g), ds_autoprint_active = dv_autoprint_active (last g),
            ds_error = None\<rparr>
      else \<lparr>ds_port = port, ds_ok = False, ds_baudrate = dv_baudrate (last g), ds_protocol = None,
            ds_autoprint_active = False, ds_error = dv_error (hd g)\<rparr>)"
proof (cases "dv_ok (last g)")
  case True
  with attempts_hit [OF assms(1) attempts_nonempty [OF assms]] show ?thesis
    by (simp add: summarize_port_def)
next
  case False
  obtain r rs where g: "g = r # rs" using attempts_nonempty [OF assms] by (cases g) auto
  have "find dv_ok g = None"
    using attempts_hit [OF assms(1) attempts_nonempty [OF assms]] False by simp
  moreover from this g have "dv_error r \<noteq> None"
    using assms(1) by (auto simp: port_attempts_def split: if_splits)
  ultimately show ?thesis using g False by (simp add: summarize_port_def)
qed

section \<open>Properties\<close>




text \<open>A printing balance that is heard at 19200 baud only; the other port stays silent.\<close>

definition demo_bus :: "nat \<Rightarrow> SerialSettings \<Rightarrow> serial_transport" where
  "demo_bus n settings =
     demo_connect (if ss_port settings = ''b'' \<and> ss_baudrate settings = 19200
                   then [RxChunk demo_weight] else []) settings"


text \<open>
  \<open>summarize_discovery\<close> on any list of results, also of several sweeps: one row per port, in
  the order in which the ports first appear, computed from the results of that port alone.
\<close>

theorem summarize_discovery_by_port:
  "summarize_discovery rs =
     map (\<lambda>port. summarize_port (port, filter (\<lambda>r. dv_port r = port) rs)) (firsts (map dv_port rs)) \<and>
   list_all (\<lambda>port. filter (\<lambda>r. dv_port r = port) rs \<noteq> []) (firsts (map dv_port rs))"
  by (auto simp: summarize_discovery_def group_by_firsts list_all_iff filter_empty_conv)

text \<open>
  How \<open>discover_port\<close> fails: with one or two stop bits it never raises, every error is in the
  result; with one and a half it always raises \<open>ValueError\<close>, even when the device was found. The
  port is closed in every case.
\<close>

theorem discover_port_failures:
  assumes "discover_port serial_ops connect port (Some settings) ticks src dst = (r, s')"
    and "ss_stopbits settings \<in> {''1'', ''1.5'', ''2''}"
  shows "\<not> serial_is_open s' \<and>
     (if ss_stopbits settings = ''1.5'' then r = Inl (Py ValueError)
      else \<exists>result. r = Inr result \<and> dv_baudrate result = Some (ss_baudrate settings) \<and>
             (dv_ok result \<longleftrightarrow> dv_error result = None))"
proof -
  obtain s where t: "discovery_transport serial_ops connect port (Some settings) = (s, settings)"
    by (cases port) (auto simp: discovery_transport_def Let_def)
  have closed: "\<not> serial_is_open s'"
    using serial_life.discover_effect [OF assms(1)] by (simp add: serial_ops_def)
  show ?thesis
  proof (cases "ss_stopbits settings = ''1.5''")
    case False
    with assms(2) have "whole_stopbits settings" by (auto simp: whole_stopbits_def)
    from serial_life.discover_never_raises [OF assms(1) t this] closed False show ?thesis by auto
  next
    case True
    then have bad: "missed l settings e = Inl (Py ValueError)" "found l settings dst d = Inl (Py ValueError)"
      for l e d by (simp_all add: missed_def found_def stopbits_int_def res_bind_def)
    obtain q s1 where o: "(if tp_is_open serial_ops s then (Inr (), s) else tp_open serial_ops s) = (q, s1)"
      by fastforce
    have oe: "exn_is e SartoriusError" if "q = Inl e" for e
      using o that by (auto dest: serial_life.open_error intro: package_error split: if_splits)
    obtain d s2 where d: "detect_protocol serial_ops ticks src dst s1 = (d, s2)" by fastforce
    have "r = Inl (Py ValueError)"
      using assms(1) t o d oe serial.detect_error [of ticks src dst s1] bad
      by (cases q; cases d) (auto simp: discover_port_def Let_def)
    with closed True show ?thesis by simp
  qed
qed

theorem discover_port_failures_witness:
  "\<exists>s'. discover_port serial_ops (demo_connect [RxChunk demo_weight]) (PortPath ''a'')
       (Some ((default_settings ''a'')\<lparr>ss_stopbits := ''1.5''\<rparr>)) 1 1 9 = (Inl (Py ValueError), s') \<and>
     \<not> serial_is_open s'"
proof -
  let ?st = "(default_settings ''a'')\<lparr>ss_stopbits := ''1.5''\<rparr>"
  obtain r s' where d: "discover_port serial_ops (demo_connect [RxChunk demo_weight]) (PortPath ''a'')
      (Some ?st) 1 1 9 = (r, s')" by fastforce
  have "ss_stopbits ?st \<in> {''1'', ''1.5'', ''2''}" by simp
  from discover_port_failures [OF d this] d show ?thesis by simp
qed

end
