(* ===== verification/Maintenance.thy ===== *)
theory Maintenance
  imports Opening
begin

text \<open>
  \<open>maintenance.py\<close>: one-shot reconfigurations, which open a device without identifying it, run
  one method of the facade on it, and close the port in every case.
\<close>

section \<open>Operations\<close>

text \<open>
  The frame of all three functions. \<open>open_device\<close> returns a balance only together with the
  transport it talks over.
\<close>

definition one_shot ::
  "'s transport_ops \<Rightarrow> (SerialSettings \<Rightarrow> 's) \<Rightarrow> 's port_arg \<Rightarrow> open_options \<Rightarrow> nat \<Rightarrow> ('s, 'a) bal \<Rightarrow>
   'a res \<times> 's option" where
  "one_shot ops connect port opts ticks m =
     (case open_device ops connect port opts ticks of
        (Inl e, t) \<Rightarrow> (Inl e, t)
      | (Inr b, None) \<Rightarrow> (Inl (Py TypeError), None)
      | (Inr b, Some s) \<Rightarrow>
          (case m b s of
             (r, b', s') \<Rightarrow> (case balance_close ops b' s' of (_, _, s'') \<Rightarrow> (r, Some s''))))"

definition maintenance_options ::
  "ProtocolKind \<Rightarrow> SerialSettings option \<Rightarrow> int \<Rightarrow> int \<Rightarrow> open_options" where
  "maintenance_options protocol settings src_sbn dst_sbn =
     \<lparr>oo_protocol = protocol, oo_settings = settings, oo_src_sbn = src_sbn, oo_dst_sbn = dst_sbn,
      oo_strict = False, oo_identify = False\<rparr>"

text \<open>\<open>ticks\<close> and \<open>ticks'\<close>: for the sniff of the open and for the one after the switch.\<close>

definition switch_protocol ::
  "'s transport_ops \<Rightarrow> (SerialSettings \<Rightarrow> 's) \<Rightarrow> 's port_arg \<Rightarrow> ProtocolKind \<Rightarrow> ProtocolKind \<Rightarrow>
   SerialSettings option \<Rightarrow> int option \<Rightarrow> string option \<Rightarrow> string option \<Rightarrow> int \<Rightarrow> int \<Rightarrow> bool \<Rightarrow>
   nat \<Rightarrow> nat \<Rightarrow> DeviceInfo res \<times> 's option" where
  "switch_protocol ops connect port target current_protocol serial_settings new_baudrate new_parity
     new_stopbits src_sbn dst_sbn confirm ticks ticks' =
     one_shot ops connect port
       (maintenance_options current_protocol serial_settings src_sbn dst_sbn) ticks
       (configure_protocol ops target new_baudrate new_parity new_stopbits ticks' confirm)"

definition set_baud_rate_once ::
  "'s transport_ops \<Rightarrow> (SerialSettings \<Rightarrow> 's) \<Rightarrow> 's port_arg \<Rightarrow> int \<Rightarrow> int \<Rightarrow>
   SerialSettings option \<Rightarrow> string option \<Rightarrow> string option \<Rightarrow> int \<Rightarrow> int \<Rightarrow> bool \<Rightarrow>
   nat \<Rightarrow> nat \<Rightarrow> DeviceInfo res \<times> 's option" where
  "set_baud_rate_once ops connect port wire_code baudrate serial_settings parity stopbits
     src_sbn dst_sbn confirm ticks ticks' =
     one_shot ops connect port (maintenance_options XBPI serial_settings src_sbn dst_sbn) ticks
       (set_baud_rate ops wire_code baudrate parity stopbits ticks' confirm)"

definition write_sbn_address_once ::
  "'s transport_ops \<Rightarrow> (SerialSettings \<Rightarrow> 's) \<Rightarrow> 's port_arg \<Rightarrow> int \<Rightarrow> SerialSettings option \<Rightarrow>
   int \<Rightarrow> int \<Rightarrow> bool \<Rightarrow> nat \<Rightarrow> int res \<times> 's option" where
  "write_sbn_address_once ops connect port sbn serial_settings src_sbn dst_sbn confirm ticks =
     one_shot ops connect port (maintenance_options XBPI serial_settings src_sbn dst_sbn) ticks
       (write_sbn_address ops sbn False confirm)"

section \<open>Laws\<close>

lemma one_shot_cases:
  assumes "one_shot ops connect port opts ticks m = (r, t)"
  obtains (unopened) e where "open_device ops connect port opts ticks = (Inl e, t)" "r = Inl e"
  | (no_transport) b where "open_device ops connect port opts ticks = (Inr b, None)" "t = None"
  | (ran) b s b' s' where "open_device ops connect port opts ticks = (Inr b, Some s)"
      "m b s = (r, b', s')" "t = Some (tp_close ops s')"
  using assms
  by (auto simp: one_shot_def balance_close_def session_close_def
      split: sum.splits prod.splits option.splits)

context lifecycle
begin

text \<open>Whatever the method does, the port is closed, and no transport means nothing happened.\<close>

lemma one_shot_closes:
  assumes "one_shot ops connect port opts ticks m = (r, t)"
  shows "(case t of None \<Rightarrow> fails_with SartoriusValidationError r | Some s' \<Rightarrow> \<not> tp_is_open ops s')"
  using assms
proof (cases rule: one_shot_cases)
  case (unopened e)
  with open_device_leaves [OF unopened(1)] show ?thesis by (auto split: option.splits)
next
  case (no_transport b)
  with open_device_leaves [OF no_transport(1)] show ?thesis by simp
next
  case (ran b s b' s')
  with close_closed show ?thesis by simp
qed

text \<open>A method that refuses without any effect: the open is all that was written.\<close>

lemma one_shot_refused:
  assumes "one_shot ops connect port opts ticks m = (r, Some s')"
    and "\<And>b s. \<exists>e. m b s = (Inl e, b, s)"
  shows "\<not> is_ok r \<and> (\<exists>s st ws. resolve_transport ops connect port (oo_settings opts) = Inr (s, st) \<and>
     written s' = written s @ ws \<and> list_all harmless ws)"
  using assms(1)
proof (cases rule: one_shot_cases)
  case (unopened e)
  with open_device_leaves [OF unopened(1)] show ?thesis by auto
next
  case (ran b s b' s2)
  with assms(2) [of b s] obtain e where "r = Inl e" "s2 = s" by auto
  with open_device_leaves [OF ran(1)] ran(3) close_written show ?thesis by auto
qed simp

end

lemma configure_reports_target:
  assumes "configure_protocol ops k p t u ticks confirm b s = (Inr i, b', s')" and "ba_info b = None"
  shows "di_protocol i = k"
proof -
  have rec: "di_protocol i = se_active (ba_session b1)" if "identify ops b1 s1 = (Inr i, b2, s2)" for b1 s1 b2 s2
  proof -
    from identify_records [OF that] have "di_protocol i = se_active (ba_session b2)"
      by (simp add: identity_recorded_def)
    moreover from identify_retried [OF that] have "se_active (ba_session b2) = se_active (ba_session b1)"
      by (simp add: retried_def session_frame_def)
    ultimately show ?thesis by simp
  qed
  obtain q b1 s1 where g: "configure_guards ops k p t u confirm b s = (q, b1, s1)"
    by (metis prod_cases3)
  show ?thesis
  proof (cases q)
    case (Inl e)
    with assms(1) g show ?thesis by (simp add: configure_protocol_def)
  next
    case (Inr z)
    show ?thesis
    proof (cases z)
      case None
      obtain w b2 s2 where w: "switch_clients ops k p t u ticks b1 s1 = (w, b2, s2)"
        by (metis prod_cases3)
      have i: "w = Inr () \<and> identify ops b2 s2 = (Inr i, b', s')"
        using assms(1) g Inr None w
        by (auto simp: configure_protocol_def rollback_configure_protocol_def raise_ctx_def
            split: sum.splits option.splits prod.splits)
      from switch_success [of ops k p t u ticks b1 s1 "()"] w i have "se_active (ba_session b2) = k"
        by (simp add: switched_def fresh_clients_def)
      with rec i show ?thesis by blast
    next
      case (Some j)
      with assms g Inr have "j = i" "k = se_active (ba_session b)" "identify ops b s = (Inr i, b', s')"
        by (auto simp: configure_protocol_def configure_guards_def Let_def raise_ctx_def
            split: sum.splits option.splits prod.splits if_splits)
      with rec show ?thesis by blast
    qed
  qed
qed

lemma overlay_nothing [simp]: "overlay None None None f = f"
  by (cases f) simp

lemma serial_close_framing: "serial_framing (tp_close serial_ops s) = serial_framing s"
  by (simp add: serial_ops_def serial_framing_def serial_close_def)

lemma open_device_framing:
  assumes "open_device serial_ops connect port opts ticks = (r, t)"
    and "resolve_transport serial_ops connect port (oo_settings opts) = Inr (s, st)"
  shows "\<exists>s'. t = Some s' \<and> serial_framing s' = serial_framing s"
proof -
  obtain q s1 where o: "(if tp_is_open serial_ops s then (Inr (), s) else tp_open serial_ops s) = (q, s1)"
    by fastforce
  obtain w s2 where w: "open_balance serial_ops opts st ticks s1 = (w, s2)" by fastforce
  have "st_settings s1 = st_settings s"
    using o by (auto simp: serial_ops_def dest: serial_open_settings split: if_splits)
  moreover have "serial_framing s2 = serial_framing s1"
    by (rule serial_framed.framing.opening_io.P_open_balance [OF w])
  moreover have "t = Some s1 \<or> t = Some s2 \<or> t = Some (tp_close serial_ops s2)"
    using assms o w by (auto simp: open_device_def split: sum.splits)
  ultimately show ?thesis using serial_close_framing [of s2] by (auto simp: serial_framing_def)
qed

lemma open_device_unidentified:
  assumes "open_device serial_ops connect port opts ticks = (Inr b, Some s')" and "\<not> oo_identify opts"
  shows "ba_info b = None"
  using serial_life.open_device_leaves [OF assms(1)] assms(2) by (auto simp: opened_balance_def)

lemma configure_ok_confirmed:
  "configure_protocol ops k p t u ticks confirm b s = (Inr i, b', s') \<Longrightarrow> confirm \<and> k \<noteq> AUTO"
  by (auto simp: configure_protocol_def configure_guards_def Let_def raise_ctx_def
      split: if_splits sum.splits option.splits prod.splits)

section \<open>Properties\<close>

text \<open>
  The one-shot protocol switch: the port is closed whatever happens; and when the call
  returns, it was confirmed, the identity it reports was read under the target protocol, and the
  port was last driven with the framing the arguments ask for, the old one where they ask nothing.
\<close>

theorem switch_protocol_result:
  assumes "switch_protocol serial_ops connect port target current settings nb np ns src dst confirm
       ticks ticks' = (r, Some s')"
    and "resolve_transport serial_ops connect port settings = Inr (s, st)"
  shows "\<not> serial_is_open s' \<and>
     (case r of Inl e \<Rightarrow> True
      | Inr i \<Rightarrow> confirm \<and> target \<noteq> AUTO \<and> di_protocol i = target \<and>
          serial_framing s' = overlay nb np ns (serial_framing s))"
proof -
  let ?m = "configure_protocol serial_ops target nb np ns ticks' confirm"
  note one = assms(1) [unfolded switch_protocol_def]
  have closed: "\<not> serial_is_open s'"
    using serial_life.one_shot_closes [OF one] by (simp add: serial_ops_def)
  have "confirm \<and> target \<noteq> AUTO \<and> di_protocol i = target \<and>
      serial_framing s' = overlay nb np ns (serial_framing s)" if i: "r = Inr i" for i
    using one
  proof (cases rule: one_shot_cases)
    case (ran b s0 b' s1)
    have m: "?m b s0 = (Inr i, b', s1)" using ran(2) i by simp
    have "serial_framing s' = serial_framing s1"
      using ran(3) serial_close_framing by simp
    moreover have "serial_framing s0 = serial_framing s"
      using open_device_framing [OF ran(1)] assms(2) by (simp add: maintenance_options_def)
    moreover have "serial_framing s1 = overlay nb np ns (serial_framing s0)"
      using m by (cases rule: serial_framed.configure_outcomes) auto
    moreover have "di_protocol i = target"
      by (rule configure_reports_target [OF m open_device_unidentified [OF ran(1)]])
        (simp add: maintenance_options_def)
    ultimately show ?thesis using configure_ok_confirmed [OF m] by simp
  qed (use i in simp_all)
  with closed show ?thesis by (cases r) simp_all
qed

text \<open>A refused one-shot call: closed port, old framing, harmless requests at most.\<close>

definition refused_closed :: "serial_transport \<Rightarrow> 'a res \<times> serial_transport option \<Rightarrow> bool" where
  "refused_closed s out \<longleftrightarrow>
     \<not> is_ok (fst out) \<and>
     (case snd out of
        None \<Rightarrow> False
      | Some s' \<Rightarrow> \<not> serial_is_open s' \<and> serial_framing s' = serial_framing s \<and>
          (\<exists>ws. st_sent s' = st_sent s @ ws \<and> list_all harmless ws))"

lemma one_shot_refused_closed:
  assumes "resolve_transport serial_ops connect port (oo_settings opts) = Inr (s, st)"
    and m: "\<And>b s. \<exists>e. m b s = (Inl e, b, s)"
  shows "refused_closed s (one_shot serial_ops connect port opts ticks m)"
proof -
  obtain r t where one: "one_shot serial_ops connect port opts ticks m = (r, t)" by fastforce
  obtain q t' where o: "open_device serial_ops connect port opts ticks = (q, t')" by fastforce
  from open_device_framing [OF o assms(1)] obtain s0
    where s0: "t' = Some s0" "serial_framing s0 = serial_framing s" by blast
  have "\<exists>s'. t = Some s' \<and> serial_framing s' = serial_framing s"
    using one
  proof (cases rule: one_shot_cases)
    case (ran b s1 b' s2)
    with m [of b s1] have "t = Some (tp_close serial_ops s1)" by auto
    with ran(1) o s0 serial_close_framing show ?thesis by simp
  qed (use o s0 in auto)
  then obtain s' where s': "t = Some s'" "serial_framing s' = serial_framing s" by blast
  have "\<not> serial_is_open s'"
    using serial_life.one_shot_closes [OF one] s'(1) by (simp add: serial_ops_def)
  with serial_life.one_shot_refused [OF one [unfolded s'(1)] m] one s' assms(1) show ?thesis
    by (auto simp: refused_closed_def)
qed

text \<open>
  Without a confirmation the one-shot functions change nothing: each of the three raises and
  leaves the port closed with its old framing, and all it wrote were the harmless requests of
  the open.
\<close>

theorem unconfirmed_maintenance_refused:
  assumes "resolve_transport serial_ops connect port settings = Inr (s, st)"
  shows "refused_closed s (switch_protocol serial_ops connect port target current settings nb np ns
       src dst False ticks ticks') \<and>
     refused_closed s (set_baud_rate_once serial_ops connect port w baud settings p u src dst False
       ticks ticks') \<and>
     refused_closed s (write_sbn_address_once serial_ops connect port sbn settings src dst False ticks)"
proof (intro conjI)
  note one = one_shot_refused_closed [of connect port "maintenance_options k settings src dst" s st for k]
  show "refused_closed s (switch_protocol serial_ops connect port target current settings nb np ns
       src dst False ticks ticks')"
    unfolding switch_protocol_def
    by (rule one) (use assms in \<open>simp_all add: maintenance_options_def unconfirmed_switch\<close>)
  show "refused_closed s (set_baud_rate_once serial_ops connect port w baud settings p u src dst False
       ticks ticks')"
    unfolding set_baud_rate_once_def
    by (rule one) (use assms in \<open>simp_all add: maintenance_options_def unconfirmed_switch\<close>)
  show "refused_closed s (write_sbn_address_once serial_ops connect port sbn settings src dst False ticks)"
    unfolding write_sbn_address_once_def
    by (rule one)
      (use assms in \<open>simp_all add: maintenance_options_def write_sbn_address_def b_lift_def raise_ctx_def\<close>)
qed

theorem unconfirmed_maintenance_refused_witness:
  "refused_closed (demo_connect [] (default_settings ''a''))
     (switch_protocol serial_ops (demo_connect []) (PortPath ''a'') SBI XBPI None None None None
        1 9 False 0 0)"
proof -
  have "resolve_transport serial_ops (demo_connect []) (PortPath ''a'') None
      = Inr (demo_connect [] (default_settings ''a''), default_settings ''a'')"
    by (simp add: resolve_transport_def default_settings_def Let_def)
  from unconfirmed_maintenance_refused [OF this] show ?thesis by blast
qed

text \<open>A balance that answers every SBI request, which the port is switched to at 19200 baud.\<close>

definition answering_connect :: "SerialSettings \<Rightarrow> serial_transport" where
  "answering_connect settings = demo_identity_device\<lparr>st_settings := settings, st_port := False\<rparr>"

theorem switch_protocol_result_witness:
  "\<exists>i s'. switch_protocol serial_ops answering_connect (PortPath ''a'') SBI XBPI None (Some 19200)
       None None 1 9 True 0 0 = (Inr i, Some s') \<and> di_protocol i = SBI \<and>
     serial_framing s' = (19200, ''odd'', ''1'') \<and> \<not> serial_is_open s'"
proof -
  let ?x = "switch_protocol serial_ops answering_connect (PortPath ''a'') SBI XBPI None (Some 19200)
       None None 1 9 True 0 0"
  have rs: "resolve_transport serial_ops answering_connect (PortPath ''a'') None
      = Inr (answering_connect (default_settings ''a''), default_settings ''a'')"
    by (simp add: resolve_transport_def default_settings_def Let_def)
  have "case ?x of (Inr i, Some s') \<Rightarrow> True | _ \<Rightarrow> False" by code_simp
  then obtain i s' where x: "?x = (Inr i, Some s')"
    by (auto split: prod.splits sum.splits option.splits)
  have "serial_framing (answering_connect (default_settings ''a'')) = (9600, ''odd'', ''1'')"
    by (simp add: answering_connect_def serial_framing_def settings_framing_def default_settings_def)
  with x switch_protocol_result [OF x rs] show ?thesis by simp
qed

end
