(* ===== verification/Manager.thy ===== *)
theory Manager
  imports Opening Dictionary
begin

text \<open>
  \<open>manager.py\<close>: one manager for many balances. Balances on one port share the transport and the
  protocol client, so here these objects live on a heap and the manager's entries hold their
  addresses, as the Python objects are references. The identity of an object (\<open>id\<close>) is its
  address. The calls of a manager that change it hold its lock, so each is one step; what
  \<open>_dispatch\<close> runs concurrently is interleaved explicitly.
\<close>

section \<open>Objects\<close>

text \<open>
  A balance with the address of the one client of its session and of the transport below it.
  The client in the session's own field is only a copy; loading a balance refreshes it. Methods
  that replace the clients (a switch of the protocol) give a balance clients of its own; they are
  not run on the balances of a manager here.
\<close>

record balance_cell =
  bc_balance :: balance
  bc_client :: nat
  bc_transport :: nat

record 's heap =
  hp_transports :: "nat \<Rightarrow> 's"
  hp_clients :: "nat \<Rightarrow> protocol_client"
  hp_balances :: "nat \<Rightarrow> balance_cell"
  hp_next :: nat

fun put_client :: "protocol_client \<Rightarrow> session \<Rightarrow> session" where
  "put_client (XbpiClient c) se = se\<lparr>se_xbpi := Some c\<rparr>"
| "put_client (SbiClient c) se = se\<lparr>se_sbi := Some c\<rparr>"

fun taken_client :: "protocol_client \<Rightarrow> session \<Rightarrow> protocol_client" where
  "taken_client (XbpiClient c) se =
     (case se_xbpi se of None \<Rightarrow> XbpiClient c | Some c' \<Rightarrow> XbpiClient c')"
| "taken_client (SbiClient c) se =
     (case se_sbi se of None \<Rightarrow> SbiClient c | Some c' \<Rightarrow> SbiClient c')"

text \<open>A method of the balance at an address, on the objects the balance refers to.\<close>

definition run_on :: "('s, 'a) bal \<Rightarrow> nat \<Rightarrow> 's heap \<Rightarrow> 'a res \<times> 's heap" where
  "run_on m a h =
     (let cell = hp_balances h a;
          client = hp_clients h (bc_client cell);
          b = bc_balance cell
      in case m (b\<lparr>ba_session := put_client client (ba_session b)\<rparr>)
               (hp_transports h (bc_transport cell)) of
           (r, b', s') \<Rightarrow>
             (r, h\<lparr>hp_balances := (hp_balances h)(a := cell\<lparr>bc_balance := b'\<rparr>),
                   hp_clients := (hp_clients h)(bc_client cell := taken_client client (ba_session b')),
                   hp_transports := (hp_transports h)(bc_transport cell := s')\<rparr>))"

section \<open>Port names\<close>

text \<open>What the operating system says of paths.\<close>

record host =
  ho_windows :: bool
  ho_exists :: "string \<Rightarrow> bool"
  ho_realpath :: "string \<Rightarrow> string"

definition WINDOWS_DEVICE_PREFIX :: string where
  "WINDOWS_DEVICE_PREFIX = [CHR 0x5C, CHR 0x5C, CHR ''.'', CHR 0x5C]"

definition canonical_port_key :: "host \<Rightarrow> string \<Rightarrow> string" where
  "canonical_port_key host port =
     (if ho_windows host
      then py_upper (if startswith port WINDOWS_DEVICE_PREFIX
                     then drop (length WINDOWS_DEVICE_PREFIX) port else port)
      else if ho_exists host port then ho_realpath host port else port)"

section \<open>State\<close>

datatype ErrorPolicy = POLICY_RAISE | POLICY_RETURN

record 'a DeviceResult =
  rv_value :: "'a option"
  rv_error :: "exn option"

definition rv_ok :: "'a DeviceResult \<Rightarrow> bool" where
  "rv_ok r \<longleftrightarrow> rv_error r = None"

definition rv_success :: "'a \<Rightarrow> 'a DeviceResult" where
  "rv_success v = \<lparr>rv_value = Some v, rv_error = None\<rparr>"

definition rv_failure :: "exn \<Rightarrow> 'a DeviceResult" where
  "rv_failure e = \<lparr>rv_value = None, rv_error = Some e\<rparr>"

record PortEntry =
  pt_key :: string
  pt_transport :: nat
  pt_client :: "nat option"
  pt_owns_transport :: bool
  pt_protocol :: "ProtocolKind option"
  pt_refs :: "string set"

record DeviceEntry =
  de_name :: string
  de_balance :: nat
  de_port_key :: "string option"

record manager =
  mg_error_policy :: ErrorPolicy
  mg_devices :: "(string \<times> DeviceEntry) list"
  mg_ports :: "(string \<times> PortEntry) list"
  mg_closed :: bool

definition SartoriusManager :: "ErrorPolicy \<Rightarrow> manager" where
  "SartoriusManager policy =
     \<lparr>mg_error_policy = policy, mg_devices = [], mg_ports = [], mg_closed = False\<rparr>"

definition mg_names :: "manager \<Rightarrow> string list" where
  "mg_names m = keys (mg_devices m)"

definition validation_name :: "string \<Rightarrow> 'a res" where
  "validation_name name =
     raise_ctx SartoriusValidationError (extra [(''name'', XStr name)])"

definition check_open :: "manager \<Rightarrow> unit res" where
  "check_open m =
     (if mg_closed m then raise_ctx SartoriusConnectionError (extra [(''closed'', XBool True)])
      else Inr ())"

section \<open>Opening a balance on a port\<close>

text \<open>The client of a port, made on the first use of the port.\<close>

definition port_client ::
  "ProtocolKind \<Rightarrow> PortEntry \<Rightarrow> 's heap \<Rightarrow> nat \<times> PortEntry \<times> 's heap" where
  "port_client protocol pe h =
     (case pt_client pe of
        Some c \<Rightarrow> (c, pe, h)
      | None \<Rightarrow>
          let c = hp_next h;
              client = (if protocol = XBPI then XbpiClient XbpiProtocolClient
                        else SbiClient SbiProtocolClient)
          in (c, pe\<lparr>pt_client := Some c, pt_protocol := Some protocol\<rparr>,
              h\<lparr>hp_clients := (hp_clients h)(c := client), hp_next := c + 1\<rparr>))"

text \<open>The session and the balance on the client of a port.\<close>

definition balance_on_client ::
  "'s transport_ops \<Rightarrow> open_options \<Rightarrow> nat \<Rightarrow> nat \<Rightarrow> 's heap \<Rightarrow> nat res \<times> 's heap" where
  "balance_on_client ops opts t c h =
     (let xbpi = (case hp_clients h c of
                    XbpiClient x \<Rightarrow> if oo_protocol opts = XBPI then Some x else None
                  | SbiClient y \<Rightarrow> None);
          sbi = (case hp_clients h c of
                   XbpiClient x \<Rightarrow> None
                 | SbiClient y \<Rightarrow> if oo_protocol opts = SBI then Some y else None);
          settings = (case oo_settings opts of
                        Some st \<Rightarrow> st | None \<Rightarrow> default_settings (tp_label ops (hp_transports h t)))
      in case Session xbpi sbi (oo_protocol opts) FAMILY_UNKNOWN NO_CAPABILITY None
                (oo_src_sbn opts) (oo_dst_sbn opts) (oo_strict opts) (Some settings) of
           Inl e \<Rightarrow> (Inl e, h)
         | Inr session \<Rightarrow>
             let a = hp_next h;
                 cell = \<lparr>bc_balance = Balance session None, bc_client = c, bc_transport = t\<rparr>;
                 h = h\<lparr>hp_balances := (hp_balances h)(a := cell), hp_next := a + 1\<rparr>
             in if oo_identify opts
                then (case run_on (identify ops) a h of
                        (Inl e, h') \<Rightarrow> (Inl e, h')
                      | (Inr _, h') \<Rightarrow> (Inr a, h'))
                else (Inr a, h))"

definition open_balance_on_port ::
  "'s transport_ops \<Rightarrow> open_options \<Rightarrow> PortEntry \<Rightarrow> 's heap \<Rightarrow> nat res \<times> PortEntry \<times> 's heap" where
  "open_balance_on_port ops opts pe h =
     (if oo_protocol opts = AUTO
      then (raise_ctx SartoriusValidationError (extra [(''protocol'', XStr ''auto'')]), pe, h)
      else
        let t = pt_transport pe; s = hp_transports h t
        in case (if tp_is_open ops s then (Inr (), s) else tp_open ops s) of
             (Inl e, s1) \<Rightarrow> (Inl e, pe, h\<lparr>hp_transports := (hp_transports h)(t := s1)\<rparr>)
           | (Inr _, s1) \<Rightarrow>
               let h = h\<lparr>hp_transports := (hp_transports h)(t := s1)\<rparr>
               in if pt_protocol pe \<noteq> None \<and> pt_protocol pe \<noteq> Some (oo_protocol opts)
                  then (raise_ctx SartoriusValidationError
                          (extra [(''existing_protocol'',
                                   XStr (protocol_value (the (pt_protocol pe)))),
                                  (''requested_protocol'', XStr (protocol_value (oo_protocol opts)))]),
                        pe, h)
                  else
                    (case port_client (oo_protocol opts) pe h of
                       (c, pe, h) \<Rightarrow>
                         (case balance_on_client ops opts t c h of (r, h) \<Rightarrow> (r, pe, h))))"

section \<open>Adding and removing\<close>

datatype source = SrcBalance nat | SrcPath string | SrcTransport nat

text \<open>\<open>_maybe_teardown_port\<close>: closing never fails in this model of the transports.\<close>

definition maybe_teardown_port ::
  "'s transport_ops \<Rightarrow> string \<Rightarrow> PortEntry \<Rightarrow> manager \<Rightarrow> 's heap \<Rightarrow> manager \<times> 's heap" where
  "maybe_teardown_port ops key pe m h =
     (let t = pt_transport pe;
          h = (if pt_owns_transport pe \<and> tp_is_open ops (hp_transports h t)
               then h\<lparr>hp_transports := (hp_transports h)(t := tp_close ops (hp_transports h t))\<rparr>
               else h)
      in (m\<lparr>mg_ports := dict_pop key (mg_ports m)\<rparr>, h))"

text \<open>
  The port entry for a source that is not a balance: the one with its key, or a new one with a
  new transport object for a path.
\<close>

definition port_entry_for ::
  "host \<Rightarrow> (nat \<Rightarrow> SerialSettings \<Rightarrow> 's) \<Rightarrow> source \<Rightarrow> SerialSettings option \<Rightarrow> manager \<Rightarrow> 's heap \<Rightarrow>
   string \<times> bool \<times> PortEntry \<times> 's heap" where
  "port_entry_for host connect src serial_settings m h =
     (let key = (case src of
                   SrcPath path \<Rightarrow> canonical_port_key host path
                 | SrcTransport t \<Rightarrow> ''transport:'' @ int_text (int t)
                 | SrcBalance b \<Rightarrow> [])
      in case map_of (mg_ports m) key of
           Some pe \<Rightarrow> (key, False, pe, h)
         | None \<Rightarrow>
             (case src of
                SrcPath path \<Rightarrow>
                  let settings = (case serial_settings of
                                    Some st \<Rightarrow> st | None \<Rightarrow> default_settings path);
                      t = hp_next h
                  in (key, True,
                      \<lparr>pt_key = key, pt_transport = t, pt_client = None, pt_owns_transport = True,
                       pt_protocol = None, pt_refs = {}\<rparr>,
                      h\<lparr>hp_transports := (hp_transports h)(t := connect t settings),
                        hp_next := t + 1\<rparr>)
              | SrcTransport t \<Rightarrow>
                  (key, True,
                   \<lparr>pt_key = key, pt_transport = t, pt_client = None, pt_owns_transport = False,
                    pt_protocol = None, pt_refs = {}\<rparr>, h)
              | SrcBalance b \<Rightarrow>
                  (key, True,
                   \<lparr>pt_key = key, pt_transport = 0, pt_client = None, pt_owns_transport = False,
                    pt_protocol = None, pt_refs = {}\<rparr>, h)))"

fun is_path :: "source \<Rightarrow> bool" where
  "is_path (SrcPath path) = True"
| "is_path _ = False"

definition resolve_source ::
  "'s transport_ops \<Rightarrow> host \<Rightarrow> (nat \<Rightarrow> SerialSettings \<Rightarrow> 's) \<Rightarrow> source \<Rightarrow> open_options \<Rightarrow>
   manager \<Rightarrow> 's heap \<Rightarrow> (string option \<times> nat) res \<times> manager \<times> 's heap" where
  "resolve_source ops host connect src opts m h =
     (case src of
        SrcBalance a \<Rightarrow> (Inr (None, a), m, h)
      | _ \<Rightarrow>
          (case port_entry_for host connect src (oo_settings opts) m h of
             (key, fresh_port, pe, h1) \<Rightarrow>
               let settings = (if is_path src then oo_settings opts else None)
               in case open_balance_on_port ops (opts\<lparr>oo_settings := settings\<rparr>) pe h1 of
                    (r, pe', h2) \<Rightarrow>
                      let m2 = m\<lparr>mg_ports := dict_set key pe' (mg_ports m)\<rparr>
                      in case r of
                           Inr a \<Rightarrow> (Inr (Some key, a), m2, h2)
                         | Inl e \<Rightarrow>
                             if fresh_port \<and> pt_refs pe' = {}
                             then (case maybe_teardown_port ops key pe' m2 h2 of
                                     (m3, h3) \<Rightarrow> (Inl e, m3, h3))
                             else (Inl e, m2, h2)))"

text \<open>\<open>port_entry.refs.add(name)\<close> on the entry of a key.\<close>

definition add_ref :: "string option \<Rightarrow> string \<Rightarrow> manager \<Rightarrow> manager" where
  "add_ref key name m =
     (case key of
        None \<Rightarrow> m
      | Some k \<Rightarrow>
          (case map_of (mg_ports m) k of
             None \<Rightarrow> m
           | Some pe \<Rightarrow>
               m\<lparr>mg_ports := dict_set k (pe\<lparr>pt_refs := insert name (pt_refs pe)\<rparr>) (mg_ports m)\<rparr>))"

definition mg_add ::
  "'s transport_ops \<Rightarrow> host \<Rightarrow> (nat \<Rightarrow> SerialSettings \<Rightarrow> 's) \<Rightarrow> string \<Rightarrow> source \<Rightarrow> open_options \<Rightarrow>
   manager \<Rightarrow> 's heap \<Rightarrow> nat res \<times> manager \<times> 's heap" where
  "mg_add ops host connect name src opts m h =
     (case check_open m of
        Inl e \<Rightarrow> (Inl e, m, h)
      | Inr _ \<Rightarrow>
          if name \<in> set (keys (mg_devices m)) then (validation_name name, m, h)
          else if oo_settings opts \<noteq> None \<and> \<not> is_path src then (validation_name name, m, h)
          else
            (case resolve_source ops host connect src opts m h of
               (Inl e, m1, h1) \<Rightarrow> (Inl e, m1, h1)
             | (Inr (port_key, a), m1, h1) \<Rightarrow>
                 let entry = \<lparr>de_name = name, de_balance = a, de_port_key = port_key\<rparr>;
                     m2 = m1\<lparr>mg_devices := dict_set name entry (mg_devices m1)\<rparr>
                 in (Inr a, add_ref port_key name m2, h1)))"

definition teardown_device ::
  "'s transport_ops \<Rightarrow> DeviceEntry \<Rightarrow> manager \<Rightarrow> 's heap \<Rightarrow> manager \<times> 's heap" where
  "teardown_device ops entry m h =
     (case de_port_key entry of
        None \<Rightarrow> (m, h)
      | Some key \<Rightarrow>
          (case map_of (mg_ports m) key of
             None \<Rightarrow> (m, h)
           | Some pe \<Rightarrow>
               let pe' = pe\<lparr>pt_refs := pt_refs pe - {de_name entry}\<rparr>;
                   m1 = m\<lparr>mg_ports := dict_set key pe' (mg_ports m)\<rparr>
               in if pt_refs pe' = {} then maybe_teardown_port ops key pe' m1 h else (m1, h)))"

definition mg_remove ::
  "'s transport_ops \<Rightarrow> string \<Rightarrow> manager \<Rightarrow> 's heap \<Rightarrow> unit res \<times> manager \<times> 's heap" where
  "mg_remove ops name m h =
     (case check_open m of
        Inl e \<Rightarrow> (Inl e, m, h)
      | Inr _ \<Rightarrow>
          (case map_of (mg_devices m) name of
             None \<Rightarrow> (validation_name name, m, h)
           | Some entry \<Rightarrow>
               (case teardown_device ops entry
                       (m\<lparr>mg_devices := dict_pop name (mg_devices m)\<rparr>) h of
                  (m', h') \<Rightarrow> (Inr (), m', h'))))"

definition mg_get :: "manager \<Rightarrow> string \<Rightarrow> nat res" where
  "mg_get m name =
     (case map_of (mg_devices m) name of
        None \<Rightarrow> validation_name name
      | Some entry \<Rightarrow> Inr (de_balance entry))"

text \<open>The loop of \<open>close\<close> over the names, the last one first.\<close>

fun close_devices ::
  "'s transport_ops \<Rightarrow> string list \<Rightarrow> manager \<Rightarrow> 's heap \<Rightarrow> manager \<times> 's heap" where
  "close_devices ops [] m h = (m, h)"
| "close_devices ops (name # names) m h =
     (case map_of (mg_devices m) name of
        None \<Rightarrow> close_devices ops names m h
      | Some entry \<Rightarrow>
          (case teardown_device ops entry (m\<lparr>mg_devices := dict_pop name (mg_devices m)\<rparr>) h of
             (m', h') \<Rightarrow> close_devices ops names m' h'))"

definition mg_close :: "'s transport_ops \<Rightarrow> manager \<Rightarrow> 's heap \<Rightarrow> manager \<times> 's heap" where
  "mg_close ops m h =
     (if mg_closed m then (m, h)
      else case close_devices ops (rev (keys (mg_devices m))) m h of
             (m', h') \<Rightarrow> (m'\<lparr>mg_closed := True\<rparr>, h'))"

section \<open>Dispatch\<close>

text \<open>
  The tasks of \<open>_dispatch\<close>: each group of names on one port is worked off in order, the groups
  run concurrently. One step is one operation of one group, because an operation holds the lock
  of its client. A schedule says which group moves next; what it leaves undone runs at the end,
  one group after the other, so every interleaving is the run of a schedule. An exception that
  is not of the package cancels all groups.
\<close>

record ('s, 'a) dispatch_state =
  dp_groups :: "(string \<times> string list) list"
  dp_results :: "(string \<times> 'a DeviceResult) list"
  dp_errors :: "exn list"
  dp_crash :: "exn option"
  dp_heap :: "'s heap"

datatype dispatch_error = Raised exn | ExceptionGroup "exn list"

definition group_key :: "manager \<Rightarrow> string \<Rightarrow> string" where
  "group_key m n =
     (case map_of (mg_devices m) n of
        None \<Rightarrow> []
      | Some entry \<Rightarrow>
          (case de_port_key entry of Some key \<Rightarrow> key | None \<Rightarrow> ''solo:'' @ n))"

definition run_member ::
  "(nat \<Rightarrow> 's heap \<Rightarrow> 'a res \<times> 's heap) \<Rightarrow> manager \<Rightarrow> string \<Rightarrow> ('s, 'a) dispatch_state \<Rightarrow>
   ('s, 'a) dispatch_state" where
  "run_member opr m member d =
     (case map_of (mg_devices m) member of
        None \<Rightarrow> d\<lparr>dp_crash := Some (Py KeyError)\<rparr>
      | Some entry \<Rightarrow>
          (case opr (de_balance entry) (dp_heap d) of
             (Inl e, h') \<Rightarrow>
               if exn_is e SartoriusError
               then d\<lparr>dp_heap := h', dp_results := dict_set member (rv_failure e) (dp_results d),
                      dp_errors := dp_errors d @ [e]\<rparr>
               else d\<lparr>dp_heap := h', dp_crash := Some e\<rparr>
           | (Inr v, h') \<Rightarrow>
               d\<lparr>dp_heap := h', dp_results := dict_set member (rv_success v) (dp_results d)\<rparr>))"

text \<open>One step of group \<open>i\<close>, if it has something left to do.\<close>

definition group_step ::
  "(nat \<Rightarrow> 's heap \<Rightarrow> 'a res \<times> 's heap) \<Rightarrow> manager \<Rightarrow> nat \<Rightarrow> ('s, 'a) dispatch_state \<Rightarrow>
   ('s, 'a) dispatch_state" where
  "group_step opr m i d =
     (if dp_crash d \<noteq> None \<or> length (dp_groups d) \<le> i then d
      else case dp_groups d ! i of
             (key, []) \<Rightarrow> d
           | (key, member # members) \<Rightarrow>
               run_member opr m member (d\<lparr>dp_groups := (dp_groups d)[i := (key, members)]\<rparr>))"

definition run_schedule ::
  "(nat \<Rightarrow> 's heap \<Rightarrow> 'a res \<times> 's heap) \<Rightarrow> manager \<Rightarrow> nat list \<Rightarrow> ('s, 'a) dispatch_state \<Rightarrow>
   ('s, 'a) dispatch_state" where
  "run_schedule opr m schedule d = fold (group_step opr m) schedule d"

text \<open>The steps that work off whatever is left, group after group.\<close>

definition sequential :: "(string \<times> string list) list \<Rightarrow> nat list" where
  "sequential groups = concat (map (\<lambda>i. replicate (length (snd (groups ! i))) i) [0..<length groups])"

definition mg_dispatch ::
  "(nat \<Rightarrow> 's heap \<Rightarrow> 'a res \<times> 's heap) \<Rightarrow> manager \<Rightarrow> string list \<Rightarrow> nat list \<Rightarrow> 's heap \<Rightarrow>
   (dispatch_error + (string \<times> 'a DeviceResult) list) \<times> 's heap" where
  "mg_dispatch opr m names schedule h =
     (let d0 = \<lparr>dp_groups = group_by (group_key m) names, dp_results = [], dp_errors = [],
                dp_crash = None, dp_heap = h\<rparr>;
          d1 = run_schedule opr m schedule d0;
          d = run_schedule opr m (sequential (dp_groups d1)) d1
      in case dp_crash d of
           Some e \<Rightarrow> (Inl (ExceptionGroup [e]), dp_heap d)
         | None \<Rightarrow>
             if mg_error_policy m = POLICY_RAISE \<and> dp_errors d \<noteq> []
             then (Inl (ExceptionGroup (dp_errors d)), dp_heap d)
             else (Inr (dp_results d), dp_heap d))"

text \<open>\<open>sorted\<close> on strings: by code points.\<close>

fun text_le :: "string \<Rightarrow> string \<Rightarrow> bool" where
  "text_le [] ys = True"
| "text_le (x # xs) [] = False"
| "text_le (x # xs) (y # ys) \<longleftrightarrow>
     of_char x < (of_char y :: nat) \<or> x = y \<and> text_le xs ys"

fun insort_name :: "string \<Rightarrow> string list \<Rightarrow> string list" where
  "insort_name x [] = [x]"
| "insort_name x (y # ys) = (if text_le x y then x # y # ys else y # insort_name x ys)"

definition sort_names :: "string list \<Rightarrow> string list" where
  "sort_names xs = foldr insort_name xs []"

definition resolve_names :: "manager \<Rightarrow> string list option \<Rightarrow> string list res" where
  "resolve_names m names =
     (case names of
        None \<Rightarrow> Inr (keys (mg_devices m))
      | Some targets \<Rightarrow>
          let unknown = filter (\<lambda>n. n \<notin> set (keys (mg_devices m))) targets
          in if unknown \<noteq> []
             then raise_ctx SartoriusValidationError
                    (extra [(''unknown'', XList (map XStr (sort_names unknown)))])
             else Inr targets)"

definition mg_poll ::
  "'s transport_ops \<Rightarrow> nat \<Rightarrow> manager \<Rightarrow> string list option \<Rightarrow> nat list \<Rightarrow> 's heap \<Rightarrow>
   (dispatch_error + (string \<times> response DeviceResult) list) \<times> 's heap" where
  "mg_poll ops ticks m names schedule h =
     (case resolve_names m names of
        Inl e \<Rightarrow> (Inl (Raised e), h)
      | Inr targets \<Rightarrow> mg_dispatch (run_on (poll ops ticks)) m targets schedule h)"

text \<open>
  \<open>execute\<close>: the operation finds the name of a balance by its identity. In a dictionary
  comprehension the last entry for a key stays.
\<close>

definition name_by_balance_id :: "manager \<Rightarrow> nat \<Rightarrow> string option" where
  "name_by_balance_id m a =
     map_option de_name (find (\<lambda>entry. de_balance entry = a) (rev (map snd (mg_devices m))))"

definition execute_by_name ::
  "'s transport_ops \<Rightarrow> 'req Command \<Rightarrow> (string \<times> 'req) list \<Rightarrow> manager \<Rightarrow> nat \<Rightarrow> 's heap \<Rightarrow>
   response res \<times> 's heap" where
  "execute_by_name ops cmd requests_by_name m a h =
     (case name_by_balance_id m a of
        None \<Rightarrow> (Inl (Py KeyError), h)
      | Some name \<Rightarrow>
          (case map_of requests_by_name name of
             None \<Rightarrow> (Inl (Py KeyError), h)
           | Some request \<Rightarrow> run_on (b_execute ops cmd request False) a h))"

definition mg_execute ::
  "'s transport_ops \<Rightarrow> 'req Command \<Rightarrow> (string \<times> 'req) list \<Rightarrow> manager \<Rightarrow> nat list \<Rightarrow> 's heap \<Rightarrow>
   (dispatch_error + (string \<times> response DeviceResult) list) \<times> 's heap" where
  "mg_execute ops cmd requests_by_name m schedule h =
     (case find (\<lambda>name. name \<notin> set (keys (mg_devices m))) (keys requests_by_name) of
        Some name \<Rightarrow>
          (Inl (Raised (projl (raise_ctx SartoriusValidationError
             (SetCommandName (Some (cmd_name cmd)) # extra [(''name'', XStr name)]) :: unit res))), h)
      | None \<Rightarrow>
          mg_dispatch (execute_by_name ops cmd requests_by_name m) m (keys requests_by_name) schedule h)"

end
