(* ===== verification/Manager_Dispatch.thy ===== *)
theory Manager_Dispatch
  imports Manager "HOL-Library.Multiset"
begin

text \<open>
  Operations on many balances at once: whatever the interleaving of the groups, the outcome is
  the same, because groups work on separate objects; and every name gets its own result.
\<close>

section \<open>Steps of a dispatch\<close>

text \<open>What a caller can tell of a state: the order in which groups finish is not part of it.\<close>

definition view ::
  "('s, 'a) dispatch_state \<Rightarrow>
   (string \<times> string list) list \<times> (string \<Rightarrow> 'a DeviceResult option) \<times> exn multiset \<times> exn option \<times> 's heap"
where
  "view d = (dp_groups d, map_of (dp_results d), mset (dp_errors d), dp_crash d, dp_heap d)"

text \<open>The names of group \<open>i\<close> are managed and belong to it; keys are distinct.\<close>

definition grouped :: "manager \<Rightarrow> (string \<times> string list) list \<Rightarrow> bool" where
  "grouped m gs \<longleftrightarrow>
     distinct (map fst gs) \<and>
     (\<forall>(key, ns) \<in> set gs. \<forall>n \<in> set ns. n \<in> set (keys (mg_devices m)) \<and> group_key m n = key)"

lemma group_by_grouped:
  assumes "set names \<subseteq> set (keys (mg_devices m))"
  shows "grouped m (group_by (group_key m) names)"
  using assms by (auto simp: grouped_def group_by_firsts comp_def)

lemma grouped_update:
  "grouped m gs \<Longrightarrow> i < length gs \<Longrightarrow> gs ! i = (key, ns) \<Longrightarrow> set ns' \<subseteq> set ns \<Longrightarrow>
     grouped m (gs[i := (key, ns')])"
proof -
  assume g: "grouped m gs" "i < length gs" "gs ! i = (key, ns)" "set ns' \<subseteq> set ns"
  have "map fst (gs[i := (key, ns')]) = map fst gs"
    using g(2,3) by (metis fst_conv list_update_id map_update)
  moreover have m: "(key, ns) \<in> set gs" using g(2,3) by (metis nth_mem)
  moreover have "n \<in> set (keys (mg_devices m)) \<and> group_key m n = k"
    if "(k, l) \<in> set (gs[i := (key, ns')])" "n \<in> set l" for k l n
  proof (cases "(k, l) \<in> set gs")
    case True
    with g(1) that(2) show ?thesis by (auto simp: grouped_def)
  next
    case False
    with that g(4) set_update_subset_insert [of gs i "(key, ns')"] have "k = key" "n \<in> set ns" by auto
    with m g(1) show ?thesis by (auto simp: grouped_def)
  qed
  ultimately show ?thesis using g(1) by (auto simp: grouped_def)
qed

section \<open>Independence of the schedule\<close>

text \<open>All groups are worked off.\<close>

definition finished :: "('s, 'a) dispatch_state \<Rightarrow> bool" where
  "finished d \<longleftrightarrow> (\<forall>i < length (dp_groups d). snd (dp_groups d ! i) = [])"

lemma idle_step:
  "length (dp_groups d) \<le> i \<or> snd (dp_groups d ! i) = [] \<Longrightarrow> group_step opr m i d = d"
  by (cases "dp_groups d ! i") (auto simp: group_step_def)

lemma finished_idle: "finished d \<Longrightarrow> run_schedule opr m is d = d"
proof (induction "is")
  case (Cons i "is")
  have "group_step opr m i d = d"
    using Cons.prems by (intro idle_step) (meson finished_def not_le)
  with Cons show ?case by (simp add: run_schedule_def)
qed (simp add: run_schedule_def)

lemma view_eqD:
  assumes "view d = view d'"
  shows "dp_groups d = dp_groups d'" "map_of (dp_results d) = map_of (dp_results d')"
    "mset (dp_errors d) = mset (dp_errors d')" "dp_crash d = dp_crash d'" "dp_heap d = dp_heap d'"
  using assms by (simp_all add: view_def)

lemma member_view:
  assumes "view d = view d'" shows "view (run_member opr m n d) = view (run_member opr m n d')"
proof (cases "map_of (mg_devices m) n")
  case None
  with view_eqD [OF assms] show ?thesis by (simp add: run_member_def view_def)
next
  case (Some e)
  obtain r h where o: "opr (de_balance e) (dp_heap d') = (r, h)" by fastforce
  with Some view_eqD [OF assms] show ?thesis
    by (cases r) (simp_all add: run_member_def view_def)
qed

lemma group_step_member:
  "dp_crash d = None \<Longrightarrow> i < length (dp_groups d) \<Longrightarrow> dp_groups d ! i = (key, n # ns) \<Longrightarrow>
     group_step opr m i d = run_member opr m n (d\<lparr>dp_groups := (dp_groups d)[i := (key, ns)]\<rparr>)"
  by (simp add: group_step_def)

lemma step_view:
  assumes "view d = view d'" shows "view (group_step opr m i d) = view (group_step opr m i d')"
proof (cases "dp_crash d' = None \<and> i < length (dp_groups d') \<and> snd (dp_groups d' ! i) \<noteq> []")
  case True
  then obtain key n ns where g: "dp_groups d' ! i = (key, n # ns)" by (metis list.exhaust prod.collapse)
  let ?u = "\<lambda>d. d\<lparr>dp_groups := (dp_groups d)[i := (key, ns)]\<rparr>"
  note v = view_eqD [OF assms]
  have "view (?u d) = view (?u d')" using v by (simp add: view_def)
  then have "view (run_member opr m n (?u d)) = view (run_member opr m n (?u d'))"
    by (rule member_view)
  moreover have "group_step opr m i d' = run_member opr m n (?u d')"
    using True g by (intro group_step_member) simp_all
  moreover have "group_step opr m i d = run_member opr m n (?u d)"
    using True g by (intro group_step_member) (simp_all add: v(1,4))
  ultimately show ?thesis by simp
next
  case False
  then have "group_step opr m i d' = d'" by (cases "dp_groups d' ! i") (auto simp: group_step_def)
  moreover have "group_step opr m i d = d"
    using False unfolding view_eqD(1,4) [OF assms, symmetric]
    by (cases "dp_groups d ! i") (auto simp: group_step_def)
  ultimately show ?thesis using assms by simp
qed

lemma schedule_view:
  "view d = view d' \<Longrightarrow> view (run_schedule opr m is d) = view (run_schedule opr m is d')"
proof (induction "is" arbitrary: d d')
  case (Cons i "is")
  from Cons.IH [OF step_view [OF Cons.prems, of opr m i]] show ?case by (simp add: run_schedule_def)
qed (simp add: run_schedule_def)

text \<open>
  The contract of an operation on balances: it keeps an invariant of the heap, fails with
  exceptions of the package only, and commutes with itself on balances that are apart.
\<close>

locale concurrent_op =
  fixes opr :: "nat \<Rightarrow> 's heap \<Rightarrow> 'a res \<times> 's heap"
    and ok :: "'s heap \<Rightarrow> bool"
    and apart :: "nat \<Rightarrow> nat \<Rightarrow> bool"
  assumes keeps: "ok h \<Longrightarrow> ok (snd (opr a h))"
    and package: "ok h \<Longrightarrow> opr a h = (Inl e, h') \<Longrightarrow> exn_is e SartoriusError"
    and commute_result: "ok h \<Longrightarrow> apart a b \<Longrightarrow> fst (opr b (snd (opr a h))) = fst (opr b h)"
    and commute_heap: "ok h \<Longrightarrow> apart a b \<Longrightarrow> snd (opr b (snd (opr a h))) = snd (opr a (snd (opr b h)))"
    and apart_sym: "apart a b \<Longrightarrow> apart b a"
begin

text \<open>A good state: no crash, groups of managed names, the heap sound.\<close>

definition good :: "manager \<Rightarrow> ('s, 'a) dispatch_state \<Rightarrow> bool" where
  "good m d \<longleftrightarrow> dp_crash d = None \<and> grouped m (dp_groups d) \<and> ok (dp_heap d)"

definition separated :: "manager \<Rightarrow> bool" where
  "separated m \<longleftrightarrow>
     (\<forall>n e n' e'. map_of (mg_devices m) n = Some e \<longrightarrow> map_of (mg_devices m) n' = Some e' \<longrightarrow>
        group_key m n \<noteq> group_key m n' \<longrightarrow> apart (de_balance e) (de_balance e'))"

text \<open>The result a member gets.\<close>

definition outcome :: "'a res \<Rightarrow> 'a DeviceResult" where
  "outcome r = (case r of Inl e \<Rightarrow> rv_failure e | Inr v \<Rightarrow> rv_success v)"

definition error_of :: "'a res \<Rightarrow> exn list" where
  "error_of r = (case r of Inl e \<Rightarrow> [e] | Inr v \<Rightarrow> [])"

lemma run_member_good:
  assumes "good m d" and "map_of (mg_devices m) n = Some e"
    and "opr (de_balance e) (dp_heap d) = (r, h')"
  shows "run_member opr m n d =
     d\<lparr>dp_heap := h', dp_results := dict_set n (outcome r) (dp_results d),
       dp_errors := dp_errors d @ error_of r\<rparr>"
  using assms package [of "dp_heap d" "de_balance e"]
  by (cases r) (simp_all add: run_member_def good_def outcome_def error_of_def)

lemma step_cases:
  assumes "good m d"
  obtains (idle) "group_step opr m i d = d"
      "length (dp_groups d) \<le> i \<or> (\<exists>key. dp_groups d ! i = (key, []))"
  | (moves) key n ns e r h' where "i < length (dp_groups d)" "dp_groups d ! i = (key, n # ns)"
      "map_of (mg_devices m) n = Some e" "group_key m n = key"
      "opr (de_balance e) (dp_heap d) = (r, h')"
      "group_step opr m i d =
         d\<lparr>dp_groups := (dp_groups d)[i := (key, ns)], dp_heap := h',
           dp_results := dict_set n (outcome r) (dp_results d),
           dp_errors := dp_errors d @ error_of r\<rparr>"
proof (cases "i < length (dp_groups d)")
  case False
  with idle show thesis by (simp add: group_step_def)
next
  case True
  obtain key ns where g: "dp_groups d ! i = (key, ns)" by fastforce
  show thesis
  proof (cases ns)
    case Nil
    with g True assms idle show thesis by (simp add: group_step_def good_def)
  next
    case (Cons n ns')
    have "(key, ns) \<in> set (dp_groups d)" using True g by (metis nth_mem)
    with assms Cons have "n \<in> set (keys (mg_devices m))" and k: "group_key m n = key"
      by (auto simp: good_def grouped_def)
    then obtain e where e: "map_of (mg_devices m) n = Some e" using in_keys [THEN iffD1] by fast
    obtain r h' where r: "opr (de_balance e) (dp_heap d) = (r, h')" by fastforce
    let ?d = "d\<lparr>dp_groups := (dp_groups d)[i := (key, ns')]\<rparr>"
    have "good m ?d"
      using assms grouped_update [OF _ True g, of m ns'] Cons by (auto simp: good_def)
    from run_member_good [OF this e] r
    have "run_member opr m n ?d = ?d\<lparr>dp_heap := h', dp_results := dict_set n (outcome r) (dp_results d),
       dp_errors := dp_errors d @ error_of r\<rparr>" by simp
    then show thesis
      using moves [OF True _ e k r] g Cons True assms by (simp add: group_step_def good_def)
  qed
qed

lemma step_good: "good m d \<Longrightarrow> good m (group_step opr m i d)"
proof -
  assume g: "good m d"
  then show ?thesis
  proof (cases rule: step_cases [where i = i])
    case (moves key n ns e r h')
    with g keeps [of "dp_heap d" "de_balance e"] grouped_update [OF _ moves(1,2), of m ns]
    show ?thesis by (auto simp: good_def)
  qed (use g in simp)
qed

lemma schedule_good: "good m d \<Longrightarrow> good m (run_schedule opr m is d)"
  by (induction "is" arbitrary: d) (simp_all add: run_schedule_def step_good)

text \<open>What a step does to the groups.\<close>

lemma step_groups:
  assumes "good m d"
  shows "length (dp_groups (group_step opr m i d)) = length (dp_groups d)"
    and "j < length (dp_groups d) \<Longrightarrow> dp_groups (group_step opr m i d) ! j =
       (fst (dp_groups d ! j), drop (of_bool (i = j)) (snd (dp_groups d ! j)))"
  using assms
  by (cases rule: step_cases [where i = i]; force simp: nth_list_update)+

lemma schedule_groups:
  "good m d \<Longrightarrow> length (dp_groups (run_schedule opr m is d)) = length (dp_groups d) \<and>
     (\<forall>j < length (dp_groups d). dp_groups (run_schedule opr m is d) ! j =
       (fst (dp_groups d ! j), drop (count_list is j) (snd (dp_groups d ! j))))"
proof (induction "is" arbitrary: d)
  case Nil
  then show ?case by (simp add: run_schedule_def)
next
  case (Cons i "is")
  show ?case
  proof (intro conjI allI impI)
    fix j assume j: "j < length (dp_groups d)"
    let ?d = "group_step opr m i d"
    have "dp_groups (run_schedule opr m is ?d) ! j =
        (fst (dp_groups ?d ! j), drop (count_list is j) (snd (dp_groups ?d ! j)))"
      using Cons.IH [OF step_good [OF Cons.prems, of i]] step_groups(1) [OF Cons.prems, of i] j
      by simp
    then show "dp_groups (run_schedule opr m (i # is) d) ! j =
        (fst (dp_groups d ! j), drop (count_list (i # is) j) (snd (dp_groups d ! j)))"
      using step_groups(2) [OF Cons.prems j, of i] by (simp add: run_schedule_def)
  qed (use Cons.IH [OF step_good [OF Cons.prems, of i]] step_groups(1) [OF Cons.prems, of i]
       in \<open>simp add: run_schedule_def\<close>)
qed

text \<open>Steps of different groups commute.\<close>

lemma step_moves:
  assumes "good m d" "i < length (dp_groups d)" "dp_groups d ! i = (key, n # ns)"
    "map_of (mg_devices m) n = Some e"
  shows "group_step opr m i d =
     d\<lparr>dp_groups := (dp_groups d)[i := (key, ns)], dp_heap := snd (opr (de_balance e) (dp_heap d)),
       dp_results := dict_set n (outcome (fst (opr (de_balance e) (dp_heap d)))) (dp_results d),
       dp_errors := dp_errors d @ error_of (fst (opr (de_balance e) (dp_heap d)))\<rparr>"
  using assms by (cases rule: step_cases [where i = i]) auto

lemma still_idle:
  assumes "good m d" "i \<noteq> j" "length (dp_groups d) \<le> i \<or> snd (dp_groups d ! i) = []"
  shows "group_step opr m i (group_step opr m j d) = group_step opr m j d"
proof (rule idle_step)
  show "length (dp_groups (group_step opr m j d)) \<le> i \<or> snd (dp_groups (group_step opr m j d) ! i) = []"
  proof (cases "i < length (dp_groups d)")
    case True
    with assms(3) step_groups(2) [OF assms(1) True, of j] show ?thesis by simp
  next
    case False
    then show ?thesis using step_groups(1) [OF assms(1), of j] by simp
  qed
qed

lemma steps_commute:
  assumes "good m d" "separated m" "i \<noteq> j"
  shows "view (group_step opr m j (group_step opr m i d)) =
    view (group_step opr m i (group_step opr m j d))"
using assms(1)
proof (cases rule: step_cases [where i = i])
  case idle
  have "group_step opr m i (group_step opr m j d) = group_step opr m j d"
    using idle(2) by (intro still_idle [OF assms(1,3)]) auto
  with idle(1) show ?thesis by simp
next
  case i: (moves key n ns e r h)
  show ?thesis using assms(1)
  proof (cases rule: step_cases [where i = j])
    case idle
    have "group_step opr m j (group_step opr m i d) = group_step opr m i d"
      using idle(2) by (intro still_idle [OF assms(1) assms(3) [symmetric]]) auto
    with idle(1) show ?thesis by simp
  next
    case j: (moves key' n' ns' e' r' h')
    have "key \<noteq> key'"
    proof -
      have "distinct (map fst (dp_groups d))" using assms(1) by (simp add: good_def grouped_def)
      from nth_eq_iff_index_eq [OF this, of i j] show ?thesis
        using assms(3) i(1,2) j(1,2) by simp
    qed
    then have ap: "apart (de_balance e) (de_balance e')" and n: "n \<noteq> n'"
      using assms(2) i(3,4) j(3,4) by (auto simp: separated_def)
    have ok: "ok (dp_heap d)" using assms(1) by (simp add: good_def)
    note a = commute_result [OF ok ap] commute_result [OF ok apart_sym [OF ap]] commute_heap [OF ok ap]
    have "dp_groups (group_step opr m i d) ! j = (key', n' # ns')"
      "dp_groups (group_step opr m j d) ! i = (key, n # ns)"
      using i(2,6) j(2,6) assms(3) by simp_all
    then have "group_step opr m j (group_step opr m i d) =
        (group_step opr m i d)\<lparr>
          dp_groups := (dp_groups d)[i := (key, ns), j := (key', ns')],
          dp_heap := snd (opr (de_balance e') h),
          dp_results := dict_set n' (outcome (fst (opr (de_balance e') h)))
            (dict_set n (outcome r) (dp_results d)),
          dp_errors := (dp_errors d @ error_of r) @ error_of (fst (opr (de_balance e') h))\<rparr>"
      "group_step opr m i (group_step opr m j d) =
        (group_step opr m j d)\<lparr>
          dp_groups := (dp_groups d)[j := (key', ns'), i := (key, ns)],
          dp_heap := snd (opr (de_balance e) h'),
          dp_results := dict_set n (outcome (fst (opr (de_balance e) h')))
            (dict_set n' (outcome r') (dp_results d)),
          dp_errors := (dp_errors d @ error_of r') @ error_of (fst (opr (de_balance e) h'))\<rparr>"
      using step_moves [OF step_good [OF assms(1), of i], of j] j(1,3) i(6)
        step_moves [OF step_good [OF assms(1), of j], of i] i(1,3) j(6) by simp_all
    then show ?thesis
      using a i(5,6) j(5,6) n assms(3) by (simp add: view_def list_update_swap fun_upd_twist)
  qed
qed

lemma move_forward:
  "good m d \<Longrightarrow> separated m \<Longrightarrow> i \<notin> set is \<Longrightarrow>
     view (run_schedule opr m (is @ [i]) d) = view (run_schedule opr m (i # is) d)"
proof (induction "is" arbitrary: d)
  case (Cons j js)
  have "view (run_schedule opr m ((j # js) @ [i]) d) =
      view (run_schedule opr m (i # js) (group_step opr m j d))"
    using Cons.IH [OF step_good [OF Cons.prems(1), of j]] Cons.prems by (simp add: run_schedule_def)
  also have "\<dots> = view (run_schedule opr m (i # j # js) d)"
    using schedule_view [OF steps_commute [OF Cons.prems(1,2), of j i]] Cons.prems(3)
    by (simp add: run_schedule_def)
  finally show ?case .
qed simp

lemma schedule_mset:
  "good m d \<Longrightarrow> separated m \<Longrightarrow> mset is = mset js \<Longrightarrow>
     view (run_schedule opr m is d) = view (run_schedule opr m js d)"
proof (induction "is" arbitrary: d js)
  case (Cons i "is")
  then have "i \<in> set js" by (metis list.set_intros(1) set_mset_mset)
  then obtain a b where js: "js = a @ i # b" "i \<notin> set a" using split_list_first by metis
  have "view (run_schedule opr m js d) = view (run_schedule opr m b (run_schedule opr m (a @ [i]) d))"
    by (simp add: js(1) run_schedule_def)
  also have "\<dots> = view (run_schedule opr m (a @ b) (group_step opr m i d))"
    using schedule_view [OF move_forward [OF Cons.prems(1,2) js(2)]] by (simp add: run_schedule_def)
  also have "\<dots> = view (run_schedule opr m is (group_step opr m i d))"
    using Cons.IH [OF step_good [OF Cons.prems(1), of i] Cons.prems(2), of "a @ b"] Cons.prems(3) js(1)
    by simp
  finally show ?case by (simp add: run_schedule_def)
qed simp

end

lemma count_list_replicate: "count_list (replicate k x) y = (if x = y then k else 0)"
  by (induction k) auto

lemma count_sequential:
  "i < length gs \<Longrightarrow> count_list (sequential gs) i = length (snd (gs ! i))"
proof -
  have *: "count_list (concat (map (\<lambda>i. replicate (f i) i) is)) i = (if i \<in> set is then f i else 0)"
    if "distinct is" for f :: "nat \<Rightarrow> nat" and "is"
    using that by (induction "is") (auto simp: count_list_append count_list_replicate)
  show "i < length gs \<Longrightarrow> count_list (sequential gs) i = length (snd (gs ! i))"
    using * [of "[0..<length gs]" "\<lambda>i. length (snd (gs ! i))"] by (simp add: sequential_def)
qed

section \<open>What a dispatch returns\<close>

lemma mset_setdefault_append:
  "mset (concat (map snd (setdefault_append k v gs))) = add_mset v (mset (concat (map snd gs)))"
  by (induction k v gs rule: setdefault_append.induct) auto

lemma mset_group_by: "mset (concat (map snd (group_by key xs))) = mset xs"
  by (induction xs rule: rev_induct) (simp_all add: group_by_def mset_setdefault_append)

lemma mset_concat_update:
  "i < length gs \<Longrightarrow> gs ! i = (key, n # ns) \<Longrightarrow>
     mset (concat (map snd gs)) = add_mset n (mset (concat (map snd (gs[i := (key, ns)]))))"
  by (subst (1) id_take_nth_drop [of i gs]) (simp_all add: upd_conv_take_nth_drop)

text \<open>
  Every name is pending or has its result, once; results are values or errors; the errors are
  those of the results.
\<close>

definition accounted :: "string list \<Rightarrow> ('s, 'a) dispatch_state \<Rightarrow> bool" where
  "accounted names d \<longleftrightarrow>
     mset (concat (map snd (dp_groups d))) + mset (keys (dp_results d)) = mset names \<and>
     (\<forall>n r. map_of (dp_results d) n = Some r \<longrightarrow> (rv_value r = None) \<noteq> (rv_error r = None)) \<and>
     set (dp_errors d) = {e. \<exists>n r. map_of (dp_results d) n = Some r \<and> rv_error r = Some e}"

text \<open>Two outcomes of a dispatch that no caller can tell apart.\<close>

fun same_outcome ::
  "(dispatch_error + (string \<times> 'a DeviceResult) list) \<times> 's heap \<Rightarrow>
   (dispatch_error + (string \<times> 'a DeviceResult) list) \<times> 's heap \<Rightarrow> bool" where
  "same_outcome (Inr rs, h) (Inr rs', h') \<longleftrightarrow> map_of rs = map_of rs' \<and> h = h'"
| "same_outcome (Inl (ExceptionGroup es), h) (Inl (ExceptionGroup es'), h') \<longleftrightarrow>
     mset es = mset es' \<and> h = h'"
| "same_outcome (Inl (Raised e), h) (Inl (Raised e'), h') \<longleftrightarrow> e = e' \<and> h = h'"
| "same_outcome _ _ \<longleftrightarrow> False"

context concurrent_op
begin

lemma outcome_fields:
  "rv_value (outcome r) = None \<longleftrightarrow> (\<exists>e. r = Inl e)" "rv_error (outcome r) = None \<longleftrightarrow> (\<exists>v. r = Inr v)"
  "set (error_of r) = {e. rv_error (outcome r) = Some e}"
  by (cases r; auto simp: outcome_def error_of_def rv_failure_def rv_success_def)+

lemma step_accounted:
  assumes "good m d" "accounted names d" "distinct names"
  shows "accounted names (group_step opr m i d)"
  using assms(1)
proof (cases rule: step_cases [where i = i])
  case (moves key n ns e r h)
  note a = assms(2) [unfolded accounted_def]
  have k: "add_mset n (mset (concat (map snd ((dp_groups d)[i := (key, ns)])))) + mset (keys (dp_results d))
      = mset names"
    using a mset_concat_update [OF moves(1,2)] by simp
  have new: "n \<notin> set (keys (dp_results d))"
  proof
    assume "n \<in> set (keys (dp_results d))"
    then have "1 \<le> count (mset (keys (dp_results d))) n"
      unfolding set_mset_mset [symmetric] count_greater_eq_one_iff .
    moreover have "count (mset names) n \<le> 1" using assms(3) by (simp add: distinct_count_atmost_1)
    moreover have "count (mset names) n =
        Suc (count (mset (concat (map snd ((dp_groups d)[i := (key, ns)])))) n) +
        count (mset (keys (dp_results d))) n"
      unfolding k [symmetric] by simp
    ultimately show False by linarith
  qed
  have "map_of (dp_results d) n = None" using new by (simp add: map_of_eq_None_iff)
  then have e: "{x. \<exists>n' r'. ((map_of (dp_results d))(n \<mapsto> outcome r)) n' = Some r' \<and> rv_error r' = Some x}
      = {x. rv_error (outcome r) = Some x} \<union>
        {x. \<exists>n' r'. map_of (dp_results d) n' = Some r' \<and> rv_error r' = Some x}"
  proof (intro subset_antisym subsetI)
    fix x assume "x \<in> {x. rv_error (outcome r) = Some x} \<union>
      {x. \<exists>n' r'. map_of (dp_results d) n' = Some r' \<and> rv_error r' = Some x}"
    then consider "rv_error (outcome r) = Some x"
      | n' r' where "map_of (dp_results d) n' = Some r'" "rv_error r' = Some x" by blast
    then show "x \<in> {x. \<exists>n' r'. ((map_of (dp_results d))(n \<mapsto> outcome r)) n' = Some r' \<and>
        rv_error r' = Some x}"
    proof cases
      case 2
      then have "n' \<noteq> n" using \<open>map_of (dp_results d) n = None\<close> by auto
      with 2 show ?thesis by (intro CollectI exI [of _ n']) simp
    qed auto
  qed (auto split: if_splits)
  have v: "(rv_value r' = None) \<noteq> (rv_error r' = None)"
    if "((map_of (dp_results d))(n \<mapsto> outcome r)) n' = Some r'" for n' r'
    using that a outcome_fields(1,2) [of r] by (cases r) (auto split: if_splits)
  show ?thesis
    unfolding accounted_def
  proof (intro conjI allI impI)
    show "mset (concat (map snd (dp_groups (group_step opr m i d)))) +
        mset (keys (dp_results (group_step opr m i d))) = mset names"
      using k new by (simp add: moves(6))
    show "set (dp_errors (group_step opr m i d)) = {e. \<exists>n r.
        map_of (dp_results (group_step opr m i d)) n = Some r \<and> rv_error r = Some e}"
      using a e by (simp add: moves(6) outcome_fields(3) Un_commute)
  qed (use v moves(6) in simp)
qed (use assms in simp)

lemma schedule_accounted:
  "good m d \<Longrightarrow> accounted names d \<Longrightarrow> distinct names \<Longrightarrow> accounted names (run_schedule opr m is d)"
proof (induction "is" arbitrary: d)
  case (Cons i "is")
  then show ?case using step_accounted step_good by (simp add: run_schedule_def)
qed (simp add: run_schedule_def)

definition start :: "manager \<Rightarrow> string list \<Rightarrow> 's heap \<Rightarrow> ('s, 'a) dispatch_state" where
  "start m names h = \<lparr>dp_groups = group_by (group_key m) names, dp_results = [], dp_errors = [],
     dp_crash = None, dp_heap = h\<rparr>"

definition completed :: "manager \<Rightarrow> string list \<Rightarrow> nat list \<Rightarrow> 's heap \<Rightarrow> ('s, 'a) dispatch_state" where
  "completed m names is h =
     (let d1 = run_schedule opr m is (start m names h)
      in run_schedule opr m (sequential (dp_groups d1)) d1)"

lemma start_good:
  "set names \<subseteq> set (keys (mg_devices m)) \<Longrightarrow> ok h \<Longrightarrow> good m (start m names h)"
  by (simp add: start_def good_def group_by_grouped)

lemma start_accounted: "accounted names (start m names h)"
  by (simp add: start_def accounted_def mset_group_by)

lemma completed_schedule:
  "completed m names is h = run_schedule opr m
     (is @ sequential (dp_groups (run_schedule opr m is (start m names h)))) (start m names h)"
  by (simp add: completed_def run_schedule_def Let_def)

lemma completed_finished:
  assumes "set names \<subseteq> set (keys (mg_devices m))" "ok h"
  shows "finished (completed m names is h)"
  using schedule_groups [OF schedule_good [OF start_good [OF assms], of "is"]]
  by (simp add: completed_def finished_def count_sequential Let_def)

lemma completed_facts:
  assumes "set names \<subseteq> set (keys (mg_devices m))" "ok h" "distinct names"
  shows "good m (completed m names is h)" "accounted names (completed m names is h)"
    "set (keys (dp_results (completed m names is h))) = set names"
proof -
  show g: "good m (completed m names is h)"
    unfolding completed_schedule by (rule schedule_good [OF start_good [OF assms(1,2)]])
  show a: "accounted names (completed m names is h)"
    unfolding completed_schedule
    by (rule schedule_accounted [OF start_good [OF assms(1,2)] start_accounted assms(3)])
  have "concat (map snd (dp_groups (completed m names is h))) = []"
    using completed_finished [OF assms(1,2), of "is"]
    by (fastforce simp: finished_def in_set_conv_nth)
  with a have "mset (keys (dp_results (completed m names is h))) = mset names"
    by (simp add: accounted_def)
  then show "set (keys (dp_results (completed m names is h))) = set names" by (rule mset_eq_setD)
qed

lemma completed_view:
  assumes "set names \<subseteq> set (keys (mg_devices m))" "ok h" "separated m"
  shows "view (completed m names is h) = view (completed m names js h)"
proof -
  let ?a = "is @ sequential (dp_groups (run_schedule opr m is (start m names h)))"
  let ?b = "js @ sequential (dp_groups (run_schedule opr m js (start m names h)))"
  let ?d = "start m names h"
  have "run_schedule opr m ?a ?d = run_schedule opr m (?a @ ?b) ?d"
    using finished_idle [OF completed_finished [OF assms(1,2), of "is"]]
    unfolding completed_schedule by (simp only: run_schedule_def fold_append comp_apply)
  moreover have "run_schedule opr m ?b ?d = run_schedule opr m (?b @ ?a) ?d"
    using finished_idle [OF completed_finished [OF assms(1,2), of js]]
    unfolding completed_schedule by (simp only: run_schedule_def fold_append comp_apply)
  moreover have "view (run_schedule opr m (?a @ ?b) ?d) = view (run_schedule opr m (?b @ ?a) ?d)"
    by (rule schedule_mset [OF start_good [OF assms(1,2)] assms(3)]) (simp add: union_ac)
  ultimately show ?thesis unfolding completed_schedule by simp
qed

lemma dispatch_completed:
  assumes "set names \<subseteq> set (keys (mg_devices m))" "ok h"
  shows "mg_dispatch opr m names is h =
    (if mg_error_policy m = POLICY_RAISE \<and> dp_errors (completed m names is h) \<noteq> []
     then Inl (ExceptionGroup (dp_errors (completed m names is h)))
     else Inr (dp_results (completed m names is h)), dp_heap (completed m names is h))"
proof -
  have "good m (completed m names is h)"
    unfolding completed_schedule by (rule schedule_good [OF start_good [OF assms]])
  then show ?thesis
    by (simp add: mg_dispatch_def completed_def start_def Let_def good_def)
qed

lemma dispatch_independent:
  assumes "set names \<subseteq> set (keys (mg_devices m))" "ok h" "separated m"
  shows "same_outcome (mg_dispatch opr m names is h) (mg_dispatch opr m names js h)"
proof -
  note v = view_eqD [OF completed_view [OF assms, of "is" js]]
  have "dp_errors (completed m names is h) = [] \<longleftrightarrow> dp_errors (completed m names js h) = []"
    using v(3) by (metis mset_zero_iff)
  with v show ?thesis by (simp add: dispatch_completed [OF assms(1,2)])
qed

lemma schedule_errors:
  "good m d \<Longrightarrow> \<forall>e \<in> set (dp_errors d). exn_is e SartoriusError \<Longrightarrow>
     \<forall>e \<in> set (dp_errors (run_schedule opr m is d)). exn_is e SartoriusError"
proof (induction "is" arbitrary: d)
  case (Cons i "is")
  have "\<forall>e \<in> set (dp_errors (group_step opr m i d)). exn_is e SartoriusError"
    using Cons.prems(1)
  proof (cases rule: step_cases [where i = i])
    case (moves key n ns e r h)
    with Cons.prems package [of "dp_heap d" "de_balance e"] show ?thesis
      by (cases r) (auto simp: error_of_def good_def)
  qed (use Cons.prems in simp)
  from Cons.IH [OF step_good [OF Cons.prems(1)] this] show ?case by (simp add: run_schedule_def)
qed (simp add: run_schedule_def)

lemma dispatch_reports:
  assumes "set names \<subseteq> set (keys (mg_devices m))" "ok h" "distinct names"
    and "mg_dispatch opr m names is h = (r, h')"
  shows "case r of
      Inr rs \<Rightarrow> set (keys rs) = set names \<and>
        (\<forall>n r. map_of rs n = Some r \<longrightarrow> (rv_value r = None) \<noteq> (rv_error r = None)) \<and>
        (mg_error_policy m = POLICY_RAISE \<longrightarrow> (\<forall>n r. map_of rs n = Some r \<longrightarrow> rv_ok r))
    | Inl err \<Rightarrow> mg_error_policy m = POLICY_RAISE \<and>
        (\<exists>es. err = ExceptionGroup es \<and> es \<noteq> [] \<and> (\<forall>e \<in> set es. exn_is e SartoriusError))"
proof -
  let ?d = "completed m names is h"
  note f = completed_facts [OF assms(1-3), of "is"]
  have e: "\<forall>e \<in> set (dp_errors ?d). exn_is e SartoriusError"
    unfolding completed_schedule
    by (rule schedule_errors [OF start_good [OF assms(1,2)]]) (simp add: start_def)
  have ok: "\<forall>n r. map_of (dp_results ?d) n = Some r \<longrightarrow> rv_ok r" if "dp_errors ?d = []"
    using f(2) that by (fastforce simp: accounted_def rv_ok_def)
  show ?thesis
  proof (cases "mg_error_policy m = POLICY_RAISE \<and> dp_errors ?d \<noteq> []")
    case True
    with assms(4) e show ?thesis by (auto simp: dispatch_completed [OF assms(1,2)])
  next
    case False
    with assms(4) f ok show ?thesis
      by (auto simp: dispatch_completed [OF assms(1,2)] accounted_def simp del: set_map)
  qed
qed

end

section \<open>Polling\<close>

text \<open>The objects each balance refers to; a method never changes them.\<close>

definition layout :: "(nat \<Rightarrow> nat) \<Rightarrow> (nat \<Rightarrow> nat) \<Rightarrow> 's heap \<Rightarrow> bool" where
  "layout cl tr h \<longleftrightarrow> (\<forall>a. bc_client (hp_balances h a) = cl a \<and> bc_transport (hp_balances h a) = tr a)"

definition disjoint_objects :: "(nat \<Rightarrow> nat) \<Rightarrow> (nat \<Rightarrow> nat) \<Rightarrow> nat \<Rightarrow> nat \<Rightarrow> bool" where
  "disjoint_objects cl tr a b \<longleftrightarrow> a \<noteq> b \<and> cl a \<noteq> cl b \<and> tr a \<noteq> tr b"

lemma run_on_layout: "layout cl tr h \<Longrightarrow> layout cl tr (snd (run_on p a h))"
  by (auto simp: layout_def run_on_def Let_def split: prod.split)

lemma run_on_result:
  "fst (run_on p a h) = fst (p ((bc_balance (hp_balances h a))\<lparr>ba_session := put_client
     (hp_clients h (bc_client (hp_balances h a))) (ba_session (bc_balance (hp_balances h a)))\<rparr>)
     (hp_transports h (bc_transport (hp_balances h a))))"
  by (simp add: run_on_def Let_def split: prod.split)

lemma run_on_apart:
  assumes "layout cl tr h" "disjoint_objects cl tr a b"
  shows "fst (run_on p b (snd (run_on p a h))) = fst (run_on p b h)"
    and "snd (run_on p b (snd (run_on p a h))) = snd (run_on p a (snd (run_on p b h)))"
proof -
  let ?call = "\<lambda>h a. p ((bc_balance (hp_balances h a))\<lparr>ba_session := put_client
     (hp_clients h (cl a)) (ba_session (bc_balance (hp_balances h a)))\<rparr>) (hp_transports h (tr a))"
  obtain ra ba sa where a: "?call h a = (ra, ba, sa)" by (metis prod.exhaust)
  obtain rb bb sb where b: "?call h b = (rb, bb, sb)" by (metis prod.exhaust)
  note l = assms(1) [unfolded layout_def]
  note d = assms(2) [unfolded disjoint_objects_def]
  let ?upd = "\<lambda>h a b s. h\<lparr>hp_balances := (hp_balances h)(a := (hp_balances h a)\<lparr>bc_balance := b\<rparr>),
     hp_clients := (hp_clients h)(cl a := taken_client (hp_clients h (cl a)) (ba_session b)),
     hp_transports := (hp_transports h)(tr a := s)\<rparr>"
  have ra: "run_on p a h = (ra, ?upd h a ba sa)" using a l by (simp add: run_on_def Let_def)
  have rb: "run_on p b h = (rb, ?upd h b bb sb)" using b l by (simp add: run_on_def Let_def)
  have ab: "run_on p b (?upd h a ba sa) = (rb, ?upd (?upd h a ba sa) b bb sb)"
    using b l d by (simp add: run_on_def Let_def)
  have ba: "run_on p a (?upd h b bb sb) = (ra, ?upd (?upd h b bb sb) a ba sa)"
    using a l d by (simp add: run_on_def Let_def)
  show "fst (run_on p b (snd (run_on p a h))) = fst (run_on p b h)" using ra rb ab by simp
  have "?upd (?upd h a ba sa) b bb sb = ?upd (?upd h b bb sb) a ba sa"
    using d by (simp add: fun_upd_twist)
  then show "snd (run_on p b (snd (run_on p a h))) = snd (run_on p a (snd (run_on p b h)))"
    using ra rb ab ba by simp
qed

context transport
begin

lemma read_line_package_error:
  "sbi_read_line ops nm c s = (Inl e, c', s') \<Longrightarrow> exn_is e SartoriusError"
  by (auto simp: sbi_read_line_def sbi_raise_if_disposed_def raise_ctx_def parse_or_drain_def Let_def
      refusal_error_def
      split: sum.splits prod.splits if_splits list.splits dest!: read_until_fail parse_reply_error
      dest: package_error)

lemma require_reading_package_error: "require_reading reply = Inl e \<Longrightarrow> exn_is e SartoriusError"
  by (auto simp: require_reading_def raise_ctx_def split: list.splits)

lemma autoprint_loop_package_error:
  "autoprint_reading_loop ops ticks c s = (Inl e, c', s') \<Longrightarrow> exn_is e SartoriusError"
proof (induction ticks arbitrary: c s)
  case 0
  then show ?case
    by (subst (asm) autoprint_reading_loop.simps)
       (auto split: sum.splits prod.splits if_splits dest: read_line_package_error require_reading_package_error)
next
  case (Suc ticks)
  from Suc.prems show ?case
    by (subst (asm) autoprint_reading_loop.simps)
       (auto split: sum.splits prod.splits if_splits dest: read_line_package_error require_reading_package_error Suc.IH)
qed

lemma poll_package_error:
  assumes "poll ops ticks b s = (Inl e, b', s')" shows "exn_is e SartoriusError"
proof -
  have x: "exn_is e SartoriusError"
    if "session_execute ops READ_NET ReadWeightRequest False se s = (Inl e, se', s')" for se se' s s'
    using that execute_package_error [of "bind_request READ_NET ReadWeightRequest"] declared.intros(3)
    by (metis execute_bind_request)
  show ?thesis
    using assms
    by (auto simp: poll_def b_bind_def b_get_def b_lift_def b_execute_def on_session_def
        read_sbi_autoprint_reading_def require_sbi_client_def raise_ctx_def
        split: if_splits sum.splits prod.splits option.splits
        dest: x autoprint_loop_package_error)
qed

end

sublocale transport \<subseteq> polling:
  concurrent_op "run_on (poll ops ticks)" "layout cl tr" "disjoint_objects cl tr"
  for ticks cl tr
proof unfold_locales
  fix h a e h' assume "run_on (poll ops ticks) a h = (Inl e, h')"
  then show "exn_is e SartoriusError"
    by (auto simp: run_on_def Let_def split: prod.splits dest: poll_package_error)
qed (auto simp: run_on_layout run_on_apart disjoint_objects_def)


section \<open>Properties\<close>

text \<open>Balances of different groups share no object.\<close>

definition separate_groups :: "manager \<Rightarrow> 's heap \<Rightarrow> bool" where
  "separate_groups m h \<longleftrightarrow>
     (\<forall>(n, e) \<in> set (mg_devices m). \<forall>(n', e') \<in> set (mg_devices m).
        group_key m n \<noteq> group_key m n' \<longrightarrow>
        de_balance e \<noteq> de_balance e' \<and>
        bc_client (hp_balances h (de_balance e)) \<noteq> bc_client (hp_balances h (de_balance e')) \<and>
        bc_transport (hp_balances h (de_balance e)) \<noteq> bc_transport (hp_balances h (de_balance e')))"

lemma layout_self:
  "layout (\<lambda>a. bc_client (hp_balances h a)) (\<lambda>a. bc_transport (hp_balances h a)) h"
  by (simp add: layout_def)

lemma separate_groupsD:
  "separate_groups m h \<Longrightarrow> map_of (mg_devices m) n = Some e \<Longrightarrow> map_of (mg_devices m) n' = Some e' \<Longrightarrow>
     group_key m n \<noteq> group_key m n' \<Longrightarrow>
     disjoint_objects (\<lambda>a. bc_client (hp_balances h a)) (\<lambda>a. bc_transport (hp_balances h a))
       (de_balance e) (de_balance e')"
  unfolding separate_groups_def disjoint_objects_def by (blast dest: map_of_SomeD)

lemma resolve_names_known:
  "resolve_names m names = Inr targets \<Longrightarrow> set targets \<subseteq> set (keys (mg_devices m))"
  by (auto simp: resolve_names_def Let_def raise_ctx_def filter_empty_conv
      split: option.splits if_splits)

text \<open>
  C8. The outcome of \<open>poll\<close> does not depend on how the groups interleave: when balances on
  different ports share no object, any two schedules leave every transport, client and balance in
  the same state and give every name the same result, or raise the same group of errors.
\<close>

theorem poll_any_interleaving:
  assumes "separate_groups m h"
  shows "same_outcome (mg_poll serial_ops ticks m names schedule h)
    (mg_poll serial_ops ticks m names schedule' h)"
proof (cases "resolve_names m names")
  case (Inr targets)
  have "serial.polling.separated (\<lambda>a. bc_client (hp_balances h a))
      (\<lambda>a. bc_transport (hp_balances h a)) m"
    unfolding serial.polling.separated_def using separate_groupsD [OF assms] by blast
  from serial.polling.dispatch_independent [OF resolve_names_known [OF Inr] layout_self this]
  show ?thesis using Inr by (simp add: mg_poll_def)
qed (simp add: mg_poll_def)

definition two_ports :: manager where
  "two_ports = (SartoriusManager POLICY_RETURN)\<lparr>mg_devices :=
     [(''left'', \<lparr>de_name = ''left'', de_balance = 4, de_port_key = Some ''COM3''\<rparr>),
      (''right'', \<lparr>de_name = ''right'', de_balance = 5, de_port_key = Some ''COM4''\<rparr>)]\<rparr>"

definition two_ports_heap :: "serial_transport heap" where
  "two_ports_heap =
     \<lparr>hp_transports = (\<lambda>t. if t = 0 then demo_serial [RxChunk demo_weight] (\<lambda>_. []) else demo_serial [] (\<lambda>_. [])),
      hp_clients = (\<lambda>c. SbiClient (SbiProtocolClient\<lparr>sc_autoprint_active := True\<rparr>)),
      hp_balances = (\<lambda>a. \<lparr>bc_balance = printing_balance, bc_client = (if a = 4 then 2 else 3),
                          bc_transport = (if a = 4 then 0 else 1)\<rparr>),
      hp_next = 6\<rparr>"

lemma two_ports_separate: "separate_groups two_ports two_ports_heap"
  by (simp add: separate_groups_def two_ports_def two_ports_heap_def SartoriusManager_def)

theorem poll_any_interleaving_witness:
  "same_outcome (mg_poll serial_ops 1 two_ports None [0, 1] two_ports_heap)
     (mg_poll serial_ops 1 two_ports None [1] two_ports_heap)"
  by (rule poll_any_interleaving [OF two_ports_separate])

text \<open>
  C9. A poll of distinct names reports every one of them, whatever the interleaving. Under
  \<open>POLICY_RETURN\<close> it returns a value or an error for each name and never raises; under
  \<open>POLICY_RAISE\<close> it either returns values only, or raises a group that is not empty and holds
  only errors of the package.
\<close>

theorem poll_reports_every_device:
  assumes "resolve_names m names = Inr targets" and "distinct targets"
    and "mg_poll serial_ops ticks m names schedule h = (r, h')"
  shows "case r of
      Inr rs \<Rightarrow> set (keys rs) = set targets \<and>
        (\<forall>n r. map_of rs n = Some r \<longrightarrow> (rv_value r = None) \<noteq> (rv_error r = None)) \<and>
        (mg_error_policy m = POLICY_RAISE \<longrightarrow> (\<forall>n r. map_of rs n = Some r \<longrightarrow> rv_ok r))
    | Inl err \<Rightarrow> mg_error_policy m = POLICY_RAISE \<and>
        (\<exists>es. err = ExceptionGroup es \<and> es \<noteq> [] \<and> (\<forall>e \<in> set es. exn_is e SartoriusError))"
  by (rule serial.polling.dispatch_reports [OF resolve_names_known [OF assms(1)] layout_self assms(2)])
     (use assms(1,3) in \<open>simp add: mg_poll_def\<close>)

theorem poll_reports_every_device_witness:
  "\<exists>rs h'. mg_poll serial_ops 1 two_ports None [1, 0] two_ports_heap = (Inr rs, h') \<and>
     set (keys rs) = {''left'', ''right''}"
proof -
  obtain r h' where r: "mg_poll serial_ops 1 two_ports None [1, 0] two_ports_heap = (r, h')"
    by fastforce
  have "resolve_names two_ports None = Inr [''left'', ''right'']" "mg_error_policy two_ports = POLICY_RETURN"
    by (simp_all add: resolve_names_def two_ports_def SartoriusManager_def)
  with poll_reports_every_device [OF _ _ r] show ?thesis using r by (cases r) auto
qed

section \<open>Commands for each name\<close>

text \<open>The names of balances that are registered once.\<close>

lemma name_found:
  assumes "distinct (map (\<lambda>(n, e). de_balance e) (mg_devices m))"
    and "\<forall>(n, e) \<in> set (mg_devices m). de_name e = n"
    and "map_of (mg_devices m) n = Some e"
  shows "name_by_balance_id m (de_balance e) = Some n"
proof -
  have "find (\<lambda>x. de_balance x = de_balance e) es = Some e"
    if "e \<in> set es" "distinct (map de_balance es)" for es
    using that by (induction es) (auto simp: image_iff)
  moreover have "e \<in> snd ` set (mg_devices m)" using map_of_SomeD [OF assms(3)] by force
  moreover have "distinct (map de_balance (rev (map snd (mg_devices m))))"
    using assms(1) by (simp add: case_prod_unfold comp_def rev_map [symmetric])
  ultimately have "find (\<lambda>x. de_balance x = de_balance e) (rev (map snd (mg_devices m))) = Some e"
    by simp
  with assms(2) map_of_SomeD [OF assms(3)] show ?thesis by (auto simp: name_by_balance_id_def)
qed


text \<open>
  \<open>execute\<close> finds the request of a balance by the identity of the object. When one balance is
  registered under two names, a request for the name registered first finds the other name: the
  balance is not asked, and instead of a result or an error of the package the caller gets a
  group with a \<open>KeyError\<close>, under either error policy and every interleaving.
\<close>

theorem execute_of_shadowed_name:
  assumes "map_of (mg_devices m) shadowed = Some entry"
    and "name_by_balance_id m (de_balance entry) = Some later" and "later \<noteq> shadowed"
  shows "mg_execute ops cmd [(shadowed, request)] m schedule h = (Inl (ExceptionGroup [Py KeyError]), h)"
proof -
  let ?op = "execute_by_name ops cmd [(shadowed, request)] m"
  let ?key = "group_key m shadowed"
  let ?d = "\<lparr>dp_groups = [(?key, [shadowed])], dp_results = [], dp_errors = [], dp_crash = None, dp_heap = h\<rparr>"
  let ?c = "\<lparr>dp_groups = [(?key, [])], dp_results = [], dp_errors = [], dp_crash = Some (Py KeyError), dp_heap = h\<rparr>"
  have op: "?op (de_balance entry) h = (Inl (Py KeyError), h)"
    using assms(2,3) by (simp add: execute_by_name_def)
  have member: "run_member ?op m shadowed (?d\<lparr>dp_groups := [(?key, [])]\<rparr>) = ?c"
    using assms(1) op by (simp add: run_member_def)
  have step: "group_step ?op m i ?d = (if i = 0 then ?c else ?d)" for i
    using member by (simp add: group_step_def)
  have crashed: "fold (group_step ?op m) is ?c = ?c" for "is"
    by (induction "is") (simp_all add: group_step_def)
  have run: "fold (group_step ?op m) is ?d = (if 0 \<in> set is then ?c else ?d)" for "is"
    by (induction "is") (simp_all add: step crashed)
  have g: "group_by (group_key m) [shadowed] = [(?key, [shadowed])]" by (simp add: group_by_def)
  have known: "shadowed \<in> set (keys (mg_devices m))" using assms(1) unfolding in_keys by simp
  have seq: "sequential [(?key, [shadowed])] = [0]" by (simp add: sequential_def)
  have "fold (group_step ?op m) (sequential (dp_groups (fold (group_step ?op m) schedule ?d)))
      (fold (group_step ?op m) schedule ?d) = ?c"
    using run [of schedule] crashed run [of "[0]"] seq by (cases "0 \<in> set schedule") simp_all
  then have "mg_dispatch ?op m [shadowed] schedule h = (Inl (ExceptionGroup [Py KeyError]), h)"
    by (simp add: mg_dispatch_def run_schedule_def g Let_def)
  then show ?thesis using known by (simp add: mg_execute_def)
qed

definition twice_registered :: manager where
  "twice_registered = (SartoriusManager POLICY_RETURN)\<lparr>mg_devices :=
     [(''left'', \<lparr>de_name = ''left'', de_balance = 4, de_port_key = None\<rparr>),
      (''right'', \<lparr>de_name = ''right'', de_balance = 4, de_port_key = None\<rparr>)]\<rparr>"

theorem execute_of_shadowed_name_witness:
  "mg_execute serial_ops READ_NET [(''left'', ReadWeightRequest)] twice_registered [] two_ports_heap =
     (Inl (ExceptionGroup [Py KeyError]), two_ports_heap)"
  by (rule execute_of_shadowed_name [where entry = "\<lparr>de_name = ''left'', de_balance = 4, de_port_key = None\<rparr>"
        and later = "''right''"])
     (simp_all add: twice_registered_def SartoriusManager_def name_by_balance_id_def)


end
