(* ===== verification/Manager_Laws.thy ===== *)
theory Manager_Laws
  imports Manager_Dispatch
begin

text \<open>
  The bookkeeping of the manager: ports are counted exactly, a transport is closed with its last
  reference, a failed \<open>add\<close> leaves no trace, and balances on different ports never share an
  object, which is what makes concurrent polling independent of the interleaving.
\<close>

section \<open>Dictionaries\<close>

lemma dict_set_same: "map_of d k = Some v \<Longrightarrow> dict_set k v d = d"
  by (induction k v d rule: dict_set.induct) (auto split: if_splits)

lemma dict_set_new: "k \<notin> set (keys d) \<Longrightarrow> dict_set k v d = d @ [(k, v)]"
  by (induction k v d rule: dict_set.induct) auto

lemma dict_set_twice: "dict_set k v (dict_set k w d) = dict_set k v d"
  by (induction k w d rule: dict_set.induct) auto

lemma dict_pop_set_new: "k \<notin> set (keys d) \<Longrightarrow> dict_pop k (dict_set k v d) = d"
  by (induction k v d rule: dict_set.induct) (auto simp: dict_pop_def filter_id_conv)

lemma distinct_dict [simp]:
  "distinct (keys d) \<Longrightarrow> distinct (keys (dict_set k v d))"
  "distinct (keys d) \<Longrightarrow> distinct (keys (dict_pop k d))"
  by simp_all

section \<open>Opening on a port\<close>

text \<open>
  What an open may do to the heap: it only touches the transport and the client of the port, and
  objects it makes itself.
\<close>

definition cells_kept :: "'s heap \<Rightarrow> 's heap \<Rightarrow> bool" where
  "cells_kept h h' \<longleftrightarrow> hp_next h \<le> hp_next h' \<and>
     (\<forall>a < hp_next h. bc_client (hp_balances h' a) = bc_client (hp_balances h a) \<and>
        bc_transport (hp_balances h' a) = bc_transport (hp_balances h a))"

lemma cells_kept_refl [simp]: "cells_kept h h"
  by (simp add: cells_kept_def)

lemma cells_kept_trans: "cells_kept h h' \<Longrightarrow> cells_kept h' h'' \<Longrightarrow> cells_kept h h''"
  by (auto simp: cells_kept_def)

lemma cells_kept_transports [simp]:
  "cells_kept h (h\<lparr>hp_transports := t\<rparr>)" "cells_kept h (h\<lparr>hp_transports := t, hp_next := Suc (hp_next h)\<rparr>)"
  by (simp_all add: cells_kept_def)

lemma run_on_kept:
  assumes "run_on p a h = (r, h')"
  shows "cells_kept h h'" "hp_next h' = hp_next h"
    "bc_client (hp_balances h' b) = bc_client (hp_balances h b)"
    "bc_transport (hp_balances h' b) = bc_transport (hp_balances h b)"
    "t \<noteq> bc_transport (hp_balances h a) \<Longrightarrow> hp_transports h' t = hp_transports h t"
  using assms by (auto simp: run_on_def Let_def cells_kept_def split: prod.splits)

lemma port_client_facts:
  assumes "port_client protocol pe h = (c, pe', h')"
  shows "cells_kept h h'" "hp_transports h' = hp_transports h" "hp_balances h' = hp_balances h"
    "pt_client pe' = Some c" "pt_refs pe' = pt_refs pe" "pt_key pe' = pt_key pe"
    "pt_transport pe' = pt_transport pe" "pt_owns_transport pe' = pt_owns_transport pe"
    "pt_client pe = None \<Longrightarrow> c = hp_next h \<and> hp_next h' = Suc (hp_next h)"
    "pt_client pe = Some c' \<Longrightarrow> c = c' \<and> pe' = pe \<and> h' = h"
  using assms by (auto simp: port_client_def Let_def cells_kept_def split: option.splits)

text \<open>The frame of \<open>open_balance_on_port\<close>.\<close>

definition port_frame :: "PortEntry \<Rightarrow> 's heap \<Rightarrow> nat res \<Rightarrow> PortEntry \<Rightarrow> 's heap \<Rightarrow> bool" where
  "port_frame pe h r pe' h' \<longleftrightarrow>
     cells_kept h h' \<and> (\<forall>t. t \<noteq> pt_transport pe \<longrightarrow> hp_transports h' t = hp_transports h t) \<and>
     pt_refs pe' = pt_refs pe \<and> pt_key pe' = pt_key pe \<and> pt_transport pe' = pt_transport pe \<and>
     pt_owns_transport pe' = pt_owns_transport pe \<and> (pt_client pe \<noteq> None \<longrightarrow> pe' = pe) \<and>
     (\<forall>a. r = Inr a \<longrightarrow> hp_next h \<le> a \<and> a < hp_next h' \<and>
        bc_transport (hp_balances h' a) = pt_transport pe \<and>
        pt_client pe' = Some (bc_client (hp_balances h' a)) \<and>
        (pt_client pe = None \<longrightarrow>
           hp_next h \<le> bc_client (hp_balances h' a) \<and> bc_client (hp_balances h' a) < hp_next h'))"

lemma port_frame_error:
  "port_frame pe h (Inl e) pe (h\<lparr>hp_transports := (hp_transports h)(pt_transport pe := s)\<rparr>)"
  "port_frame pe h (Inl e) pe h"
  by (simp_all add: port_frame_def)

lemma balance_on_client_facts:
  assumes "balance_on_client ops opts t c h = (r, h')"
  shows "cells_kept h h'" "u \<noteq> t \<Longrightarrow> hp_transports h' u = hp_transports h u"
    "r = Inr a \<Longrightarrow> a = hp_next h \<and> hp_next h' = Suc (hp_next h) \<and>
       bc_transport (hp_balances h' a) = t \<and> bc_client (hp_balances h' a) = c"
proof -
  let ?a = "hp_next h"
  let ?h = "\<lambda>session. h\<lparr>hp_balances := (hp_balances h)(?a :=
    \<lparr>bc_balance = Balance session None, bc_client = c, bc_transport = t\<rparr>), hp_next := ?a + 1\<rparr>"
  obtain ses :: "session res" where s: "(r, h') = (case ses of Inl e \<Rightarrow> (Inl e, h)
      | Inr session \<Rightarrow>
          if oo_identify opts
          then (case run_on (identify ops) ?a (?h session) of (Inl e, h') \<Rightarrow> (Inl e, h')
                | (Inr _, h') \<Rightarrow> (Inr ?a, h'))
          else (Inr ?a, ?h session))"
    by (rule that [OF assms [symmetric, unfolded balance_on_client_def Let_def]])
  consider "h' = h" "\<exists>e. r = Inl e" | session where "h' = ?h session" "r = Inr ?a"
    | session ri where "run_on (identify ops) ?a (?h session) = (ri, h')" "r = Inr ?a \<or> (\<exists>e. r = Inl e)"
  proof (cases ses)
    case (Inl e)
    with s that(1) show thesis by simp
  next
    case (Inr session)
    obtain ri h2 where ri: "run_on (identify ops) ?a (?h session) = (ri, h2)" by fastforce
    show thesis
    proof (cases "oo_identify opts")
      case True
      have "(r, h') = (case ri of Inl e \<Rightarrow> (Inl e, h2) | Inr x \<Rightarrow> (Inr ?a, h2))"
        using s unfolding Inr sum.case if_P [OF True] ri prod.case .
      with ri that(3) show thesis by (cases ri) simp_all
    next
      case False
      have "(r, h') = (Inr ?a, ?h session)" using s unfolding Inr sum.case if_not_P [OF False] .
      with that(2) show thesis by simp
    qed
  qed
  then have "cells_kept h h' \<and> (u \<noteq> t \<longrightarrow> hp_transports h' u = hp_transports h u) \<and>
    (r = Inr a \<longrightarrow> a = hp_next h \<and> hp_next h' = Suc (hp_next h) \<and>
       bc_transport (hp_balances h' a) = t \<and> bc_client (hp_balances h' a) = c)"
  proof cases
    case 3
    note k = run_on_kept [OF 3(1)]
    have "cells_kept h (?h session)" by (simp add: cells_kept_def)
    with cells_kept_trans k(1) have "cells_kept h h'" by blast
    with k(2-5) 3(2) show ?thesis by auto
  qed (auto simp: cells_kept_def)
  then show "cells_kept h h'" "u \<noteq> t \<Longrightarrow> hp_transports h' u = hp_transports h u"
    "r = Inr a \<Longrightarrow> a = hp_next h \<and> hp_next h' = Suc (hp_next h) \<and>
       bc_transport (hp_balances h' a) = t \<and> bc_client (hp_balances h' a) = c" by blast+
qed

lemma open_on_port:
  assumes "open_balance_on_port ops opts pe h = (r, pe', h')"
  shows "port_frame pe h r pe' h'"
proof -
  let ?t = "pt_transport pe"
  let ?h = "\<lambda>s. h\<lparr>hp_transports := (hp_transports h)(?t := s)\<rparr>"
  have later: "port_frame pe h r pe' h'"
    if 1: "port_client (oo_protocol opts) pe h0 = (c, pe', h1)"
      and 2: "balance_on_client ops opts ?t c h1 = (r, h')" and 3: "h0 = h \<or> (\<exists>s. h0 = ?h s)"
    for h0 c h1
  proof -
    note f = port_client_facts [OF 1] and b = balance_on_client_facts [OF 2]
    have h0: "cells_kept h h0" "hp_next h0 = hp_next h"
      "t \<noteq> ?t \<Longrightarrow> hp_transports h0 t = hp_transports h t" for t
      using 3 by auto
    have k: "cells_kept h h'"
      using cells_kept_trans [OF cells_kept_trans [OF h0(1) f(1)] b(1)] .
    have n: "hp_next h \<le> hp_next h1" using f(1) h0(1) by (simp add: cells_kept_def)
    show ?thesis
      unfolding port_frame_def
    proof (intro conjI allI impI)
      fix t assume "t \<noteq> ?t"
      with b(2) [of t] f(2) h0(3) show "hp_transports h' t = hp_transports h t" by simp
    next
      fix a assume a: "r = Inr a"
      note c = b(3) [OF a]
      with n show "hp_next h \<le> a" "a < hp_next h'" by auto
      from c show "bc_transport (hp_balances h' a) = pt_transport pe"
        "pt_client pe' = Some (bc_client (hp_balances h' a))" using f(4) by auto
      assume "pt_client pe = None"
      with f(9) c h0(2) show "hp_next h \<le> bc_client (hp_balances h' a)"
        "bc_client (hp_balances h' a) < hp_next h'" by auto
    next
      assume "pt_client pe \<noteq> None"
      then show "pe' = pe" using f(10) by auto
    qed (use k f in simp_all)
  qed
  consider e where "r = Inl e" "pe' = pe" "h' = h" | e s where "r = Inl e" "pe' = pe" "h' = ?h s"
    | c h1 where "port_client (oo_protocol opts) pe h = (c, pe', h1)"
        "balance_on_client ops opts ?t c h1 = (r, h')"
    | s c h1 where "port_client (oo_protocol opts) pe (?h s) = (c, pe', h1)"
        "balance_on_client ops opts ?t c h1 = (r, h')"
    using assms unfolding open_balance_on_port_def
    by (auto simp: Let_def raise_ctx_def split: if_splits prod.splits sum.splits)
  then show ?thesis
    by cases (use later in \<open>auto simp: port_frame_error\<close>)
qed

section \<open>The bookkeeping\<close>

text \<open>The objects of two devices; on one port they share the client and the transport.\<close>

definition apart_entries :: "'s heap \<Rightarrow> DeviceEntry \<Rightarrow> DeviceEntry \<Rightarrow> bool" where
  "apart_entries h e e' \<longleftrightarrow>
     de_balance e \<noteq> de_balance e' \<and>
     (de_port_key e = de_port_key e' \<and> de_port_key e \<noteq> None \<or>
      bc_client (hp_balances h (de_balance e)) \<noteq> bc_client (hp_balances h (de_balance e')) \<and>
      bc_transport (hp_balances h (de_balance e)) \<noteq> bc_transport (hp_balances h (de_balance e')))"

text \<open>An entry's objects exist, and those of a port are the port's.\<close>

definition entry_ok :: "manager \<Rightarrow> 's heap \<Rightarrow> string \<Rightarrow> DeviceEntry \<Rightarrow> bool" where
  "entry_ok m h n e \<longleftrightarrow>
     de_name e = n \<and> de_balance e < hp_next h \<and>
     bc_client (hp_balances h (de_balance e)) < hp_next h \<and>
     bc_transport (hp_balances h (de_balance e)) < hp_next h \<and>
     (\<forall>k. de_port_key e = Some k \<longrightarrow> (\<exists>pe. map_of (mg_ports m) k = Some pe \<and>
        pt_transport pe = bc_transport (hp_balances h (de_balance e)) \<and>
        pt_client pe = Some (bc_client (hp_balances h (de_balance e)))))"

definition names_on :: "manager \<Rightarrow> string \<Rightarrow> string set" where
  "names_on m k = {n. \<exists>e. map_of (mg_devices m) n = Some e \<and> de_port_key e = Some k}"

definition manager_ok :: "manager \<Rightarrow> 's heap \<Rightarrow> bool" where
  "manager_ok m h \<longleftrightarrow>
     distinct (keys (mg_devices m)) \<and> distinct (keys (mg_ports m)) \<and>
     (mg_closed m \<longrightarrow> mg_devices m = [] \<and> mg_ports m = []) \<and>
     (\<forall>n e. map_of (mg_devices m) n = Some e \<longrightarrow> entry_ok m h n e) \<and>
     (\<forall>k pe. map_of (mg_ports m) k = Some pe \<longrightarrow>
        pt_key pe = k \<and> pt_refs pe \<noteq> {} \<and> pt_refs pe = names_on m k) \<and>
     (\<forall>n e n' e'. map_of (mg_devices m) n = Some e \<longrightarrow> map_of (mg_devices m) n' = Some e' \<longrightarrow>
        n \<noteq> n' \<longrightarrow> apart_entries h e e')"

lemma manager_ok_start: "manager_ok (SartoriusManager policy) h"
  by (simp add: manager_ok_def SartoriusManager_def)

lemma manager_okI:
  assumes "distinct (keys (mg_devices m))" "distinct (keys (mg_ports m))"
    and "mg_closed m \<Longrightarrow> mg_devices m = [] \<and> mg_ports m = []"
    and "\<And>n e. map_of (mg_devices m) n = Some e \<Longrightarrow> entry_ok m h n e"
    and "\<And>k pe. map_of (mg_ports m) k = Some pe \<Longrightarrow>
      pt_key pe = k \<and> pt_refs pe \<noteq> {} \<and> pt_refs pe = names_on m k"
    and "\<And>n e n' e'. map_of (mg_devices m) n = Some e \<Longrightarrow> map_of (mg_devices m) n' = Some e' \<Longrightarrow>
      n \<noteq> n' \<Longrightarrow> apart_entries h e e'"
  shows "manager_ok m h"
  unfolding manager_ok_def using assms by blast

lemma manager_okD:
  assumes "manager_ok m h"
  shows "distinct (keys (mg_devices m))" "distinct (keys (mg_ports m))"
    and "mg_closed m \<Longrightarrow> mg_devices m = [] \<and> mg_ports m = []"
    and "map_of (mg_devices m) n = Some e \<Longrightarrow> entry_ok m h n e"
    and "map_of (mg_ports m) k = Some pe \<Longrightarrow>
      pt_key pe = k \<and> pt_refs pe \<noteq> {} \<and> pt_refs pe = names_on m k"
    and "map_of (mg_devices m) n = Some e \<Longrightarrow> map_of (mg_devices m) n' = Some e' \<Longrightarrow>
      n \<noteq> n' \<Longrightarrow> apart_entries h e e'"
  using assms unfolding manager_ok_def by blast+

text \<open>What other calls do to the heap does not matter.\<close>

lemma manager_ok_kept:
  assumes "manager_ok m h" "cells_kept h h'" shows "manager_ok m h'"
proof -
  have e: "entry_ok m h' n e" if "map_of (mg_devices m) n = Some e" for n e
    using manager_okD(4) [OF assms(1) that] assms(2) unfolding entry_ok_def cells_kept_def
    by auto
  have a: "apart_entries h' e e'"
    if "map_of (mg_devices m) n = Some e" "map_of (mg_devices m) n' = Some e'" "n \<noteq> n'" for n e n' e'
    using manager_okD(6) [OF assms(1) that] manager_okD(4) [OF assms(1) that(1)]
      manager_okD(4) [OF assms(1) that(2)] assms(2)
    unfolding apart_entries_def entry_ok_def cells_kept_def by auto
  show ?thesis using assms(1) e a unfolding manager_ok_def by blast
qed

lemma manager_ok_separate:
  assumes "manager_ok m h" shows "separate_groups m h"
proof -
  have "de_balance e \<noteq> de_balance e' \<and>
      bc_client (hp_balances h (de_balance e)) \<noteq> bc_client (hp_balances h (de_balance e')) \<and>
      bc_transport (hp_balances h (de_balance e)) \<noteq> bc_transport (hp_balances h (de_balance e'))"
    if "(n, e) \<in> set (mg_devices m)" "(n', e') \<in> set (mg_devices m)" "group_key m n \<noteq> group_key m n'"
    for n e n' e'
  proof -
    have d: "map_of (mg_devices m) n = Some e" "map_of (mg_devices m) n' = Some e'"
      using that(1,2) manager_okD(1) [OF assms] by (simp_all add: map_of_is_SomeI)
    with that(3) have "n \<noteq> n'" "\<not> (de_port_key e = de_port_key e' \<and> de_port_key e \<noteq> None)"
      by (auto simp: group_key_def split: option.splits)
    with manager_okD(6) [OF assms d] show ?thesis by (auto simp: apart_entries_def)
  qed
  then show ?thesis unfolding separate_groups_def by blast
qed

lemma port_in_use:
  assumes "manager_ok m h"
  shows "k \<in> set (keys (mg_ports m)) \<longleftrightarrow> names_on m k \<noteq> {}"
proof
  assume "k \<in> set (keys (mg_ports m))"
  then have "map_of (mg_ports m) k \<noteq> None" unfolding in_keys .
  then obtain pe where "map_of (mg_ports m) k = Some pe" by blast
  from manager_okD(5) [OF assms this] show "names_on m k \<noteq> {}" by auto
next
  assume "names_on m k \<noteq> {}"
  then obtain n e where e: "map_of (mg_devices m) n = Some e" "de_port_key e = Some k"
    by (auto simp: names_on_def)
  from manager_okD(4) [OF assms e(1)] e(2) have "map_of (mg_ports m) k \<noteq> None"
    by (auto simp: entry_ok_def)
  then show "k \<in> set (keys (mg_ports m))" unfolding in_keys .
qed

text \<open>Two ports never share a transport.\<close>

lemma ports_distinct:
  assumes "manager_ok m h" "map_of (mg_ports m) k = Some pe" "map_of (mg_ports m) k' = Some pe'"
    and "pt_transport pe = pt_transport pe'"
  shows "k = k'"
proof (rule ccontr)
  assume "k \<noteq> k'"
  have "\<exists>n e. map_of (mg_devices m) n = Some e \<and> de_port_key e = Some k \<and>
      bc_transport (hp_balances h (de_balance e)) = pt_transport pe"
    if p: "map_of (mg_ports m) k = Some pe" for k pe
  proof -
    from manager_okD(5) [OF assms(1) p] have "names_on m k \<noteq> {}" by auto
    then obtain n e where e: "map_of (mg_devices m) n = Some e" "de_port_key e = Some k"
      by (auto simp: names_on_def)
    with manager_okD(4) [OF assms(1) e(1)] p show ?thesis by (auto simp: entry_ok_def)
  qed
  from this [OF assms(2)] this [OF assms(3)] obtain n e n' e' where
    e: "map_of (mg_devices m) n = Some e" "de_port_key e = Some k"
      "bc_transport (hp_balances h (de_balance e)) = pt_transport pe"
      "map_of (mg_devices m) n' = Some e'" "de_port_key e' = Some k'"
      "bc_transport (hp_balances h (de_balance e')) = pt_transport pe'" by blast
  with \<open>k \<noteq> k'\<close> have "n \<noteq> n'" by auto
  from manager_okD(6) [OF assms(1) e(1,4) this] e \<open>k \<noteq> k'\<close> assms(4)
  show False by (auto simp: apart_entries_def)
qed

section \<open>Removing and closing\<close>

text \<open>The heap once the ports outside \<open>K\<close> are given up: their own transports are closed.\<close>

definition closing :: "'s transport_ops \<Rightarrow> manager \<Rightarrow> 's heap \<Rightarrow> string set \<Rightarrow> 's heap" where
  "closing ops m h K = h\<lparr>hp_transports := (\<lambda>t.
     if tp_is_open ops (hp_transports h t) \<and>
        (\<exists>k pe. map_of (mg_ports m) k = Some pe \<and> k \<notin> K \<and> pt_owns_transport pe \<and> pt_transport pe = t)
     then tp_close ops (hp_transports h t) else hp_transports h t)\<rparr>"

lemma closing_kept: "cells_kept h (closing ops m h K)"
  by (simp add: closing_def)

lemma closing_none: "set (keys (mg_ports m)) \<subseteq> K \<Longrightarrow> closing ops m h K = h"
proof -
  assume "set (keys (mg_ports m)) \<subseteq> K"
  then have no: "(\<exists>k pe. map_of (mg_ports m) k = Some pe \<and> k \<notin> K \<and> pt_owns_transport pe \<and>
      pt_transport pe = t) \<longleftrightarrow> False" for t
    using in_keysI [of "mg_ports m"] by blast
  show ?thesis unfolding closing_def no by simp
qed

text \<open>Giving up some ports: those left are the old ones, the transports of the others are closed.\<close>

definition given_up :: "'s transport_ops \<Rightarrow> manager \<Rightarrow> 's heap \<Rightarrow> manager \<Rightarrow> 's heap \<Rightarrow> bool" where
  "given_up ops m h m' h' \<longleftrightarrow>
     h' = closing ops m h (set (keys (mg_ports m'))) \<and>
     (\<forall>k pe'. map_of (mg_ports m') k = Some pe' \<longrightarrow> (\<exists>pe. map_of (mg_ports m) k = Some pe \<and>
        pt_transport pe' = pt_transport pe \<and> pt_owns_transport pe' = pt_owns_transport pe))"

lemma given_up_refl: "given_up ops m h m h"
  by (simp add: given_up_def closing_none)

lemma given_up_trans:
  assumes "manager_ok m h" "given_up ops m h m1 h1" "given_up ops m1 h1 m2 h2"
  shows "given_up ops m h m2 h2"
proof -
  let ?K = "\<lambda>m. set (keys (mg_ports m))"
  have h1: "h1 = closing ops m h (?K m1)" and h2: "h2 = closing ops m1 h1 (?K m2)"
    using assms(2,3) by (simp_all add: given_up_def)
  have p1: "\<exists>pe. map_of (mg_ports m) k = Some pe \<and> pt_transport pe' = pt_transport pe \<and>
      pt_owns_transport pe' = pt_owns_transport pe" if "map_of (mg_ports m1) k = Some pe'" for k pe'
    using assms(2) that unfolding given_up_def by blast
  have p2: "\<exists>pe. map_of (mg_ports m1) k = Some pe \<and> pt_transport pe' = pt_transport pe \<and>
      pt_owns_transport pe' = pt_owns_transport pe" if "map_of (mg_ports m2) k = Some pe'" for k pe'
    using assms(3) that unfolding given_up_def by blast
  let ?own = "\<lambda>m K t. \<exists>k pe. map_of (mg_ports m) k = Some pe \<and> k \<notin> K \<and> pt_owns_transport pe \<and>
    pt_transport pe = t"
  have sub: "?K m2 \<subseteq> ?K m1"
    using p2 in_keys [of _ "mg_ports m2"] in_keys [of _ "mg_ports m1"] by fastforce
  have own: "?own m (?K m2) t \<longleftrightarrow> ?own m (?K m1) t \<or> ?own m1 (?K m2) t" for t
  proof
    assume "?own m (?K m2) t"
    then obtain k pe where k: "map_of (mg_ports m) k = Some pe" "k \<notin> ?K m2"
      "pt_owns_transport pe" "pt_transport pe = t" by blast
    show "?own m (?K m1) t \<or> ?own m1 (?K m2) t"
    proof (cases "k \<in> ?K m1")
      case True
      then obtain pe1 where "map_of (mg_ports m1) k = Some pe1" unfolding in_keys by blast
      with p1 [OF this] k show ?thesis by auto
    qed (use k in blast)
  next
    assume "?own m (?K m1) t \<or> ?own m1 (?K m2) t"
    then show "?own m (?K m2) t"
    proof
      assume "?own m (?K m1) t"
      with sub show ?thesis by blast
    next
      assume "?own m1 (?K m2) t"
      then obtain k pe' where k: "map_of (mg_ports m1) k = Some pe'" "k \<notin> ?K m2"
        "pt_owns_transport pe'" "pt_transport pe' = t" by blast
      from p1 [OF k(1)] k(3,4) obtain pe where "map_of (mg_ports m) k = Some pe"
        "pt_owns_transport pe" "pt_transport pe = t" by auto
      with k(2) show ?thesis by blast
    qed
  qed
  have once: "\<not> ?own m (?K m1) t" if "?own m1 (?K m2) t" for t
  proof
    assume "?own m (?K m1) t"
    then obtain k pe where k: "map_of (mg_ports m) k = Some pe" "k \<notin> ?K m1" "pt_transport pe = t"
      by blast
    from that obtain k' pe' where k': "map_of (mg_ports m1) k' = Some pe'" "pt_transport pe' = t" by blast
    from p1 [OF k'(1)] k'(2) ports_distinct [OF assms(1) k(1)] k(3) have "k = k'" by metis
    with k(2) k'(1) in_keys [of k' "mg_ports m1"] show False by simp
  qed
  have "h2 = closing ops m h (?K m2)"
    unfolding h2 h1 closing_def own using once by (intro heap.equality) (auto simp: fun_eq_iff)
  moreover have "\<exists>pe. map_of (mg_ports m) k = Some pe \<and> pt_transport pe' = pt_transport pe \<and>
      pt_owns_transport pe' = pt_owns_transport pe" if "map_of (mg_ports m2) k = Some pe'" for k pe'
    using p2 [OF that] p1 by metis
  ultimately show ?thesis unfolding given_up_def by blast
qed


text \<open>Dropping a device and its reference.\<close>

lemma names_on_pop:
  "names_on (m\<lparr>mg_devices := dict_pop n (mg_devices m), mg_ports := ps\<rparr>) k = names_on m k - {n}"
  by (auto simp: names_on_def)

lemma teardown_device_cases:
  assumes "manager_ok m h" "map_of (mg_devices m) n = Some e"
    and "teardown_device ops e (m\<lparr>mg_devices := dict_pop n (mg_devices m)\<rparr>) h = (m', h')"
  obtains (solo) "de_port_key e = None" "m' = m\<lparr>mg_devices := dict_pop n (mg_devices m)\<rparr>" "h' = h"
  | (shared) k pe where "de_port_key e = Some k" "map_of (mg_ports m) k = Some pe"
      "names_on m k - {n} \<noteq> {}" "h' = h"
      "m' = m\<lparr>mg_devices := dict_pop n (mg_devices m),
               mg_ports := dict_set k (pe\<lparr>pt_refs := names_on m k - {n}\<rparr>) (mg_ports m)\<rparr>"
  | (last) k pe where "de_port_key e = Some k" "map_of (mg_ports m) k = Some pe"
      "names_on m k - {n} = {}"
      "m' = m\<lparr>mg_devices := dict_pop n (mg_devices m), mg_ports := dict_pop k (mg_ports m)\<rparr>"
      "h' = (if pt_owns_transport pe \<and> tp_is_open ops (hp_transports h (pt_transport pe))
             then h\<lparr>hp_transports := (hp_transports h)(pt_transport pe :=
                      tp_close ops (hp_transports h (pt_transport pe)))\<rparr> else h)"
proof (cases "de_port_key e")
  case None
  with assms(3) solo show thesis by (simp add: teardown_device_def)
next
  case (Some k)
  note e = manager_okD(4) [OF assms(1,2)]
  with Some obtain pe where pe: "map_of (mg_ports m) k = Some pe" by (auto simp: entry_ok_def)
  have r: "pt_refs pe = names_on m k" using manager_okD(5) [OF assms(1) pe] by blast
  have n: "de_name e = n" using e by (simp add: entry_ok_def)
  have pop: "dict_pop k (dict_set k x d) = dict_pop k d" for x and d :: "(string \<times> PortEntry) list"
    by (induction k x d rule: dict_set.induct) (auto simp: dict_pop_def)
  show thesis
  proof (cases "names_on m k - {n} = {}")
    case True
    with assms(3) Some pe r n last [OF Some pe] show thesis
      by (simp add: teardown_device_def maybe_teardown_port_def Let_def pop)
  next
    case False
    with assms(3) Some pe r n shared [OF Some pe] show thesis
      by (simp add: teardown_device_def Let_def)
  qed
qed

lemma teardown_device_ok:
  assumes "manager_ok m h" "map_of (mg_devices m) n = Some e"
    and "teardown_device ops e (m\<lparr>mg_devices := dict_pop n (mg_devices m)\<rparr>) h = (m', h')"
  shows "manager_ok m' h'" and "given_up ops m h m' h'"
    and "mg_devices m' = dict_pop n (mg_devices m)" "mg_closed m' = mg_closed m"
    "mg_error_policy m' = mg_error_policy m"
proof -
  show d: "mg_devices m' = dict_pop n (mg_devices m)" and cl: "mg_closed m' = mg_closed m"
    and "mg_error_policy m' = mg_error_policy m" by (rule teardown_device_cases [OF assms]; simp)+
  have g: "given_up ops m h m' h' \<and> cells_kept h h'"
  proof (rule teardown_device_cases [OF assms])
    fix k pe assume k: "map_of (mg_ports m) k = Some pe"
      "m' = m\<lparr>mg_devices := dict_pop n (mg_devices m), mg_ports := dict_pop k (mg_ports m)\<rparr>"
      "h' = (if pt_owns_transport pe \<and> tp_is_open ops (hp_transports h (pt_transport pe))
             then h\<lparr>hp_transports := (hp_transports h)(pt_transport pe :=
                      tp_close ops (hp_transports h (pt_transport pe)))\<rparr> else h)"
    have o: "(\<exists>k' pe'. map_of (mg_ports m) k' = Some pe' \<and> k' \<notin> set (keys (mg_ports m')) \<and>
        pt_owns_transport pe' \<and> pt_transport pe' = t) \<longleftrightarrow> pt_owns_transport pe \<and> pt_transport pe = t" for t
    proof -
      have "k' \<notin> set (keys (mg_ports m')) \<longleftrightarrow> k' = k" if "map_of (mg_ports m) k' = Some pe'" for k' pe'
        using in_keysI [OF that] by (auto simp: k(2))
      with k(1) show ?thesis by (metis option.inject)
    qed
    have "h' = closing ops m h (set (keys (mg_ports m')))"
      unfolding closing_def o using k(3) by (intro heap.equality) (auto simp: fun_eq_iff)
    moreover from this have "cells_kept h h'" by (simp add: closing_kept)
    ultimately show ?thesis using k(2) by (auto simp: given_up_def)
  next
    fix k pe assume k: "map_of (mg_ports m) k = Some pe" "h' = h"
      "m' = m\<lparr>mg_devices := dict_pop n (mg_devices m),
               mg_ports := dict_set k (pe\<lparr>pt_refs := names_on m k - {n}\<rparr>) (mg_ports m)\<rparr>"
    then have "h' = closing ops m h (set (keys (mg_ports m')))"
      using in_keysI [OF k(1)] by (simp add: closing_none)
    with k show ?thesis by (auto simp: given_up_def)
  qed (auto simp: given_up_def closing_none)
  then show "given_up ops m h m' h'" ..
  have ok: "manager_ok m h'" using manager_ok_kept [OF assms(1)] g by blast
  note old = manager_okD [OF ok]
  have devs: "map_of (mg_devices m') a = Some x \<longleftrightarrow> a \<noteq> n \<and> map_of (mg_devices m) a = Some x" for a x
    by (auto simp: d)
  have nm: "names_on m' k = names_on m k - {n}" for k by (auto simp: names_on_def d)
  let ?follows = "\<lambda>k. case map_of (mg_ports m) k of
      None \<Rightarrow> map_of (mg_ports m') k = None
    | Some pe \<Rightarrow> map_of (mg_ports m') k =
        (if names_on m' k = {} then None else Some (pe\<lparr>pt_refs := names_on m' k\<rparr>))"
  have same: "?follows k" if "map_of (mg_ports m') k = map_of (mg_ports m) k" "n \<notin> names_on m k" for k
  proof (cases "map_of (mg_ports m) k")
    case None
    with that(1) show ?thesis by simp
  next
    case (Some pe)
    have "names_on m' k = names_on m k" using nm that(2) by simp
    with old(5) [OF Some] have "names_on m' k \<noteq> {}" "pe\<lparr>pt_refs := names_on m' k\<rparr> = pe" by auto
    with that(1) Some show ?thesis by simp
  qed
  have other: "n \<notin> names_on m k" if "de_port_key e \<noteq> Some k" for k
    using assms(2) that by (auto simp: names_on_def)
  have ports: "?follows k" for k
  proof (rule teardown_device_cases [OF assms])
    assume s: "de_port_key e = None" "m' = m\<lparr>mg_devices := dict_pop n (mg_devices m)\<rparr>"
    show ?thesis by (rule same) (use s other in simp_all)
  next
    fix k' pe assume s: "de_port_key e = Some k'" "map_of (mg_ports m) k' = Some pe"
      "names_on m k' - {n} \<noteq> {}" "m' = m\<lparr>mg_devices := dict_pop n (mg_devices m),
        mg_ports := dict_set k' (pe\<lparr>pt_refs := names_on m k' - {n}\<rparr>) (mg_ports m)\<rparr>"
    show ?thesis
    proof (cases "k = k'")
      case True
      have "map_of (mg_ports m') k = Some (pe\<lparr>pt_refs := names_on m k' - {n}\<rparr>)" using s(4) True by simp
      with True s(2,3) nm [of k'] show ?thesis by simp
    next
      case False
      show ?thesis by (rule same) (use s False other in simp_all)
    qed
  next
    fix k' pe assume s: "de_port_key e = Some k'" "map_of (mg_ports m) k' = Some pe"
      "names_on m k' - {n} = {}"
      "m' = m\<lparr>mg_devices := dict_pop n (mg_devices m), mg_ports := dict_pop k' (mg_ports m)\<rparr>"
    show ?thesis
    proof (cases "k = k'")
      case True
      have "map_of (mg_ports m') k = None" using s(4) True by simp
      with True s(2,3) nm [of k'] show ?thesis by simp
    next
      case False
      show ?thesis by (rule same) (use s False other in simp_all)
    qed
  qed
  show "manager_ok m' h'"
  proof (rule manager_okI)
    show "distinct (keys (mg_devices m'))" using old(1) by (simp add: d)
    show "distinct (keys (mg_ports m'))" by (rule teardown_device_cases [OF assms]) (use old(2) in simp_all)
    have "\<not> mg_closed m" using old(3) assms(2) by auto
    then show "mg_devices m' = [] \<and> mg_ports m' = []" if "mg_closed m'" using that cl by simp
  next
    fix a x assume "map_of (mg_devices m') a = Some x"
    with devs have a: "map_of (mg_devices m) a = Some x" "a \<noteq> n" by auto
    have "\<exists>pe'. map_of (mg_ports m') k = Some pe' \<and> pt_transport pe' = pt_transport pe \<and>
        pt_client pe' = pt_client pe" if "de_port_key x = Some k" "map_of (mg_ports m) k = Some pe" for k pe
    proof -
      have "a \<in> names_on m' k" using a that(1) by (auto simp: nm) (simp add: names_on_def)
      with ports [of k] that(2) show ?thesis by auto
    qed
    with old(4) [OF a(1)] show "entry_ok m' h' a x" unfolding entry_ok_def by metis
  next
    fix k pe' assume "map_of (mg_ports m') k = Some pe'"
    with ports [of k] old(5) [of k]
    show "pt_key pe' = k \<and> pt_refs pe' \<noteq> {} \<and> pt_refs pe' = names_on m' k"
      by (auto split: option.splits if_splits)
  next
    fix a x b y assume "map_of (mg_devices m') a = Some x" "map_of (mg_devices m') b = Some y" "a \<noteq> b"
    with devs old(6) show "apart_entries h' x y" by blast
  qed
qed


lemma mg_remove_ok:
  assumes "manager_ok m h" "map_of (mg_devices m) n = Some e" "mg_remove ops n m h = (r, m', h')"
  shows "r = Inr ()" "manager_ok m' h'" "given_up ops m h m' h'"
    "mg_devices m' = dict_pop n (mg_devices m)" "mg_closed m' = mg_closed m"
proof -
  have "\<not> mg_closed m" using manager_okD(3) [OF assms(1)] assms(2) by auto
  with assms(2,3) obtain m1 h1 where
    t: "teardown_device ops e (m\<lparr>mg_devices := dict_pop n (mg_devices m)\<rparr>) h = (m1, h1)"
      and r: "r = Inr ()" "m' = m1" "h' = h1"
    by (auto simp: mg_remove_def check_open_def split: prod.splits)
  from teardown_device_ok [OF assms(1,2) t] r show "r = Inr ()" "manager_ok m' h'"
    "given_up ops m h m' h'" "mg_devices m' = dict_pop n (mg_devices m)" "mg_closed m' = mg_closed m"
    by simp_all
qed

lemma close_devices_ok:
  assumes "manager_ok m h" "close_devices ops names m h = (m', h')"
  shows "manager_ok m' h' \<and> given_up ops m h m' h' \<and> mg_closed m' = mg_closed m \<and>
    mg_error_policy m' = mg_error_policy m \<and>
    set (keys (mg_devices m')) = set (keys (mg_devices m)) - set names"
  using assms
proof (induction names arbitrary: m h)
  case Nil
  then show ?case by (simp add: given_up_refl)
next
  case (Cons n names)
  show ?case
  proof (cases "map_of (mg_devices m) n")
    case None
    with Cons.IH [OF Cons.prems(1)] Cons.prems(2) show ?thesis
      by (auto simp: map_of_eq_None_iff)
  next
    case (Some e)
    obtain m1 h1 where t: "teardown_device ops e (m\<lparr>mg_devices := dict_pop n (mg_devices m)\<rparr>) h = (m1, h1)"
      by fastforce
    note s = teardown_device_ok [OF Cons.prems(1) Some t]
    have "close_devices ops names m1 h1 = (m', h')" using Cons.prems(2) Some t by simp
    note i = Cons.IH [OF s(1) this]
    have "set (keys (mg_devices m')) = set (keys (mg_devices m)) - set (n # names)"
      using i s(3) by (auto simp del: set_map)
    with i s(4,5) given_up_trans [OF Cons.prems(1) s(2)] show ?thesis by simp
  qed
qed

lemma mg_close_ok:
  assumes "manager_ok m h" "mg_close ops m h = (m', h')"
  shows "manager_ok m' h'" "mg_devices m' = []" "mg_ports m' = []" "mg_closed m'"
    "h' = closing ops m h {}"
proof -
  have "manager_ok m' h' \<and> mg_devices m' = [] \<and> mg_ports m' = [] \<and> mg_closed m' \<and>
    h' = closing ops m h {}"
  proof (cases "mg_closed m")
    case True
    with assms manager_okD(3) [OF assms(1) True] show ?thesis
      by (auto simp: mg_close_def closing_none)
  next
    case False
    obtain m1 h1 where c: "close_devices ops (rev (keys (mg_devices m))) m h = (m1, h1)" by fastforce
    note s = close_devices_ok [OF assms(1) c]
    then have d: "mg_devices m1 = []" by simp
    have p: "mg_ports m1 = []"
    proof -
      have "names_on m1 k = {}" for k using d by (simp add: names_on_def)
      then have "k \<notin> set (keys (mg_ports m1))" for k
        using port_in_use [of m1 h1 k] s by simp
      then have "set (keys (mg_ports m1)) = {}" by (metis all_not_in_conv)
      then show ?thesis by simp
    qed
    have "h1 = closing ops m h {}" using s p by (simp add: given_up_def)
    moreover have "manager_ok (m1\<lparr>mg_closed := True\<rparr>) h1"
      using d p by (simp add: manager_ok_def)
    ultimately show ?thesis using assms(2) False c d p by (auto simp: mg_close_def)
  qed
  then show "manager_ok m' h'" "mg_devices m' = []" "mg_ports m' = []" "mg_closed m'"
    "h' = closing ops m h {}" by blast+
qed

section \<open>Adding\<close>

text \<open>
  What a caller may register: a balance whose objects exist and are not shared with a managed one,
  or a transport that is not in use under another key.
\<close>

fun fresh_source :: "source \<Rightarrow> manager \<Rightarrow> 's heap \<Rightarrow> bool" where
  "fresh_source (SrcPath path) m h \<longleftrightarrow> True"
| "fresh_source (SrcTransport t) m h \<longleftrightarrow> t < hp_next h \<and>
     (\<forall>n e. map_of (mg_devices m) n = Some e \<longrightarrow> bc_transport (hp_balances h (de_balance e)) = t \<longrightarrow>
        de_port_key e = Some (''transport:'' @ int_text (int t)))"
| "fresh_source (SrcBalance a) m h \<longleftrightarrow>
     a < hp_next h \<and> bc_client (hp_balances h a) < hp_next h \<and> bc_transport (hp_balances h a) < hp_next h \<and>
     (\<forall>n e. map_of (mg_devices m) n = Some e \<longrightarrow> de_balance e \<noteq> a \<and>
        bc_client (hp_balances h (de_balance e)) \<noteq> bc_client (hp_balances h a) \<and>
        bc_transport (hp_balances h (de_balance e)) \<noteq> bc_transport (hp_balances h a))"

text \<open>The entry \<open>add\<close> works with: the one of the key, or a new one without a client.\<close>

lemma port_entry_for_cases:
  assumes "port_entry_for host connect src settings m h = (key, fresh, pe, h1)"
  obtains (known) "map_of (mg_ports m) key = Some pe" "\<not> fresh" "h1 = h"
  | (path) p where "src = SrcPath p" "map_of (mg_ports m) key = None" "fresh" "pt_owns_transport pe"
      "pt_transport pe = hp_next h" "pt_client pe = None" "pt_refs pe = {}" "pt_key pe = key"
      "\<exists>s. h1 = h\<lparr>hp_transports := (hp_transports h)(hp_next h := s), hp_next := Suc (hp_next h)\<rparr>"
  | (given) t where "src = SrcTransport t" "map_of (mg_ports m) key = None" "fresh"
      "\<not> pt_owns_transport pe" "pt_transport pe = t" "pt_client pe = None" "pt_refs pe = {}"
      "pt_key pe = key" "h1 = h" "key = ''transport:'' @ int_text (int t)"
  | (balance) a where "src = SrcBalance a"
proof (cases "map_of (mg_ports m) key")
  case (Some pe')
  with assms have "pe = pe'" "\<not> fresh" "h1 = h"
    by (auto simp: port_entry_for_def Let_def split: option.splits source.splits)
  with Some known show thesis by simp
next
  case None
  show thesis
  proof (cases src)
    case (SrcBalance a)
    then show thesis by (rule balance)
  next
    case (SrcPath p)
    with assms None show thesis
      by (intro path [OF SrcPath]) (auto simp: port_entry_for_def Let_def split: option.splits)
  next
    case (SrcTransport t)
    with assms None show thesis
      by (intro given [OF SrcTransport]) (auto simp: port_entry_for_def Let_def split: option.splits)
  qed
qed


lemma used_port_client:
  assumes "manager_ok m h" "map_of (mg_ports m) k = Some pe" shows "pt_client pe \<noteq> None"
    "pt_transport pe < hp_next h" "\<exists>c. pt_client pe = Some c \<and> c < hp_next h"
proof -
  from manager_okD(5) [OF assms] obtain n e where
    e: "map_of (mg_devices m) n = Some e" "de_port_key e = Some k" by (auto simp: names_on_def)
  from manager_okD(4) [OF assms(1) e(1)] e(2) assms(2)
  show "pt_client pe \<noteq> None" "pt_transport pe < hp_next h" "\<exists>c. pt_client pe = Some c \<and> c < hp_next h"
    by (auto simp: entry_ok_def)
qed

lemma resolve_source_step:
  assumes "\<forall>a. src \<noteq> SrcBalance a"
    and "port_entry_for host connect src (oo_settings opts) m h = (key, fresh, pe, h1)"
    and "open_balance_on_port ops
      (opts\<lparr>oo_settings := if is_path src then oo_settings opts else None\<rparr>) pe h1 = (r, pe', h2)"
  shows "resolve_source ops host connect src opts m h =
    (case r of
       Inr a \<Rightarrow> (Inr (Some key, a), m\<lparr>mg_ports := dict_set key pe' (mg_ports m)\<rparr>, h2)
     | Inl e \<Rightarrow>
         if fresh \<and> pt_refs pe' = {}
         then (case maybe_teardown_port ops key pe' (m\<lparr>mg_ports := dict_set key pe' (mg_ports m)\<rparr>) h2 of
                 (m3, h3) \<Rightarrow> (Inl e, m3, h3))
         else (Inl e, m\<lparr>mg_ports := dict_set key pe' (mg_ports m)\<rparr>, h2))"
  using assms by (cases src) (simp_all add: resolve_source_def Let_def)

text \<open>A failed open leaves the manager as it was, and closes a transport it has made.\<close>

lemma resolve_source_fails:
  assumes "manager_ok m h" "resolve_source ops host connect src opts m h = (Inl e, m', h')"
  shows "m' = m" "cells_kept h h'"
    and "t < hp_next h \<Longrightarrow> (\<forall>k pe. map_of (mg_ports m) k = Some pe \<longrightarrow> pt_transport pe \<noteq> t) \<Longrightarrow>
      src \<noteq> SrcTransport t \<Longrightarrow> hp_transports h' t = hp_transports h t"
    and "src = SrcPath p \<Longrightarrow> canonical_port_key host p \<notin> set (keys (mg_ports m)) \<Longrightarrow>
      (\<And>s. \<not> tp_is_open ops (tp_close ops s)) \<Longrightarrow> \<not> tp_is_open ops (hp_transports h' (hp_next h))"
proof -
  have src: "\<forall>a. src \<noteq> SrcBalance a" using assms(2) by (auto simp: resolve_source_def)
  obtain key fresh pe h1 where p: "port_entry_for host connect src (oo_settings opts) m h = (key, fresh, pe, h1)"
    by (metis prod.exhaust)
  obtain r pe' h2 where o: "open_balance_on_port ops
      (opts\<lparr>oo_settings := if is_path src then oo_settings opts else None\<rparr>) pe h1 = (r, pe', h2)"
    by (metis prod.exhaust)
  note f = open_on_port [OF o, unfolded port_frame_def]
  note st = resolve_source_step [OF src p o]
  from st assms(2) have r: "r = Inl e" by (cases r) (auto split: if_splits prod.splits)
  have tp: "u \<noteq> pt_transport pe \<Longrightarrow> hp_transports h2 u = hp_transports h1 u" for u using f by blast
  have "m' = m \<and> cells_kept h h' \<and>
    (\<forall>t. t < hp_next h \<and> (\<forall>k pe. map_of (mg_ports m) k = Some pe \<longrightarrow> pt_transport pe \<noteq> t) \<and>
       src \<noteq> SrcTransport t \<longrightarrow> hp_transports h' t = hp_transports h t) \<and>
    (\<forall>p. src = SrcPath p \<and> canonical_port_key host p \<notin> set (keys (mg_ports m)) \<and>
      (\<forall>s. \<not> tp_is_open ops (tp_close ops s)) \<longrightarrow> \<not> tp_is_open ops (hp_transports h' (hp_next h)))"
  proof (cases rule: port_entry_for_cases [OF p])
    case 1
    have "pe' = pe" using f used_port_client(1) [OF assms(1) 1(1)] by blast
    then have e: "m' = m" "h' = h2" using st assms(2) r 1(2) dict_set_same [OF 1(1)] by simp_all
    have k: "canonical_port_key host p \<in> set (keys (mg_ports m))" if "src = SrcPath p" for p
      using p that in_keysI [OF 1(1)]
      by (auto simp: port_entry_for_def Let_def split: option.splits)
    have "hp_transports h2 t = hp_transports h t" if "pt_transport pe \<noteq> t" for t
      using tp [of t] that 1(3) by simp
    moreover have "cells_kept h h2" using f 1(3) by simp
    ultimately show ?thesis using e 1(1) k by blast
  next
    case (2 p')
    have "map_of (mg_ports m) key = None" by fact
    then have "key \<notin> set (keys (mg_ports m))" unfolding in_keys by simp
    note pop = dict_pop_set_new [OF this]
    from 2(9) have c1: "cells_kept h h1" and t1: "t < hp_next h \<Longrightarrow> hp_transports h1 t = hp_transports h t" for t
      by auto
    obtain h3 where h3: "h3 = (if tp_is_open ops (hp_transports h2 (hp_next h))
        then h2\<lparr>hp_transports := (hp_transports h2)(hp_next h := tp_close ops (hp_transports h2 (hp_next h)))\<rparr>
        else h2)" by simp
    have e: "m' = m" "h' = h3" using st assms(2) r 2 f h3 pop by (simp_all add: maybe_teardown_port_def Let_def split: if_splits)
    have "cells_kept h h2" using cells_kept_trans [OF c1] f by blast
    then have "cells_kept h h3" using h3 by (simp add: cells_kept_def)
    moreover have "hp_transports h3 t = hp_transports h t" if "t < hp_next h" for t
      using that tp [of t] t1 2(5) h3 by simp
    moreover have "\<not> tp_is_open ops (hp_transports h3 (hp_next h))" if "\<forall>s. \<not> tp_is_open ops (tp_close ops s)"
      using that h3 by simp
    ultimately show ?thesis using e by simp
  next
    case (3 t)
    have "map_of (mg_ports m) key = None" by fact
    then have "key \<notin> set (keys (mg_ports m))" unfolding in_keys by simp
    note pop = dict_pop_set_new [OF this]
    have e: "m' = m" "h' = h2" using st assms(2) r 3 f pop by (simp_all add: maybe_teardown_port_def Let_def)
    show ?thesis using e f 3 tp by simp
  next
    case (4 a)
    with src show ?thesis by simp
  qed
  then show "m' = m" "cells_kept h h'"
    and "t < hp_next h \<Longrightarrow> (\<forall>k pe. map_of (mg_ports m) k = Some pe \<longrightarrow> pt_transport pe \<noteq> t) \<Longrightarrow>
      src \<noteq> SrcTransport t \<Longrightarrow> hp_transports h' t = hp_transports h t"
    and "src = SrcPath p \<Longrightarrow> canonical_port_key host p \<notin> set (keys (mg_ports m)) \<Longrightarrow>
      (\<And>s. \<not> tp_is_open ops (tp_close ops s)) \<Longrightarrow> \<not> tp_is_open ops (hp_transports h' (hp_next h))"
    by blast+
qed


text \<open>A successful open: the objects of the new balance are those of its port, and no one else's.\<close>

lemma resolve_source_succeeds:
  assumes "manager_ok m h" "fresh_source src m h"
    and "resolve_source ops host connect src opts m h = (Inr (port_key, a), m', h')"
  obtains (solo) "src = SrcBalance a" "port_key = None" "m' = m" "h' = h"
  | (port) k pe where "port_key = Some k" "m' = m\<lparr>mg_ports := dict_set k pe (mg_ports m)\<rparr>"
      "pt_key pe = k" "pt_refs pe = names_on m k" "cells_kept h h'" "hp_next h \<le> a" "a < hp_next h'"
      "pt_transport pe = bc_transport (hp_balances h' a)" "pt_transport pe < hp_next h'"
      "pt_client pe = Some (bc_client (hp_balances h' a))" "bc_client (hp_balances h' a) < hp_next h'"
      "map_of (mg_ports m) k = Some pe \<or> map_of (mg_ports m) k = None \<and>
        (\<forall>n e. map_of (mg_devices m) n = Some e \<longrightarrow>
           bc_client (hp_balances h (de_balance e)) \<noteq> bc_client (hp_balances h' a) \<and>
           bc_transport (hp_balances h (de_balance e)) \<noteq> bc_transport (hp_balances h' a))"
proof (cases "\<exists>b. src = SrcBalance b")
  case True
  with assms(3) solo show thesis by (auto simp: resolve_source_def)
next
  case False
  then have src: "\<forall>b. src \<noteq> SrcBalance b" by blast
  obtain key fresh pe h1 where p: "port_entry_for host connect src (oo_settings opts) m h = (key, fresh, pe, h1)"
    by (metis prod.exhaust)
  obtain r pe' h2 where o: "open_balance_on_port ops
      (opts\<lparr>oo_settings := if is_path src then oo_settings opts else None\<rparr>) pe h1 = (r, pe', h2)"
    by (metis prod.exhaust)
  note f = open_on_port [OF o, unfolded port_frame_def]
  note st = resolve_source_step [OF src p o]
  from st assms(3) have r: "r = Inr a" and e: "port_key = Some key" "h' = h2"
      "m' = m\<lparr>mg_ports := dict_set key pe' (mg_ports m)\<rparr>"
    by (cases r; auto split: if_splits prod.splits)+
  have a: "hp_next h1 \<le> a" "a < hp_next h2" "bc_transport (hp_balances h2 a) = pt_transport pe"
      "pt_client pe' = Some (bc_client (hp_balances h2 a))"
      "pt_client pe = None \<Longrightarrow>
         hp_next h1 \<le> bc_client (hp_balances h2 a) \<and> bc_client (hp_balances h2 a) < hp_next h2"
    and k: "cells_kept h1 h2" and pt: "pt_refs pe' = pt_refs pe" "pt_key pe' = pt_key pe"
      "pt_transport pe' = pt_transport pe"
    using f r by blast+
  have n: "hp_next h1 \<le> hp_next h2" using k by (simp add: cells_kept_def)
  have unused: "names_on m key = {}" if "map_of (mg_ports m) key = None"
    using port_in_use [OF assms(1), of key] that in_keys [of key "mg_ports m"] by blast
  note dev = manager_okD(4) [OF assms(1), unfolded entry_ok_def]
  show thesis
  proof (cases rule: port_entry_for_cases [OF p])
    case 1
    note u = used_port_client [OF assms(1) 1(1)]
    from f u(1) have "pe' = pe" by blast
    show thesis
    proof (rule port [OF e(1,3)])
      show "pt_key pe' = key" "pt_refs pe' = names_on m key"
        using manager_okD(5) [OF assms(1) 1(1)] \<open>pe' = pe\<close> by simp_all
      show "bc_client (hp_balances h' a) < hp_next h'" using a(4) u(3) n \<open>pe' = pe\<close> e(2) 1(3) by auto
      show "pt_transport pe' < hp_next h'" using u(2) n \<open>pe' = pe\<close> e(2) 1(3) by auto
    qed (use a(1-4) k pt(3) e(2) 1(1,3) \<open>pe' = pe\<close> in auto)
  next
    case (2 p')
    then obtain s where h1: "h1 = h\<lparr>hp_transports := (hp_transports h)(hp_next h := s), hp_next := Suc (hp_next h)\<rparr>"
      by blast
    have c: "cells_kept h h1" by (simp add: h1)
    show thesis
    proof (rule port [OF e(1,3)])
      show "cells_kept h h'" using cells_kept_trans [OF c k] e(2) by simp
      have "bc_client (hp_balances h (de_balance x)) \<noteq> bc_client (hp_balances h' a) \<and>
          bc_transport (hp_balances h (de_balance x)) \<noteq> bc_transport (hp_balances h' a)"
        if "map_of (mg_devices m) n = Some x" for n x
        using dev [OF that] a(3,5) 2 h1 e(2) by auto
      with 2(2) show "map_of (mg_ports m) key = Some pe' \<or> map_of (mg_ports m) key = None \<and>
        (\<forall>n e. map_of (mg_devices m) n = Some e \<longrightarrow>
           bc_client (hp_balances h (de_balance e)) \<noteq> bc_client (hp_balances h' a) \<and>
           bc_transport (hp_balances h (de_balance e)) \<noteq> bc_transport (hp_balances h' a))" by blast
    qed (use a pt n 2 h1 e(2) unused in auto)
  next
    case (3 t)
    have t: "t < hp_next h" using assms(2) 3(1) by simp
    have no: "de_port_key x \<noteq> Some key" if "map_of (mg_devices m) n = Some x" for n x
      using dev [OF that] 3(2) by auto
    show thesis
    proof (rule port [OF e(1,3)])
      have "bc_client (hp_balances h (de_balance x)) \<noteq> bc_client (hp_balances h' a) \<and>
          bc_transport (hp_balances h (de_balance x)) \<noteq> bc_transport (hp_balances h' a)"
        if "map_of (mg_devices m) n = Some x" for n x
        using dev [OF that] no [OF that] a(3,5) 3 e(2) assms(2) that by auto
      with 3(2) show "map_of (mg_ports m) key = Some pe' \<or> map_of (mg_ports m) key = None \<and>
        (\<forall>n e. map_of (mg_devices m) n = Some e \<longrightarrow>
           bc_client (hp_balances h (de_balance e)) \<noteq> bc_client (hp_balances h' a) \<and>
           bc_transport (hp_balances h (de_balance e)) \<noteq> bc_transport (hp_balances h' a))" by blast
    qed (use a pt n k 3 t e(2) unused in auto)
  next
    case (4 a)
    with src show thesis by simp
  qed
qed

lemma extend_ok:
  assumes "manager_ok m h" "name \<notin> set (keys (mg_devices m))" "\<not> mg_closed m'"
    and "mg_devices m' = mg_devices m @ [(name, x)]" "entry_ok m' h name x"
    and "distinct (keys (mg_ports m'))"
    and "\<And>k pe. map_of (mg_ports m') k = Some pe \<Longrightarrow>
      pt_key pe = k \<and> pt_refs pe \<noteq> {} \<and> pt_refs pe = names_on m' k"
    and "\<And>k pe. map_of (mg_ports m) k = Some pe \<Longrightarrow> \<exists>pe'. map_of (mg_ports m') k = Some pe' \<and>
      pt_transport pe' = pt_transport pe \<and> pt_client pe' = pt_client pe"
    and "\<And>n e. map_of (mg_devices m) n = Some e \<Longrightarrow> apart_entries h e x"
  shows "manager_ok m' h"
proof -
  have dev: "map_of (mg_devices m') n = Some e \<longleftrightarrow>
      map_of (mg_devices m) n = Some e \<or> n = name \<and> e = x" for n e
    using assms(2) in_keysI [of "mg_devices m"] by (auto simp: assms(4) map_add_def split: option.splits)
  have sym: "apart_entries h e' e" if "apart_entries h e e'" for e e'
    using that unfolding apart_entries_def by metis
  show ?thesis
  proof (rule manager_okI)
    show "distinct (keys (mg_devices m'))" using manager_okD(1) [OF assms(1)] assms(2,4) by simp
  next
    fix n e assume "map_of (mg_devices m') n = Some e"
    with dev consider "map_of (mg_devices m) n = Some e" | "n = name" "e = x" by blast
    then show "entry_ok m' h n e"
    proof cases
      case 1
      from manager_okD(4) [OF assms(1) 1] assms(8) show ?thesis unfolding entry_ok_def by metis
    qed (use assms(5) in simp)
  next
    fix n e n' e' assume "map_of (mg_devices m') n = Some e" "map_of (mg_devices m') n' = Some e'" "n \<noteq> n'"
    with dev manager_okD(6) [OF assms(1)] assms(9) sym show "apart_entries h e e'" by metis
  next
    fix k pe assume "map_of (mg_ports m') k = Some pe"
    then show "pt_key pe = k \<and> pt_refs pe \<noteq> {} \<and> pt_refs pe = names_on m' k" by (rule assms(7))
  qed (use assms(3,6) in simp_all)
qed

text \<open>A device whose client and transport are those of a port in use, or are new.\<close>

lemma apart_new:
  assumes "manager_ok m h" "cells_kept h h'" "hp_next h \<le> a"
    and "map_of (mg_ports m) k = Some pe \<and> pt_transport pe = bc_transport (hp_balances h' a) \<and>
        pt_client pe = Some (bc_client (hp_balances h' a)) \<or>
      (\<forall>n e. map_of (mg_devices m) n = Some e \<longrightarrow>
         bc_client (hp_balances h (de_balance e)) \<noteq> bc_client (hp_balances h' a) \<and>
         bc_transport (hp_balances h (de_balance e)) \<noteq> bc_transport (hp_balances h' a))"
    and e: "map_of (mg_devices m) n = Some e" and x: "de_balance x = a" "de_port_key x = Some k"
  shows "apart_entries h' e x"
proof -
  have old: "de_balance e < hp_next h" using manager_okD(4) [OF assms(1) e] by (simp add: entry_ok_def)
  have cell: "bc_client (hp_balances h' (de_balance e)) = bc_client (hp_balances h (de_balance e))"
    "bc_transport (hp_balances h' (de_balance e)) = bc_transport (hp_balances h (de_balance e))"
    using assms(2) old by (simp_all add: cells_kept_def)
  have "bc_client (hp_balances h (de_balance e)) \<noteq> bc_client (hp_balances h' a) \<and>
      bc_transport (hp_balances h (de_balance e)) \<noteq> bc_transport (hp_balances h' a)"
    if no: "de_port_key e \<noteq> Some k"
    using assms(4)
  proof
    assume p: "map_of (mg_ports m) k = Some pe \<and> pt_transport pe = bc_transport (hp_balances h' a) \<and>
        pt_client pe = Some (bc_client (hp_balances h' a))"
    with manager_okD(5) [OF assms(1), of k pe] obtain n' f where
      f: "map_of (mg_devices m) n' = Some f" "de_port_key f = Some k" by (auto simp: names_on_def)
    from manager_okD(4) [OF assms(1) f(1)] f(2) p have
      "bc_client (hp_balances h (de_balance f)) = bc_client (hp_balances h' a)"
      "bc_transport (hp_balances h (de_balance f)) = bc_transport (hp_balances h' a)"
      by (auto simp: entry_ok_def)
    moreover from f(2) no e f(1) have "n \<noteq> n'" by auto
    ultimately show ?thesis
      using manager_okD(6) [OF assms(1) e f(1)] f(2) no by (auto simp: apart_entries_def)
  qed (use e in blast)
  then show ?thesis using old assms(3) x cell by (auto simp: apart_entries_def)
qed

lemma mg_add_ok:
  assumes "manager_ok m h" "fresh_source src m h"
    and "mg_add ops host connect name src opts m h = (r, m', h')"
  shows "manager_ok m' h'" and "cells_kept h h'" and "r = Inl e \<Longrightarrow> m' = m"
    and "r = Inr a \<Longrightarrow> mg_get m' name = Inr a \<and> mg_names m' = mg_names m @ [name]"
proof -
  have "manager_ok m' h' \<and> cells_kept h h' \<and> (\<forall>e. r = Inl e \<longrightarrow> m' = m) \<and>
    (\<forall>a. r = Inr a \<longrightarrow> mg_get m' name = Inr a \<and> mg_names m' = mg_names m @ [name])"
  proof (cases "\<exists>e. r = Inl e")
    case True
    then obtain e where r: "r = Inl e" by blast
    with assms(3) consider "m' = m" "h' = h"
      | "resolve_source ops host connect src opts m h = (Inl e, m', h')"
      by (auto simp: mg_add_def validation_name_def raise_ctx_def check_open_def Let_def
          split: if_splits prod.splits sum.splits option.splits)
    then show ?thesis
    proof cases
      case 2
      from resolve_source_fails(1,2) [OF assms(1) 2] manager_ok_kept [OF assms(1)] r show ?thesis by simp
    qed (use assms(1) r in simp)
  next
    case False
    then obtain a where r: "r = Inr a" by (cases r) auto
    with assms(3) obtain key m1 where rs: "resolve_source ops host connect src opts m h = (Inr (key, a), m1, h')"
      and new: "name \<notin> set (keys (mg_devices m))" and op: "\<not> mg_closed m"
      and m': "m' = add_ref key name (m1\<lparr>mg_devices := dict_set name
        \<lparr>de_name = name, de_balance = a, de_port_key = key\<rparr> (mg_devices m1)\<rparr>)"
      by (auto simp: mg_add_def validation_name_def raise_ctx_def check_open_def Let_def
          split: if_splits prod.splits sum.splits)
    let ?x = "\<lparr>de_name = name, de_balance = a, de_port_key = key\<rparr>"
    have dnew: "dict_set name v (mg_devices m) = mg_devices m @ [(name, v)]" for v
      using new by (rule dict_set_new)
    have none: "map_of (mg_devices m) name = None" using new by (simp add: map_of_eq_None_iff)
    show ?thesis
      using assms(1,2) rs
    proof (cases rule: resolve_source_succeeds)
      case solo
      have m1: "m' = m\<lparr>mg_devices := mg_devices m @ [(name, ?x)]\<rparr>"
        using m' solo(2,3) dnew by (simp add: add_ref_def)
      have nm: "names_on m' k = names_on m k" for k
        using new solo(2) by (auto simp: names_on_def m1 map_add_def split: option.splits dest: in_keysI)
      have "manager_ok m' h"
      proof (rule extend_ok [OF assms(1) new])
        show "entry_ok m' h name ?x" using assms(2) solo by (simp add: entry_ok_def)
        show "apart_entries h e ?x" if "map_of (mg_devices m) n = Some e" for n e
          using assms(2) solo that by (auto simp: apart_entries_def)
        show "pt_key pe = k \<and> pt_refs pe \<noteq> {} \<and> pt_refs pe = names_on m' k"
          if "map_of (mg_ports m') k = Some pe" for k pe
          unfolding nm using that m1 by (intro manager_okD(5) [OF assms(1)]) simp
      qed (use m1 op manager_okD(2) [OF assms(1)] in simp_all)
      then show ?thesis using r solo(4) m1 none by (simp add: mg_get_def mg_names_def map_add_def)
    next
      case (port k pe)
      have m1: "m' = m\<lparr>mg_devices := mg_devices m @ [(name, ?x)],
          mg_ports := dict_set k (pe\<lparr>pt_refs := insert name (pt_refs pe)\<rparr>) (mg_ports m)\<rparr>"
        using m' port(1,2) dnew by (simp add: add_ref_def dict_set_twice)
      have nm: "names_on m' k' = (if k' = k then insert name (names_on m k) else names_on m k')" for k'
        using new port(1) by (auto simp: names_on_def m1 map_add_def split: option.splits dest: in_keysI)
      have "manager_ok m' h'"
      proof (rule extend_ok [OF manager_ok_kept [OF assms(1) port(5)] new])
        show "entry_ok m' h' name ?x" using port by (simp add: entry_ok_def m1)
        show "apart_entries h' e ?x" if "map_of (mg_devices m) n = Some e" for n e
          by (rule apart_new [OF assms(1) port(5,6) _ that]) (use port(1,8,10,12) in auto)
        show "\<exists>pe'. map_of (mg_ports m') k' = Some pe' \<and> pt_transport pe' = pt_transport pe0 \<and>
            pt_client pe' = pt_client pe0" if "map_of (mg_ports m) k' = Some pe0" for k' pe0
          using that port(12) m1 by (cases "k' = k") auto
        show "pt_key pe' = k' \<and> pt_refs pe' \<noteq> {} \<and> pt_refs pe' = names_on m' k'"
          if "map_of (mg_ports m') k' = Some pe'" for k' pe'
          using that nm [of k'] port(3,4) manager_okD(5) [OF assms(1), of k' pe'] m1
          by (cases "k' = k") auto
      qed (use m1 op manager_okD(2) [OF assms(1)] in simp_all)
      then show ?thesis using r port(5) m1 none by (simp add: mg_get_def mg_names_def map_add_def)
    qed
  qed
  then show "manager_ok m' h'" and "cells_kept h h'" and "r = Inl e \<Longrightarrow> m' = m"
    and "r = Inr a \<Longrightarrow> mg_get m' name = Inr a \<and> mg_names m' = mg_names m @ [name]" by blast+
qed


section \<open>Runs\<close>

text \<open>
  The states a manager can reach: its own operations, and anything else the program does with
  balances and transports, as long as objects keep their place. \<open>execute\<close> and \<open>poll\<close> are of this
  second kind, because they leave the manager alone.
\<close>

inductive managed ::
  "'s transport_ops \<Rightarrow> host \<Rightarrow> (nat \<Rightarrow> SerialSettings \<Rightarrow> 's) \<Rightarrow> manager \<Rightarrow> 's heap \<Rightarrow> bool"
  for ops host connect where
  managed_start: "managed ops host connect (SartoriusManager policy) h"
| managed_add: "managed ops host connect m h \<Longrightarrow> fresh_source src m h \<Longrightarrow>
    mg_add ops host connect name src opts m h = (r, m', h') \<Longrightarrow> managed ops host connect m' h'"
| managed_remove: "managed ops host connect m h \<Longrightarrow> mg_remove ops name m h = (r, m', h') \<Longrightarrow>
    managed ops host connect m' h'"
| managed_close: "managed ops host connect m h \<Longrightarrow> mg_close ops m h = (m', h') \<Longrightarrow>
    managed ops host connect m' h'"
| managed_else: "managed ops host connect m h \<Longrightarrow> cells_kept h h' \<Longrightarrow> managed ops host connect m h'"

lemma mg_remove_unknown:
  "map_of (mg_devices m) n = None \<Longrightarrow> \<exists>e. mg_remove ops n m h = (Inl e, m, h)"
  by (simp add: mg_remove_def check_open_def validation_name_def raise_ctx_def)

lemma managed_ok: "managed ops host connect m h \<Longrightarrow> manager_ok m h"
proof (induction rule: managed.induct)
  case (managed_remove m h name r m' h')
  show ?case
  proof (cases "map_of (mg_devices m) name")
    case None
    from mg_remove_unknown [OF this, of ops h] managed_remove(2,3) show ?thesis by auto
  next
    case (Some e)
    from mg_remove_ok(2) [OF managed_remove(3) Some managed_remove(2)] show ?thesis .
  qed
qed (blast intro: manager_ok_start mg_add_ok(1) mg_close_ok(1) manager_ok_kept)+

text \<open>Everything \<open>poll\<close> does happens to objects that are there.\<close>

lemma poll_kept: "mg_poll serial_ops ticks m names schedule h = (r, h') \<Longrightarrow> cells_kept h h'"
proof -
  have member: "cells_kept (dp_heap d) (dp_heap (run_member (run_on p) m n d))" for p :: "(serial_transport, response) bal" and n d
    by (auto simp: run_member_def split: option.split sum.split prod.split dest: run_on_kept(1))
  have step: "cells_kept (dp_heap d) (dp_heap (group_step (run_on p) m i d))"
    for p :: "(serial_transport, response) bal" and i d
  proof (cases "dp_crash d = None \<and> i < length (dp_groups d) \<and> snd (dp_groups d ! i) \<noteq> []")
    case True
    then obtain key n ns where g: "dp_groups d ! i = (key, n # ns)" by (metis list.exhaust prod.collapse)
    with member [of "d\<lparr>dp_groups := (dp_groups d)[i := (key, ns)]\<rparr>" p n] True
    show ?thesis by (simp add: group_step_def)
  next
    case False
    then have "group_step (run_on p) m i d = d" by (cases "dp_groups d ! i") (auto simp: group_step_def)
    then show ?thesis by simp
  qed
  have run: "cells_kept (dp_heap d) (dp_heap (run_schedule (run_on p) m is d))"
    for p :: "(serial_transport, response) bal" and "is" d
  proof (induction "is" arbitrary: d)
    case (Cons i "is")
    from cells_kept_trans [OF step [of d p i] Cons.IH [of "group_step (run_on p) m i d"]]
    show ?case by (simp add: run_schedule_def)
  qed (simp add: run_schedule_def)
  have "cells_kept h h'" if "mg_dispatch (run_on p) m targets schedule h = (r, h')"
    for p :: "(serial_transport, response) bal" and targets
  proof -
    let ?d0 = "\<lparr>dp_groups = group_by (group_key m) targets, dp_results = [], dp_errors = [],
      dp_crash = None, dp_heap = h\<rparr>"
    let ?d1 = "run_schedule (run_on p) m schedule ?d0"
    have "h' = dp_heap (run_schedule (run_on p) m (sequential (dp_groups ?d1)) ?d1)"
      using that by (auto simp: mg_dispatch_def Let_def split: option.splits if_splits)
    with cells_kept_trans [OF run [of ?d0 p schedule] run [of ?d1 p "sequential (dp_groups ?d1)"]]
    show ?thesis by simp
  qed
  then show "mg_poll serial_ops ticks m names schedule h = (r, h') \<Longrightarrow> cells_kept h h'"
    by (auto simp: mg_poll_def split: sum.splits)
qed


section \<open>Properties\<close>


definition demo_host :: host where
  "demo_host = \<lparr>ho_windows = False, ho_exists = (\<lambda>p. False), ho_realpath = (\<lambda>p. p)\<rparr>"

text \<open>A manager with the two balances of \<open>two_ports_heap\<close>, registered as they are.\<close>

definition demo_add :: "string \<Rightarrow> nat \<Rightarrow> manager \<Rightarrow> manager" where
  "demo_add name a m = m\<lparr>mg_devices := mg_devices m @
     [(name, \<lparr>de_name = name, de_balance = a, de_port_key = None\<rparr>)]\<rparr>"

lemma demo_managed:
  "managed serial_ops demo_host (\<lambda>_ _. demo_serial [] (\<lambda>_. []))
     (demo_add ''right'' 5 (demo_add ''left'' 4 (SartoriusManager POLICY_RETURN))) two_ports_heap"
  (is "managed _ _ _ (demo_add _ _ ?m) _")
proof -
  have add: "mg_add serial_ops demo_host c name (SrcBalance a) default_open_options m two_ports_heap =
      (Inr a, demo_add name a m, two_ports_heap)"
    if "\<not> mg_closed m" "name \<notin> set (keys (mg_devices m))" for name a m c
    using that by (simp add: mg_add_def check_open_def resolve_source_def add_ref_def demo_add_def
        dict_set_new default_open_options_def)
  have "managed serial_ops demo_host (\<lambda>_ _. demo_serial [] (\<lambda>_. [])) ?m two_ports_heap"
    by (rule managed_add [OF managed_start _ add [where a = 4]])
       (simp_all add: SartoriusManager_def two_ports_heap_def)
  then show ?thesis
    by (rule managed_add [OF _ _ add [where a = 5]])
       (simp_all add: SartoriusManager_def two_ports_heap_def demo_add_def)
qed


text \<open>
  C5. Removing a registered name succeeds, drops exactly that name, and closes exactly the open
  transports that the manager made and whose port has no name left; nothing else on the heap
  changes. A transport handed in by the caller and the transport of a shared port stay open.
\<close>

theorem remove_closes_last_reference:
  assumes "managed ops host connect m h" and "name \<in> set (mg_names m)"
    and "mg_remove ops name m h = (r, m', h')"
  shows "r = Inr () \<and> mg_names m' = filter (\<lambda>n. n \<noteq> name) (mg_names m) \<and>
    h' = closing ops m h {k. names_on m' k \<noteq> {}}"
proof -
  note ok = managed_ok [OF assms(1)]
  obtain e where "map_of (mg_devices m) name = Some e"
    using assms(2) unfolding mg_names_def in_keys by blast
  note s = mg_remove_ok [OF ok this assms(3)]
  have "set (keys (mg_ports m')) = {k. names_on m' k \<noteq> {}}" using port_in_use [OF s(2)] by blast
  with s show ?thesis by (simp add: given_up_def mg_names_def)
qed

theorem remove_closes_last_reference_witness:
  "\<exists>m'. mg_remove serial_ops ''left''
       (demo_add ''right'' 5 (demo_add ''left'' 4 (SartoriusManager POLICY_RETURN))) two_ports_heap =
     (Inr (), m', two_ports_heap) \<and> mg_names m' = [''right'']"
proof -
  let ?m = "demo_add ''right'' 5 (demo_add ''left'' 4 (SartoriusManager POLICY_RETURN))"
  obtain r m' h' where r: "mg_remove serial_ops ''left'' ?m two_ports_heap = (r, m', h')"
    by (metis prod.exhaust)
  have "''left'' \<in> set (mg_names ?m)" by (simp add: mg_names_def demo_add_def)
  from remove_closes_last_reference [OF demo_managed this r] r show ?thesis
    by (simp add: closing_none mg_names_def demo_add_def SartoriusManager_def)
qed

lemma serial_closed: "\<not> tp_is_open serial_ops (tp_close serial_ops x)"
  by (simp add: serial_ops_def serial_close_def serial_is_open_def)

text \<open>
  C6. \<open>close\<close> is final: it leaves no name and no port, closes every open transport the manager had
  made and touches no other object, and afterwards every attempt to add or remove a balance is
  refused with a connection error and changes nothing, while a second \<open>close\<close> does nothing.
\<close>

theorem close_is_final:
  assumes "managed serial_ops host connect m h" and "mg_close serial_ops m h = (m', h')"
  shows "mg_names m' = [] \<and> mg_ports m' = [] \<and> h' = closing serial_ops m h {} \<and>
    (\<forall>k pe. map_of (mg_ports m) k = Some pe \<longrightarrow> pt_owns_transport pe \<longrightarrow>
      \<not> tp_is_open serial_ops (hp_transports h' (pt_transport pe))) \<and>
    (\<exists>e. mg_add serial_ops host connect name src opts m' h'' = (Inl e, m', h'') \<and>
      exn_is e SartoriusConnectionError) \<and>
    (\<exists>e. mg_remove serial_ops name m' h'' = (Inl e, m', h'') \<and> exn_is e SartoriusConnectionError) \<and>
    mg_close serial_ops m' h'' = (m', h'')"
proof -
  note s = mg_close_ok [OF managed_ok [OF assms(1)] assms(2)]
  have "\<not> tp_is_open serial_ops (hp_transports h' (pt_transport pe))"
    if "map_of (mg_ports m) k = Some pe" "pt_owns_transport pe" for k pe
    using that serial_closed unfolding s(5) closing_def by auto
  moreover have "\<exists>e. mg_add serial_ops host connect name src opts m' h'' = (Inl e, m', h'') \<and>
      exn_is e SartoriusConnectionError"
    "\<exists>e. mg_remove serial_ops name m' h'' = (Inl e, m', h'') \<and> exn_is e SartoriusConnectionError"
    "mg_close serial_ops m' h'' = (m', h'')"
    using s(4) by (simp_all add: mg_add_def mg_remove_def mg_close_def check_open_def raise_ctx_def)
  ultimately show ?thesis using s(2,3,5) by (simp add: mg_names_def)
qed

theorem close_is_final_witness:
  "\<exists>m' e. mg_close serial_ops
     (demo_add ''right'' 5 (demo_add ''left'' 4 (SartoriusManager POLICY_RETURN))) two_ports_heap =
       (m', two_ports_heap) \<and>
     mg_remove serial_ops ''left'' m' two_ports_heap = (Inl e, m', two_ports_heap) \<and>
     exn_is e SartoriusConnectionError"
proof -
  let ?m = "demo_add ''right'' 5 (demo_add ''left'' 4 (SartoriusManager POLICY_RETURN))"
  obtain m' h' where c: "mg_close serial_ops ?m two_ports_heap = (m', h')" by fastforce
  have "closing serial_ops ?m two_ports_heap {} = two_ports_heap"
    by (rule closing_none) (simp add: demo_add_def SartoriusManager_def)
  with close_is_final [OF demo_managed c] c show ?thesis by metis
qed

text \<open>
  C7. An \<open>add\<close> that fails leaves no trace in the manager: names, ports and references are as
  before. No transport outside the port it tried changes, and a transport it made for a path is
  closed again.
\<close>

theorem failed_add_leaves_no_trace:
  assumes "managed serial_ops host connect m h"
    and "mg_add serial_ops host connect name src opts m h = (Inl e, m', h')"
  shows "m' = m \<and>
    (\<forall>t. t < hp_next h \<and> (\<forall>k pe. map_of (mg_ports m) k = Some pe \<longrightarrow> pt_transport pe \<noteq> t) \<and>
      src \<noteq> SrcTransport t \<longrightarrow> hp_transports h' t = hp_transports h t) \<and>
    (\<forall>p. src = SrcPath p \<and> canonical_port_key host p \<notin> set (keys (mg_ports m)) \<and> h' \<noteq> h \<longrightarrow>
      \<not> tp_is_open serial_ops (hp_transports h' (hp_next h)))"
proof -
  consider "m' = m" "h' = h" | "resolve_source serial_ops host connect src opts m h = (Inl e, m', h')"
    using assms(2)
    by (auto simp: mg_add_def validation_name_def raise_ctx_def check_open_def Let_def
        split: if_splits prod.splits sum.splits option.splits)
  then show ?thesis
  proof cases
    case 2
    note f = resolve_source_fails [OF managed_ok [OF assms(1)] 2]
    from f(1,3) f(4) [OF _ _ serial_closed] show ?thesis by blast
  qed simp
qed

text \<open>A second balance under a name that is taken.\<close>

theorem failed_add_leaves_no_trace_witness:
  "\<exists>e h'. mg_add serial_ops demo_host (\<lambda>_ _. demo_serial [] (\<lambda>_. [])) ''left'' (SrcPath ''COM7'')
       default_open_options
       (demo_add ''right'' 5 (demo_add ''left'' 4 (SartoriusManager POLICY_RETURN))) two_ports_heap =
     (Inl e, demo_add ''right'' 5 (demo_add ''left'' 4 (SartoriusManager POLICY_RETURN)), h')"
proof -
  let ?m = "demo_add ''right'' 5 (demo_add ''left'' 4 (SartoriusManager POLICY_RETURN))"
  have "\<exists>e m' h'. mg_add serial_ops demo_host (\<lambda>_ _. demo_serial [] (\<lambda>_. [])) ''left'' (SrcPath ''COM7'')
      default_open_options ?m two_ports_heap = (Inl e, m', h')"
    by (simp add: mg_add_def check_open_def demo_add_def SartoriusManager_def validation_name_def raise_ctx_def)
  then obtain e m' h' where "mg_add serial_ops demo_host (\<lambda>_ _. demo_serial [] (\<lambda>_. [])) ''left''
      (SrcPath ''COM7'') default_open_options ?m two_ports_heap = (Inl e, m', h')" by blast
  with failed_add_leaves_no_trace [OF demo_managed this] show ?thesis by blast
qed


end
