(* ===== verification/Recorder.thy ===== *)
theory Recorder
  imports Manager_Dispatch
begin

text \<open>
  \<open>streaming/sample.py\<close>, \<open>streaming/poll_source.py\<close> and \<open>streaming/recorder.py\<close>: timed samples
  and the recorder that polls a source at absolute target times. The clocks are the
  environment's: every reading of a clock is part of the input. A \<open>datetime\<close> is a number of
  microseconds, a clock of the event loop an exact rational number of seconds, so the rounding of
  floating-point arithmetic on times is not modelled.
\<close>

section \<open>Samples\<close>

record Sample =
  sa_device :: string
  sa_reading :: "Reading option"
  sa_t_mono_ns :: int
  sa_t_utc :: int
  sa_requested_at :: int
  sa_received_at :: int
  sa_latency_us :: int
  sa_protocol :: "ProtocolKind option"
  sa_t_midpoint_mono_ns :: "int option"
  sa_metadata :: "(string \<times> string) list"
  sa_error :: "exn option"

text \<open>\<open>ProtocolKind(text)\<close>; \<open>None\<close> stands for the \<open>ValueError\<close>.\<close>

definition ProtocolKind_of :: "string \<Rightarrow> ProtocolKind option" where
  "ProtocolKind_of text = find (\<lambda>k. protocol_value k = text) [AUTO, XBPI, SBI]"

text \<open>Half of a \<open>timedelta\<close>, rounded to a microsecond as Python does.\<close>

definition midpoint :: "int \<Rightarrow> int \<Rightarrow> int" where
  "midpoint requested_at received_at =
     requested_at + round_half_even (received_at - requested_at) 2"

definition sample_protocol :: "Reading DeviceResult \<Rightarrow> ProtocolKind option" where
  "sample_protocol result =
     (case rv_value result of
        Some reading \<Rightarrow> Some (rd_protocol reading)
      | None \<Rightarrow>
          (case rv_error result of
             None \<Rightarrow> None
           | Some e \<Rightarrow>
               (case ec_protocol (exn_context e) of
                  None \<Rightarrow> None
                | Some text \<Rightarrow> ProtocolKind_of text)))"

definition batch_sample ::
  "int \<Rightarrow> int \<Rightarrow> int \<Rightarrow> int \<Rightarrow> string \<times> Reading DeviceResult \<Rightarrow> string \<times> Sample" where
  "batch_sample requested_at received_at sent_ns recv_ns = (\<lambda>(name, result).
     (name,
      \<lparr>sa_device = name, sa_reading = rv_value result,
       sa_t_mono_ns = (sent_ns + recv_ns) div 2,
       sa_t_utc = midpoint requested_at received_at, sa_requested_at = requested_at,
       sa_received_at = received_at, sa_latency_us = received_at - requested_at,
       sa_protocol = sample_protocol result, sa_t_midpoint_mono_ns = None,
       sa_metadata = [], sa_error = rv_error result\<rparr>))"

definition build_batch ::
  "(string \<times> Reading DeviceResult) list \<Rightarrow> int \<Rightarrow> int \<Rightarrow> int \<Rightarrow> int \<Rightarrow> (string \<times> Sample) list" where
  "build_batch results requested_at received_at sent_ns recv_ns =
     map (batch_sample requested_at received_at sent_ns recv_ns) results"

section \<open>Poll sources\<close>

text \<open>A source is what its \<open>poll\<close> does to the state it works on.\<close>

type_synonym 'p poll_source = "'p \<Rightarrow> (dispatch_error + (string \<times> Reading DeviceResult) list) \<times> 'p"

fun as_reading :: "response \<Rightarrow> Reading res" where
  "as_reading (RReading x) = Inr x" | "as_reading _ = Inl (Py TypeError)"

definition adapter_poll ::
  "'s transport_ops \<Rightarrow> nat \<Rightarrow> string \<Rightarrow> string list option \<Rightarrow> (balance \<times> 's) poll_source" where
  "adapter_poll ops ticks name names = (\<lambda>(b, s).
     if (case names of None \<Rightarrow> False | Some ns \<Rightarrow> name \<notin> set ns) then (Inr [], (b, s))
     else
       (case b_bind (poll ops ticks) (\<lambda>r. b_lift (as_reading r)) b s of
          (Inl e, x) \<Rightarrow>
            if exn_is e SartoriusError then (Inr [(name, rv_failure e)], x) else (Inl (Raised e), x)
        | (Inr reading, x) \<Rightarrow> (Inr [(name, rv_success reading)], x)))"

section \<open>The recorder\<close>

datatype OverflowPolicy = BLOCK | DROP_NEWEST | DROP_OLDEST

record AcquisitionSummary =
  sm_started_at :: int
  sm_finished_at :: "int option"
  sm_emitted :: nat
  sm_late :: nat
  sm_max_drift_ms :: rat
  sm_target_total :: "nat option"

record 'p Recording =
  rc_sent :: "(string \<times> Sample) list list"
  rc_summary :: AcquisitionSummary
  rc_rate_hz :: rat
  rc_observed_rate_hz :: "rat option"
  rc_source :: 'p

text \<open>
  What the environment does during one tick: the clocks around the poll, the event-loop clock
  before it (\<open>te_now\<close>) and after it (\<open>te_done\<close>), and whether \<open>send_nowait\<close> finds room. With
  \<open>BLOCK\<close> the send waits for room; when it waits for ever the recording ends there.
\<close>

record tick_env =
  te_now :: rat
  te_requested_at :: int
  te_sent_ns :: int
  te_received_at :: int
  te_recv_ns :: int
  te_done :: rat
  te_room :: bool

definition publish ::
  "OverflowPolicy \<Rightarrow> bool \<Rightarrow> (string \<times> Sample) list \<Rightarrow> 'p Recording \<Rightarrow> unit res \<times> 'p Recording" where
  "publish overflow room batch rec =
     (let sm = rc_summary rec;
          emitted = rec\<lparr>rc_sent := rc_sent rec @ [batch],
                        rc_summary := sm\<lparr>sm_emitted := sm_emitted sm + 1\<rparr>\<rparr>
      in case overflow of
           BLOCK \<Rightarrow> (Inr (), emitted)
         | DROP_NEWEST \<Rightarrow>
             if room then (Inr (), emitted)
             else (Inr (), rec\<lparr>rc_summary := sm\<lparr>sm_late := sm_late sm + 1\<rparr>\<rparr>)
         | DROP_OLDEST \<Rightarrow> (Inl (Py AssertionError), rec))"

definition target_time :: "rat \<Rightarrow> rat \<Rightarrow> nat \<Rightarrow> rat" where
  "target_time start period tick = start + of_nat tick * period"

text \<open>The slots skipped when the clock is more than a period past the target.\<close>

definition missed_slots :: "rat \<Rightarrow> rat \<Rightarrow> nat option \<Rightarrow> nat \<Rightarrow> rat \<Rightarrow> nat" where
  "missed_slots start period slots tick now =
     (let target = target_time start period tick
      in if now > target + period
         then let missed = nat \<lfloor>(now - target) / period\<rfloor>
              in (case slots of None \<Rightarrow> missed | Some n \<Rightarrow> min missed (n - tick))
         else 0)"

definition all_done :: "nat option \<Rightarrow> nat \<Rightarrow> bool" where
  "all_done slots tick = (case slots of None \<Rightarrow> False | Some n \<Rightarrow> n \<le> tick)"

text \<open>How the producer ends: it is done, cancelled by the caller, or stopped by an exception.\<close>

datatype producer_end = Finished | Cancelled | Failed dispatch_error

definition late :: "nat \<Rightarrow> 'p Recording \<Rightarrow> 'p Recording" where
  "late n rec = rec\<lparr>rc_summary := (rc_summary rec)\<lparr>sm_late := sm_late (rc_summary rec) + n\<rparr>\<rparr>"

definition drifted :: "rat \<Rightarrow> 'p Recording \<Rightarrow> 'p Recording" where
  "drifted d rec = rec\<lparr>rc_summary := (rc_summary rec)
     \<lparr>sm_max_drift_ms := max (sm_max_drift_ms (rc_summary rec)) d\<rparr>\<rparr>"

fun run_producer ::
  "'p poll_source \<Rightarrow> rat \<Rightarrow> rat \<Rightarrow> nat option \<Rightarrow> OverflowPolicy \<Rightarrow> nat \<Rightarrow> tick_env list \<Rightarrow>
   'p Recording \<Rightarrow> producer_end \<times> nat \<times> 'p Recording" where
  "run_producer source start period slots overflow tick [] rec =
     (if all_done slots tick then Finished else Cancelled, tick, rec)"
| "run_producer source start period slots overflow tick (ev # evs) rec =
     (if all_done slots tick then (Finished, tick, rec)
      else
        let missed = missed_slots start period slots tick (te_now ev);
            rec = late missed rec;
            tick = tick + missed
        in if all_done slots tick then (Finished, tick, rec)
           else
             let target = target_time start period tick
             in case source (rc_source rec) of
                  (Inl e, p) \<Rightarrow> (Failed e, tick, rec\<lparr>rc_source := p\<rparr>)
                | (Inr results, p) \<Rightarrow>
                    let batch = build_batch results (te_requested_at ev) (te_received_at ev)
                                  (te_sent_ns ev) (te_recv_ns ev);
                        rec = drifted ((te_done ev - target) * 1000) (rec\<lparr>rc_source := p\<rparr>)
                    in case publish overflow (te_room ev) batch rec of
                         (Inl e, rec) \<Rightarrow> (Failed (Raised e), tick, rec)
                       | (Inr _, rec) \<Rightarrow>
                           run_producer source start period slots overflow (tick + 1) evs rec)"

text \<open>\<open>max(1, round(duration * rate_hz))\<close>.\<close>

definition total_ticks :: "rat option \<Rightarrow> rat \<Rightarrow> nat option" where
  "total_ticks duration rate_hz =
     map_option (\<lambda>d. nat (max 1 (case quotient_of (d * rate_hz) of (n, q) \<Rightarrow> round_half_even n q)))
       duration"

text \<open>
  \<open>record\<close> with the body of the caller: the producer runs until it ends or the caller leaves.
  \<open>finished_at\<close> is set after the task group, so not when that ends with an exception.
\<close>

definition record_run ::
  "'p poll_source \<Rightarrow> rat \<Rightarrow> rat option \<Rightarrow> OverflowPolicy \<Rightarrow> int \<Rightarrow> rat \<Rightarrow> int \<Rightarrow> int \<Rightarrow>
   tick_env list \<Rightarrow> 'p \<Rightarrow> (exn + producer_end \<times> 'p Recording)" where
  "record_run source rate_hz duration overflow buffer_size start started_at finished_at evs p =
     (if rate_hz \<le> 0 then Inl (Py ValueError)
      else if (case duration of None \<Rightarrow> False | Some d \<Rightarrow> d \<le> 0) then Inl (Py ValueError)
      else if buffer_size < 1 then Inl (Py ValueError)
      else if overflow = DROP_OLDEST then Inl (Py NotImplementedError)
      else
        let slots = total_ticks duration rate_hz;
            rec = \<lparr>rc_sent = [], rc_summary = \<lparr>sm_started_at = started_at, sm_finished_at = None,
                     sm_emitted = 0, sm_late = 0, sm_max_drift_ms = 0, sm_target_total = slots\<rparr>,
                   rc_rate_hz = rate_hz, rc_observed_rate_hz = None, rc_source = p\<rparr>
        in case run_producer source start (1 / rate_hz) slots overflow 0 evs rec of
             (Failed e, tick, rec) \<Rightarrow> Inr (Failed e, rec)
           | (how, tick, rec) \<Rightarrow>
               Inr (how, rec\<lparr>rc_summary := (rc_summary rec)\<lparr>sm_finished_at := Some finished_at\<rparr>\<rparr>))"

section \<open>Batches\<close>

lemma build_batch_keys: "map fst (build_batch rs a b c d) = map fst rs"
  by (simp add: build_batch_def batch_sample_def comp_def case_prod_unfold)

lemma publish_cases:
  assumes "publish overflow room batch rec = (r, rec')" "overflow \<noteq> DROP_OLDEST"
  shows "r = Inr () \<and> rc_source rec' = rc_source rec \<and>
    sm_emitted (rc_summary rec') + sm_late (rc_summary rec') =
      Suc (sm_emitted (rc_summary rec) + sm_late (rc_summary rec)) \<and>
    (rc_sent rec' = rc_sent rec @ [batch] \<and> sm_emitted (rc_summary rec') = Suc (sm_emitted (rc_summary rec)) \<or>
     overflow = DROP_NEWEST \<and> \<not> room \<and> rc_sent rec' = rc_sent rec \<and>
       sm_emitted (rc_summary rec') = sm_emitted (rc_summary rec)) \<and>
    sm_max_drift_ms (rc_summary rec') = sm_max_drift_ms (rc_summary rec) \<and>
    sm_target_total (rc_summary rec') = sm_target_total (rc_summary rec)"
  using assms by (cases overflow) (auto simp: publish_def Let_def split: if_splits)

section \<open>Slots\<close>

lemma missed_le: "\<not> all_done slots tick \<Longrightarrow> slots = Some n \<Longrightarrow>
  tick + missed_slots start period slots tick now \<le> n"
  by (auto simp: missed_slots_def all_done_def Let_def)

lemma skip_to_slot:
  assumes "0 < period" "k = tick + missed_slots start period None tick now"
  shows "now \<le> target_time start period k + period"
    and "k \<noteq> tick \<Longrightarrow> target_time start period k \<le> now"
proof -
  let ?t = "target_time start period tick"
  let ?q = "(now - ?t) / period"
  have k: "target_time start period k = ?t + of_nat (k - tick) * period"
    using assms(2) by (simp add: target_time_def algebra_simps)
  show "now \<le> target_time start period k + period"
  proof (cases "now > ?t + period")
    case True
    then have "1 < ?q" using assms(1) by (simp add: field_simps)
    then have "of_nat (k - tick) = (of_int \<lfloor>?q\<rfloor> :: rat)"
      using True assms(2) by (simp add: missed_slots_def Let_def of_nat_nat)
    moreover have "?q < of_int \<lfloor>?q\<rfloor> + 1" by linarith
    then have "now - ?t < (of_int \<lfloor>?q\<rfloor> + 1) * period" using assms(1) by (simp add: field_simps)
    ultimately show ?thesis unfolding k by (simp add: algebra_simps)
  next
    case False
    with assms(2) have "k = tick" by (simp add: missed_slots_def Let_def)
    with False show ?thesis by simp
  qed
  assume "k \<noteq> tick"
  with assms(2) have True: "now > ?t + period" by (auto simp: missed_slots_def Let_def split: if_splits)
  then have "1 < ?q" using assms(1) by (simp add: field_simps)
  then have q: "of_nat (k - tick) = (of_int \<lfloor>?q\<rfloor> :: rat)"
    using True assms(2) by (simp add: missed_slots_def Let_def of_nat_nat)
  have "of_int \<lfloor>?q\<rfloor> * period \<le> ?q * period" using assms(1) by (intro mult_right_mono) auto
  moreover have "?q * period = now - ?t" using assms(1) by simp
  ultimately show "target_time start period k \<le> now" unfolding k q by linarith
qed

section \<open>The books of a recording\<close>

lemma late_simps [simp]:
  "rc_sent (late n rec) = rc_sent rec" "rc_source (late n rec) = rc_source rec"
  "sm_emitted (rc_summary (late n rec)) = sm_emitted (rc_summary rec)"
  "sm_late (rc_summary (late n rec)) = sm_late (rc_summary rec) + n"
  by (simp_all add: late_def)

lemma drifted_simps [simp]:
  "rc_sent (drifted d rec) = rc_sent rec" "rc_source (drifted d rec) = rc_source rec"
  "sm_emitted (rc_summary (drifted d rec)) = sm_emitted (rc_summary rec)"
  "sm_late (rc_summary (drifted d rec)) = sm_late (rc_summary rec)"
  by (simp_all add: drifted_def)

text \<open>Every slot up to the tick is a batch sent or a slot counted as late.\<close>

definition balanced :: "nat \<Rightarrow> 'p Recording \<Rightarrow> bool" where
  "balanced tick rec \<longleftrightarrow> length (rc_sent rec) = sm_emitted (rc_summary rec) \<and>
     sm_emitted (rc_summary rec) + sm_late (rc_summary rec) = tick"

definition in_range :: "nat option \<Rightarrow> nat \<Rightarrow> bool" where
  "in_range slots tick = (case slots of None \<Rightarrow> True | Some n \<Rightarrow> tick \<le> n)"

text \<open>One iteration of the producer that polls.\<close>

lemma producer_step:
  assumes "\<not> all_done slots tick"
    and "run_producer source start period slots overflow tick (ev # evs) rec = (how, tick', rec')"
    and "overflow \<noteq> DROP_OLDEST"
  obtains (skipped) missed where "missed = missed_slots start period slots tick (te_now ev)"
      "all_done slots (tick + missed)" "how = Finished" "tick' = tick + missed" "rec' = late missed rec"
  | (failed) missed e p where "missed = missed_slots start period slots tick (te_now ev)"
      "\<not> all_done slots (tick + missed)" "source (rc_source rec) = (Inl e, p)" "how = Failed e"
      "tick' = tick + missed" "rec' = (late missed rec)\<lparr>rc_source := p\<rparr>"
  | (polled) missed results p batch rec1 where
      "missed = missed_slots start period slots tick (te_now ev)" "\<not> all_done slots (tick + missed)"
      "source (rc_source rec) = (Inr results, p)"
      "batch = build_batch results (te_requested_at ev) (te_received_at ev) (te_sent_ns ev) (te_recv_ns ev)"
      "publish overflow (te_room ev) batch
         (drifted ((te_done ev - target_time start period (tick + missed)) * 1000)
            ((late missed rec)\<lparr>rc_source := p\<rparr>)) = (Inr (), rec1)"
      "run_producer source start period slots overflow (tick + missed + 1) evs rec1 = (how, tick', rec')"
proof -
  let ?missed = "missed_slots start period slots tick (te_now ev)"
  show thesis
  proof (cases "all_done slots (tick + ?missed)")
    case True
    with assms(1,2) show thesis by (intro skipped [OF refl True]) (auto simp: Let_def)
  next
    case False
    obtain r p where src: "source (rc_source rec) = (r, p)" by fastforce
    show thesis
    proof (cases r)
      case (Inl e)
      with assms(1,2) False src show thesis
        by (intro failed [OF refl False]) (auto simp: Let_def)
    next
      case (Inr results)
      let ?batch = "build_batch results (te_requested_at ev) (te_received_at ev) (te_sent_ns ev) (te_recv_ns ev)"
      let ?rec = "drifted ((te_done ev - target_time start period (tick + ?missed)) * 1000)
            ((late ?missed rec)\<lparr>rc_source := p\<rparr>)"
      obtain q rec1 where pb: "publish overflow (te_room ev) ?batch ?rec = (q, rec1)" by fastforce
      from publish_cases [OF pb assms(3)] have "q = Inr ()" by blast
      with assms(1,2) False src Inr pb show thesis
        by (intro polled [OF refl False _ refl]) (auto simp: Let_def)
    qed
  qed
qed

lemma producer_done:
  "all_done slots tick \<Longrightarrow> run_producer source start period slots overflow tick evs rec = (Finished, tick, rec)"
  by (cases evs) simp_all

lemma producer_balanced:
  "run_producer source start period slots overflow tick evs rec = (how, tick', rec') \<Longrightarrow>
     overflow \<noteq> DROP_OLDEST \<Longrightarrow> balanced tick rec \<Longrightarrow> in_range slots tick \<Longrightarrow>
     balanced tick' rec' \<and> in_range slots tick' \<and> (how = Finished \<longrightarrow> all_done slots tick') \<and>
     (\<exists>new. rc_sent rec' = rc_sent rec @ new)"
proof (induction evs arbitrary: tick rec)
  case Nil
  then show ?case by (auto split: if_splits)
next
  case (Cons ev evs)
  show ?case
  proof (cases "all_done slots tick")
    case True
    with Cons.prems producer_done [OF True, of source start period overflow "ev # evs" rec]
    show ?thesis by auto
  next
    case False
    have range: "in_range slots (tick + missed_slots start period slots tick (te_now ev))"
      using missed_le [OF False] by (auto simp: in_range_def split: option.split)
    show ?thesis
      using False Cons.prems(1,2)
    proof (cases rule: producer_step)
      case skipped
      with Cons.prems(3) range show ?thesis by (simp add: balanced_def)
    next
      case failed
      with Cons.prems(3) range show ?thesis by (simp add: balanced_def)
    next
      case (polled missed results p batch rec1)
      note pb = publish_cases [OF polled(5) Cons.prems(2)]
      have "balanced (tick + missed + 1) rec1" using pb Cons.prems(3) by (auto simp: balanced_def)
      moreover have "in_range slots (tick + missed + 1)"
        using polled(2) by (auto simp: in_range_def all_done_def split: option.splits)
      ultimately show ?thesis using Cons.IH [OF polled(6) Cons.prems(2)] pb by auto
    qed
  qed
qed

text \<open>Each iteration uses up at least one slot, so a bounded recording ends by itself.\<close>

lemma producer_finishes:
  "run_producer source start period (Some n) overflow tick evs rec = (how, tick', rec') \<Longrightarrow>
     overflow \<noteq> DROP_OLDEST \<Longrightarrow> \<forall>p. \<exists>rs. fst (source p) = Inr rs \<Longrightarrow> n \<le> tick + length evs \<Longrightarrow>
     how = Finished"
proof (induction evs arbitrary: tick rec)
  case Nil
  then show ?case by (auto simp: all_done_def split: if_splits)
next
  case (Cons ev evs)
  show ?case
  proof (cases "all_done (Some n) tick")
    case True
    with Cons.prems(1) show ?thesis by simp
  next
    case False
    then show ?thesis
      using Cons.prems(1,2)
    proof (cases rule: producer_step)
      case (failed missed e p)
      with Cons.prems(3) show ?thesis by (metis fst_conv sum.distinct(1))
    next
      case (polled missed results p batch rec1)
      from Cons.IH [OF polled(6) Cons.prems(2,3)] Cons.prems(4) show ?thesis by simp
    qed
  qed
qed

text \<open>With \<open>BLOCK\<close>, or with room at every tick, only skipped slots are late.\<close>

definition late_only_skipped :: "OverflowPolicy \<Rightarrow> tick_env list \<Rightarrow> bool" where
  "late_only_skipped overflow evs \<longleftrightarrow> overflow = BLOCK \<or> list_all te_room evs"

lemma producer_on_time:
  "run_producer source start period slots overflow tick evs rec = (how, tick', rec') \<Longrightarrow>
     overflow \<noteq> DROP_OLDEST \<Longrightarrow> late_only_skipped overflow evs \<Longrightarrow>
     list_all2 (\<lambda>k ev. te_now ev \<le> target_time start period k + period) [tick..<tick + length evs] evs \<Longrightarrow>
     sm_late (rc_summary rec') = sm_late (rc_summary rec)"
proof (induction evs arbitrary: tick rec)
  case Nil
  then show ?case by (auto split: if_splits)
next
  case (Cons ev evs)
  have t: "te_now ev \<le> target_time start period tick + period"
    and rest: "list_all2 (\<lambda>k ev. te_now ev \<le> target_time start period k + period)
      [tick + 1..<tick + 1 + length evs] evs"
    using Cons.prems(4) by (simp_all add: upt_conv_Cons del: upt_Suc)
  from t have m: "missed_slots start period slots tick (te_now ev) = 0"
    by (simp add: missed_slots_def Let_def)
  have room: "overflow = BLOCK \<or> te_room ev" and l: "late_only_skipped overflow evs"
    using Cons.prems(3) by (auto simp: late_only_skipped_def)
  show ?case
  proof (cases "all_done slots tick")
    case True
    with Cons.prems(1) show ?thesis by simp
  next
    case False
    then show ?thesis
      using Cons.prems(1,2)
    proof (cases rule: producer_step)
      case (polled missed results p batch rec1)
      with publish_cases [OF polled(5) Cons.prems(2)] room m
      have "sm_late (rc_summary rec1) = sm_late (rc_summary rec)" by auto
      with Cons.IH [OF polled(6) Cons.prems(2) l] rest polled(1) m show ?thesis by simp
    qed (use m in simp_all)
  qed
qed


section \<open>Properties\<close>

lemma record_run_start:
  assumes "record_run source rate_hz duration overflow buffer_size start t0 t1 evs p = Inr (how, rec)"
  obtains tick rec0 rec1 where "0 < rate_hz" "overflow \<noteq> DROP_OLDEST" "balanced 0 rec0"
    "rc_sent rec0 = []" "rc_source rec0 = p" "sm_late (rc_summary rec0) = 0"
    "run_producer source start (1 / rate_hz) (total_ticks duration rate_hz) overflow 0 evs rec0 = (how, tick, rec1)"
    "rc_sent rec = rc_sent rec1" "rc_source rec = rc_source rec1"
    "sm_emitted (rc_summary rec) = sm_emitted (rc_summary rec1)"
    "sm_late (rc_summary rec) = sm_late (rc_summary rec1)"
proof -
  let ?rec = "\<lparr>rc_sent = [], rc_summary = \<lparr>sm_started_at = t0, sm_finished_at = None,
      sm_emitted = 0, sm_late = 0, sm_max_drift_ms = 0, sm_target_total = total_ticks duration rate_hz\<rparr>,
    rc_rate_hz = rate_hz, rc_observed_rate_hz = None, rc_source = p\<rparr>"
  obtain how1 tick rec1 where run: "run_producer source start (1 / rate_hz)
      (total_ticks duration rate_hz) overflow 0 evs ?rec = (how1, tick, rec1)"
    by (metis prod.exhaust)
  have g: "0 < rate_hz" "overflow \<noteq> DROP_OLDEST"
    using assms by (auto simp: record_run_def split: if_splits)
  have r: "how = how1" "rc_sent rec = rc_sent rec1" "rc_source rec = rc_source rec1"
    "sm_emitted (rc_summary rec) = sm_emitted (rc_summary rec1)"
    "sm_late (rc_summary rec) = sm_late (rc_summary rec1)"
    using assms run by (cases how1; auto simp: record_run_def Let_def split: if_splits)+
  show thesis
    by (rule that [OF g, of ?rec tick rec1]) (use run r in \<open>simp_all add: balanced_def\<close>)
qed

lemma record_run_returns:
  assumes "0 < rate_hz" "case duration of None \<Rightarrow> True | Some d \<Rightarrow> 0 < d" "1 \<le> buffer_size"
    "overflow \<noteq> DROP_OLDEST"
  shows "\<exists>how rec. record_run source rate_hz duration overflow buffer_size start t0 t1 evs p = Inr (how, rec)"
proof -
  let ?rec = "\<lparr>rc_sent = [], rc_summary = \<lparr>sm_started_at = t0, sm_finished_at = None,
      sm_emitted = 0, sm_late = 0, sm_max_drift_ms = 0, sm_target_total = total_ticks duration rate_hz\<rparr>,
    rc_rate_hz = rate_hz, rc_observed_rate_hz = None, rc_source = p\<rparr>"
  obtain how tick rec where run: "run_producer source start (1 / rate_hz)
      (total_ticks duration rate_hz) overflow 0 evs ?rec = (how, tick, rec)"
    by (metis prod.exhaust)
  have "\<not> rate_hz \<le> 0" "\<not> (case duration of None \<Rightarrow> False | Some d \<Rightarrow> d \<le> 0)" "\<not> buffer_size < 1"
    using assms by (auto split: option.splits)
  with run assms(4) show ?thesis by (cases how) (auto simp: record_run_def Let_def)
qed


definition demo_env :: "rat \<Rightarrow> tick_env" where
  "demo_env t = \<lparr>te_now = t, te_requested_at = 0, te_sent_ns = 0, te_received_at = 1, te_recv_ns = 1,
     te_done = t, te_room = False\<rparr>"


text \<open>
  A recording of bounded duration ends by itself: when no poll raises, it is finished after at
  most as many iterations as it has slots, however late the clock and however slow the consumer.
\<close>

theorem bounded_recording_ends:
  assumes "record_run source rate_hz (Some d) overflow buffer_size start t0 t1 evs p = Inr (how, rec)"
    and "total_ticks (Some d) rate_hz = Some n" and "n \<le> length evs"
    and "\<forall>q. \<exists>rs. fst (source q) = Inr rs"
  shows "how = Finished \<and> sm_emitted (rc_summary rec) + sm_late (rc_summary rec) = n"
  using assms(1)
proof (cases rule: record_run_start)
  case (1 tick rec0 rec1)
  have "how = Finished"
    using producer_finishes [OF 1(7) [unfolded assms(2)] 1(2) assms(4)] assms(3) by simp
  with producer_balanced [OF 1(7,2,3)] 1(8-11) assms(2) show ?thesis
    by (auto simp: balanced_def in_range_def all_done_def)
qed

theorem bounded_recording_ends_witness:
  "\<exists>rec. record_run (\<lambda>p. (Inr [], p)) 3 (Some 1) BLOCK 1 0 0 0 (map demo_env [7, 8, 9]) () = Inr (Finished, rec)"
proof -
  have n: "total_ticks (Some 1) 3 = Some 3" by code_simp
  have "\<exists>how rec. record_run (\<lambda>p. (Inr [], p)) 3 (Some 1) BLOCK 1 0 0 0 (map demo_env [7, 8, 9]) () =
      Inr (how, rec)"
    by (rule record_run_returns) simp_all
  then obtain how rec where r: "record_run (\<lambda>p. (Inr [], p)) 3 (Some 1) BLOCK 1 0 0 0 (map demo_env [7, 8, 9]) () =
      Inr (how, rec)" by blast
  with bounded_recording_ends [OF r n] show ?thesis by auto
qed



section \<open>Recording one balance\<close>

lemma poll_reading:
  "poll ops ticks b s = (Inr x, b', s') \<Longrightarrow> \<exists>reading. x = RReading reading"
proof -
  have "\<exists>reading. x = RReading reading"
    if "session_execute ops READ_NET ReadWeightRequest False se s = (Inr x, se', s')" for se se' s s'
    using execute_type [OF that commands_decode(3)] by (cases x) simp_all
  then show "poll ops ticks b s = (Inr x, b', s') \<Longrightarrow> \<exists>reading. x = RReading reading"
    by (auto simp: poll_def b_bind_def b_get_def b_lift_def b_execute_def on_session_def
        split: if_splits sum.splits prod.splits)
qed

lemma adapter_polls:
  "\<exists>r. fst (adapter_poll serial_ops ticks name None x) = Inr [(name, r)] \<and>
     (rv_value r = None) \<noteq> (rv_error r = None)"
proof -
  obtain b s where x: "x = (b, s)" by fastforce
  obtain r b' s' where p: "poll serial_ops ticks b s = (r, b', s')" by (metis prod.exhaust)
  show ?thesis
  proof (cases r)
    case (Inl e)
    with serial.poll_package_error [of ticks b s e] p x show ?thesis
      by (simp add: adapter_poll_def b_bind_def rv_failure_def)
  next
    case (Inr y)
    with poll_reading [of serial_ops ticks b s y] p x show ?thesis
      by (auto simp: adapter_poll_def b_bind_def b_lift_def rv_success_def)
  qed
qed

text \<open>The batches of a source that never raises have one sample for each of its results.\<close>

lemma producer_batches:
  "run_producer source start period slots overflow tick evs rec = (how, tick', rec') \<Longrightarrow>
     overflow \<noteq> DROP_OLDEST \<Longrightarrow> (\<And>p rs. fst (source p) = Inr rs \<Longrightarrow> P rs) \<Longrightarrow>
     (\<And>p. \<exists>rs. fst (source p) = Inr rs) \<Longrightarrow>
     \<forall>b \<in> set (rc_sent rec). \<exists>rs a c d e. b = build_batch rs a c d e \<and> P rs \<Longrightarrow>
     (\<forall>b \<in> set (rc_sent rec'). \<exists>rs a c d e. b = build_batch rs a c d e \<and> P rs) \<and> (\<forall>e. how \<noteq> Failed e)"
proof (induction evs arbitrary: tick rec)
  case Nil
  then show ?case by (auto split: if_splits)
next
  case (Cons ev evs)
  show ?case
  proof (cases "all_done slots tick")
    case True
    with Cons.prems(1,5) show ?thesis by auto
  next
    case False
    then show ?thesis
      using Cons.prems(1,2)
    proof (cases rule: producer_step)
      case skipped
      with Cons.prems(5) show ?thesis by simp
    next
      case (failed missed e p)
      with Cons.prems(4) [of "rc_source rec"] show ?thesis by simp
    next
      case (polled missed results p batch rec1)
      have "P results" using Cons.prems(3) [of "rc_source rec"] polled(3) by simp
      then have new: "\<exists>rs a c d e. batch = build_batch rs a c d e \<and> P rs" using polled(4) by blast
      have "set (rc_sent rec1) \<subseteq> insert batch (set (rc_sent rec))"
        using publish_cases [OF polled(5) Cons.prems(2)] by auto
      with new Cons.prems(5)
      have "\<forall>b \<in> set (rc_sent rec1). \<exists>rs a c d e. b = build_batch rs a c d e \<and> P rs" by blast
      from Cons.IH [OF polled(6) Cons.prems(2-4) this] show ?thesis .
    qed
  qed
qed

text \<open>
  C14. Recording one balance over the serial port never aborts, whatever the port and the balance
  do: every batch holds exactly one sample under the chosen name, which carries a reading or an
  error of the package, never both and never none.
\<close>

theorem recording_one_balance_never_aborts:
  assumes "record_run (adapter_poll serial_ops ticks name None) rate_hz duration overflow buffer_size
      start t0 t1 evs (b, s) = Inr (how, rec)"
  shows "(\<forall>e. how \<noteq> Failed e) \<and>
    (\<forall>batch \<in> set (rc_sent rec). \<exists>sa. batch = [(name, sa)] \<and> sa_device sa = name \<and>
       (sa_reading sa = None) \<noteq> (sa_error sa = None))"
  using assms
proof (cases rule: record_run_start)
  case (1 tick rec0 rec1)
  let ?P = "\<lambda>rs. \<exists>r. rs = [(name, r)] \<and> (rv_value r = None) \<noteq> (rv_error r = None)"
  have "(\<forall>b \<in> set (rc_sent rec1). \<exists>rs a c d e. b = build_batch rs a c d e \<and> ?P rs) \<and> (\<forall>e. how \<noteq> Failed e)"
  proof (rule producer_batches [OF 1(7,2)])
    fix p rs assume "fst (adapter_poll serial_ops ticks name None p) = Inr rs"
    with adapter_polls [of ticks name p] show "?P rs" by auto
  next
    fix p show "\<exists>rs. fst (adapter_poll serial_ops ticks name None p) = Inr rs"
      using adapter_polls [of ticks name p] by blast
  qed (use 1(4) in simp)
  with 1(8) show ?thesis by (fastforce simp: build_batch_def batch_sample_def)
qed

theorem recording_one_balance_never_aborts_witness:
  "\<exists>how rec. record_run (adapter_poll serial_ops 0 ''bal'' None) 2 (Some 1) BLOCK 4 0 0 0
       [demo_env 0, demo_env 1] (printing_balance, demo_serial [RxChunk demo_weight] (\<lambda>_. [])) = Inr (how, rec) \<and>
     (\<forall>e. how \<noteq> Failed e)"
proof -
  let ?r = "record_run (adapter_poll serial_ops 0 ''bal'' None) 2 (Some 1) BLOCK 4 0 0 0
       [demo_env 0, demo_env 1] (printing_balance, demo_serial [RxChunk demo_weight] (\<lambda>_. []))"
  have "\<exists>how rec. ?r = Inr (how, rec)"
    by (rule record_run_returns) simp_all
  then obtain how rec where r: "?r = Inr (how, rec)" by blast
  with recording_one_balance_never_aborts [OF r] show ?thesis by blast
qed


end
