(* ===== verification/Stream_Session.thy ===== *)
theory Stream_Session
  imports Recorder
begin

text \<open>
  \<open>streaming/stream_session.py\<close>: the context manager and iterator over one balance. In the
  autoprint mode reading a sample is a loop that may run for ever, so its result is an option:
  \<open>None\<close> means that the call does not return.
\<close>

section \<open>Operations\<close>

record StreamingSession =
  sg_rate_hz :: "rat option"
  sg_mode :: string
  sg_temporary_autoprint :: bool
  sg_confirm :: bool
  sg_entered :: bool
  sg_tick :: nat
  sg_start :: rat
  sg_pending :: "Sample option"

text \<open>The clocks around one sample, and the event-loop clock before it.\<close>

record sample_env =
  sv_now :: rat
  sv_requested_at :: int
  sv_start_ns :: int
  sv_received_at :: int
  sv_end_ns :: int

definition StreamingSession_init ::
  "rat option \<Rightarrow> string \<Rightarrow> bool \<Rightarrow> bool \<Rightarrow> StreamingSession res" where
  "StreamingSession_init rate_hz mode temporary_autoprint confirm =
     (if mode \<notin> {''poll'', ''autoprint''} then Inl (Py ValueError)
      else if mode = ''poll'' \<and> (case rate_hz of None \<Rightarrow> True | Some r \<Rightarrow> r \<le> 0)
      then Inl (Py ValueError)
      else Inr \<lparr>sg_rate_hz = rate_hz, sg_mode = mode,
                sg_temporary_autoprint = temporary_autoprint, sg_confirm = confirm,
                sg_entered = False, sg_tick = 0, sg_start = 0, sg_pending = None\<rparr>)"

text \<open>\<open>Balance.stream\<close>.\<close>

definition balance_stream ::
  "balance \<Rightarrow> rat option \<Rightarrow> string \<Rightarrow> bool \<Rightarrow> bool \<Rightarrow> StreamingSession res" where
  "balance_stream b rate_hz mode temporary_autoprint confirm =
     StreamingSession_init rate_hz mode temporary_autoprint confirm"

definition device_name :: "balance \<Rightarrow> string" where
  "device_name b = (case ba_info b of None \<Rightarrow> ''balance'' | Some info \<Rightarrow> di_model info)"

definition sample_from_reading :: "string \<Rightarrow> Reading \<Rightarrow> sample_env \<Rightarrow> string \<Rightarrow> Sample" where
  "sample_from_reading device reading env mode =
     \<lparr>sa_device = device, sa_reading = Some reading,
      sa_t_mono_ns = (sv_start_ns env + sv_end_ns env) div 2,
      sa_t_utc = midpoint (sv_requested_at env) (sv_received_at env),
      sa_requested_at = sv_requested_at env, sa_received_at = sv_received_at env,
      sa_latency_us = sv_received_at env - sv_requested_at env,
      sa_protocol = Some (rd_protocol reading), sa_t_midpoint_mono_ns = None,
      sa_metadata = [(''mode'', mode)], sa_error = None\<rparr>"

text \<open>
  The loop of \<open>_read_autoprint_sample\<close>. In its \<open>k\<close>-th round \<open>windows k\<close> counts the checks the
  session's own deadline allows, and \<open>passed k\<close> tells whether the deadline of the stream has
  passed after it; without a timeout it never does.
\<close>

partial_function (option) autoprint_rounds ::
  "'s transport_ops \<Rightarrow> (nat \<Rightarrow> nat) \<Rightarrow> (nat \<Rightarrow> bool) \<Rightarrow> nat \<Rightarrow> balance \<Rightarrow> 's \<Rightarrow>
   (Reading res \<times> balance \<times> 's) option" where
  "autoprint_rounds ops windows passed k b s =
     (case on_session (read_sbi_autoprint_reading ops (windows k)) b s of
        (r, b', s') \<Rightarrow>
          (case r of
             Inr reading \<Rightarrow> Some (Inr reading, b', s')
           | Inl e \<Rightarrow>
               if exn_is e SartoriusParseError \<and> \<not> passed k
               then autoprint_rounds ops windows passed (Suc k) b' s'
               else Some (Inl e, b', s')))"

definition read_autoprint_sample ::
  "'s transport_ops \<Rightarrow> (nat \<Rightarrow> nat) \<Rightarrow> (nat \<Rightarrow> bool) \<Rightarrow> sample_env \<Rightarrow> balance \<Rightarrow> 's \<Rightarrow>
   (Sample res \<times> balance \<times> 's) option" where
  "read_autoprint_sample ops windows passed env b s =
     (case autoprint_rounds ops windows passed 0 b s of
        None \<Rightarrow> None
      | Some (Inl e, b', s') \<Rightarrow> Some (Inl e, b', s')
      | Some (Inr reading, b', s') \<Rightarrow>
          Some (Inr (sample_from_reading (device_name b') reading env ''autoprint''), b', s'))"

definition stream_enter ::
  "'s transport_ops \<Rightarrow> (nat \<Rightarrow> nat) \<Rightarrow> (nat \<Rightarrow> bool) \<Rightarrow> sample_env \<Rightarrow> StreamingSession \<Rightarrow>
   balance \<Rightarrow> 's \<Rightarrow> (unit res \<times> StreamingSession \<times> balance \<times> 's) option" where
  "stream_enter ops windows passed env sg b s =
     (if sg_entered sg then Some (Inl (Py RuntimeError), sg, b, s)
      else
        let sg = sg\<lparr>sg_entered := True, sg_start := sv_now env\<rparr>;
            active = se_active (ba_session b)
        in if sg_mode sg = ''autoprint''
           then if active \<noteq> SBI
                then Some (raise_ctx SartoriusProtocolUnsupportedError
                             [SetProtocol (Some (protocol_value active))], sg, b, s)
                else if sg_temporary_autoprint sg
                then if \<not> sg_confirm sg
                     then Some (raise_ctx SartoriusConfirmationRequiredError
                            (SetProtocol (Some ''sbi'') #
                             extra [(''safety'', XStr ''PERSISTENT'')]), sg, b, s)
                     else Some (Inl (Py NotImplementedError), sg, b, s)
                else
                  (case read_autoprint_sample ops windows passed env b s of
                     None \<Rightarrow> None
                   | Some (Inl e, b', s') \<Rightarrow> Some (Inl e, sg, b', s')
                   | Some (Inr sample, b', s') \<Rightarrow>
                       Some (Inr (), sg\<lparr>sg_pending := Some sample\<rparr>, b', s'))
           else if sbi_autoprint_active (ba_session b)
           then Some (raise_ctx SartoriusAutoprintActiveError
                  (SetProtocol (Some ''sbi'') #
                   extra [(''autoprint_active'', XBool True), (''mode'', XStr (sg_mode sg))]),
                  sg, b, s)
           else Some (Inr (), sg, b, s))"

definition stream_exit :: "StreamingSession \<Rightarrow> StreamingSession" where
  "stream_exit sg = sg\<lparr>sg_entered := False, sg_pending := None\<rparr>"

text \<open>The time the next polled sample is due, and the wait before it.\<close>

definition poll_target :: "StreamingSession \<Rightarrow> rat" where
  "poll_target sg = sg_start sg + of_nat (sg_tick sg) * (1 / the (sg_rate_hz sg))"

definition poll_wait :: "StreamingSession \<Rightarrow> rat \<Rightarrow> rat" where
  "poll_wait sg now = (if now < poll_target sg then poll_target sg - now else 0)"

definition poll_sample ::
  "'s transport_ops \<Rightarrow> nat \<Rightarrow> sample_env \<Rightarrow> StreamingSession \<Rightarrow> balance \<Rightarrow> 's \<Rightarrow>
   Sample res \<times> StreamingSession \<times> balance \<times> 's" where
  "poll_sample ops ticks env sg b s =
     (let sg = sg\<lparr>sg_tick := sg_tick sg + 1\<rparr>
      in case b_bind (poll ops ticks) (\<lambda>r. b_lift (as_reading r)) b s of
           (Inl e, b', s') \<Rightarrow> (Inl e, sg, b', s')
         | (Inr reading, b', s') \<Rightarrow>
             (Inr (sample_from_reading (device_name b') reading env ''poll''), sg, b', s'))"

definition stream_next ::
  "'s transport_ops \<Rightarrow> nat \<Rightarrow> (nat \<Rightarrow> nat) \<Rightarrow> (nat \<Rightarrow> bool) \<Rightarrow> sample_env \<Rightarrow> StreamingSession \<Rightarrow>
   balance \<Rightarrow> 's \<Rightarrow> (Sample res \<times> StreamingSession \<times> balance \<times> 's) option" where
  "stream_next ops ticks windows passed env sg b s =
     (if \<not> sg_entered sg then Some (Inl (Py RuntimeError), sg, b, s)
      else case sg_pending sg of
             Some sample \<Rightarrow> Some (Inr sample, sg\<lparr>sg_pending := None\<rparr>, b, s)
           | None \<Rightarrow>
               if sg_mode sg = ''autoprint''
               then (case read_autoprint_sample ops windows passed env b s of
                       None \<Rightarrow> None
                     | Some (r, b', s') \<Rightarrow> Some (r, sg, b', s'))
               else Some (poll_sample ops ticks env sg b s))"

text \<open>The given number of iterations, which stop at the first exception.\<close>

fun stream_take ::
  "'s transport_ops \<Rightarrow> nat \<Rightarrow> (nat \<Rightarrow> nat) \<Rightarrow> (nat \<Rightarrow> bool) \<Rightarrow> sample_env list \<Rightarrow>
   StreamingSession \<Rightarrow> balance \<Rightarrow> 's \<Rightarrow>
   (Sample list \<times> exn option \<times> StreamingSession \<times> balance \<times> 's) option" where
  "stream_take ops ticks windows passed [] sg b s = Some ([], None, sg, b, s)"
| "stream_take ops ticks windows passed (env # envs) sg b s =
     (case stream_next ops ticks windows passed env sg b s of
        None \<Rightarrow> None
      | Some (Inl e, sg', b', s') \<Rightarrow> Some ([], Some e, sg', b', s')
      | Some (Inr sample, sg', b', s') \<Rightarrow>
          (case stream_take ops ticks windows passed envs sg' b' s' of
             None \<Rightarrow> None
           | Some (samples, err, rest) \<Rightarrow> Some (sample # samples, err, rest)))"

section \<open>Reading a sample returns\<close>

definition unread :: "('s \<Rightarrow> bytes) \<Rightarrow> balance \<Rightarrow> 's \<Rightarrow> nat" where
  "unread pending_of b s =
     (case se_sbi (ba_session b) of None \<Rightarrow> 0 | Some c \<Rightarrow> length (sc_pending c)) + length (pending_of s)"

lemma parse_not_transport: "exn_is e SartoriusTransportError \<Longrightarrow> \<not> exn_is e SartoriusParseError"
proof (cases e)
  case (Sart c ctx)
  have "is_subclass c SartoriusTransportError \<Longrightarrow> \<not> is_subclass c SartoriusParseError"
    by (cases c) (simp_all add: is_subclass_def ancestors.simps)
  with Sart show "exn_is e SartoriusTransportError \<Longrightarrow> \<not> exn_is e SartoriusParseError" by simp
qed simp

text \<open>The stretches of a stream: lines without a weight, the weight line, its reading.\<close>

abbreviation stretch_ok :: "bytes list \<times> bytes \<times> Reading \<Rightarrow> bool" where
  "stretch_ok p \<equiv> list_all without_weight (fst p) \<and> carries_weight (fst (snd p)) (snd (snd p))"

abbreviation stretch_lines :: "bytes list \<times> bytes \<times> Reading \<Rightarrow> bytes list" where
  "stretch_lines p \<equiv> fst p @ [fst (snd p)]"

context transport
begin

text \<open>A line whose reading ends in a parse error was taken off the input.\<close>

lemma line_consumed:
  assumes "sbi_read_line ops nm c s = (r, c', s')"
    and "is_ok r \<or> (\<exists>e. r = Inl e \<and> exn_is e SartoriusParseError)"
  shows "length (sc_pending c') + length (pending s') < length (sc_pending c) + length (pending s)"
proof -
  have shrink: "length (pending s2) \<le> length (pending s1)"
    if "parse_or_drain ops raw n t s1 = (q, s2)" for raw n t s1 q s2
    using that drain_pending [of s1]
    by (auto simp: parse_or_drain_def split: sum.splits list.splits)
  have "\<not> sc_disposed c"
    using assms by (auto simp: sbi_read_line_def sbi_raise_if_disposed_def raise_ctx_def is_ok_def
        is_subclass_def ancestors.simps)
  show ?thesis
  proof (cases "sc_pending c")
    case (Cons raw rest)
    with assms(1) \<open>\<not> sc_disposed c\<close> obtain q where
      "parse_or_drain ops raw nm None s = (q, s')" "c' = c\<lparr>sc_pending := rest\<rparr>"
      by (auto simp: sbi_read_line_def sbi_raise_if_disposed_def split: prod.splits)
    with shrink [OF this(1)] Cons show ?thesis by simp
  next
    case Nil
    obtain q s1 where u: "tp_read_until ops LINE_TERMINATOR s = (q, s1)" by fastforce
    show ?thesis
    proof (cases q)
      case (Inl e)
      with read_until_fail u parse_not_transport have "\<not> exn_is e SartoriusParseError" by blast
      with assms Inl Nil u \<open>\<not> sc_disposed c\<close> show ?thesis
        by (auto simp: sbi_read_line_def sbi_raise_if_disposed_def is_ok_def)
    next
      case (Inr raw)
      with read_until_ok u have l: "find_sub LINE_TERMINATOR raw = Some (length raw - length LINE_TERMINATOR)"
        "pending s = raw @ pending s1" by blast+
      have "length raw \<noteq> 0" using l(1) by (auto simp: LINE_TERMINATOR_def)
      obtain p where p: "parse_or_drain ops raw nm None s1 = (p, s')" "c' = c"
        using assms(1) Inr Nil u \<open>\<not> sc_disposed c\<close>
        by (auto simp: sbi_read_line_def sbi_raise_if_disposed_def split: prod.splits)
      have "length (pending s) = length raw + length (pending s1)" using l(2) by simp
      with shrink [OF p(1)] \<open>length raw \<noteq> 0\<close> p(2) Nil show ?thesis by (cases raw) auto
    qed
  qed
qed

lemma reading_consumed:
  "autoprint_reading_loop ops ticks c s = (Inl e, c', s') \<Longrightarrow> exn_is e SartoriusParseError \<Longrightarrow>
     length (sc_pending c') + length (pending s') < length (sc_pending c) + length (pending s)"
proof (induction ticks arbitrary: c s)
  case 0
  obtain r c1 s1 where l: "sbi_read_line ops ''sbi_autoprint'' c s = (r, c1, s1)" by (metis prod.exhaust)
  with 0 line_consumed [OF l] show ?case
    by (subst (asm) autoprint_reading_loop.simps) (auto simp: is_ok_def split: sum.splits if_splits)
next
  case (Suc ticks)
  obtain r c1 s1 where l: "sbi_read_line ops ''sbi_autoprint'' c s = (r, c1, s1)" by (metis prod.exhaust)
  with Suc.prems line_consumed [OF l] Suc.IH [of c1 s1] show ?case
    by (subst (asm) autoprint_reading_loop.simps)
       (force simp: is_ok_def split: sum.splits if_splits)
qed

lemma attempt_consumed:
  assumes "on_session (read_sbi_autoprint_reading ops ticks) b s = (Inl e, b', s')"
    and "exn_is e SartoriusParseError"
  shows "unread pending b' s' < unread pending b s"
proof -
  have "\<exists>c. require_sbi_client (ba_session b) = Inr c"
    using assms by (auto simp: on_session_def read_sbi_autoprint_reading_def require_sbi_client_def
        raise_ctx_def is_subclass_def ancestors.simps split: if_splits option.splits)
  then obtain c where c: "require_sbi_client (ba_session b) = Inr c" "se_sbi (ba_session b) = Some c"
    by (auto simp: require_sbi_client_def raise_ctx_def split: if_splits option.splits)
  obtain r c' s1 where l: "autoprint_reading_loop ops ticks c s = (r, c', s1)" by (metis prod.exhaust)
  with assms c reading_consumed [of ticks c s e c' s1] show ?thesis
    by (auto simp: on_session_def read_sbi_autoprint_reading_def unread_def)
qed

lemma rounds_return: "\<exists>y. autoprint_rounds ops windows passed k b s = Some y"
proof (induction "unread pending b s" arbitrary: k b s rule: less_induct)
  case less
  obtain r b' s' where a: "on_session (read_sbi_autoprint_reading ops (windows k)) b s = (r, b', s')"
    by (metis prod.exhaust)
  show ?case
  proof (cases "\<exists>e. r = Inl e \<and> exn_is e SartoriusParseError \<and> \<not> passed k")
    case True
    then obtain e where e: "r = Inl e" "exn_is e SartoriusParseError" "\<not> passed k" by blast
    from less [OF attempt_consumed [OF a [unfolded e(1)] e(2)], of "Suc k"] a e show ?thesis
      by (subst autoprint_rounds.simps) simp
  next
    case False
    with a show ?thesis by (subst autoprint_rounds.simps) (cases r; auto)
  qed
qed

lemma rounds_written: "autoprint_rounds ops windows passed k b s = Some (r, b', s') \<Longrightarrow> written s' = written s"
proof (induction "unread pending b s" arbitrary: k b s rule: less_induct)
  case less
  obtain q b1 s1 where a: "on_session (read_sbi_autoprint_reading ops (windows k)) b s = (q, b1, s1)"
    by (metis prod.exhaust)
  then have w: "written s1 = written s"
    by (auto simp: on_session_def read_sbi_autoprint_reading_def dest: autoprint_loop_written
        split: sum.splits prod.splits)
  show ?case
  proof (cases "\<exists>e. q = Inl e \<and> exn_is e SartoriusParseError \<and> \<not> passed k")
    case True
    then obtain e where e: "q = Inl e" "exn_is e SartoriusParseError" "\<not> passed k" by blast
    with less.prems a have "autoprint_rounds ops windows passed (Suc k) b1 s1 = Some (r, b', s')"
      by (subst (asm) autoprint_rounds.simps) simp
    from less.hyps [OF attempt_consumed [OF a [unfolded e(1)] e(2)] this] w show ?thesis by simp
  next
    case False
    with less.prems a w show ?thesis
      by (subst (asm) autoprint_rounds.simps) (cases q; auto)
  qed
qed

text \<open>A round whose checks are used up has consumed one line more than it has checks.\<close>

lemma autoprint_loop_gives_up:
  assumes "lines_ahead ready c s (junk @ ls) rest" and "usable s" and "\<not> sc_disposed c"
    and "list_all without_weight junk" and "ticks < length junk"
  shows "\<exists>e c' s'. autoprint_reading_loop ops ticks c s = (Inl e, c', s') \<and>
     exn_is e SartoriusParseError \<and> lines_ahead ready c' s' (drop (Suc ticks) junk @ ls) rest \<and>
     usable s' \<and> \<not> sc_disposed c'"
  using assms
proof (induction ticks arbitrary: c s junk)
  case (0 c s junk)
  then obtain j js where j: "junk = j # js" by (cases junk) auto
  with 0(4) obtain reply e where r: "reply_outcome j ''sbi_autoprint'' None = Inr reply"
    "require_reading reply = Inl e" by (auto simp: without_weight_def is_ok_def split: sum.splits)
  moreover from parse_error_is_frame_or_parse(2) [OF r(2)] have "exn_is e SartoriusParseError" .
  moreover from read_line_ahead [OF _ 0(2,3) r(1), of "js @ ls" rest] 0(1) j
  obtain c1 s1 where "sbi_read_line ops ''sbi_autoprint'' c s = (Inr reply, c1, s1)"
    "lines_ahead ready c1 s1 (js @ ls) rest" "usable s1" "\<not> sc_disposed c1" by auto
  ultimately show ?case by (subst autoprint_reading_loop.simps) (simp add: j)
next
  case (Suc ticks c s junk)
  then obtain j js where j: "junk = j # js" by (cases junk) auto
  with Suc.prems(4) obtain reply e where r: "reply_outcome j ''sbi_autoprint'' None = Inr reply"
    "require_reading reply = Inl e" by (auto simp: without_weight_def is_ok_def split: sum.splits)
  moreover from parse_error_is_frame_or_parse(2) [OF r(2)] have "exn_is e SartoriusParseError" .
  moreover from read_line_ahead [OF _ Suc.prems(2,3) r(1), of "js @ ls" rest] Suc.prems(1) j
  obtain c1 s1 where "sbi_read_line ops ''sbi_autoprint'' c s = (Inr reply, c1, s1)"
    and n: "lines_ahead ready c1 s1 (js @ ls) rest" "usable s1" "\<not> sc_disposed c1" by auto
  moreover from Suc.prems(4,5) j have "list_all without_weight js" "ticks < length js" by auto
  with Suc.IH [OF n] have "\<exists>e c' s'. autoprint_reading_loop ops ticks c1 s1 = (Inl e, c', s') \<and>
     exn_is e SartoriusParseError \<and> lines_ahead ready c' s' (drop (Suc ticks) js @ ls) rest \<and>
     usable s' \<and> \<not> sc_disposed c'" by blast
  ultimately show ?case by (subst autoprint_reading_loop.simps) (simp add: j)
qed

lemma rounds_find:
  assumes "se_active (ba_session b) = SBI" and "se_sbi (ba_session b) = Some c"
    and "\<not> sc_disposed c" and "usable s" and "lines_ahead ready c s (junk @ w # later) rest"
    and "list_all without_weight junk" and "carries_weight w reading" and "\<forall>k. \<not> passed k"
  shows "\<exists>b' c' s'. autoprint_rounds ops windows passed k b s = Some (Inr reading, b', s') \<and>
     se_active (ba_session b') = SBI \<and> se_sbi (ba_session b') = Some c' \<and> \<not> sc_disposed c' \<and>
     usable s' \<and> lines_ahead ready c' s' later rest"
  using assms
proof (induction "length junk" arbitrary: k b c s junk rule: less_induct)
  case (less junk k b c s)
  show ?case
  proof (cases "length junk \<le> windows k")
    case True
    from autoprint_loop_finds [OF less.prems(5,4,3,6,7) True] obtain c' s' where
      "autoprint_reading_loop ops (windows k) c s = (Inr reading, c', s')"
      "lines_ahead ready c' s' later rest" "usable s'" "\<not> sc_disposed c'" by blast
    with less.prems(1,2) show ?thesis
      by (subst autoprint_rounds.simps)
        (simp add: on_session_def read_sbi_autoprint_reading_def require_sbi_client_def)
  next
    case False
    then have l: "windows k < length junk" by simp
    from autoprint_loop_gives_up [OF less.prems(5,4,3,6) l] obtain e c1 s1 where
      a: "autoprint_reading_loop ops (windows k) c s = (Inl e, c1, s1)" "exn_is e SartoriusParseError"
      and n: "\<not> sc_disposed c1" "usable s1"
        "lines_ahead ready c1 s1 (drop (Suc (windows k)) junk @ w # later) rest" by blast
    let ?b1 = "b\<lparr>ba_session := (ba_session b)\<lparr>se_sbi := Some c1\<rparr>\<rparr>"
    have "length (drop (Suc (windows k)) junk) < length junk"
      "list_all without_weight (drop (Suc (windows k)) junk)"
      using l less.prems(6) by (auto simp: list_all_iff dest: in_set_dropD)
    from less.hyps [OF this(1), of ?b1 c1 s1 "Suc k"] n this(2) less.prems(1,2,7,8) a show ?thesis
      by (subst autoprint_rounds.simps)
        (simp add: on_session_def read_sbi_autoprint_reading_def require_sbi_client_def)
  qed
qed

lemma sample_read:
  assumes "se_active (ba_session b) = SBI" and "se_sbi (ba_session b) = Some c"
    and "\<not> sc_disposed c" and "usable s" and "lines_ahead ready c s (junk @ w # later) rest"
    and "list_all without_weight junk" and "carries_weight w reading" and "\<forall>k. \<not> passed k"
  shows "\<exists>sample b' c' s'. read_autoprint_sample ops windows passed env b s = Some (Inr sample, b', s') \<and>
     sa_reading sample = Some reading \<and> sa_t_mono_ns sample = (sv_start_ns env + sv_end_ns env) div 2 \<and>
     se_active (ba_session b') = SBI \<and> se_sbi (ba_session b') = Some c' \<and> \<not> sc_disposed c' \<and>
     usable s' \<and> lines_ahead ready c' s' later rest \<and> written s' = written s"
proof -
  from rounds_find [OF assms, of windows 0] obtain b' c' s' where
    r: "autoprint_rounds ops windows passed 0 b s = Some (Inr reading, b', s')"
    and n: "se_active (ba_session b') = SBI" "se_sbi (ba_session b') = Some c'" "\<not> sc_disposed c'"
      "usable s'" "lines_ahead ready c' s' later rest" by blast
  from rounds_written [OF r] r n show ?thesis
    by (simp add: read_autoprint_sample_def sample_from_reading_def)
qed

lemma taken_in_order:
  assumes "sg_entered sg" and "sg_mode sg = ''autoprint''" and "sg_pending sg = None"
    and "se_active (ba_session b) = SBI" and "se_sbi (ba_session b) = Some c"
    and "\<not> sc_disposed c" and "usable s"
    and "lines_ahead ready c s (concat (map stretch_lines ps) @ later) rest"
    and "list_all stretch_ok ps" and "\<forall>k. \<not> passed k" and "length envs = length ps"
  shows "\<exists>samples b' c' s'. stream_take ops ticks windows passed envs sg b s
       = Some (samples, None, sg, b', s') \<and>
     map sa_reading samples = map (\<lambda>p. Some (snd (snd p))) ps \<and>
     se_sbi (ba_session b') = Some c' \<and> lines_ahead ready c' s' later rest \<and> written s' = written s"
  using assms
proof (induction ps arbitrary: b c s envs)
  case Nil
  then show ?case by simp
next
  case (Cons p ps)
  from Cons.prems(11) obtain env es where e: "envs = env # es" "length es = length ps"
    by (cases envs) auto
  have "lines_ahead ready c s (fst p @ fst (snd p) # (concat (map stretch_lines ps) @ later)) rest"
    using Cons.prems(8) by simp
  from sample_read [OF Cons.prems(4-7) this, of "snd (snd p)" passed windows env] Cons.prems(9,10)
  obtain sample b1 c1 s1 where
    r: "read_autoprint_sample ops windows passed env b s = Some (Inr sample, b1, s1)"
      "sa_reading sample = Some (snd (snd p))" "written s1 = written s"
    and n: "se_active (ba_session b1) = SBI" "se_sbi (ba_session b1) = Some c1" "\<not> sc_disposed c1"
      "usable s1" "lines_ahead ready c1 s1 (concat (map stretch_lines ps) @ later) rest" by auto
  from Cons.IH [OF Cons.prems(1-3) n _ Cons.prems(10) e(2)] Cons.prems(9) obtain samples b' c' s' where
    "stream_take ops ticks windows passed es sg b1 s1 = Some (samples, None, sg, b', s')"
    "map sa_reading samples = map (\<lambda>p. Some (snd (snd p))) ps"
    "se_sbi (ba_session b') = Some c'" "lines_ahead ready c' s' later rest" "written s' = written s1"
    by auto
  with r e(1) Cons.prems(1-3) show ?case by (simp add: stream_next_def)
qed

lemma stream_in_order:
  assumes "StreamingSession_init rate ''autoprint'' False confirm = Inr sg"
    and "se_active (ba_session b) = SBI" and "se_sbi (ba_session b) = Some c"
    and "\<not> sc_disposed c" and "usable s"
    and "lines_ahead ready c s (concat (map stretch_lines (p # ps)) @ later) rest"
    and "list_all stretch_ok (p # ps)" and "\<forall>k. \<not> passed k" and "length envs = length ps"
  shows "\<exists>sg1 b1 s1 samples sg2 b2 c2 s2.
     stream_enter ops windows passed env sg b s = Some (Inr (), sg1, b1, s1) \<and>
     stream_take ops ticks windows passed (env # envs) sg1 b1 s1 = Some (samples, None, sg2, b2, s2) \<and>
     map sa_reading samples = map (\<lambda>p. Some (snd (snd p))) (p # ps) \<and>
     se_sbi (ba_session b2) = Some c2 \<and> lines_ahead ready c2 s2 later rest \<and> written s2 = written s"
proof -
  have sg: "\<not> sg_entered sg" "sg_mode sg = ''autoprint''" "\<not> sg_temporary_autoprint sg"
    using assms(1) by (auto simp: StreamingSession_init_def split: if_splits)
  have "lines_ahead ready c s (fst p @ fst (snd p) # (concat (map stretch_lines ps) @ later)) rest"
    using assms(6) by simp
  from sample_read [OF assms(2-5) this, of "snd (snd p)" passed windows env] assms(7,8)
  obtain sample b1 c1 s1 where
    r: "read_autoprint_sample ops windows passed env b s = Some (Inr sample, b1, s1)"
      "sa_reading sample = Some (snd (snd p))" "written s1 = written s"
    and n: "se_active (ba_session b1) = SBI" "se_sbi (ba_session b1) = Some c1" "\<not> sc_disposed c1"
      "usable s1" "lines_ahead ready c1 s1 (concat (map stretch_lines ps) @ later) rest" by auto
  let ?sg = "sg\<lparr>sg_entered := True, sg_start := sv_now env\<rparr>"
  have e: "stream_enter ops windows passed env sg b s
      = Some (Inr (), ?sg\<lparr>sg_pending := Some sample\<rparr>, b1, s1)"
    using r(1) sg assms(2) by (simp add: stream_enter_def Let_def)
  have "\<exists>samples b' c' s'. stream_take ops ticks windows passed envs (?sg\<lparr>sg_pending := None\<rparr>) b1 s1
       = Some (samples, None, ?sg\<lparr>sg_pending := None\<rparr>, b', s') \<and>
     map sa_reading samples = map (\<lambda>p. Some (snd (snd p))) ps \<and>
     se_sbi (ba_session b') = Some c' \<and> lines_ahead ready c' s' later rest \<and> written s' = written s1"
    by (rule taken_in_order [OF _ _ _ n _ assms(8,9)]) (use sg(2) assms(7) in simp_all)
  then obtain samples b' c' s' where
    "stream_take ops ticks windows passed envs (?sg\<lparr>sg_pending := None\<rparr>) b1 s1
       = Some (samples, None, ?sg\<lparr>sg_pending := None\<rparr>, b', s')"
    "map sa_reading samples = map (\<lambda>p. Some (snd (snd p))) ps"
    "se_sbi (ba_session b') = Some c'" "lines_ahead ready c' s' later rest" "written s' = written s1"
    by blast
  with e r(2,3) show ?thesis by (simp add: stream_next_def)
qed

end

text \<open>In the poll mode every iteration counts a tick, and only the start is set on entry.\<close>

lemma polled_ticks:
  "stream_take ops ticks windows passed envs sg b s = Some (samples, err, sg', b', s') \<Longrightarrow>
   sg_entered sg \<Longrightarrow> sg_mode sg = ''poll'' \<Longrightarrow> sg_pending sg = None \<Longrightarrow>
   sg' = sg\<lparr>sg_tick := sg_tick sg + length samples + of_bool (err \<noteq> None)\<rparr>"
proof (induction envs arbitrary: sg b s samples)
  case (Cons env envs)
  obtain r sg1 b1 s1 where n: "stream_next ops ticks windows passed env sg b s = Some (r, sg1, b1, s1)"
    and t: "sg1 = sg\<lparr>sg_tick := sg_tick sg + 1\<rparr>"
    using Cons.prems(2-4) by (fastforce simp: stream_next_def poll_sample_def Let_def
        split: sum.splits prod.splits)
  show ?case
  proof (cases r)
    case (Inl e)
    with Cons.prems(1) n t show ?thesis by auto
  next
    case (Inr sample)
    with Cons.prems(1) n obtain rest where
      "stream_take ops ticks windows passed envs sg1 b1 s1 = Some (rest, err, sg', b', s')"
      "samples = sample # rest" by (auto split: option.splits)
    with Cons.IH [of sg1 b1 s1 rest] Cons.prems(2-4) t show ?thesis by simp
  qed
qed simp

lemma poll_entered:
  assumes "stream_enter ops windows passed env sg b s = Some (Inr (), sg', b', s')"
    and "sg_mode sg = ''poll''"
  shows "sg' = sg\<lparr>sg_entered := True, sg_start := sv_now env\<rparr>"
  using assms by (auto simp: stream_enter_def Let_def raise_ctx_def split: if_splits)

section \<open>Properties\<close>


text \<open>
  C22. An autoprint stream without a timeout hands out the printed weights: entering it and
  iterating as many times as weight lines are waiting, with any lines without a weight between
  them, yields exactly the readings of the weight lines, each once and in order, however short the
  session's own deadline is; the lines after them are left for the next iteration, and nothing is
  sent.
\<close>

theorem autoprint_stream_in_order:
  assumes "StreamingSession_init rate ''autoprint'' False confirm = Inr sg"
    and "se_active (ba_session b) = SBI" and "se_sbi (ba_session b) = Some c"
    and "\<not> sc_disposed c" and "st_port s"
    and "lines_ahead serial_ready c s (concat (map stretch_lines (p # ps)) @ later) rest"
    and "list_all stretch_ok (p # ps)" and "\<forall>k. \<not> passed k" and "length envs = length ps"
  shows "\<exists>sg1 b1 s1 samples sg2 b2 c2 s2.
     stream_enter serial_ops windows passed env sg b s = Some (Inr (), sg1, b1, s1) \<and>
     stream_take serial_ops ticks windows passed (env # envs) sg1 b1 s1
       = Some (samples, None, sg2, b2, s2) \<and>
     map sa_reading samples = map (\<lambda>p. Some (snd (snd p))) (p # ps) \<and>
     se_sbi (ba_session b2) = Some c2 \<and> lines_ahead serial_ready c2 s2 later rest \<and>
     st_sent s2 = st_sent s"
  using assms by (rule serial.stream_in_order)

definition demo_sample_env :: "rat \<Rightarrow> sample_env" where
  "demo_sample_env t = \<lparr>sv_now = t, sv_requested_at = 0, sv_start_ns = 0, sv_received_at = 1,
     sv_end_ns = 1\<rparr>"

text \<open>Two weight lines with a header before each, and a deadline of a single check.\<close>

theorem autoprint_stream_in_order_witness:
  "\<exists>r1 r2 sg1 b1 s1 samples sg2 b2 s2. rd_unit r1 = U_G \<and> rd_unit r2 = U_KG \<and>
     stream_enter serial_ops (\<lambda>_. 0) (\<lambda>_. False) (demo_sample_env 0)
       \<lparr>sg_rate_hz = None, sg_mode = ''autoprint'', sg_temporary_autoprint = False,
        sg_confirm = False, sg_entered = False, sg_tick = 0, sg_start = 0, sg_pending = None\<rparr>
       printing_balance
       (demo_serial [RxChunk (concat
          [ascii_lit ''MSE1203S'' @ [13, 10], ascii_lit ''N     +   12.345 g  '' @ [13, 10],
           ascii_lit ''MSE1203S'' @ [13, 10], ascii_lit ''N     +    2.345 kg '' @ [13, 10]])]
          (\<lambda>_. [])) = Some (Inr (), sg1, b1, s1) \<and>
     stream_take serial_ops 0 (\<lambda>_. 0) (\<lambda>_. False) [demo_sample_env 0, demo_sample_env 1] sg1 b1 s1
       = Some (samples, None, sg2, b2, s2) \<and>
     map sa_reading samples = [Some r1, Some r2]"
proof -
  let ?j = "ascii_lit ''MSE1203S'' @ [13, 10]"
  let ?w = "ascii_lit ''N     +   12.345 g  '' @ [13, 10]"
  let ?v = "ascii_lit ''N     +    2.345 kg '' @ [13, 10]"
  let ?s = "demo_serial [RxChunk (concat [?j, ?w, ?j, ?v])] (\<lambda>_. [])"
  let ?c = "SbiProtocolClient\<lparr>sc_autoprint_active := True\<rparr>"
  have "case reply_outcome ?w ''sbi_autoprint'' None of Inl e \<Rightarrow> False
      | Inr reply \<Rightarrow> (case require_reading reply of Inl e \<Rightarrow> False | Inr rd \<Rightarrow> rd_unit rd = U_G)"
    by code_simp
  then obtain r1 where r1: "carries_weight ?w r1" "rd_unit r1 = U_G"
    by (auto simp: carries_weight_def split: sum.splits)
  have "case reply_outcome ?v ''sbi_autoprint'' None of Inl e \<Rightarrow> False
      | Inr reply \<Rightarrow> (case require_reading reply of Inl e \<Rightarrow> False | Inr rd \<Rightarrow> rd_unit rd = U_KG)"
    by code_simp
  then obtain r2 where r2: "carries_weight ?v r2" "rd_unit r2 = U_KG"
    by (auto simp: carries_weight_def split: sum.splits)
  have j: "without_weight ?j" by code_simp
  have "crlf_line ?j" "crlf_line ?w" "crlf_line ?v" by code_simp+
  then have l: "lines_ahead serial_ready ?c ?s
      (concat (map stretch_lines (([?j], ?w, r1) # [([?j], ?v, r2)])) @ []) []"
    unfolding lines_ahead_def
    by (intro exI [where x = "[?j, ?w, ?j, ?v]"])
      (simp add: SbiProtocolClient_def serial_ready_def demo_serial_def)
  have ok: "list_all stretch_ok (([?j], ?w, r1) # [([?j], ?v, r2)])" using r1(1) r2(1) j by simp
  have i: "StreamingSession_init None ''autoprint'' False False
      = Inr \<lparr>sg_rate_hz = None, sg_mode = ''autoprint'', sg_temporary_autoprint = False,
        sg_confirm = False, sg_entered = False, sg_tick = 0, sg_start = 0, sg_pending = None\<rparr>"
    by (simp add: StreamingSession_init_def)
  have b: "se_active (ba_session printing_balance) = SBI"
    "se_sbi (ba_session printing_balance) = Some ?c" "\<not> sc_disposed ?c" "st_port ?s"
    by (auto simp: printing_balance_def Balance_def demo_sbi_session_def demo_serial_def
        SbiProtocolClient_def)
  from autoprint_stream_in_order [OF i b l ok, of "\<lambda>_. False" "[demo_sample_env 1]" "\<lambda>_. 0"
      "demo_sample_env 0" 0] r1(2) r2(2)
  show ?thesis by auto
qed

text \<open>
  C23. A poll stream that is entered a second time does not start at once: entering sets the start
  of the schedule but not the count of ticks, so after a first use that polled \<open>n\<close> times the next
  sample of the second use is due only \<open>n\<close> periods after entering, while that of the first is due
  immediately.
\<close>

theorem reentered_stream_waits:
  assumes "StreamingSession_init (Some rate) ''poll'' temporary confirm = Inr sg"
    and "stream_enter ops windows passed env0 sg b s = Some (Inr (), sg1, b1, s1)"
    and "stream_take ops ticks windows passed envs sg1 b1 s1 = Some (samples, err, sg2, b2, s2)"
    and "stream_enter ops windows passed env1 (stream_exit sg2) b2 s2 = Some (Inr (), sg3, b3, s3)"
  shows "poll_wait sg1 (sv_now env0) = 0 \<and>
     poll_wait sg3 (sv_now env1) = of_nat (length samples + of_bool (err \<noteq> None)) / rate"
proof -
  have sg: "sg = \<lparr>sg_rate_hz = Some rate, sg_mode = ''poll'', sg_temporary_autoprint = temporary,
      sg_confirm = confirm, sg_entered = False, sg_tick = 0, sg_start = 0, sg_pending = None\<rparr>"
    and r: "0 < rate"
    using assms(1) by (auto simp: StreamingSession_init_def split: if_splits)
  from poll_entered [OF assms(2)] sg
  have 1: "sg1 = sg\<lparr>sg_entered := True, sg_start := sv_now env0\<rparr>" by simp
  from polled_ticks [OF assms(3)] 1 sg
  have 2: "sg2 = sg1\<lparr>sg_tick := length samples + of_bool (err \<noteq> None)\<rparr>" by simp
  from poll_entered [OF assms(4)] 2 1 sg
  have 3: "sg3 = (stream_exit sg2)\<lparr>sg_entered := True, sg_start := sv_now env1\<rparr>"
    by (simp add: stream_exit_def)
  have "0 \<le> of_nat (length samples + of_bool (err \<noteq> None)) / rate" using r by simp
  then show ?thesis unfolding 3 2 1 sg by (auto simp: poll_wait_def poll_target_def stream_exit_def)
qed

definition demo_poll_stream :: StreamingSession where
  "demo_poll_stream = \<lparr>sg_rate_hz = Some 2, sg_mode = ''poll'', sg_temporary_autoprint = False,
     sg_confirm = False, sg_entered = False, sg_tick = 0, sg_start = 0, sg_pending = None\<rparr>"

lemma stream_entered:
  "(case x of Some (Inr u, sg, b, s) \<Rightarrow> P sg b s | _ \<Rightarrow> False) \<Longrightarrow>
     \<exists>sg b s. x = Some (Inr (), sg, b, s) \<and> P sg b s"
  by (cases x; cases "fst (the x)") auto

lemma stream_failed:
  "(case x of Some ([], Some e, sg, b, s) \<Rightarrow> P sg b s | _ \<Rightarrow> False) \<Longrightarrow>
     \<exists>e sg b s. x = Some ([], Some e, sg, b, s) \<and> P sg b s"
  by (cases x; cases "fst (the x)"; cases "fst (snd (the x))") auto

text \<open>Two samples a second: after a single poll, which fails, the second use waits half a second.\<close>

theorem reentered_stream_waits_witness:
  "\<exists>e sg1 b1 s1 sg2 b2 s2 sg3 b3 s3.
     stream_enter serial_ops (\<lambda>_. 0) (\<lambda>_. False) (demo_sample_env 0) demo_poll_stream
       (Balance (mark_broken demo_sbi_session) None) (demo_serial [] (\<lambda>_. []))
       = Some (Inr (), sg1, b1, s1) \<and>
     stream_take serial_ops 0 (\<lambda>_. 0) (\<lambda>_. False) [demo_sample_env 0] sg1 b1 s1
       = Some ([], Some e, sg2, b2, s2) \<and>
     stream_enter serial_ops (\<lambda>_. 0) (\<lambda>_. False) (demo_sample_env 7) (stream_exit sg2) b2 s2
       = Some (Inr (), sg3, b3, s3) \<and>
     poll_wait sg3 7 = 1 / 2"
proof -
  let ?b = "Balance (mark_broken demo_sbi_session) None" and ?s = "demo_serial [] (\<lambda>_. [])"
  have i: "StreamingSession_init (Some 2) ''poll'' False False = Inr demo_poll_stream"
    by (simp add: StreamingSession_init_def demo_poll_stream_def)
  let ?again = "\<lambda>sg2. stream_enter serial_ops (\<lambda>_. 0) (\<lambda>_. False) (demo_sample_env 7) (stream_exit sg2)"
  let ?take = "stream_take serial_ops 0 (\<lambda>_. 0) (\<lambda>_. False) [demo_sample_env 0]"
  let ?third = "\<lambda>sg2 b2 s2. case ?again sg2 b2 s2 of Some (Inr _, sg3, b3, s3) \<Rightarrow> True | _ \<Rightarrow> False"
  let ?second = "\<lambda>sg1 b1 s1. case ?take sg1 b1 s1 of
      Some ([], Some e, sg2, b2, s2) \<Rightarrow> ?third sg2 b2 s2 | _ \<Rightarrow> False"
  have "case stream_enter serial_ops (\<lambda>_. 0) (\<lambda>_. False) (demo_sample_env 0) demo_poll_stream ?b ?s of
      Some (Inr _, sg1, b1, s1) \<Rightarrow> ?second sg1 b1 s1 | _ \<Rightarrow> False"
    by code_simp
  from stream_entered [OF this] obtain sg1 b1 s1 where r1:
    "stream_enter serial_ops (\<lambda>_. 0) (\<lambda>_. False) (demo_sample_env 0) demo_poll_stream ?b ?s
       = Some (Inr (), sg1, b1, s1)" and n1: "?second sg1 b1 s1" by blast
  from stream_failed [OF n1] obtain e sg2 b2 s2 where
    r2: "?take sg1 b1 s1 = Some ([], Some e, sg2, b2, s2)" and n2: "?third sg2 b2 s2" by blast
  from stream_entered [OF n2] obtain sg3 b3 s3 where
    r3: "?again sg2 b2 s2 = Some (Inr (), sg3, b3, s3)" by blast
  from reentered_stream_waits [OF i r1 r2 r3] have "poll_wait sg3 7 = 1 / 2"
    by (simp add: demo_sample_env_def)
  with r1 r2 r3 show ?thesis by blast
qed

end
