(* ===== verification/Rows.thy ===== *)
theory Rows
  imports Recorder
begin

text \<open>
  \<open>sinks/base.py\<close> and \<open>sinks/_schema.py\<close>: the flat row of a sample, which has the same columns for
  every sample, and the column schema that the tabular sinks lock on their first batch.
\<close>

section \<open>Timestamps\<close>

text \<open>
  \<open>datetime.isoformat()\<close> of a time in UTC, which is a number of microseconds since 1970. The
  calendar counts days from the first of March of the year 0, in eras of 400 years.
\<close>

definition civil_date :: "int \<Rightarrow> int \<times> int \<times> int" where
  "civil_date days =
     (let z = days + 719468;
          era = z div 146097;
          doe = z mod 146097;
          yoe = (doe - doe div 1460 + doe div 36524 - doe div 146096) div 365;
          doy = doe - (365 * yoe + yoe div 4 - yoe div 100);
          mp = (5 * doy + 2) div 153;
          d = doy - (153 * mp + 2) div 5 + 1;
          m = (if mp < 10 then mp + 3 else mp - 9);
          y = yoe + era * 400
      in (if m \<le> 2 then y + 1 else y, m, d))"

text \<open>The last decimal digits of a number, with leading zeros.\<close>

fun zero_padded :: "nat \<Rightarrow> int \<Rightarrow> string" where
  "zero_padded 0 v = []"
| "zero_padded (Suc n) v = zero_padded n (v div 10) @ [char_of (48 + nat (v mod 10))]"

definition isoformat :: "int \<Rightarrow> string" where
  "isoformat us =
     (case civil_date (us div 86400000000) of
        (y, m, d) \<Rightarrow>
          let t = us mod 86400000000; sec = t div 1000000; frac = t mod 1000000
          in zero_padded 4 y @ ''-'' @ zero_padded 2 m @ ''-'' @ zero_padded 2 d @ ''T'' @
             zero_padded 2 (sec div 3600) @ '':'' @ zero_padded 2 (sec div 60 mod 60) @ '':'' @
             zero_padded 2 (sec mod 60) @
             (if frac = 0 then [] else CHR ''.'' # zero_padded 6 frac) @ ''+00:00'')"

lemma isoformat_sanity:
  "isoformat 0 = ''1970-01-01T00:00:00+00:00''"
  "isoformat 951782400000001 = ''2000-02-29T00:00:00.000001+00:00''"
  "isoformat 1735689599999999 = ''2024-12-31T23:59:59.999999+00:00''"
  by code_simp+

text \<open>\<open>timedelta.total_seconds()\<close> of a number of microseconds.\<close>

definition total_seconds :: "int \<Rightarrow> pyfloat" where
  "total_seconds us = f64_of_ratio (us < 0) \<bar>us\<bar> 1000000"

section \<open>The row of a sample\<close>

text \<open>\<open>dict.update\<close>.\<close>

definition dict_update :: "('k \<times> 'v) list \<Rightarrow> ('k \<times> 'v) list \<Rightarrow> ('k \<times> 'v) list" where
  "dict_update kvs d = fold (\<lambda>(k, v). dict_set k v) kvs d"

primrec class_name :: "err_class \<Rightarrow> string" where
  "class_name SartoriusError = ''SartoriusError''"
| "class_name SartoriusConfigurationError = ''SartoriusConfigurationError''"
| "class_name UnknownUnitError = ''UnknownUnitError''"
| "class_name InvalidParameterIndexError = ''InvalidParameterIndexError''"
| "class_name InvalidSbnError = ''InvalidSbnError''"
| "class_name SartoriusConfirmationRequiredError = ''SartoriusConfirmationRequiredError''"
| "class_name SartoriusValidationError = ''SartoriusValidationError''"
| "class_name SartoriusTransportError = ''SartoriusTransportError''"
| "class_name SartoriusTimeoutError = ''SartoriusTimeoutError''"
| "class_name SartoriusConnectionError = ''SartoriusConnectionError''"
| "class_name SartoriusTransientTransportError = ''SartoriusTransientTransportError''"
| "class_name SartoriusProtocolError = ''SartoriusProtocolError''"
| "class_name SartoriusFrameError = ''SartoriusFrameError''"
| "class_name SartoriusParseError = ''SartoriusParseError''"
| "class_name SartoriusCommandRejectedError = ''SartoriusCommandRejectedError''"
| "class_name SartoriusProtocolUnsupportedError = ''SartoriusProtocolUnsupportedError''"
| "class_name SartoriusAutoprintActiveError = ''SartoriusAutoprintActiveError''"
| "class_name SartoriusCapabilityError = ''SartoriusCapabilityError''"
| "class_name SartoriusUnsupportedCommandError = ''SartoriusUnsupportedCommandError''"
| "class_name SartoriusValueOutOfRangeError = ''SartoriusValueOutOfRangeError''"
| "class_name SartoriusOperationNotApplicableError = ''SartoriusOperationNotApplicableError''"
| "class_name SartoriusMissingArgsError = ''SartoriusMissingArgsError''"
| "class_name SartoriusIndexOutOfRangeError = ''SartoriusIndexOutOfRangeError''"
| "class_name SartoriusFirmwareError = ''SartoriusFirmwareError''"
| "class_name SartoriusSinkError = ''SartoriusSinkError''"
| "class_name SartoriusSinkDependencyError = ''SartoriusSinkDependencyError''"
| "class_name SartoriusSinkSchemaError = ''SartoriusSinkSchemaError''"
| "class_name SartoriusSinkWriteError = ''SartoriusSinkWriteError''"

text \<open>Module and name of the class of an exception; a sample holds only errors of the package.\<close>

definition qualified_name :: "exn \<Rightarrow> string" where
  "qualified_name e =
     (case e of Sart c ctx \<Rightarrow> ''sartoriuslib.errors.'' @ class_name c | Py p \<Rightarrow> ''builtins'')"

text \<open>The texts of exceptions are not modelled: \<open>message\<close> is \<open>str\<close> of an exception.\<close>

definition sample_to_row :: "(exn \<Rightarrow> string) \<Rightarrow> Sample \<Rightarrow> (string \<times> cell) list" where
  "sample_to_row message sample =
     (let row =
        [(''device'', CStr (sa_device sample)),
         (''t_mono_ns'', CInt (sa_t_mono_ns sample)),
         (''t_utc'', CStr (isoformat (sa_t_utc sample))),
         (''t_midpoint_mono_ns'', cell_opt CInt (sa_t_midpoint_mono_ns sample)),
         (''requested_at'', CStr (isoformat (sa_requested_at sample))),
         (''received_at'', CStr (isoformat (sa_received_at sample))),
         (''latency_s'', CFloat (total_seconds (sa_latency_us sample)))];
        row = dict_update
          (case sa_reading sample of
             Some reading \<Rightarrow> Reading_as_dict reading
           | None \<Rightarrow>
               [(''value'', CNone), (''unit'', CNone), (''sign'', CNone), (''stable'', CNone),
                (''overload'', CNone), (''underload'', CNone), (''decimals'', CNone),
                (''sequence'', CNone),
                (''protocol'', cell_opt (\<lambda>p. CStr (protocol_value p)) (sa_protocol sample)),
                (''raw'', CNone)]) row
      in case sa_error sample of
           Some err \<Rightarrow>
             dict_set ''error_message'' (CStr (message err))
               (dict_set ''error_type'' (CStr (qualified_name err)) row)
         | None \<Rightarrow> dict_set ''error_message'' CNone (dict_set ''error_type'' CNone row))"

definition sample_columns :: "string list" where
  "sample_columns =
     [''device'', ''t_mono_ns'', ''t_utc'', ''t_midpoint_mono_ns'', ''requested_at'',
      ''received_at'', ''latency_s'', ''value'', ''unit'', ''sign'', ''stable'', ''overload'',
      ''underload'', ''decimals'', ''sequence'', ''protocol'', ''raw'', ''error_type'',
      ''error_message'']"

lemma keys_sample_to_row [simp]: "keys (sample_to_row message sample) = sample_columns"
  by (simp add: sample_to_row_def Let_def dict_update_def Reading_as_dict_def sample_columns_def
      split: option.split)

lemma distinct_sample_columns [simp]: "distinct sample_columns"
  by (simp add: sample_columns_def)

section \<open>Column types\<close>

text \<open>The class of a value that is not \<open>None\<close>; the scalar types are the first four.\<close>

datatype py_type = TFloat | TInt | TStr | TBool | TOther string

definition scalar_types :: "py_type set" where
  "scalar_types = {TFloat, TInt, TStr, TBool}"

fun type_of_cell :: "cell \<Rightarrow> py_type option" where
  "type_of_cell (CFloat x) = Some TFloat"
| "type_of_cell (CInt n) = Some TInt"
| "type_of_cell (CStr t) = Some TStr"
| "type_of_cell (CBool b) = Some TBool"
| "type_of_cell (COther c) = Some (TOther c)"
| "type_of_cell CNone = None"

record ColumnSpec =
  cs_name :: string
  cs_python_type :: py_type
  cs_nullable :: bool

text \<open>The loop of \<open>_infer_column\<close>: the type seen so far, and whether a value was missing.\<close>

definition infer_step :: "string \<Rightarrow> (string \<times> cell) list \<Rightarrow> py_type option \<times> bool \<Rightarrow> py_type option \<times> bool" where
  "infer_step key row = (\<lambda>(inferred, nullable).
     (case map_of row key of
        None \<Rightarrow> (inferred, True)
      | Some value \<Rightarrow>
          (case type_of_cell value of
             None \<Rightarrow> (inferred, True)
           | Some t \<Rightarrow>
               (case inferred of
                  None \<Rightarrow> (Some t, nullable)
                | Some i \<Rightarrow>
                    if i \<noteq> t then (Some (if {i, t} \<subseteq> {TInt, TFloat} then TFloat else TStr), nullable)
                    else (Some i, nullable)))))"

definition infer_column :: "string \<Rightarrow> (string \<times> cell) list list \<Rightarrow> ColumnSpec" where
  "infer_column key rows =
     (case fold (infer_step key) rows (None, False) of
        (None, nullable) \<Rightarrow> \<lparr>cs_name = key, cs_python_type = TStr, cs_nullable = True\<rparr>
      | (Some t, nullable) \<Rightarrow>
          \<lparr>cs_name = key, cs_python_type = (if t \<notin> scalar_types then TStr else t),
           cs_nullable = nullable\<rparr>)"

section \<open>The schema lock\<close>

record SchemaLock =
  sl_columns :: "ColumnSpec list option"
  sl_names :: "string list"
  sl_unknown_warned :: "string list"

definition SchemaLock_init :: SchemaLock where
  "SchemaLock_init = \<lparr>sl_columns = None, sl_names = [], sl_unknown_warned = []\<rparr>"

definition is_locked :: "SchemaLock \<Rightarrow> bool" where
  "is_locked sl \<longleftrightarrow> sl_columns sl \<noteq> None"

text \<open>The keys of a batch in the order in which they are first met.\<close>

definition ordered_keys :: "(string \<times> cell) list list \<Rightarrow> string list" where
  "ordered_keys rows =
     fold (\<lambda>row seen. fold (\<lambda>key seen. if key \<in> set seen then seen else seen @ [key]) (keys row) seen)
       rows []"

definition schema_lock ::
  "(string \<times> cell) list list \<Rightarrow> SchemaLock \<Rightarrow> ColumnSpec list res \<times> SchemaLock" where
  "schema_lock rows sl =
     (if sl_columns sl \<noteq> None then (Inl (Py RuntimeError), sl)
      else if rows = [] then (Inl (Py ValueError), sl)
      else
        let ks = ordered_keys rows; specs = map (\<lambda>key. infer_column key rows) ks
        in (Inr specs, sl\<lparr>sl_columns := Some specs, sl_names := ks\<rparr>))"

definition schema_lock_to :: "ColumnSpec list \<Rightarrow> SchemaLock \<Rightarrow> ColumnSpec list res \<times> SchemaLock" where
  "schema_lock_to specs sl =
     (if sl_columns sl \<noteq> None then (Inl (Py RuntimeError), sl)
      else if specs = [] then (Inl (Py ValueError), sl)
      else (Inr specs, sl\<lparr>sl_columns := Some specs, sl_names := map cs_name specs\<rparr>))"

definition project_step ::
  "string list \<Rightarrow> string \<times> cell \<Rightarrow> (string \<times> cell) list \<times> string list \<Rightarrow>
   (string \<times> cell) list \<times> string list" where
  "project_step names = (\<lambda>(key, value) (result, warned).
     if key \<in> set names then (dict_set key value result, warned)
     else (result, if key \<in> set warned then warned else warned @ [key]))"

text \<open>\<open>project\<close>; the names warned about are in the order of their warnings.\<close>

definition project ::
  "(string \<times> cell) list \<Rightarrow> SchemaLock \<Rightarrow> (string \<times> cell) list res \<times> SchemaLock" where
  "project row sl =
     (case sl_columns sl of
        None \<Rightarrow> (Inl (Py RuntimeError), sl)
      | Some specs \<Rightarrow>
          let result = dict_update (map (\<lambda>spec. (cs_name spec, CNone)) specs) []
          in case fold (project_step (sl_names sl)) row (result, sl_unknown_warned sl) of
               (result, warned) \<Rightarrow> (Inr result, sl\<lparr>sl_unknown_warned := warned\<rparr>))"

text \<open>The rows of a batch as tuples in the order of the columns, as the sinks build them.\<close>

fun project_rows ::
  "(string \<times> cell) list list \<Rightarrow> SchemaLock \<Rightarrow> cell list list res \<times> SchemaLock" where
  "project_rows [] sl = (Inr [], sl)"
| "project_rows (row # rows) sl =
     (case project row sl of
        (Inl e, sl) \<Rightarrow> (Inl e, sl)
      | (Inr rec, sl) \<Rightarrow>
          let tuple = map (\<lambda>spec. the (map_of rec (cs_name spec))) (the (sl_columns sl))
          in case project_rows rows sl of
               (Inl e, sl) \<Rightarrow> (Inl e, sl)
             | (Inr tuples, sl) \<Rightarrow> (Inr (tuple # tuples), sl))"

section \<open>What inference computes\<close>

text \<open>The type of a column from the set of classes that occur in it.\<close>

definition joined_type :: "py_type set \<Rightarrow> py_type" where
  "joined_type S =
     (if S = {TInt} then TInt
      else if S \<noteq> {} \<and> S \<subseteq> {TInt, TFloat} then TFloat
      else if S = {TBool} then TBool
      else TStr)"

definition column_types :: "string \<Rightarrow> (string \<times> cell) list list \<Rightarrow> py_type set" where
  "column_types key rows = {t. \<exists>row \<in> set rows. \<exists>v. map_of row key = Some v \<and> type_of_cell v = Some t}"

definition value_missing :: "string \<Rightarrow> (string \<times> cell) list list \<Rightarrow> bool" where
  "value_missing key rows \<longleftrightarrow> (\<exists>row \<in> set rows. map_of row key \<in> {None, Some CNone})"

lemma type_of_cell_None [simp]: "type_of_cell v = None \<longleftrightarrow> v = CNone"
  by (cases v) simp_all

lemma column_types_snoc:
  "column_types key (rows @ [row]) = column_types key rows \<union>
     (case map_of row key of None \<Rightarrow> {} | Some v \<Rightarrow> set_option (type_of_cell v))"
  by (auto simp: column_types_def split: option.splits)

lemma value_missing_snoc:
  "value_missing key (rows @ [row]) \<longleftrightarrow> value_missing key rows \<or>
     (case map_of row key of None \<Rightarrow> True | Some v \<Rightarrow> v = CNone)"
  by (auto simp: value_missing_def split: option.splits)

text \<open>What the loop remembers of the classes it has met.\<close>

definition remembers :: "py_type option \<Rightarrow> py_type set \<Rightarrow> bool" where
  "remembers i S \<longleftrightarrow>
     (case i of
        None \<Rightarrow> S = {}
      | Some t \<Rightarrow> S = {t} \<or> t = TFloat \<and> S = {TInt, TFloat} \<or>
          t = TStr \<and> \<not> S \<subseteq> {TInt, TFloat} \<and> (\<forall>x. S \<noteq> {x}))"

lemma remembers_insert:
  assumes "remembers (Some i) S"
  shows "remembers (Some (if i \<noteq> t then (if {i, t} \<subseteq> {TInt, TFloat} then TFloat else TStr) else i)) (insert t S)"
proof -
  have "S = {i} \<or> i = TFloat \<and> S = {TInt, TFloat} \<or> i = TStr \<and> \<not> S \<subseteq> {TInt, TFloat} \<and> (\<forall>x. S \<noteq> {x})"
    using assms by (simp add: remembers_def)
  then consider "S = {i}" | "i = TFloat" "S = {TInt, TFloat}"
    | "i = TStr" "\<not> S \<subseteq> {TInt, TFloat}" "\<forall>x. S \<noteq> {x}" by blast
  then show ?thesis
  proof cases
    case 1
    then show ?thesis by (auto simp: remembers_def doubleton_eq_iff)
  next
    case 2
    then show ?thesis by (auto simp: remembers_def)
  next
    case 3
    then have "insert t S \<noteq> {x}" for x by (metis insert_not_empty subset_singletonD subset_insertI empty_subsetI)
    with 3 show ?thesis by (auto simp: remembers_def)
  qed
qed

lemma infer_loop:
  "remembers (fst (fold (infer_step key) rows (None, False))) (column_types key rows) \<and>
   (snd (fold (infer_step key) rows (None, False)) \<longleftrightarrow> value_missing key rows)"
proof (induction rows rule: rev_induct)
  case Nil
  then show ?case by (simp add: remembers_def column_types_def value_missing_def)
next
  case (snoc row rows)
  obtain i n where f: "fold (infer_step key) rows (None, False) = (i, n)" by fastforce
  with snoc have r: "remembers i (column_types key rows)" "n \<longleftrightarrow> value_missing key rows" by auto
  show ?case
  proof (cases "\<exists>v t. map_of row key = Some v \<and> type_of_cell v = Some t")
    case False
    then have m: "map_of row key \<in> {None, Some CNone}" by (cases "map_of row key") auto
    then have "infer_step key row (i, n) = (i, True)" by (auto simp: infer_step_def)
    with f r m show ?thesis by (auto simp: column_types_snoc value_missing_snoc)
  next
    case True
    then obtain v t where v: "map_of row key = Some v" "type_of_cell v = Some t" by blast
    then have "v \<noteq> CNone" by auto
    show ?thesis
    proof (cases i)
      case None
      then have "infer_step key row (i, n) = (Some t, n)" using v by (simp add: infer_step_def)
      with f r v \<open>v \<noteq> CNone\<close> None show ?thesis
        by (simp add: column_types_snoc value_missing_snoc remembers_def)
    next
      case (Some u)
      then have "infer_step key row (i, n)
          = (Some (if u \<noteq> t then (if {u, t} \<subseteq> {TInt, TFloat} then TFloat else TStr) else u), n)"
        using v by (simp add: infer_step_def)
      with remembers_insert [OF r(1) [unfolded Some], of t] f r v \<open>v \<noteq> CNone\<close> show ?thesis
        by (simp add: column_types_snoc value_missing_snoc)
    qed
  qed
qed

section \<open>What locking and projecting compute\<close>

lemma ordered_keys_firsts: "ordered_keys rows = firsts (concat (map keys rows))"
proof -
  have inner: "fold (\<lambda>key seen. if key \<in> set seen then seen else seen @ [key]) ks (firsts dn)
      = firsts (dn @ ks)" for ks dn :: "string list"
  proof (induction ks arbitrary: dn)
    case (Cons k ks)
    from Cons.IH [of "dn @ [k]"] show ?case by simp
  qed simp
  have "fold (\<lambda>row seen. fold (\<lambda>key seen. if key \<in> set seen then seen else seen @ [key]) (keys row) seen)
      rows (firsts dn) = firsts (dn @ concat (map keys rows))" for dn :: "string list"
    by (induction rows arbitrary: dn) (simp_all add: inner)
  from this [of "[]"] show ?thesis by (simp add: ordered_keys_def)
qed

definition value_of :: "(string \<times> cell) list \<Rightarrow> string \<Rightarrow> cell" where
  "value_of row key = (case map_of row key of None \<Rightarrow> CNone | Some v \<Rightarrow> v)"

lemma dict_set_map:
  "distinct ks \<Longrightarrow> k \<in> set ks \<Longrightarrow>
     dict_set k v (map (\<lambda>x. (x, f x)) ks) = map (\<lambda>x. (x, (f(k := v)) x)) ks"
  by (induction ks) (auto intro!: map_cong)

lemma project_fold:
  assumes "distinct names" and "distinct (keys row)"
  shows "fold (project_step names) row (map (\<lambda>n. (n, f n)) names, warned)
     = (map (\<lambda>n. (n, case map_of row n of None \<Rightarrow> f n | Some v \<Rightarrow> v)) names,
        fold (\<lambda>k w. if k \<in> set w then w else w @ [k]) (filter (\<lambda>k. k \<notin> set names) (keys row)) warned)"
  using assms(2)
proof (induction row arbitrary: f warned)
  case (Cons p row)
  obtain k v where p: "p = (k, v)" by fastforce
  with Cons.prems have k: "map_of row k = None" and d: "distinct (keys row)"
    by (auto simp: map_of_eq_None_iff)
  show ?case
  proof (cases "k \<in> set names")
    case True
    have "map (\<lambda>n. (n, case map_of row n of None \<Rightarrow> (f(k := v)) n | Some v \<Rightarrow> v)) names
        = map (\<lambda>n. (n, case map_of (p # row) n of None \<Rightarrow> f n | Some v \<Rightarrow> v)) names"
      using k p by (auto intro!: map_cong split: option.split)
    with Cons.IH [OF d, of "f(k := v)" warned] True p dict_set_map [OF assms(1) True, of v f]
    show ?thesis by (simp add: project_step_def del: fun_upd_apply)
  next
    case False
    then have "map (\<lambda>n. (n, case map_of row n of None \<Rightarrow> f n | Some v \<Rightarrow> v)) names
        = map (\<lambda>n. (n, case map_of (p # row) n of None \<Rightarrow> f n | Some v \<Rightarrow> v)) names"
      using p by (auto intro!: map_cong)
    with Cons.IH [OF d] False p show ?thesis by (simp add: project_step_def)
  qed
qed simp

lemma dict_update_new: "distinct (keys kvs) \<Longrightarrow> dict_update kvs [] = kvs"
proof -
  have "set (keys kvs) \<inter> set (keys d) = {} \<Longrightarrow> distinct (keys kvs) \<Longrightarrow> dict_update kvs d = d @ kvs" for d
  proof (induction kvs arbitrary: d)
    case (Cons p kvs)
    have "k \<notin> set (keys d) \<Longrightarrow> dict_set k v d = d @ [(k, v)]" for k v
      by (induction d) auto
    with Cons.IH [of "d @ [p]"] Cons.prems show ?case by (auto simp: dict_update_def split: prod.splits)
  qed (simp add: dict_update_def)
  then show "distinct (keys kvs) \<Longrightarrow> dict_update kvs [] = kvs" by simp
qed

text \<open>A locked schema whose columns have different names, as every schema of a table has.\<close>

definition locked_on :: "SchemaLock \<Rightarrow> string list \<Rightarrow> bool" where
  "locked_on sl cols \<longleftrightarrow>
     map_option (map cs_name) (sl_columns sl) = Some cols \<and> sl_names sl = cols \<and> distinct cols"

lemma project_locked:
  assumes "locked_on sl cols" and "distinct (keys row)"
  shows "project row sl = (Inr (map (\<lambda>n. (n, value_of row n)) cols),
    sl\<lparr>sl_unknown_warned := fold (\<lambda>k w. if k \<in> set w then w else w @ [k])
      (filter (\<lambda>k. k \<notin> set cols) (keys row)) (sl_unknown_warned sl)\<rparr>)"
proof -
  obtain specs where c: "sl_columns sl = Some specs" "map cs_name specs = cols"
    using assms(1) by (auto simp: locked_on_def)
  then have "map (\<lambda>spec. (cs_name spec, CNone)) specs = map (\<lambda>n. (n, CNone)) cols" by auto
  moreover have "dict_update (map (\<lambda>n. (n, CNone)) cols) [] = map (\<lambda>n. (n, CNone)) cols"
    using assms(1) by (intro dict_update_new) (simp add: locked_on_def comp_def)
  ultimately show ?thesis
    using project_fold [of cols row "\<lambda>_. CNone" "sl_unknown_warned sl"] assms c
    by (simp add: project_def locked_on_def value_of_def)
qed

lemma warn_once: "fold (\<lambda>k w. if k \<in> set w then w else w @ [k]) ks (firsts dn) = firsts (dn @ ks)"
proof (induction ks arbitrary: dn)
  case (Cons k ks)
  from Cons.IH [of "dn @ [k]"] show ?case by simp
qed simp

lemma project_rows_locked:
  assumes "locked_on sl cols" and "\<forall>row \<in> set rows. distinct (keys row)"
    and "sl_unknown_warned sl = firsts dn"
  shows "project_rows rows sl = (Inr (map (\<lambda>row. map (value_of row) cols) rows),
    sl\<lparr>sl_unknown_warned := firsts (dn @ filter (\<lambda>k. k \<notin> set cols) (concat (map keys rows)))\<rparr>)"
  using assms
proof (induction rows arbitrary: sl dn)
  case (Cons row rows)
  let ?sl = "sl\<lparr>sl_unknown_warned := firsts (dn @ filter (\<lambda>k. k \<notin> set cols) (keys row))\<rparr>"
  have p: "project row sl = (Inr (map (\<lambda>n. (n, value_of row n)) cols), ?sl)"
    using project_locked [OF Cons.prems(1), of row] Cons.prems(2,3) by (simp add: warn_once)
  have l: "locked_on ?sl cols" using Cons.prems(1) by (simp add: locked_on_def)
  obtain specs where c: "sl_columns sl = Some specs" "map cs_name specs = cols"
    using Cons.prems(1) by (auto simp: locked_on_def)
  have "map_of (map (\<lambda>n. (n, value_of row n)) cols) n = Some (value_of row n)" if "n \<in> set cols" for n
    using that by (simp add: map_of_map_restrict restrict_map_def)
  then have "map (\<lambda>n. the (map_of (map (\<lambda>n. (n, value_of row n)) cols) n)) cols = map (value_of row) cols"
    by (intro map_cong) auto
  then have t: "map (\<lambda>spec. the (map_of (map (\<lambda>n. (n, value_of row n)) cols) (cs_name spec))) specs
      = map (value_of row) cols" using c(2) by (auto simp: comp_def)
  from Cons.IH [OF l, of "dn @ filter (\<lambda>k. k \<notin> set cols) (keys row)"] Cons.prems(2) p t c(1)
  show ?case by (simp add: Let_def)
qed simp

lemma lock_locked:
  assumes "schema_lock rows sl = (Inr specs, sl')"
  shows "sl_columns sl' = Some specs" "locked_on sl' (firsts (concat (map keys rows)))"
    "sl_unknown_warned sl' = sl_unknown_warned sl" "map cs_name specs = firsts (concat (map keys rows))"
proof -
  have "specs = map (\<lambda>key. infer_column key rows) (ordered_keys rows)"
    "sl' = sl\<lparr>sl_columns := Some specs, sl_names := ordered_keys rows\<rparr>"
    using assms by (auto simp: schema_lock_def Let_def split: if_splits)
  moreover have "cs_name (infer_column key rows) = key" for key
    by (simp add: infer_column_def split: prod.splits option.splits)
  ultimately show "sl_columns sl' = Some specs" "locked_on sl' (firsts (concat (map keys rows)))"
    "sl_unknown_warned sl' = sl_unknown_warned sl" "map cs_name specs = firsts (concat (map keys rows))"
    by (simp_all add: locked_on_def ordered_keys_firsts comp_def)
qed

section \<open>Properties\<close>

text \<open>
  C19. The type inferred for a column is the join of the classes that occur in it: the class itself
  when there is only one and it is a scalar, \<open>float\<close> when there are integers and floats, and \<open>str\<close>
  for every other mix, for other classes and for a column without values; it is nullable when a row
  lacks the column or has \<open>None\<close> there, and when no row has a value. In particular the result does
  not depend on the order of the rows.
\<close>

theorem column_inference_is_a_join:
  "infer_column key rows =
     \<lparr>cs_name = key, cs_python_type = joined_type (column_types key rows),
      cs_nullable = (value_missing key rows \<or> column_types key rows = {})\<rparr>"
proof -
  obtain i n where f: "fold (infer_step key) rows (None, False) = (i, n)" by fastforce
  with infer_loop [of key rows] have r: "remembers i (column_types key rows)"
    "n \<longleftrightarrow> value_missing key rows" by auto
  show ?thesis
  proof (cases i)
    case None
    with f r show ?thesis by (simp add: infer_column_def remembers_def joined_type_def)
  next
    case (Some t)
    with r(1) have "column_types key rows \<noteq> {}" by (auto simp: remembers_def)
    moreover have "joined_type (column_types key rows) = (if t \<notin> scalar_types then TStr else t)"
      using r(1) Some by (cases t) (auto simp: remembers_def joined_type_def scalar_types_def)
    ultimately show ?thesis using f r(2) Some by (simp add: infer_column_def)
  qed
qed

text \<open>
  C18. A schema locked on a first batch has a column for every key of the batch, in the order of
  first occurrence. Projecting any later rows, with whatever keys, then never fails: each row
  becomes exactly the tuple of its values under those columns, with \<open>None\<close> for the columns it
  lacks, and each key outside the schema is dropped and warned about once, at its first occurrence.
\<close>

theorem projection_on_locked_schema:
  assumes "schema_lock batch SchemaLock_init = (Inr specs, sl)"
    and "\<forall>row \<in> set rows. distinct (keys row)"
  shows "map cs_name specs = firsts (concat (map keys batch)) \<and>
     project_rows rows sl = (Inr (map (\<lambda>row. map (value_of row) (map cs_name specs)) rows),
       sl\<lparr>sl_unknown_warned :=
         firsts (filter (\<lambda>k. k \<notin> set (map cs_name specs)) (concat (map keys rows)))\<rparr>)"
  using project_rows_locked [OF lock_locked(2) [OF assms(1)] assms(2), of "[]"] lock_locked [OF assms(1)]
  by (simp add: SchemaLock_init_def)

text \<open>A first batch without the column \<open>b\<close>, then rows that lack \<open>a\<close> or have more.\<close>

theorem projection_on_locked_schema_witness:
  "\<exists>specs sl. schema_lock [[(''a'', CInt 1)], [(''a'', CFloat (FFin False 2)), (''c'', CNone)]]
       SchemaLock_init = (Inr specs, sl) \<and>
     map cs_python_type specs = [TFloat, TStr] \<and>
     project_rows [[(''c'', CStr ''x'')], [(''b'', CInt 2), (''a'', CInt 3)], [(''b'', CNone)]] sl
       = (Inr [[CNone, CStr ''x''], [CInt 3, CNone], [CNone, CNone]],
          sl\<lparr>sl_unknown_warned := [''b'']\<rparr>)"
proof -
  let ?batch = "[[(''a'', CInt 1)], [(''a'', CFloat (FFin False 2)), (''c'', CNone)]]"
  let ?rows = "[[(''c'', CStr ''x'')], [(''b'', CInt 2), (''a'', CInt 3)], [(''b'', CNone)]]"
  let ?specs = "map (\<lambda>key. infer_column key ?batch) (ordered_keys ?batch)"
  let ?sl = "SchemaLock_init\<lparr>sl_columns := Some ?specs, sl_names := ordered_keys ?batch\<rparr>"
  have l: "schema_lock ?batch SchemaLock_init = (Inr ?specs, ?sl)"
    by (simp add: schema_lock_def SchemaLock_init_def Let_def)
  have "map cs_python_type ?specs = [TFloat, TStr]" by code_simp
  moreover have "map cs_name ?specs = [''a'', ''c'']" by code_simp
  moreover have "project_rows ?rows ?sl = (Inr (map (\<lambda>row. map (value_of row) (map cs_name ?specs)) ?rows),
       ?sl\<lparr>sl_unknown_warned :=
         firsts (filter (\<lambda>k. k \<notin> set (map cs_name ?specs)) (concat (map keys ?rows)))\<rparr>)"
    by (rule conjunct2 [OF projection_on_locked_schema [OF l]]) simp
  ultimately show ?thesis using l by (auto simp: value_of_def firsts_def)
qed

end
