(* ===== verification/Sinks.thy ===== *)
theory Sinks
  imports Rows
begin

text \<open>
  \<open>sinks/base.py\<close>, \<open>sinks/memory.py\<close>, \<open>sinks/csv.py\<close> and \<open>sinks/jsonl.py\<close>: the interface of a
  sink with its contract as a locale, \<open>pipe\<close>, which is verified once against the contract, and the
  sinks that need no database. A file is the list of lines written to it, a line the values that
  the \<open>csv\<close> or \<open>json\<close> module renders; how many more lines the disk takes is given by the state.
\<close>

section \<open>The interface\<close>

record 'k sink_ops =
  sk_open :: "'k \<Rightarrow> unit res \<times> 'k"
  sk_write_many :: "Sample list \<Rightarrow> 'k \<Rightarrow> unit res \<times> 'k"
  sk_close :: "'k \<Rightarrow> unit res \<times> 'k"

text \<open>
  What \<open>pipe\<close> relies on: a write to an open sink appends the rendered samples in order, or a
  prefix of them when it fails; a closed sink refuses and is not touched.
\<close>

locale sample_sink =
  fixes ops :: "'k sink_ops" and stored :: "'k \<Rightarrow> 'r list" and render :: "Sample \<Rightarrow> 'r"
    and good :: "'k \<Rightarrow> bool" and usable :: "'k \<Rightarrow> bool"
  assumes write_ok: "good k \<Longrightarrow> sk_write_many ops xs k = (Inr u, k') \<Longrightarrow>
      usable k \<and> usable k' \<and> stored k' = stored k @ map render xs"
    and write_fail: "good k \<Longrightarrow> sk_write_many ops xs k = (Inl e, k') \<Longrightarrow>
      \<exists>n \<le> length xs. stored k' = stored k @ map render (take n xs)"
    and write_closed: "good k \<Longrightarrow> \<not> usable k \<Longrightarrow> sk_write_many ops xs k = (Inl (Py RuntimeError), k)"
    and write_good: "good k \<Longrightarrow> good (snd (sk_write_many ops xs k))"
    and open_good: "good k \<Longrightarrow> good (snd (sk_open ops k))"
    and open_usable: "good k \<Longrightarrow> sk_open ops k = (Inr u, k') \<Longrightarrow> usable k'"
    and close_good: "good k \<Longrightarrow> good (snd (sk_close ops k))"
    and close_stored: "good k \<Longrightarrow> stored (snd (sk_close ops k)) = stored k"
    and close_closes: "good k \<Longrightarrow> \<not> usable (snd (sk_close ops k))"

section \<open>The pipe\<close>

definition pipe_flush ::
  "'k sink_ops \<Rightarrow> Sample list \<Rightarrow> nat \<Rightarrow> 'k \<Rightarrow> unit res \<times> Sample list \<times> nat \<times> 'k" where
  "pipe_flush ops buffer emitted k =
     (if buffer = [] then (Inr (), buffer, emitted, k)
      else case sk_write_many ops buffer k of
             (Inl e, k') \<Rightarrow> (Inl e, buffer, emitted, k')
           | (Inr _, k') \<Rightarrow> (Inr (), [], emitted + length buffer, k'))"

text \<open>
  The loop over the batches, each with the clock read after it; the stream then ends, or raises
  \<open>ending\<close>. The result is the number of samples handed to the sink.
\<close>

fun pipe_loop ::
  "'k sink_ops \<Rightarrow> int \<Rightarrow> rat \<Rightarrow> exn option \<Rightarrow> ((string \<times> Sample) list \<times> rat) list \<Rightarrow>
   Sample list \<Rightarrow> nat \<Rightarrow> rat \<Rightarrow> 'k \<Rightarrow> nat res \<times> 'k" where
  "pipe_loop ops batch_size flush_interval ending [] buffer emitted last_flush k =
     (case ending of
        Some e \<Rightarrow> (Inl e, k)
      | None \<Rightarrow>
          (case pipe_flush ops buffer emitted k of
             (Inl e, _, _, k') \<Rightarrow> (Inl e, k')
           | (Inr _, _, emitted', k') \<Rightarrow> (Inr emitted', k')))"
| "pipe_loop ops batch_size flush_interval ending ((batch, now) # events) buffer emitted last_flush k =
     (let buffer = buffer @ map snd batch
      in if batch_size \<le> int (length buffer) \<or> flush_interval \<le> now - last_flush
         then (case pipe_flush ops buffer emitted k of
                 (Inl e, _, _, k') \<Rightarrow> (Inl e, k')
               | (Inr _, buffer', emitted', k') \<Rightarrow>
                   pipe_loop ops batch_size flush_interval ending events buffer' emitted' now k')
         else pipe_loop ops batch_size flush_interval ending events buffer emitted last_flush k)"

definition pipe ::
  "'k sink_ops \<Rightarrow> int \<Rightarrow> rat \<Rightarrow> int \<Rightarrow> int \<Rightarrow> rat \<Rightarrow> exn option \<Rightarrow>
   ((string \<times> Sample) list \<times> rat) list \<Rightarrow> 'k \<Rightarrow> AcquisitionSummary res \<times> 'k" where
  "pipe ops batch_size flush_interval started_at finished_at last_flush ending events k =
     (if batch_size < 1 then (Inl (Py ValueError), k)
      else if flush_interval \<le> 0 then (Inl (Py ValueError), k)
      else case pipe_loop ops batch_size flush_interval ending events [] 0 last_flush k of
             (Inl e, k') \<Rightarrow> (Inl e, k')
           | (Inr emitted, k') \<Rightarrow>
               (Inr \<lparr>sm_started_at = started_at, sm_finished_at = Some finished_at,
                     sm_emitted = emitted, sm_late = 0, sm_max_drift_ms = 0,
                     sm_target_total = None\<rparr>, k'))"

abbreviation piped_samples :: "((string \<times> Sample) list \<times> rat) list \<Rightarrow> Sample list" where
  "piped_samples events \<equiv> concat (map (\<lambda>p. map snd (fst p)) events)"

context sample_sink
begin

lemma flush_cases:
  assumes "good k" and "pipe_flush ops buffer emitted k = (r, buffer', emitted', k')"
  obtains (ok) "r = Inr ()" "buffer' = []" "emitted' = emitted + length buffer" "good k'"
      "stored k' = stored k @ map render buffer" "buffer = [] \<or> usable k'"
  | (failed) e n where "r = Inl e" "good k'" "n \<le> length buffer"
      "stored k' = stored k @ map render (take n buffer)" "buffer \<noteq> []"
proof (cases "buffer = []")
  case True
  with assms ok show ?thesis by (simp add: pipe_flush_def)
next
  case False
  obtain q k1 where w: "sk_write_many ops buffer k = (q, k1)" by fastforce
  from write_good [OF assms(1), of buffer] w have g: "good k1" by simp
  show ?thesis
  proof (cases q)
    case (Inl e)
    with write_fail [OF assms(1), of buffer e k1] w obtain n where
      "n \<le> length buffer" "stored k1 = stored k @ map render (take n buffer)" by blast
    moreover from assms(2) False w Inl have "r = Inl e" "k' = k1" by (simp_all add: pipe_flush_def)
    ultimately show ?thesis using g False by (intro failed) simp_all
  next
    case (Inr u)
    with write_ok [OF assms(1)] w have "usable k1" "stored k1 = stored k @ map render buffer" by blast+
    with assms(2) False w Inr g ok show ?thesis by (simp add: pipe_flush_def)
  qed
qed

lemma loop_stores:
  assumes "good k" and "pipe_loop ops batch_size interval ending events buffer emitted t0 k = (r, k')"
  shows "good k' \<and>
    (case r of
       Inr n \<Rightarrow> ending = None \<and> stored k' = stored k @ map render (buffer @ piped_samples events) \<and>
         n = emitted + length buffer + length (piped_samples events)
     | Inl e \<Rightarrow> \<exists>m \<le> length (buffer @ piped_samples events).
         stored k' = stored k @ map render (take m (buffer @ piped_samples events)))"
  using assms
proof (induction events arbitrary: buffer emitted t0 k)
  case Nil
  show ?case
  proof (cases ending)
    case None
    obtain q b n k1 where f: "pipe_flush ops buffer emitted k = (q, b, n, k1)" by (metis prod_cases4)
    from flush_cases [OF Nil.prems(1) f] Nil.prems(2) f None show ?thesis
      by cases (auto split: sum.splits)
  next
    case (Some e)
    with Nil.prems show ?thesis by (auto intro!: exI [where x = 0])
  qed
next
  case (Cons ev events)
  obtain batch now where ev: "ev = (batch, now)" by fastforce
  let ?b = "buffer @ map snd batch"
  show ?case
  proof (cases "batch_size \<le> int (length ?b) \<or> interval \<le> now - t0")
    case False
    with Cons.prems ev have "pipe_loop ops batch_size interval ending events ?b emitted t0 k = (r, k')"
      by simp
    from Cons.IH [OF Cons.prems(1) this] ev show ?thesis by (auto split: sum.splits)
  next
    case True
    obtain q b n k1 where f: "pipe_flush ops ?b emitted k = (q, b, n, k1)" by (metis prod_cases4)
    from Cons.prems(1) f show ?thesis
    proof (cases rule: flush_cases)
      case ok
      with Cons.prems(2) ev f True
      have "pipe_loop ops batch_size interval ending events [] n now k1 = (r, k')" by simp
      from Cons.IH [OF ok(4) this] have g: "good k'" and
        c: "case r of
           Inr n' \<Rightarrow> ending = None \<and> stored k' = stored k1 @ map render (piped_samples events) \<and>
             n' = n + length (piped_samples events)
         | Inl e \<Rightarrow> \<exists>m \<le> length (piped_samples events).
             stored k' = stored k1 @ map render (take m (piped_samples events))"
        by (auto split: sum.splits)
      show ?thesis
      proof (cases r)
        case (Inl e)
        with c obtain m where m: "m \<le> length (piped_samples events)"
          "stored k' = stored k1 @ map render (take m (piped_samples events))" by auto
        have "length ?b + m \<le> length (buffer @ piped_samples (ev # events))"
          "stored k' = stored k @ map render (take (length ?b + m) (buffer @ piped_samples (ev # events)))"
          using m ok(5) ev by simp_all
        then have "\<exists>m \<le> length (buffer @ piped_samples (ev # events)).
          stored k' = stored k @ map render (take m (buffer @ piped_samples (ev # events)))" by blast
        with Inl g show ?thesis by (simp only: sum.case)
      next
        case (Inr n')
        with c g ok ev show ?thesis by simp
      qed
    next
      case (failed e m)
      with Cons.prems(2) ev f True have "r = Inl e" "k' = k1" by auto
      moreover have "m \<le> length (buffer @ piped_samples (ev # events))"
        "stored k1 = stored k @ map render (take m (buffer @ piped_samples (ev # events)))"
        using failed ev by simp_all
      then have "\<exists>m \<le> length (buffer @ piped_samples (ev # events)).
        stored k1 = stored k @ map render (take m (buffer @ piped_samples (ev # events)))" by blast
      ultimately show ?thesis using failed(2) by (simp only: sum.case)
    qed
  qed
qed

lemma pipe_stores:
  assumes "good k" and "pipe ops batch_size interval started_at finished_at t0 ending events k = (r, k')"
  shows "good k' \<and>
    (case r of
       Inr sm \<Rightarrow> ending = None \<and> stored k' = stored k @ map render (piped_samples events) \<and>
         sm_emitted sm = length (piped_samples events)
     | Inl e \<Rightarrow> \<exists>m \<le> length (piped_samples events).
         stored k' = stored k @ map render (take m (piped_samples events)))"
proof -
  obtain q k1 where l: "pipe_loop ops batch_size interval ending events [] 0 t0 k = (q, k1)" by fastforce
  from loop_stores [OF assms(1) l] assms l show ?thesis
    by (cases q) (auto simp: pipe_def split: if_splits)
qed

end

text \<open>What every successful write keeps, a successful pipe keeps.\<close>

lemma pipe_keeps:
  assumes wr: "\<And>xs k u k'. P k \<Longrightarrow> sk_write_many ops xs k = (Inr u, k') \<Longrightarrow> P k'"
    and "P k" and "pipe ops batch_size interval started_at finished_at t0 ending events k = (Inr sm, k')"
  shows "P k'"
proof -
  have flush: "P k'" if "P k" "pipe_flush ops buffer emitted k = (Inr u, b, n, k')" for buffer emitted k u b n k'
    using that wr [OF that(1)] by (auto simp: pipe_flush_def split: if_splits sum.splits prod.splits)
  have "P k'" if "P k" "pipe_loop ops batch_size interval ending events buffer emitted t0 k = (Inr n, k')"
    for buffer emitted t0 k n k'
    using that
  proof (induction events arbitrary: buffer emitted t0 k)
    case Nil
    then show ?case by (auto split: option.splits sum.splits prod.splits intro: flush)
  next
    case (Cons ev events)
    obtain batch now where ev: "ev = (batch, now)" by fastforce
    obtain q b m k1 where f: "pipe_flush ops (buffer @ map snd batch) emitted k = (q, b, m, k1)"
      by (metis prod_cases4)
    show ?case
    proof (cases "batch_size \<le> int (length (buffer @ map snd batch)) \<or> interval \<le> now - t0")
      case True
      with Cons.prems(2) ev f obtain u where q: "q = Inr u"
        and l: "pipe_loop ops batch_size interval ending events b m now k1 = (Inr n, k')"
        by (cases q) (simp_all add: Let_def)
      from Cons.IH [OF flush [OF Cons.prems(1) f [unfolded q]] l] show ?thesis .
    next
      case False
      with Cons.prems(2) ev have "pipe_loop ops batch_size interval ending events
        (buffer @ map snd batch) emitted t0 k = (Inr n, k')" by simp
      from Cons.IH [OF Cons.prems(1) this] show ?thesis .
    qed
  qed
  with assms(2,3) show ?thesis by (auto simp: pipe_def split: if_splits sum.splits prod.splits)
qed

text \<open>When no write fails, no pipe does.\<close>

lemma pipe_returns:
  assumes wr: "\<And>xs k. P k \<Longrightarrow> \<exists>k'. sk_write_many ops xs k = (Inr (), k') \<and> P k'"
    and "P k" and "0 < batch_size" and "0 < interval"
  shows "\<exists>sm k'. pipe ops batch_size interval started_at finished_at t0 None events k = (Inr sm, k')"
proof -
  have flush: "\<exists>b n k'. pipe_flush ops buffer emitted k = (Inr (), b, n, k') \<and> P k'" if "P k"
    for buffer emitted k
    using wr [OF that, of buffer] that by (auto simp: pipe_flush_def)
  have "\<exists>n k'. pipe_loop ops batch_size interval None events buffer emitted t0 k = (Inr n, k')" if "P k"
    for buffer emitted t0 k
    using that
  proof (induction events arbitrary: buffer emitted t0 k)
    case Nil
    with flush [OF Nil, of buffer emitted] show ?case by auto
  next
    case (Cons ev events)
    obtain batch now where ev: "ev = (batch, now)" by fastforce
    obtain b n k1 where f: "pipe_flush ops (buffer @ map snd batch) emitted k = (Inr (), b, n, k1)" "P k1"
      using flush [OF Cons.prems] by blast
    with Cons.IH [OF f(2)] Cons.IH [OF Cons.prems] ev show ?case by (simp add: Let_def)
  qed
  from this [OF assms(2)] obtain n k' where
    "pipe_loop ops batch_size interval None events [] 0 t0 k = (Inr n, k')" by blast
  with assms(3,4) show ?thesis by (simp add: pipe_def)
qed

section \<open>Sinks whose writes are all or nothing\<close>

datatype sink_call = SinkOpen | SinkWrite "Sample list" | SinkClose

fun sink_step :: "'k sink_ops \<Rightarrow> sink_call \<Rightarrow> 'k \<Rightarrow> unit res \<times> 'k" where
  "sink_step ops SinkOpen k = sk_open ops k"
| "sink_step ops (SinkWrite xs) k = sk_write_many ops xs k"
| "sink_step ops SinkClose k = sk_close ops k"

text \<open>A sequence of calls whose exceptions are handled, with their results.\<close>

fun sink_run :: "'k sink_ops \<Rightarrow> sink_call list \<Rightarrow> 'k \<Rightarrow> unit res list \<times> 'k" where
  "sink_run ops [] k = ([], k)"
| "sink_run ops (call # calls) k =
     (case sink_step ops call k of
        (r, k) \<Rightarrow> (case sink_run ops calls k of (rs, k) \<Rightarrow> (r # rs, k)))"

text \<open>The samples of the writes that returned.\<close>

fun acknowledged :: "sink_call list \<Rightarrow> unit res list \<Rightarrow> Sample list" where
  "acknowledged (SinkWrite xs # calls) (Inr _ # rs) = xs @ acknowledged calls rs"
| "acknowledged (call # calls) (r # rs) = acknowledged calls rs"
| "acknowledged calls rs = []"

locale atomic_sink = sample_sink +
  assumes write_atomic: "good k \<Longrightarrow> sk_write_many ops xs k = (Inl e, k') \<Longrightarrow> stored k' = stored k"
    and open_stored: "good k \<Longrightarrow> stored (snd (sk_open ops k)) = stored k"
begin

lemma step_good: "good k \<Longrightarrow> good (snd (sink_step ops call k))"
  by (cases call) (simp_all add: write_good open_good close_good)

lemma step_stored:
  assumes "good k" and "sink_step ops call k = (r, k')"
  shows "stored k' = stored k @ map render (acknowledged [call] [r])"
proof (cases call)
  case SinkOpen
  with assms open_stored [OF assms(1)] show ?thesis by simp
next
  case (SinkWrite xs)
  show ?thesis
  proof (cases r)
    case (Inl e)
    with SinkWrite assms write_atomic show ?thesis by simp
  next
    case (Inr u)
    with SinkWrite assms write_ok show ?thesis by simp
  qed
next
  case SinkClose
  with assms close_stored [OF assms(1)] show ?thesis by simp
qed

lemma acknowledged_Cons:
  "acknowledged (call # calls) (r # rs) = acknowledged [call] [r] @ acknowledged calls rs"
  by (cases call; cases r) simp_all

lemma run_stores:
  "good k \<Longrightarrow> sink_run ops calls k = (rs, k') \<Longrightarrow>
     good k' \<and> stored k' = stored k @ map render (acknowledged calls rs)"
proof (induction calls arbitrary: k rs)
  case (Cons call calls)
  obtain r k1 where s: "sink_step ops call k = (r, k1)" by fastforce
  with Cons.prems(2) obtain rs' where t: "sink_run ops calls k1 = (rs', k')" "rs = r # rs'"
    by (auto split: prod.splits)
  from step_good [OF Cons.prems(1), of call] s have "good k1" by simp
  from Cons.IH [OF this t(1)] step_stored [OF Cons.prems(1) s]
  show ?case unfolding t(2) acknowledged_Cons [of call calls r rs'] by simp
qed simp

end

section \<open>The in-memory sink\<close>

record InMemorySink =
  im_samples :: "Sample list"
  im_open :: bool
  im_closed :: bool

definition InMemorySink_init :: InMemorySink where
  "InMemorySink_init = \<lparr>im_samples = [], im_open = False, im_closed = False\<rparr>"

definition memory_is_open :: "InMemorySink \<Rightarrow> bool" where
  "memory_is_open k \<longleftrightarrow> im_open k \<and> \<not> im_closed k"

definition memory_open :: "InMemorySink \<Rightarrow> unit res \<times> InMemorySink" where
  "memory_open k = (Inr (), k\<lparr>im_open := True, im_closed := False\<rparr>)"

definition memory_write_many :: "Sample list \<Rightarrow> InMemorySink \<Rightarrow> unit res \<times> InMemorySink" where
  "memory_write_many samples k =
     (if \<not> memory_is_open k then (Inl (Py RuntimeError), k)
      else (Inr (), k\<lparr>im_samples := im_samples k @ samples\<rparr>))"

definition memory_close :: "InMemorySink \<Rightarrow> unit res \<times> InMemorySink" where
  "memory_close k = (Inr (), k\<lparr>im_closed := True\<rparr>)"

definition memory_ops :: "InMemorySink sink_ops" where
  "memory_ops = \<lparr>sk_open = memory_open, sk_write_many = memory_write_many, sk_close = memory_close\<rparr>"

interpretation memory: atomic_sink memory_ops im_samples id "\<lambda>_. True" memory_is_open
  by unfold_locales
    (auto simp: memory_ops_def memory_open_def memory_write_many_def memory_close_def memory_is_open_def
      split: if_splits)

section \<open>Files\<close>

text \<open>
  A text file under its path: its lines, whether it is open, whether it can be opened, and how
  many more lines the disk takes (\<open>None\<close> for no limit). Closing does not fail.
\<close>

record 'l text_file =
  tf_lines :: "'l list"
  tf_open :: bool
  tf_can_open :: bool
  tf_room :: "nat option"

definition file_open :: "'l text_file \<Rightarrow> unit res \<times> 'l text_file" where
  "file_open f =
     (if tf_can_open f then (Inr (), f\<lparr>tf_lines := [], tf_open := True\<rparr>)
      else (Inl (Py OSError), f))"

definition file_write :: "'l \<Rightarrow> 'l text_file \<Rightarrow> unit res \<times> 'l text_file" where
  "file_write line f =
     (case tf_room f of
        None \<Rightarrow> (Inr (), f\<lparr>tf_lines := tf_lines f @ [line]\<rparr>)
      | Some 0 \<Rightarrow> (Inl (Py OSError), f)
      | Some (Suc n) \<Rightarrow> (Inr (), f\<lparr>tf_lines := tf_lines f @ [line], tf_room := Some n\<rparr>))"

definition file_close :: "'l text_file \<Rightarrow> 'l text_file" where
  "file_close f = f\<lparr>tf_open := False\<rparr>"

lemma file_write_cases:
  assumes "file_write l f = (r, f')"
  obtains (written) "r = Inr ()" "tf_lines f' = tf_lines f @ [l]" "tf_open f' = tf_open f"
  | (full) "r = Inl (Py OSError)" "f' = f"
proof (cases "tf_room f")
  case None
  with assms written show ?thesis by (auto simp: file_write_def)
next
  case (Some n)
  with assms written full show ?thesis by (cases n) (auto simp: file_write_def)
qed

section \<open>The JSONL sink\<close>

type_synonym jsonl_sink = "(string \<times> cell) list text_file"

definition jsonl_open :: "jsonl_sink \<Rightarrow> unit res \<times> jsonl_sink" where
  "jsonl_open k = (if tf_open k then (Inr (), k) else file_open k)"

fun jsonl_write_rows :: "(exn \<Rightarrow> string) \<Rightarrow> Sample list \<Rightarrow> jsonl_sink \<Rightarrow> unit res \<times> jsonl_sink" where
  "jsonl_write_rows message [] k = (Inr (), k)"
| "jsonl_write_rows message (sample # samples) k =
     (case file_write (sample_to_row message sample) k of
        (Inl e, k') \<Rightarrow> (Inl e, k')
      | (Inr _, k') \<Rightarrow> jsonl_write_rows message samples k')"

definition jsonl_write_many ::
  "(exn \<Rightarrow> string) \<Rightarrow> Sample list \<Rightarrow> jsonl_sink \<Rightarrow> unit res \<times> jsonl_sink" where
  "jsonl_write_many message samples k =
     (if \<not> tf_open k then (Inl (Py RuntimeError), k)
      else if samples = [] then (Inr (), k)
      else jsonl_write_rows message samples k)"

definition jsonl_close :: "jsonl_sink \<Rightarrow> unit res \<times> jsonl_sink" where
  "jsonl_close k = (Inr (), if tf_open k then file_close k else k)"

definition jsonl_ops :: "(exn \<Rightarrow> string) \<Rightarrow> jsonl_sink sink_ops" where
  "jsonl_ops message =
     \<lparr>sk_open = jsonl_open, sk_write_many = jsonl_write_many message, sk_close = jsonl_close\<rparr>"

lemma jsonl_rows:
  assumes "jsonl_write_rows message samples k = (r, k')"
  shows "tf_open k' = tf_open k \<and>
    (case r of
       Inr _ \<Rightarrow> tf_lines k' = tf_lines k @ map (sample_to_row message) samples
     | Inl e \<Rightarrow> \<exists>n \<le> length samples.
         tf_lines k' = tf_lines k @ map (sample_to_row message) (take n samples))"
  using assms
proof (induction samples arbitrary: k)
  case (Cons x xs)
  obtain q k1 where w: "file_write (sample_to_row message x) k = (q, k1)" by fastforce
  from w show ?case
  proof (cases rule: file_write_cases)
    case written
    with Cons.prems w have "jsonl_write_rows message xs k1 = (r, k')" by simp
    from Cons.IH [OF this] show ?thesis
    proof (cases r)
      case (Inl e)
      with Cons.IH [OF \<open>jsonl_write_rows message xs k1 = (r, k')\<close>] obtain n where
        "n \<le> length xs" "tf_lines k' = tf_lines k1 @ map (sample_to_row message) (take n xs)"
        "tf_open k' = tf_open k1" by auto
      then have "Suc n \<le> length (x # xs) \<and>
        tf_lines k' = tf_lines k @ map (sample_to_row message) (take (Suc n) (x # xs))"
        using written by simp
      with Inl written \<open>tf_open k' = tf_open k1\<close> show ?thesis by (simp only: sum.case) blast
    qed (use written in simp)
  next
    case full
    with Cons.prems w show ?thesis by (auto intro!: exI [where x = 0])
  qed
qed (auto split: sum.splits)

interpretation jsonl: sample_sink "jsonl_ops message" tf_lines "sample_to_row message" "\<lambda>_. True" tf_open
  for message
proof unfold_locales
  fix k :: jsonl_sink and xs u k'
  assume "sk_write_many (jsonl_ops message) xs k = (Inr u, k')"
  then have "tf_open k" "xs = [] \<and> k' = k \<or> jsonl_write_rows message xs k = (Inr u, k')"
    by (auto simp: jsonl_ops_def jsonl_write_many_def split: if_splits)
  then show "tf_open k \<and> tf_open k' \<and> tf_lines k' = tf_lines k @ map (sample_to_row message) xs"
    by (auto dest: jsonl_rows)
next
  fix k :: jsonl_sink and xs e k'
  assume "sk_write_many (jsonl_ops message) xs k = (Inl e, k')"
  then have "k' = k \<or> jsonl_write_rows message xs k = (Inl e, k')"
    by (auto simp: jsonl_ops_def jsonl_write_many_def split: if_splits)
  then show "\<exists>n \<le> length xs. tf_lines k' = tf_lines k @ map (sample_to_row message) (take n xs)"
    using jsonl_rows [of message xs k "Inl e" k'] by (elim disjE) (auto intro!: exI [where x = 0])
qed (auto simp: jsonl_ops_def jsonl_write_many_def jsonl_open_def jsonl_close_def file_open_def
    file_close_def split: if_splits)

section \<open>The CSV sink\<close>

datatype csv_line = CsvHeader "string list" | CsvRow "cell list"

record csv_sink =
  cv_file :: "csv_line text_file"
  cv_writer :: "string list option"
  cv_columns :: "string list option"
  cv_unknown_columns_warned :: "string list"

definition csv_open :: "csv_sink \<Rightarrow> unit res \<times> csv_sink" where
  "csv_open k =
     (if tf_open (cv_file k) then (Inr (), k)
      else case file_open (cv_file k) of (r, f) \<Rightarrow> (r, k\<lparr>cv_file := f\<rparr>))"

definition csv_warn :: "string list \<Rightarrow> (string \<times> cell) list \<Rightarrow> csv_sink \<Rightarrow> csv_sink" where
  "csv_warn columns row k = k\<lparr>cv_unknown_columns_warned :=
     fold (\<lambda>key w. if key \<in> set columns \<or> key \<in> set w then w else w @ [key]) (keys row)
       (cv_unknown_columns_warned k)\<rparr>"

fun csv_write_rows ::
  "string list \<Rightarrow> (string \<times> cell) list list \<Rightarrow> csv_sink \<Rightarrow> unit res \<times> csv_sink" where
  "csv_write_rows columns [] k = (Inr (), k)"
| "csv_write_rows columns (row # rows) k =
     (let k = csv_warn columns row k
      in case file_write (CsvRow (map (value_of row) columns)) (cv_file k) of
           (Inl e, f) \<Rightarrow> (Inl e, k\<lparr>cv_file := f\<rparr>)
         | (Inr _, f) \<Rightarrow> csv_write_rows columns rows (k\<lparr>cv_file := f\<rparr>))"

definition csv_write_header :: "string list \<Rightarrow> csv_sink \<Rightarrow> unit res \<times> csv_sink" where
  "csv_write_header columns k =
     (let k = k\<lparr>cv_columns := Some columns, cv_writer := Some columns\<rparr>
      in case file_write (CsvHeader columns) (cv_file k) of (r, f) \<Rightarrow> (r, k\<lparr>cv_file := f\<rparr>))"

definition csv_write_many ::
  "(exn \<Rightarrow> string) \<Rightarrow> Sample list \<Rightarrow> csv_sink \<Rightarrow> unit res \<times> csv_sink" where
  "csv_write_many message samples k =
     (if \<not> tf_open (cv_file k) then (Inl (Py RuntimeError), k)
      else if samples = [] then (Inr (), k)
      else
        let rows = map (sample_to_row message) samples
        in case (if cv_writer k = None then csv_write_header (keys (hd rows)) k else (Inr (), k)) of
             (Inl e, k) \<Rightarrow> (Inl e, k)
           | (Inr _, k) \<Rightarrow>
               (case cv_columns k of
                  None \<Rightarrow> (Inl (Py AssertionError), k)
                | Some columns \<Rightarrow> csv_write_rows columns rows k))"

definition csv_close :: "csv_sink \<Rightarrow> unit res \<times> csv_sink" where
  "csv_close k =
     (Inr (), if tf_open (cv_file k)
              then k\<lparr>cv_file := file_close (cv_file k), cv_writer := None\<rparr> else k)"

definition csv_ops :: "(exn \<Rightarrow> string) \<Rightarrow> csv_sink sink_ops" where
  "csv_ops message =
     \<lparr>sk_open = csv_open, sk_write_many = csv_write_many message, sk_close = csv_close\<rparr>"

text \<open>The rows of the file after its header, and the row of a sample under the fixed columns.\<close>

definition csv_rows :: "csv_sink \<Rightarrow> cell list list" where
  "csv_rows k = concat (map (\<lambda>l. case l of CsvHeader cs \<Rightarrow> [] | CsvRow r \<Rightarrow> [r]) (tf_lines (cv_file k)))"

definition sample_tuple :: "(exn \<Rightarrow> string) \<Rightarrow> Sample \<Rightarrow> cell list" where
  "sample_tuple message sample = map (value_of (sample_to_row message sample)) sample_columns"

text \<open>The writer has the columns of a sample, and there is one only while the file is open.\<close>

definition csv_good :: "csv_sink \<Rightarrow> bool" where
  "csv_good k \<longleftrightarrow> (cv_writer k = None \<or> tf_open (cv_file k) \<and> cv_columns k = Some sample_columns)"

lemma csv_rows_step:
  assumes "csv_write_rows sample_columns (map (sample_to_row message) samples) k = (r, k')"
  shows "tf_open (cv_file k') = tf_open (cv_file k) \<and> cv_columns k' = cv_columns k \<and>
    cv_writer k' = cv_writer k \<and>
    (case r of
       Inr _ \<Rightarrow> csv_rows k' = csv_rows k @ map (sample_tuple message) samples \<and>
         tf_lines (cv_file k') = tf_lines (cv_file k) @ map (\<lambda>x. CsvRow (sample_tuple message x)) samples
     | Inl e \<Rightarrow> \<exists>n \<le> length samples.
         csv_rows k' = csv_rows k @ map (sample_tuple message) (take n samples))"
  using assms
proof (induction samples arbitrary: k)
  case (Cons x xs)
  let ?k = "csv_warn sample_columns (sample_to_row message x) k"
  obtain q f where w: "file_write (CsvRow (sample_tuple message x)) (cv_file ?k) = (q, f)" by fastforce
  have k: "cv_file ?k = cv_file k" "cv_columns ?k = cv_columns k" "cv_writer ?k = cv_writer k"
    by (simp_all add: csv_warn_def)
  from w show ?case
  proof (cases rule: file_write_cases)
    case written
    with Cons.prems w have n: "csv_write_rows sample_columns (map (sample_to_row message) xs)
        (?k\<lparr>cv_file := f\<rparr>) = (r, k')" by (simp add: Let_def sample_tuple_def)
    have rows: "csv_rows (?k\<lparr>cv_file := f\<rparr>) = csv_rows k @ [sample_tuple message x]"
      using written k by (simp add: csv_rows_def)
    show ?thesis
    proof (cases r)
      case (Inl e)
      with Cons.IH [OF n] obtain m where m: "m \<le> length xs"
        "csv_rows k' = csv_rows (?k\<lparr>cv_file := f\<rparr>) @ map (sample_tuple message) (take m xs)"
        by auto
      then have "Suc m \<le> length (x # xs) \<and>
        csv_rows k' = csv_rows k @ map (sample_tuple message) (take (Suc m) (x # xs))"
        using rows by simp
      with Inl Cons.IH [OF n] written(3) k show ?thesis by (simp only: sum.case) auto
    qed (use Cons.IH [OF n] rows written(2,3) k in simp)
  next
    case full
    with Cons.prems w k have "r = Inl (Py OSError)" "k' = ?k\<lparr>cv_file := f\<rparr>" "f = cv_file k"
      by (simp_all add: Let_def sample_tuple_def)
    with k show ?thesis by (auto simp: csv_rows_def intro!: exI [where x = 0])
  qed
qed (auto split: sum.splits)

lemma csv_write_cases:
  assumes "csv_good k" and "csv_write_many message samples k = (r, k')"
  shows "csv_good k' \<and>
    (case r of
       Inr _ \<Rightarrow> tf_open (cv_file k) \<and> tf_open (cv_file k') \<and>
         csv_rows k' = csv_rows k @ map (sample_tuple message) samples
     | Inl e \<Rightarrow> (\<exists>n \<le> length samples.
         csv_rows k' = csv_rows k @ map (sample_tuple message) (take n samples)))"
proof (cases "tf_open (cv_file k) \<and> samples \<noteq> []")
  case False
  with assms show ?thesis by (auto simp: csv_write_many_def split: if_splits intro!: exI [where x = 0])
next
  case True
  then have hd: "keys (hd (map (sample_to_row message) samples)) = sample_columns" by (simp add: hd_map)
  obtain q k1 where
    h: "(if cv_writer k = None then csv_write_header sample_columns k else (Inr (), k)) = (q, k1)"
    by fastforce
  have w: "csv_write_many message samples k =
    (case (q, k1) of
       (Inl e, k) \<Rightarrow> (Inl e, k)
     | (Inr _, k) \<Rightarrow>
         (case cv_columns k of
            None \<Rightarrow> (Inl (Py AssertionError), k)
          | Some columns \<Rightarrow> csv_write_rows columns (map (sample_to_row message) samples) k))"
    unfolding csv_write_many_def Let_def hd h using True by simp
  have k1: "csv_rows k1 = csv_rows k" "tf_open (cv_file k1)" "cv_columns k1 = Some sample_columns"
    using h True assms(1)
    by (auto simp: csv_write_header_def csv_good_def csv_rows_def Let_def file_write_def
        split: if_splits option.splits nat.splits)
  then have g: "csv_good k1" by (simp add: csv_good_def)
  show ?thesis
  proof (cases q)
    case (Inl e)
    with assms(2) w have "r = Inl e" "k' = k1" by simp_all
    with k1 g show ?thesis by (auto intro!: exI [where x = 0])
  next
    case (Inr u)
    with assms(2) w k1(3)
    have "csv_write_rows sample_columns (map (sample_to_row message) samples) k1 = (r, k')" by simp
    from csv_rows_step [OF this] k1 True show ?thesis by (auto simp: csv_good_def split: sum.splits)
  qed
qed

interpretation csv: sample_sink "csv_ops message" csv_rows "sample_tuple message" csv_good
    "\<lambda>k. tf_open (cv_file k)"
  for message
proof unfold_locales
  fix k :: csv_sink and xs u k'
  assume "csv_good k" "sk_write_many (csv_ops message) xs k = (Inr u, k')"
  then show "tf_open (cv_file k) \<and> tf_open (cv_file k') \<and>
      csv_rows k' = csv_rows k @ map (sample_tuple message) xs"
    using csv_write_cases [of k message xs "Inr u" k'] by (simp add: csv_ops_def)
next
  fix k :: csv_sink and xs e k'
  assume "csv_good k" "sk_write_many (csv_ops message) xs k = (Inl e, k')"
  then show "\<exists>n \<le> length xs. csv_rows k' = csv_rows k @ map (sample_tuple message) (take n xs)"
    using csv_write_cases [of k message xs "Inl e" k'] by (simp add: csv_ops_def)
next
  fix k :: csv_sink and xs
  assume "csv_good k"
  then show "csv_good (snd (sk_write_many (csv_ops message) xs k))"
    using csv_write_cases [of k message xs "fst (csv_write_many message xs k)"
        "snd (csv_write_many message xs k)"] by (simp add: csv_ops_def)
qed (auto simp: csv_ops_def csv_write_many_def csv_open_def csv_close_def csv_good_def csv_rows_def
    file_open_def file_close_def split: if_splits)

text \<open>A file with a header, once there is a row.\<close>

definition csv_headed :: "csv_sink \<Rightarrow> bool" where
  "csv_headed k \<longleftrightarrow> csv_good k \<and>
     (if cv_writer k = None then tf_lines (cv_file k) = []
      else tf_lines (cv_file k) = CsvHeader sample_columns # map CsvRow (csv_rows k) \<and> csv_rows k \<noteq> [])"

lemma csv_headed_write:
  assumes "csv_headed k" and "csv_write_many message samples k = (Inr u, k')"
  shows "csv_headed k'"
proof (cases "samples = []")
  case True
  with assms show ?thesis by (simp add: csv_write_many_def split: if_splits)
next
  case False
  have g: "csv_good k" and o: "tf_open (cv_file k)"
    using assms by (auto simp: csv_headed_def csv_write_many_def split: if_splits)
  have hd: "keys (hd (map (sample_to_row message) samples)) = sample_columns" using False by (simp add: hd_map)
  obtain q k1 where
    h: "(if cv_writer k = None then csv_write_header sample_columns k else (Inr (), k)) = (q, k1)"
    by fastforce
  have w: "csv_write_many message samples k =
    (case (q, k1) of
       (Inl e, k) \<Rightarrow> (Inl e, k)
     | (Inr _, k) \<Rightarrow>
         (case cv_columns k of
            None \<Rightarrow> (Inl (Py AssertionError), k)
          | Some columns \<Rightarrow> csv_write_rows columns (map (sample_to_row message) samples) k))"
    unfolding csv_write_many_def Let_def hd h using False o by simp
  with assms(2) have q: "q = Inr ()" by (cases q) auto
  have "tf_lines (cv_file k1) = CsvHeader sample_columns # map CsvRow (csv_rows k) \<and>
      csv_rows k1 = csv_rows k \<and> cv_columns k1 = Some sample_columns \<and> cv_writer k1 \<noteq> None \<and>
      tf_open (cv_file k1)"
  proof (cases "cv_writer k")
    case None
    then have e: "tf_lines (cv_file k) = []" using assms(1) by (simp add: csv_headed_def)
    obtain q' f where f: "file_write (CsvHeader sample_columns) (cv_file k) = (q', f)" by fastforce
    with h q None have "q' = Inr ()" and k1: "k1 = k\<lparr>cv_columns := Some sample_columns,
        cv_writer := Some sample_columns, cv_file := f\<rparr>"
      by (simp_all add: csv_write_header_def Let_def)
    with f have "tf_lines f = [CsvHeader sample_columns]" "tf_open f"
      using e o by (auto elim: file_write_cases)
    with k1 e show ?thesis by (simp add: csv_rows_def)
  next
    case (Some cs)
    with h have "k1 = k" by simp
    with Some assms(1) o show ?thesis by (simp add: csv_headed_def csv_good_def)
  qed
  note k1 = this
  from assms(2) w q k1
  have "csv_write_rows sample_columns (map (sample_to_row message) samples) k1 = (Inr u, k')" by simp
  from csv_rows_step [OF this]
  have "csv_rows k' = csv_rows k1 @ map (sample_tuple message) samples"
    and "tf_lines (cv_file k') = tf_lines (cv_file k1) @ map (\<lambda>x. CsvRow (sample_tuple message x)) samples"
    and "tf_open (cv_file k')" "cv_columns k' = Some sample_columns" "cv_writer k' \<noteq> None"
    using k1 by simp_all
  moreover from this(1,2) k1
  have "tf_lines (cv_file k') = CsvHeader sample_columns # map CsvRow (csv_rows k')" by (simp add: comp_def)
  ultimately show ?thesis using False by (simp add: csv_headed_def csv_good_def)
qed

lemma csv_opened:
  assumes "tf_open (cv_file k) = False" and "cv_writer k = None" and "csv_open k = (Inr (), k0)"
  shows "csv_headed k0" "csv_rows k0 = []" "tf_open (cv_file k0)" "tf_room (cv_file k0) = tf_room (cv_file k)"
  using assms by (auto simp: csv_open_def file_open_def csv_headed_def csv_good_def csv_rows_def
      split: if_splits)

lemma piped_zip: "length ts = length bs \<Longrightarrow> piped_samples (zip bs ts) = concat (map (map snd) bs)"
proof -
  assume "length ts = length bs"
  then have "map (\<lambda>p. map snd (fst p)) (zip bs ts) = map (map snd) bs"
    by (induction bs ts rule: list_induct2') auto
  then show ?thesis by simp
qed

text \<open>A file on a disk with room takes every write.\<close>

lemma csv_rows_room:
  "tf_room (cv_file k) = None \<Longrightarrow>
     \<exists>k'. csv_write_rows columns rows k = (Inr (), k') \<and> tf_room (cv_file k') = None"
proof (induction rows arbitrary: k)
  case (Cons row rows)
  then show ?case by (simp add: Let_def file_write_def csv_warn_def)
qed simp

lemma csv_room_write:
  assumes "csv_good k \<and> tf_open (cv_file k) \<and> tf_room (cv_file k) = None"
  shows "\<exists>k'. csv_write_many message samples k = (Inr (), k') \<and>
     csv_good k' \<and> tf_open (cv_file k') \<and> tf_room (cv_file k') = None"
proof (cases "samples = []")
  case True
  with assms show ?thesis by (simp add: csv_write_many_def)
next
  case False
  then have hd: "keys (hd (map (sample_to_row message) samples)) = sample_columns" by (simp add: hd_map)
  obtain k1 where
    h: "(if cv_writer k = None then csv_write_header sample_columns k else (Inr (), k)) = (Inr (), k1)"
    and k1: "cv_columns k1 = Some sample_columns" "tf_room (cv_file k1) = None"
    using assms
    by (cases "cv_writer k") (simp_all add: csv_write_header_def file_write_def csv_good_def Let_def)
  obtain k2 where w: "csv_write_rows sample_columns (map (sample_to_row message) samples) k1 = (Inr (), k2)"
    "tf_room (cv_file k2) = None" using csv_rows_room [OF k1(2)] by blast
  have "csv_write_many message samples k = (Inr (), k2)"
    unfolding csv_write_many_def Let_def hd h using False assms k1(1) w(1) by simp
  with csv_write_cases [of k message samples "Inr ()" k2] assms w(2) show ?thesis by simp
qed

text \<open>What a recording of one balance sends.\<close>

lemma one_balance_batches:
  assumes "record_run (adapter_poll serial_ops ticks name None) rate_hz duration overflow buffer_size
      start started_at finished_at evs p = Inr (how, rec)"
  shows "length (concat (map (map snd) (rc_sent rec))) = sm_emitted (rc_summary rec)"
  using assms
proof (cases rule: record_run_start)
  case (1 tick rec0 rec1)
  let ?P = "\<lambda>rs :: (string \<times> Reading DeviceResult) list. length rs = 1"
  have "(\<forall>b \<in> set (rc_sent rec1). \<exists>rs a c d e. b = build_batch rs a c d e \<and> ?P rs) \<and> (\<forall>e. how \<noteq> Failed e)"
  proof (rule producer_batches [OF 1(7,2)])
    fix q rs assume "fst (adapter_poll serial_ops ticks name None q) = Inr rs"
    with adapter_polls [of ticks name q] show "?P rs" by auto
  next
    fix q show "\<exists>rs. fst (adapter_poll serial_ops ticks name None q) = Inr rs"
      using adapter_polls [of ticks name q] by blast
  qed (use 1(4) in simp)
  then have "\<forall>b \<in> set (rc_sent rec). length b = 1" using 1(8) by (auto simp: build_batch_def)
  then have "length (concat (map (map snd) (rc_sent rec))) = length (rc_sent rec)"
    by (induction "rc_sent rec" rule: rev_induct) (simp_all add: length_concat comp_def sum_list_triv cong: map_cong)
  moreover have "length (rc_sent rec) = sm_emitted (rc_summary rec)"
    using producer_balanced [OF 1(7,2,3)] 1(8,10) by (auto simp: balanced_def in_range_def split: option.splits)
  ultimately show ?thesis by simp
qed

section \<open>Properties\<close>

text \<open>
  C16. A recording of one balance into a CSV file is complete: when the recording has ended, however
  it ended, its batches have been piped to a newly opened file without an exception, and the file is
  closed, then the file is empty if there was no batch, and otherwise a header with the columns of a
  sample followed by exactly one row for each sample, in the order of the recording, with its values
  under those columns. The summaries of the recorder and of the pipe agree on the number of rows.
\<close>

theorem recording_to_csv_is_complete:
  assumes "record_run (adapter_poll serial_ops ticks name None) rate_hz duration overflow buffer_size
      start started_at finished_at evs p = Inr (how, rec)"
    and "tf_open (cv_file k) = False" and "cv_writer k = None" and "csv_open k = (Inr (), k0)"
    and "length stamps = length (rc_sent rec)"
    and "pipe (csv_ops message) batch_size flush_interval s0 f0 t0 None (zip (rc_sent rec) stamps) k0
      = (Inr sm, k1)"
  shows "tf_lines (cv_file (snd (csv_close k1))) =
       (let samples = concat (map (map snd) (rc_sent rec))
        in if samples = [] then []
           else CsvHeader sample_columns # map (\<lambda>x. CsvRow (sample_tuple message x)) samples) \<and>
     sm_emitted sm = sm_emitted (rc_summary rec)"
proof -
  let ?samples = "concat (map (map snd) (rc_sent rec))"
  note k0 = csv_opened [OF assms(2-4)]
  have g: "csv_good k0" using k0(1) by (simp add: csv_headed_def)
  from csv.pipe_stores [OF g assms(6)] k0(2) piped_zip [OF assms(5)]
  have r: "csv_rows k1 = map (sample_tuple message) ?samples" "sm_emitted sm = length ?samples" by auto
  have "csv_headed k1"
    by (rule pipe_keeps [where P = csv_headed, OF _ k0(1) assms(6)])
      (auto simp: csv_ops_def intro: csv_headed_write)
  then have "tf_lines (cv_file k1) = (if csv_rows k1 = [] then []
      else CsvHeader sample_columns # map CsvRow (csv_rows k1))"
    by (auto simp: csv_headed_def csv_rows_def split: if_splits)
  moreover have "tf_lines (cv_file (snd (csv_close k1))) = tf_lines (cv_file k1)"
    by (simp add: csv_close_def file_close_def)
  ultimately show ?thesis using r one_balance_batches [OF assms(1)] by (simp add: Let_def comp_def)
qed

definition demo_csv :: csv_sink where
  "demo_csv = \<lparr>cv_file = \<lparr>tf_lines = [CsvHeader [''old'']], tf_open = False, tf_can_open = True, tf_room = None\<rparr>,
     cv_writer = None, cv_columns = None, cv_unknown_columns_warned = []\<rparr>"

text \<open>Two ticks of a printing balance, piped in flushes of one sample over an older file.\<close>

theorem recording_to_csv_is_complete_witness:
  "\<exists>how rec k0 sm k1.
     record_run (adapter_poll serial_ops 0 ''bal'' None) 2 (Some 1) BLOCK 4 0 0 0 [demo_env 0, demo_env 1]
       (printing_balance, demo_serial [RxChunk demo_weight] (\<lambda>_. [])) = Inr (how, rec) \<and>
     csv_open demo_csv = (Inr (), k0) \<and>
     pipe (csv_ops (\<lambda>_. [])) 1 5 0 0 0 None (zip (rc_sent rec) (replicate (length (rc_sent rec)) 1)) k0
       = (Inr sm, k1) \<and>
     sm_emitted sm = 2 \<and> length (tf_lines (cv_file (snd (csv_close k1)))) = 3"
proof -
  let ?src = "adapter_poll serial_ops 0 ''bal'' None"
    and ?p = "(printing_balance, demo_serial [RxChunk demo_weight] (\<lambda>_. []))"
  have n: "total_ticks (Some 1) 2 = Some 2" by code_simp
  have "\<exists>how rec. record_run ?src 2 (Some 1) BLOCK 4 0 0 0 [demo_env 0, demo_env 1] ?p = Inr (how, rec)"
    by (rule record_run_returns) simp_all
  then obtain how rec where
    r: "record_run ?src 2 (Some 1) BLOCK 4 0 0 0 [demo_env 0, demo_env 1] ?p = Inr (how, rec)" by blast
  have e: "sm_emitted (rc_summary rec) = 2"
    using r
  proof (cases rule: record_run_start)
    case (1 tick rec0 rec1)
    have polls: "\<forall>q. \<exists>rs. fst (?src q) = Inr rs" using adapter_polls by blast
    have "how = Finished"
      using producer_finishes [OF 1(7) [unfolded n] 1(2) polls] by simp
    then have "sm_emitted (rc_summary rec1) + sm_late (rc_summary rec1) = 2"
      using producer_balanced [OF 1(7,2,3)] n by (auto simp: balanced_def in_range_def all_done_def)
    moreover have "list_all2 (\<lambda>k ev. te_now ev \<le> target_time 0 (1 / 2) k + 1 / 2)
        [0..<length [demo_env 0, demo_env 1]] [demo_env 0, demo_env 1]"
      by (simp add: demo_env_def target_time_def upt_rec)
    then have "sm_late (rc_summary rec1) = 0"
      using producer_on_time [OF 1(7,2)] 1(6) by (simp add: late_only_skipped_def)
    ultimately show ?thesis using 1(10) by simp
  qed
  obtain k0 where k0: "csv_open demo_csv = (Inr (), k0)" "csv_good k0 \<and> tf_open (cv_file k0) \<and> tf_room (cv_file k0) = None"
    by (simp add: csv_open_def demo_csv_def file_open_def csv_good_def)
  let ?stamps = "replicate (length (rc_sent rec)) (1 :: rat)"
  obtain sm k1 where p: "pipe (csv_ops (\<lambda>_. [])) 1 5 0 0 0 None (zip (rc_sent rec) ?stamps) k0 = (Inr sm, k1)"
    using pipe_returns [where P = "\<lambda>k. csv_good k \<and> tf_open (cv_file k) \<and> tf_room (cv_file k) = None"
        and ops = "csv_ops (\<lambda>_. [])", OF _ k0(2), of 1 5] csv_room_write
    by (fastforce simp: csv_ops_def)
  let ?samples = "concat (map (map snd) (rc_sent rec))"
  have "tf_lines (cv_file (snd (csv_close k1))) =
      (let samples = ?samples in if samples = [] then []
       else CsvHeader sample_columns # map (\<lambda>x. CsvRow (sample_tuple (\<lambda>_. []) x)) samples) \<and>
     sm_emitted sm = sm_emitted (rc_summary rec)"
    by (rule recording_to_csv_is_complete [OF r _ _ k0(1) _ p]) (simp_all add: demo_csv_def)
  moreover have l: "length ?samples = 2" using one_balance_batches [OF r] e by simp
  moreover from l have "?samples \<noteq> []" by (cases ?samples) auto
  ultimately have "sm_emitted sm = 2" "length (tf_lines (cv_file (snd (csv_close k1)))) = 3"
    using e by (simp_all only: Let_def if_False length_Cons length_map)
  with r k0(1) p show ?thesis by blast
qed


definition demo_sample :: "string \<Rightarrow> Sample" where
  "demo_sample device =
     \<lparr>sa_device = device, sa_reading = None, sa_t_mono_ns = 0, sa_t_utc = 0, sa_requested_at = 0,
      sa_received_at = 0, sa_latency_us = 0, sa_protocol = None, sa_t_midpoint_mono_ns = None,
      sa_metadata = [], sa_error = Some (Sart SartoriusTimeoutError empty_context)\<rparr>"


end
