(* ===== verification/Sink_Sqlite.thy ===== *)
theory Sink_Sqlite
  imports Sinks
begin

text \<open>
  \<open>sinks/sqlite.py\<close>: the sink over one table of a database file. The database keeps the table, the
  rows that are committed and those of an open transaction; which statements fail, and after how
  many rows, is given with it. Type affinities are not modelled, and the statement texts are
  represented by their table and columns.
\<close>

section \<open>The database\<close>

text \<open>
  \<open>db_table\<close> holds the declarations of the columns, \<open>None\<close> without a table. \<open>db_faults\<close> has an
  entry for every statement to come: \<open>Some (n, aborts)\<close> if it fails, after \<open>n\<close> rows if it inserts,
  where \<open>aborts\<close> tells whether SQLite then abandons the transaction by itself, as it does when the
  disk is full. Names are compared exactly.
\<close>

record column_decl =
  cd_name :: string
  cd_type :: "string option"
  cd_notnull :: bool

record sqlite_db =
  db_table :: "column_decl list option"
  db_committed :: "cell list list"
  db_pending :: "cell list list option"
  db_faults :: "(nat \<times> bool) option list"

definition next_fault :: "sqlite_db \<Rightarrow> (nat \<times> bool) option \<times> sqlite_db" where
  "next_fault db =
     (case db_faults db of [] \<Rightarrow> (None, db) | f # fs \<Rightarrow> (f, db\<lparr>db_faults := fs\<rparr>))"

definition db_pragma :: "sqlite_db \<Rightarrow> unit res \<times> sqlite_db" where
  "db_pragma db = (case next_fault db of (f, db) \<Rightarrow> (if f = None then Inr () else Inl (Py SqliteError), db))"

definition db_begin :: "sqlite_db \<Rightarrow> unit res \<times> sqlite_db" where
  "db_begin db =
     (case next_fault db of
        (f, db) \<Rightarrow>
          if f \<noteq> None \<or> db_pending db \<noteq> None then (Inl (Py SqliteError), db)
          else (Inr (), db\<lparr>db_pending := Some []\<rparr>))"

text \<open>The row a table stores for an insertion under the given column names.\<close>

definition stored_row :: "column_decl list \<Rightarrow> string list \<Rightarrow> cell list \<Rightarrow> cell list" where
  "stored_row table names row =
     map (\<lambda>d. case map_of (zip names row) (cd_name d) of None \<Rightarrow> CNone | Some v \<Rightarrow> v) table"

text \<open>
  \<open>executemany\<close>: in a transaction the rows are kept with it, otherwise each is committed by itself.
\<close>

definition db_insert :: "string list \<Rightarrow> cell list list \<Rightarrow> sqlite_db \<Rightarrow> unit res \<times> sqlite_db" where
  "db_insert names rows db =
     (case next_fault db of
        (f, db) \<Rightarrow>
          (case db_table db of
             None \<Rightarrow> (Inl (Py SqliteError), db)
           | Some table \<Rightarrow>
               if \<not> set names \<subseteq> set (map cd_name table) then (Inl (Py SqliteError), db)
               else
                 let new = map (stored_row table names)
                       (case f of None \<Rightarrow> rows | Some (n, aborts) \<Rightarrow> take n rows);
                     db = (case db_pending db of
                             None \<Rightarrow> db\<lparr>db_committed := db_committed db @ new\<rparr>
                           | Some old \<Rightarrow> db\<lparr>db_pending := Some (old @ new)\<rparr>)
                 in (case f of
                       None \<Rightarrow> (Inr (), db)
                     | Some (n, aborts) \<Rightarrow>
                         (Inl (Py SqliteError), if aborts then db\<lparr>db_pending := None\<rparr> else db))))"

definition db_commit :: "sqlite_db \<Rightarrow> unit res \<times> sqlite_db" where
  "db_commit db =
     (case next_fault db of
        (f, db) \<Rightarrow>
          (case db_pending db of
             None \<Rightarrow> (Inl (Py SqliteError), db)
           | Some rows \<Rightarrow>
               case f of
                 Some (n, aborts) \<Rightarrow>
                   (Inl (Py SqliteError), if aborts then db\<lparr>db_pending := None\<rparr> else db)
               | None \<Rightarrow> (Inr (), db\<lparr>db_committed := db_committed db @ rows, db_pending := None\<rparr>)))"

definition db_rollback :: "sqlite_db \<Rightarrow> unit res \<times> sqlite_db" where
  "db_rollback db =
     (case next_fault db of
        (f, db) \<Rightarrow>
          if f \<noteq> None \<or> db_pending db = None then (Inl (Py SqliteError), db)
          else (Inr (), db\<lparr>db_pending := None\<rparr>))"

definition db_create_table :: "column_decl list \<Rightarrow> sqlite_db \<Rightarrow> unit res \<times> sqlite_db" where
  "db_create_table table db =
     (case next_fault db of
        (f, db) \<Rightarrow>
          if f \<noteq> None then (Inl (Py SqliteError), db)
          else (Inr (), if db_table db = None then db\<lparr>db_table := Some table\<rparr> else db))"

text \<open>Closing the connection drops what is not committed.\<close>

definition db_close :: "sqlite_db \<Rightarrow> sqlite_db" where
  "db_close db = db\<lparr>db_pending := None\<rparr>"

section \<open>The sink\<close>

text \<open>\<open>[A-Za-z_][A-Za-z0-9_]{0,62}\<close>.\<close>

definition validate_identifier :: "string \<Rightarrow> string res" where
  "validate_identifier name =
     (case name of
        [] \<Rightarrow> Inl (Py ValueError)
      | c # cs \<Rightarrow>
          if (is_letter c \<or> c = CHR ''_'') \<and> length cs \<le> 62 \<and>
             list_all (\<lambda>d. is_letter d \<or> is_digit d \<or> d = CHR ''_'') cs
          then Inr name else Inl (Py ValueError))"

definition column_type :: "ColumnSpec \<Rightarrow> string" where
  "column_type col =
     (if cs_python_type col = TFloat then ''REAL''
      else if cs_python_type col \<in> {TInt, TBool} then ''INTEGER''
      else ''TEXT'')"

text \<open>\<open>sq_insert_sql\<close> stands for the columns of the prepared statement.\<close>

record SqliteSink =
  sq_table :: string
  sq_create_table :: bool
  sq_conn :: bool
  sq_schema :: SchemaLock
  sq_insert_sql :: "string list option"
  sq_db :: sqlite_db

definition SqliteSink_init :: "string \<Rightarrow> bool \<Rightarrow> int \<Rightarrow> sqlite_db \<Rightarrow> SqliteSink res" where
  "SqliteSink_init table create_table busy_timeout_ms db =
     res_bind (validate_identifier table) (\<lambda>table.
       if busy_timeout_ms < 0 then Inl (Py ValueError)
       else Inr \<lparr>sq_table = table, sq_create_table = create_table, sq_conn = False,
                 sq_schema = SchemaLock_init, sq_insert_sql = None, sq_db = db\<rparr>)"

text \<open>A statement on the connection of a sink.\<close>

definition on_db :: "(sqlite_db \<Rightarrow> 'a res \<times> sqlite_db) \<Rightarrow> SqliteSink \<Rightarrow> 'a res \<times> SqliteSink" where
  "on_db stmt k = (case stmt (sq_db k) of (r, db) \<Rightarrow> (r, k\<lparr>sq_db := db\<rparr>))"

text \<open>Connecting, with its three pragmas.\<close>

definition connect_blocking :: "SqliteSink \<Rightarrow> unit res \<times> SqliteSink" where
  "connect_blocking k =
     (case on_db db_pragma k of
        (Inl e, k) \<Rightarrow> (Inl e, k)
      | (Inr _, k) \<Rightarrow>
          (case on_db db_pragma k of
             (Inl e, k) \<Rightarrow> (Inl e, k)
           | (Inr _, k) \<Rightarrow> on_db db_pragma k))"

definition build_insert_sql :: "SqliteSink \<Rightarrow> string list" where
  "build_insert_sql k = (case sl_columns (sq_schema k) of None \<Rightarrow> [] | Some cs \<Rightarrow> map cs_name cs)"

definition contains_text :: "string \<Rightarrow> string \<Rightarrow> bool" where
  "contains_text sub s \<longleftrightarrow> find_sub sub s \<noteq> None"

definition declared_type :: "string option \<Rightarrow> py_type" where
  "declared_type decl =
     (let upper = py_upper (case decl of None \<Rightarrow> [] | Some t \<Rightarrow> t)
      in if contains_text ''BOOL'' upper then TBool
         else if contains_text ''INT'' upper then TInt
         else if list_ex (\<lambda>token. contains_text token upper) [''REAL'', ''FLOA'', ''DOUB''] then TFloat
         else TStr)"

definition introspect_existing_table :: "SqliteSink \<Rightarrow> unit res \<times> SqliteSink" where
  "introspect_existing_table k =
     (case on_db db_pragma k of
        (Inl e, k) \<Rightarrow> (Inl e, k)
      | (Inr _, k) \<Rightarrow>
          let table = (case db_table (sq_db k) of None \<Rightarrow> [] | Some table \<Rightarrow> table)
          in if table = [] then (raise SartoriusSinkSchemaError, k)
             else
               let specs = map (\<lambda>d. \<lparr>cs_name = cd_name d, cs_python_type = declared_type (cd_type d),
                                    cs_nullable = (\<not> cd_notnull d)\<rparr>) table
               in case schema_lock_to specs (sq_schema k) of
                    (Inl e, sl) \<Rightarrow> (Inl e, k\<lparr>sq_schema := sl\<rparr>)
                  | (Inr _, sl) \<Rightarrow>
                      let k = k\<lparr>sq_schema := sl\<rparr>
                      in (Inr (), k\<lparr>sq_insert_sql := Some (build_insert_sql k)\<rparr>))"

definition sqlite_open :: "SqliteSink \<Rightarrow> unit res \<times> SqliteSink" where
  "sqlite_open k =
     (if sq_conn k then (Inr (), k)
      else case connect_blocking k of
             (Inl e, k) \<Rightarrow> (Inl e, k\<lparr>sq_db := db_close (sq_db k)\<rparr>)
           | (Inr _, k) \<Rightarrow>
               let k = k\<lparr>sq_conn := True\<rparr>
               in if sq_create_table k then (Inr (), k)
                  else case introspect_existing_table k of
                         (Inl e, k) \<Rightarrow> (Inl e, k\<lparr>sq_conn := False, sq_db := db_close (sq_db k)\<rparr>)
                       | (Inr _, k) \<Rightarrow> (Inr (), k))"

text \<open>\<open>sqlite3.Error\<close> becomes the error class of the package.\<close>

definition sink_write_error :: "'a res \<Rightarrow> 'a res" where
  "sink_write_error r =
     (case r of Inl (Py SqliteError) \<Rightarrow> raise SartoriusSinkWriteError | _ \<Rightarrow> r)"

definition create_table_blocking :: "SqliteSink \<Rightarrow> unit res \<times> SqliteSink" where
  "create_table_blocking k =
     (case sl_columns (sq_schema k) of
        None \<Rightarrow> (Inl (Py AssertionError), k)
      | Some columns \<Rightarrow>
          (case on_db (db_create_table (map (\<lambda>spec. \<lparr>cd_name = cs_name spec,
                  cd_type = Some (column_type spec), cd_notnull = False\<rparr>) columns)) k of
             (r, k) \<Rightarrow> (sink_write_error r, k)))"

text \<open>The three statements; a failed rollback is logged.\<close>

definition executemany_blocking :: "cell list list \<Rightarrow> SqliteSink \<Rightarrow> unit res \<times> SqliteSink" where
  "executemany_blocking rows k =
     (case sq_insert_sql k of
        None \<Rightarrow> (Inl (Py AssertionError), k)
      | Some names \<Rightarrow>
          let attempt =
            (case on_db db_begin k of
               (Inl e, k) \<Rightarrow> (Inl e, k)
             | (Inr _, k) \<Rightarrow>
                 (case on_db (db_insert names rows) k of
                    (Inl e, k) \<Rightarrow> (Inl e, k)
                  | (Inr _, k) \<Rightarrow> on_db db_commit k))
          in case attempt of
               (Inr _, k) \<Rightarrow> (Inr (), k)
             | (Inl e, k) \<Rightarrow> (sink_write_error (Inl e), snd (on_db db_rollback k)))"

definition sqlite_lock_first :: "(string \<times> cell) list list \<Rightarrow> SqliteSink \<Rightarrow> unit res \<times> SqliteSink" where
  "sqlite_lock_first rows k =
     (if \<not> is_locked (sq_schema k) \<and> sq_create_table k
      then case schema_lock rows (sq_schema k) of
             (Inl e, sl) \<Rightarrow> (Inl e, k\<lparr>sq_schema := sl\<rparr>)
           | (Inr _, sl) \<Rightarrow>
               (case create_table_blocking (k\<lparr>sq_schema := sl\<rparr>) of
                  (Inl e, k) \<Rightarrow> (Inl e, k)
                | (Inr _, k) \<Rightarrow> (Inr (), k\<lparr>sq_insert_sql := Some (build_insert_sql k)\<rparr>))
      else (Inr (), k))"

definition sqlite_write_many ::
  "(exn \<Rightarrow> string) \<Rightarrow> Sample list \<Rightarrow> SqliteSink \<Rightarrow> unit res \<times> SqliteSink" where
  "sqlite_write_many message samples k =
     (if \<not> sq_conn k then (Inl (Py RuntimeError), k)
      else if samples = [] then (Inr (), k)
      else
        let rows = map (sample_to_row message) samples
        in case sqlite_lock_first rows k of
             (Inl e, k) \<Rightarrow> (Inl e, k)
           | (Inr _, k) \<Rightarrow>
               if sq_insert_sql k = None then (Inl (Py AssertionError), k)
               else if \<not> is_locked (sq_schema k) then (Inl (Py AssertionError), k)
               else case project_rows rows (sq_schema k) of
                      (Inl e, sl) \<Rightarrow> (Inl e, k\<lparr>sq_schema := sl\<rparr>)
                    | (Inr projected, sl) \<Rightarrow>
                        executemany_blocking projected (k\<lparr>sq_schema := sl\<rparr>))"

definition sqlite_close :: "SqliteSink \<Rightarrow> unit res \<times> SqliteSink" where
  "sqlite_close k =
     (Inr (), if sq_conn k then k\<lparr>sq_conn := False, sq_db := db_close (sq_db k)\<rparr> else k)"

definition sqlite_ops :: "(exn \<Rightarrow> string) \<Rightarrow> SqliteSink sink_ops" where
  "sqlite_ops message =
     \<lparr>sk_open = sqlite_open, sk_write_many = sqlite_write_many message, sk_close = sqlite_close\<rparr>"

section \<open>What a write stores\<close>

definition table_row :: "(exn \<Rightarrow> string) \<Rightarrow> string list \<Rightarrow> Sample \<Rightarrow> cell list" where
  "table_row message names sample = map (value_of (sample_to_row message sample)) names"

lemma stored_table_row:
  assumes "set cols \<subseteq> set (map cd_name table)" and "cols = sample_columns \<or> cols = map cd_name table"
  shows "stored_row table cols (map (value_of (sample_to_row message x)) cols)
    = table_row message (map cd_name table) x"
proof -
  have "(case map_of (zip cols (map (value_of (sample_to_row message x)) cols)) n of None \<Rightarrow> CNone | Some v \<Rightarrow> v)
      = value_of (sample_to_row message x) n" if "n \<in> set (map cd_name table)" for n
  proof (cases "n \<in> set cols")
    case True
    then show ?thesis by (simp add: map_of_zip_map)
  next
    case False
    with that assms(2) have "n \<notin> set (keys (sample_to_row message x))" by auto
    then have "map_of (sample_to_row message x) n = None" by (simp only: map_of_eq_None_iff set_map not_False_eq_True)
    with False show ?thesis by (simp add: map_of_zip_map value_of_def)
  qed
  then show ?thesis by (simp add: stored_row_def table_row_def)
qed

text \<open>One of the three statements of a write, and what the whole leaves behind.\<close>

lemma begin_cases:
  assumes "db_begin db = (r, db')"
  obtains (ok) "r = Inr ()" "db_pending db = None" "db_pending db' = Some []"
      "db_committed db' = db_committed db" "db_table db' = db_table db"
  | (failed) "r = Inl (Py SqliteError)" "db_committed db' = db_committed db" "db_table db' = db_table db"
  using assms by (auto simp: db_begin_def next_fault_def split: list.splits if_splits)

lemma insert_cases:
  assumes "db_insert names rows db = (r, db')" and "db_pending db = Some old"
  obtains (ok) table where "r = Inr ()" "db_table db = Some table" "set names \<subseteq> set (map cd_name table)"
      "db_pending db' = Some (old @ map (stored_row table names) rows)"
      "db_committed db' = db_committed db" "db_table db' = db_table db"
  | (failed) "r = Inl (Py SqliteError)" "db_committed db' = db_committed db" "db_table db' = db_table db"
  using assms
  by (auto simp: db_insert_def next_fault_def Let_def
      split: list.splits if_splits option.splits prod.splits)

lemma commit_cases:
  assumes "db_commit db = (r, db')" and "db_pending db = Some rows"
  obtains (ok) "r = Inr ()" "db_committed db' = db_committed db @ rows" "db_table db' = db_table db"
  | (failed) "r = Inl (Py SqliteError)" "db_committed db' = db_committed db" "db_table db' = db_table db"
  using assms
  by (auto simp: db_commit_def next_fault_def split: list.splits if_splits option.splits prod.splits)

lemma rollback_kept:
  "db_committed (snd (db_rollback db)) = db_committed db" "db_table (snd (db_rollback db)) = db_table db"
  by (auto simp: db_rollback_def next_fault_def split: list.splits)

lemma on_db_result: "on_db stmt k = (r, k') \<longleftrightarrow> (\<exists>db. stmt (sq_db k) = (r, db) \<and> k' = k\<lparr>sq_db := db\<rparr>)"
  by (auto simp: on_db_def split: prod.splits)

lemma executemany_result:
  assumes "executemany_blocking rows k = (r, k')" and "sq_insert_sql k = Some names"
  shows "k' = k\<lparr>sq_db := sq_db k'\<rparr> \<and> db_table (sq_db k') = db_table (sq_db k) \<and>
    (case r of
       Inr _ \<Rightarrow> \<exists>table. db_table (sq_db k) = Some table \<and> set names \<subseteq> set (map cd_name table) \<and>
         db_committed (sq_db k') = db_committed (sq_db k) @ map (stored_row table names) rows
     | Inl e \<Rightarrow> e = Sart SartoriusSinkWriteError empty_context \<and>
         db_committed (sq_db k') = db_committed (sq_db k))"
proof -
  have give_up: ?thesis
    if "executemany_blocking rows k = (sink_write_error (Inl (Py SqliteError)), snd (on_db db_rollback (k\<lparr>sq_db := db\<rparr>)))"
      "db_committed db = db_committed (sq_db k)" "db_table db = db_table (sq_db k)" for db
  proof -
    have "snd (on_db db_rollback (k\<lparr>sq_db := db\<rparr>)) = k\<lparr>sq_db := snd (db_rollback db)\<rparr>"
      by (simp add: on_db_def split: prod.splits)
    with that assms(1) rollback_kept [of db] show ?thesis
      by (auto simp: sink_write_error_def raise_def)
  qed
  obtain q1 d1 where b: "db_begin (sq_db k) = (q1, d1)" by fastforce
  from b show ?thesis
  proof (cases rule: begin_cases)
    case failed
    then show ?thesis
      by (intro give_up [of d1]) (simp_all add: executemany_blocking_def assms(2) on_db_def b Let_def)
  next
    case ok
    obtain q2 d2 where i: "db_insert names rows d1 = (q2, d2)" by fastforce
    from i ok(3) show ?thesis
    proof (cases rule: insert_cases)
      case failed
      with ok show ?thesis
        by (intro give_up [of d2]) (simp_all add: executemany_blocking_def assms(2) on_db_def b i Let_def)
    next
      case i_ok: (ok table)
      obtain q3 d3 where c: "db_commit d2 = (q3, d3)" by fastforce
      from c i_ok(4) show ?thesis
      proof (cases rule: commit_cases)
        case failed
        with ok i_ok show ?thesis
          by (intro give_up [of d3]) (simp_all add: executemany_blocking_def assms(2) on_db_def b i c Let_def)
      next
        case c_ok: ok
        with ok i_ok assms have "r = Inr ()" "k' = k\<lparr>sq_db := d3\<rparr>"
          by (simp_all add: executemany_blocking_def on_db_def b i c Let_def)
        moreover from this ok i_ok c_ok have "db_committed (sq_db k') =
            db_committed (sq_db k) @ map (stored_row table names) rows" "db_table (sq_db k) = Some table"
          by simp_all
        ultimately show ?thesis using ok(5) i_ok c_ok(3) by auto
      qed
    qed
  qed
qed

section \<open>The contract\<close>

text \<open>
  What holds of a sink for a table with the given columns at every moment: the table has them, or
  is still to be created with the columns of a sample; the schema, once it is locked, has the
  columns of a sample or of the table, and so does the prepared statement; nothing is pending
  without a connection.
\<close>

definition sqlite_good :: "string list \<Rightarrow> SqliteSink \<Rightarrow> bool" where
  "sqlite_good names k \<longleftrightarrow>
     (case db_table (sq_db k) of None \<Rightarrow> names = sample_columns | Some t \<Rightarrow> names = map cd_name t) \<and>
     distinct names \<and> distinct (sl_unknown_warned (sq_schema k)) \<and>
     (is_locked (sq_schema k) \<longrightarrow>
        (\<exists>cols \<in> {sample_columns, names}. locked_on (sq_schema k) cols \<and>
           (sq_insert_sql k = None \<or> sq_insert_sql k = Some cols))) \<and>
     (\<not> is_locked (sq_schema k) \<longrightarrow> sq_insert_sql k = None)"

lemma good_db:
  assumes "sqlite_good names k" and "db_table db = db_table (sq_db k)"
  shows "sqlite_good names (k\<lparr>sq_db := db\<rparr>)"
  using assms by (simp add: sqlite_good_def)

lemma good_conn: "sqlite_good names k \<Longrightarrow> sqlite_good names (k\<lparr>sq_conn := c\<rparr>)"
  by (simp add: sqlite_good_def)

lemma db_close_kept [simp]: "db_table (db_close db) = db_table db" "db_committed (db_close db) = db_committed db"
  by (simp_all add: db_close_def)

text \<open>Nothing but the transaction and the faults to come is different.\<close>

definition data_kept :: "SqliteSink \<Rightarrow> SqliteSink \<Rightarrow> bool" where
  "data_kept k k' \<longleftrightarrow> sq_conn k' = sq_conn k \<and> sq_create_table k' = sq_create_table k \<and>
     sq_schema k' = sq_schema k \<and> sq_insert_sql k' = sq_insert_sql k \<and>
     db_table (sq_db k') = db_table (sq_db k) \<and> db_committed (sq_db k') = db_committed (sq_db k)"

lemma data_kept_trans: "data_kept k k1 \<Longrightarrow> data_kept k1 k2 \<Longrightarrow> data_kept k k2"
  by (simp add: data_kept_def)

lemma data_kept_good: "data_kept k k' \<Longrightarrow> sqlite_good names k \<Longrightarrow> sqlite_good names k'"
  by (simp add: data_kept_def sqlite_good_def)

lemma pragma_kept: "on_db db_pragma k = (r, k') \<Longrightarrow> data_kept k k'"
  by (auto simp: on_db_result db_pragma_def next_fault_def data_kept_def split: list.splits)

lemma connect_kept:
  assumes "connect_blocking k = (r, k')"
  shows "data_kept k k'"
proof -
  obtain r1 k1 where 1: "on_db db_pragma k = (r1, k1)" by fastforce
  obtain r2 k2 where 2: "on_db db_pragma k1 = (r2, k2)" by fastforce
  obtain r3 k3 where 3: "on_db db_pragma k2 = (r3, k3)" by fastforce
  note d = pragma_kept [OF 1] pragma_kept [OF 2] pragma_kept [OF 3]
  have "k' \<in> {k1, k2, k3}"
    using assms 1 2 3 by (auto simp: connect_blocking_def split: sum.splits)
  with d show ?thesis by (blast intro: data_kept_trans)
qed

lemma executemany_kept:
  assumes "executemany_blocking rows k = (r, k')"
  shows "sq_conn k' = sq_conn k" "sq_schema k' = sq_schema k" "sq_insert_sql k' = sq_insert_sql k"
    "db_table (sq_db k') = db_table (sq_db k)"
proof -
  have "sq_conn k' = sq_conn k \<and> sq_schema k' = sq_schema k \<and> sq_insert_sql k' = sq_insert_sql k \<and>
    db_table (sq_db k') = db_table (sq_db k)"
  proof (cases "sq_insert_sql k")
    case None
    with assms show ?thesis by (simp add: executemany_blocking_def)
  next
    case (Some names)
    from executemany_result [OF assms Some] have e: "k' = k\<lparr>sq_db := sq_db k'\<rparr>"
      "db_table (sq_db k') = db_table (sq_db k)" by blast+
    from arg_cong [OF e(1), of sq_conn] arg_cong [OF e(1), of sq_schema]
      arg_cong [OF e(1), of sq_insert_sql] e(2)
    show ?thesis by simp
  qed
  then show "sq_conn k' = sq_conn k" "sq_schema k' = sq_schema k" "sq_insert_sql k' = sq_insert_sql k"
    "db_table (sq_db k') = db_table (sq_db k)" by blast+
qed

lemma introspect_good:
  assumes "introspect_existing_table k = (r, k')" and "sqlite_good names k"
  shows "sqlite_good names k'" "db_committed (sq_db k') = db_committed (sq_db k)" "sq_conn k' = sq_conn k"
proof -
  obtain r1 k1 where p: "on_db db_pragma k = (r1, k1)" by fastforce
  note d = pragma_kept [OF p]
  note g = data_kept_good [OF d assms(2)]
  have "sqlite_good names k' \<and> db_committed (sq_db k') = db_committed (sq_db k) \<and> sq_conn k' = sq_conn k"
  proof (cases "\<exists>u table. r1 = Inr u \<and> db_table (sq_db k1) = Some table \<and> table \<noteq> []")
    case False
    with assms(1) p d g show ?thesis
      by (auto simp: introspect_existing_table_def raise_def data_kept_def split: sum.splits option.splits)
  next
    case True
    then obtain u table where t: "r1 = Inr u" "db_table (sq_db k1) = Some table" "table \<noteq> []" by blast
    let ?specs = "map (\<lambda>d. \<lparr>cs_name = cd_name d, cs_python_type = declared_type (cd_type d),
        cs_nullable = (\<not> cd_notnull d)\<rparr>) table"
    have "distinct names" using g unfolding sqlite_good_def by blast
    moreover have "names = map cd_name table" using g t(2) by (simp add: sqlite_good_def)
    ultimately have n: "names = map cd_name table" "distinct names" by blast+
    show ?thesis
    proof (cases "sl_columns (sq_schema k1)")
      case None
      then have l: "schema_lock_to ?specs (sq_schema k1)
          = (Inr ?specs, (sq_schema k1)\<lparr>sl_columns := Some ?specs, sl_names := names\<rparr>)"
        using t(3) n by (simp add: schema_lock_to_def comp_def)
      let ?k = "k1\<lparr>sq_schema := (sq_schema k1)\<lparr>sl_columns := Some ?specs, sl_names := names\<rparr>\<rparr>"
      have "k' = ?k\<lparr>sq_insert_sql := Some names\<rparr>"
        using assms(1) p t l n by (simp add: introspect_existing_table_def Let_def build_insert_sql_def comp_def)
      moreover have "distinct (sl_unknown_warned (sq_schema k1))"
        using g unfolding sqlite_good_def by blast
      ultimately have "sqlite_good names k'"
        using t(2) n by (simp add: sqlite_good_def is_locked_def locked_on_def comp_def)
      moreover have "db_committed (sq_db k') = db_committed (sq_db k1)" "sq_conn k' = sq_conn k1"
        by (simp_all add: \<open>k' = ?k\<lparr>sq_insert_sql := Some names\<rparr>\<close>)
      ultimately show ?thesis using d by (simp add: data_kept_def)
    next
      case (Some cs)
      then have "k' = k1" using assms(1) p t
        by (simp add: introspect_existing_table_def Let_def schema_lock_to_def)
      with g d show ?thesis by (simp add: data_kept_def)
    qed
  qed
  then show "sqlite_good names k'" "db_committed (sq_db k') = db_committed (sq_db k)" "sq_conn k' = sq_conn k"
    by blast+
qed

lemma open_good:
  assumes "sqlite_open k = (r, k')" and "sqlite_good names k"
  shows "sqlite_good names k'" "db_committed (sq_db k') = db_committed (sq_db k)"
    "r = Inr u \<Longrightarrow> sq_conn k'"
proof -
  obtain r1 k1 where c: "connect_blocking k = (r1, k1)" by fastforce
  note d = connect_kept [OF c]
  note g = data_kept_good [OF d assms(2)]
  have "sqlite_good names k' \<and> db_committed (sq_db k') = db_committed (sq_db k) \<and> (r = Inr u \<longrightarrow> sq_conn k')"
  proof (cases "sq_conn k")
    case True
    with assms show ?thesis by (simp add: sqlite_open_def)
  next
    case False
    show ?thesis
    proof (cases r1)
      case (Inl e)
      with False assms(1) c g d show ?thesis
        by (auto simp: sqlite_open_def data_kept_def intro: good_db)
    next
      case (Inr v)
      let ?k = "k1\<lparr>sq_conn := True\<rparr>"
      show ?thesis
      proof (cases "sq_create_table k1")
        case True
        with False Inr assms(1) c have "k' = ?k" by (simp add: sqlite_open_def Let_def)
        with good_conn [OF g] d show ?thesis by (simp add: data_kept_def)
      next
        case not: False
        obtain r2 k2 where i: "introspect_existing_table ?k = (r2, k2)" by fastforce
        note t = introspect_good [OF i good_conn [OF g]]
        have "k' = (case r2 of Inl e \<Rightarrow> k2\<lparr>sq_conn := False, sq_db := db_close (sq_db k2)\<rparr> | Inr _ \<Rightarrow> k2)"
          "r = r2"
          using False Inr assms(1) c not i by (auto simp: sqlite_open_def Let_def split: sum.splits)
        with t d good_db [OF t(1), of "db_close (sq_db k2)"] good_conn [of names _ False] show ?thesis
          by (auto simp: data_kept_def sqlite_good_def split: sum.splits)
      qed
    qed
  qed
  then show "sqlite_good names k'" "db_committed (sq_db k') = db_committed (sq_db k)"
    "r = Inr u \<Longrightarrow> sq_conn k'" by blast+
qed

lemma firsts_absorb: "set ys \<subseteq> set xs \<Longrightarrow> firsts (xs @ ys) = firsts xs"
proof (induction ys rule: rev_induct)
  case (snoc y ys)
  then show ?case using firsts_simps(4) [of "xs @ ys" y] by simp
qed simp

lemma sample_keys:
  assumes "samples \<noteq> []"
  shows "firsts (concat (map keys (map (sample_to_row message) samples))) = sample_columns"
proof -
  obtain x xs where x: "samples = x # xs" using assms by (cases samples) auto
  have "set (concat (map keys (map (sample_to_row message) xs))) \<subseteq> set sample_columns" by auto
  from firsts_absorb [OF this] show ?thesis unfolding x by (simp add: firsts_distinct)
qed

lemma create_table_result:
  assumes "create_table_blocking k = (r, k')" and "sl_columns (sq_schema k) = Some columns"
  shows "sq_conn k' = sq_conn k \<and> sq_schema k' = sq_schema k \<and> sq_insert_sql k' = sq_insert_sql k \<and>
    db_committed (sq_db k') = db_committed (sq_db k) \<and>
    (db_table (sq_db k') = db_table (sq_db k) \<or> is_ok r \<and> db_table (sq_db k) = None \<and>
       map_option (map cd_name) (db_table (sq_db k')) = Some (map cs_name columns))"
  using assms
  by (auto simp: create_table_blocking_def on_db_def db_create_table_def next_fault_def
      sink_write_error_def raise_def comp_def split: list.splits if_splits)

lemma lock_first_good:
  assumes "sqlite_lock_first (map (sample_to_row message) samples) k = (r, k')" and "sqlite_good names k"
    and "samples \<noteq> []"
  shows "sqlite_good names k'" "db_committed (sq_db k') = db_committed (sq_db k)" "sq_conn k' = sq_conn k"
proof -
  let ?rows = "map (sample_to_row message) samples"
  have "sqlite_good names k' \<and> db_committed (sq_db k') = db_committed (sq_db k) \<and> sq_conn k' = sq_conn k"
  proof (cases "\<not> is_locked (sq_schema k) \<and> sq_create_table k")
    case False
    with assms show ?thesis by (simp add: sqlite_lock_first_def)
  next
    case True
    obtain q sl where l: "schema_lock ?rows (sq_schema k) = (q, sl)" by fastforce
    with True assms(3) obtain specs where q: "q = Inr specs"
      by (auto simp: schema_lock_def is_locked_def Let_def)
    note lk = lock_locked [OF l [unfolded q], unfolded sample_keys [OF assms(3)]]
    let ?k = "k\<lparr>sq_schema := sl\<rparr>"
    obtain c k2 where c: "create_table_blocking ?k = (c, k2)" by fastforce
    have "sl_columns (sq_schema ?k) = Some specs" using lk(1) by simp
    note r = create_table_result [OF c this]
    have "distinct (sl_unknown_warned sl)" "distinct names" "sq_insert_sql k = None"
      using assms(2) True lk(3) unfolding sqlite_good_def by auto
    have tab: "case db_table (sq_db k2) of None \<Rightarrow> names = sample_columns | Some t \<Rightarrow> names = map cd_name t"
      using r lk(4) assms(2) by (auto simp: sqlite_good_def split: option.splits)
    have g: "sqlite_good names (k2\<lparr>sq_insert_sql := i\<rparr>)" if "i \<in> {None, Some sample_columns}" for i
      using that tab r lk(1,2) \<open>distinct (sl_unknown_warned sl)\<close> \<open>distinct names\<close>
      by (auto simp: sqlite_good_def is_locked_def)
    have "k' = k2 \<or> k' = k2\<lparr>sq_insert_sql := Some sample_columns\<rparr>"
      using assms(1) True l q c r lk(1,4)
      by (auto simp: sqlite_lock_first_def build_insert_sql_def split: sum.splits)
    moreover have "k2 = k2\<lparr>sq_insert_sql := None\<rparr>" using r \<open>sq_insert_sql k = None\<close> by simp
    ultimately show ?thesis using g [of None] g [of "Some sample_columns"] r by auto
  qed
  then show "sqlite_good names k'" "db_committed (sq_db k') = db_committed (sq_db k)" "sq_conn k' = sq_conn k"
    by blast+
qed

lemma sqlite_write_result:
  assumes "sqlite_write_many message samples k = (r, k')" and "sqlite_good names k"
  shows "sqlite_good names k' \<and> sq_conn k' = sq_conn k \<and>
    (case r of
       Inr _ \<Rightarrow> sq_conn k \<and>
         db_committed (sq_db k') = db_committed (sq_db k) @ map (table_row message names) samples
     | Inl e \<Rightarrow> db_committed (sq_db k') = db_committed (sq_db k))"
proof (cases "sq_conn k \<and> samples \<noteq> []")
  case False
  with assms show ?thesis by (auto simp: sqlite_write_many_def split: if_splits)
next
  case True
  let ?rows = "map (sample_to_row message) samples"
  obtain q k1 where l: "sqlite_lock_first ?rows k = (q, k1)" by fastforce
  note g = lock_first_good [OF l assms(2)] True
  show ?thesis
  proof (cases "is_ok q \<and> sq_insert_sql k1 \<noteq> None \<and> is_locked (sq_schema k1)")
    case False
    with assms(1) True l have "is_ok r = False" "k' = k1"
      by (auto simp: sqlite_write_many_def is_ok_def split: sum.splits if_splits)
    with g show ?thesis by (cases r) auto
  next
    case run: True
    then obtain cols where c: "cols \<in> {sample_columns, names}" "locked_on (sq_schema k1) cols"
      "sq_insert_sql k1 = Some cols" using g(1,4) by (auto simp: sqlite_good_def)
    have w: "sl_unknown_warned (sq_schema k1) = firsts (sl_unknown_warned (sq_schema k1))"
      using g(1,4) by (simp add: sqlite_good_def firsts_distinct)
    obtain sl where p: "project_rows ?rows (sq_schema k1) = (Inr (map (\<lambda>row. map (value_of row) cols) ?rows), sl)"
      and sl: "locked_on sl cols" "distinct (sl_unknown_warned sl)" "is_locked sl"
      using project_rows_locked [OF c(2) _ w, of ?rows] c(2)
      by (auto simp: locked_on_def is_locked_def)
    let ?k = "k1\<lparr>sq_schema := sl\<rparr>"
    have x: "executemany_blocking (map (\<lambda>row. map (value_of row) cols) ?rows) ?k = (r, k')"
      using assms(1) True l run p by (cases q) (auto simp: sqlite_write_many_def)
    have ins: "sq_insert_sql ?k = Some cols" using c(3) by simp
    note r = executemany_result [OF x ins] and kept = executemany_kept [OF x]
    have good: "sqlite_good names k'"
      using g(1,4) c sl kept by (auto simp: sqlite_good_def)
    show ?thesis
    proof (cases r)
      case (Inl e)
      with r g kept good show ?thesis by simp
    next
      case (Inr u)
      with r obtain table where t: "db_table (sq_db k1) = Some table" "set cols \<subseteq> set (map cd_name table)"
        "db_committed (sq_db k') = db_committed (sq_db k1) @
           map (stored_row table cols) (map (\<lambda>row. map (value_of row) cols) ?rows)" by auto
      have n: "names = map cd_name table" using g(1,4) t(1) by (simp add: sqlite_good_def)
      with stored_table_row [OF t(2)] c(1) have "stored_row table cols (map (value_of (sample_to_row message y)) cols)
          = table_row message names y" for y by blast
      then have "map (stored_row table cols) (map (\<lambda>row. map (value_of row) cols) ?rows)
          = map (table_row message names) samples" by simp
      with t(3) Inr good kept g True show ?thesis by simp
    qed
  qed
qed

interpretation sqlite: atomic_sink "sqlite_ops message" "\<lambda>k. db_committed (sq_db k)"
    "table_row message names" "sqlite_good names" sq_conn
  for message names
proof unfold_locales
  fix k xs u k' assume k: "sqlite_good names k" "sk_write_many (sqlite_ops message) xs k = (Inr u, k')"
  then have "sqlite_write_many message xs k = (Inr u, k')" by (simp add: sqlite_ops_def)
  from sqlite_write_result [OF this k(1)]
  show "sq_conn k \<and> sq_conn k' \<and> db_committed (sq_db k') = db_committed (sq_db k) @ map (table_row message names) xs"
    by simp
next
  fix k xs e k' assume k: "sqlite_good names k" "sk_write_many (sqlite_ops message) xs k = (Inl e, k')"
  then have "sqlite_write_many message xs k = (Inl e, k')" by (simp add: sqlite_ops_def)
  from sqlite_write_result [OF this k(1)] show "db_committed (sq_db k') = db_committed (sq_db k)" by simp
  then show "\<exists>n \<le> length xs. db_committed (sq_db k') = db_committed (sq_db k) @ map (table_row message names) (take n xs)"
    by (auto intro: exI [where x = 0])
next
  fix k xs assume k: "sqlite_good names k"
  obtain r k' where w: "sqlite_write_many message xs k = (r, k')" by fastforce
  from sqlite_write_result [OF w k] w show "sqlite_good names (snd (sk_write_many (sqlite_ops message) xs k))"
    by (simp add: sqlite_ops_def)
next
  fix k assume k: "sqlite_good names k"
  obtain r k' where o: "sqlite_open k = (r, k')" by fastforce
  from open_good [OF o k] o show "sqlite_good names (snd (sk_open (sqlite_ops message) k))"
    "db_committed (sq_db (snd (sk_open (sqlite_ops message) k))) = db_committed (sq_db k)"
    by (simp_all add: sqlite_ops_def)
next
  fix k u k' assume "sqlite_good names k" "sk_open (sqlite_ops message) k = (Inr u, k')"
  then show "sq_conn k'" using open_good(3) [of k "Inr u" k' names u] by (simp add: sqlite_ops_def)
qed (auto simp: sqlite_ops_def sqlite_write_many_def sqlite_close_def sqlite_good_def)

section \<open>A sink that cannot write any more\<close>

definition stuck :: "SqliteSink \<Rightarrow> bool" where
  "stuck k \<longleftrightarrow> is_locked (sq_schema k) \<and> sq_insert_sql k = None \<and> sq_create_table k"

lemma stuck_step:
  assumes "sink_step (sqlite_ops message) call k = (r, k')" and "stuck k"
  shows "stuck k' \<and> acknowledged [call] [r] = []"
proof (cases call)
  case SinkOpen
  obtain r1 k1 where c: "connect_blocking k = (r1, k1)" by fastforce
  from connect_kept [OF c] SinkOpen assms c show ?thesis
    by (auto simp: sqlite_ops_def sqlite_open_def stuck_def data_kept_def Let_def split: sum.splits if_splits)
next
  case (SinkWrite xs)
  with assms show ?thesis
    by (auto simp: sqlite_ops_def sqlite_write_many_def sqlite_lock_first_def stuck_def split: if_splits)
next
  case SinkClose
  with assms show ?thesis by (auto simp: sqlite_ops_def sqlite_close_def stuck_def split: if_splits)
qed

lemma stuck_run:
  "sink_run (sqlite_ops message) calls k = (rs, k') \<Longrightarrow> stuck k \<Longrightarrow> acknowledged calls rs = []"
proof (induction calls arbitrary: k rs)
  case (Cons call calls)
  obtain r k1 where s: "sink_step (sqlite_ops message) call k = (r, k1)" by fastforce
  with Cons.prems(1) obtain rs' where t: "sink_run (sqlite_ops message) calls k1 = (rs', k')" "rs = r # rs'"
    by (auto split: prod.splits)
  from stuck_step [OF s Cons.prems(2)] Cons.IH [OF t(1)] show ?case
    unfolding t(2) sqlite.acknowledged_Cons [of call calls r rs'] by simp
qed simp

section \<open>Properties\<close>

text \<open>
  C15. The database holds exactly what was acknowledged: along every sequence of calls on a sink,
  with any statement failing at any point, also inside a batch, in the commit or in the rollback,
  the committed rows are those from before followed by the rows of the samples whose write
  returned, each once and in order. A write that raises leaves no row behind. The row of a sample
  has its value in every column of the table that it knows and \<open>NULL\<close> in the others.
\<close>

theorem sqlite_commits_what_it_acknowledges:
  assumes "SqliteSink_init table create_table busy_timeout_ms db = Inr k"
    and "case db_table db of None \<Rightarrow> names = sample_columns | Some t \<Rightarrow> names = map cd_name t"
    and "distinct names"
    and "sink_run (sqlite_ops message) calls k = (rs, k')"
  shows "db_committed (sq_db k') =
     db_committed db @ map (table_row message names) (acknowledged calls rs)"
proof -
  have k: "sq_db k = db" "sq_schema k = SchemaLock_init" "sq_insert_sql k = None"
    using assms(1) by (auto simp: SqliteSink_init_def res_bind_def split: sum.splits if_splits)
  then have "sqlite_good names k"
    using assms(2,3) by (simp add: sqlite_good_def SchemaLock_init_def is_locked_def)
  from sqlite.run_stores [OF this assms(4)] k(1) show ?thesis by simp
qed

definition demo_db :: "(nat \<times> bool) option list \<Rightarrow> sqlite_db" where
  "demo_db faults = \<lparr>db_table = None, db_committed = [], db_pending = None, db_faults = faults\<rparr>"

text \<open>
  The second insertion fails after one row and its rollback fails as well; the sink is closed and
  opened again, and writes a third batch.
\<close>

theorem sqlite_commits_what_it_acknowledges_witness:
  "\<exists>k k' rs. SqliteSink_init ''samples'' True 5000
       (demo_db [None, None, None, None, None, None, None, None, Some (1, False), Some (0, False)]) = Inr k \<and>
     sink_run (sqlite_ops (\<lambda>_. []))
       [SinkOpen, SinkWrite [demo_sample ''a''], SinkWrite [demo_sample ''b'', demo_sample ''c''], SinkClose,
        SinkOpen, SinkWrite [demo_sample ''d'']] k = (rs, k') \<and>
     acknowledged [SinkOpen, SinkWrite [demo_sample ''a''], SinkWrite [demo_sample ''b'', demo_sample ''c''],
        SinkClose, SinkOpen, SinkWrite [demo_sample ''d'']] rs = [demo_sample ''a'', demo_sample ''d''] \<and>
     db_committed (sq_db k') = map (table_row (\<lambda>_. []) sample_columns) [demo_sample ''a'', demo_sample ''d'']"
proof -
  let ?db = "demo_db [None, None, None, None, None, None, None, None, Some (1, False), Some (0, False)]"
  let ?k = "\<lparr>sq_table = ''samples'', sq_create_table = True, sq_conn = False, sq_schema = SchemaLock_init,
      sq_insert_sql = None, sq_db = ?db\<rparr>"
  let ?calls = "[SinkOpen, SinkWrite [demo_sample ''a''], SinkWrite [demo_sample ''b'', demo_sample ''c''],
      SinkClose, SinkOpen, SinkWrite [demo_sample ''d'']]"
  obtain rs k' where r: "sink_run (sqlite_ops (\<lambda>_. [])) ?calls ?k = (rs, k')" by fastforce
  have "map is_ok (fst (sink_run (sqlite_ops (\<lambda>_. [])) ?calls ?k)) = [True, True, False, True, True, True]"
    by code_simp
  with r have "map is_ok rs = [True, True, False, True, True, True]" by simp
  then obtain a b e c d f where "rs = [Inr a, Inr b, Inl e, Inr c, Inr d, Inr f]"
    by (auto simp: is_ok_def split: sum.splits)
  then have a: "acknowledged ?calls rs = [demo_sample ''a'', demo_sample ''d'']" by simp
  have i: "SqliteSink_init ''samples'' True 5000 ?db = Inr ?k"
    by (simp add: SqliteSink_init_def validate_identifier_def is_letter_def is_upper_letter_def
        is_lower_letter_def between_def)
  have "db_committed (sq_db k') = db_committed ?db @ map (table_row (\<lambda>_. []) sample_columns) (acknowledged ?calls rs)"
    by (rule sqlite_commits_what_it_acknowledges [OF i _ _ r]) (simp_all add: demo_db_def)
  with i r a show ?thesis by (auto simp: demo_db_def)
qed

text \<open>
  C20. A failed \<open>CREATE TABLE\<close> is final, although the error looks like any failed write: the first
  write has locked the schema by then but has no statement to insert with, so every later write of
  samples raises as well, whatever the database does, and closing and opening the sink does not
  help.
\<close>

theorem failed_create_table_is_final:
  assumes "sq_conn k" and "sq_create_table k" and "\<not> is_locked (sq_schema k)" and "sq_insert_sql k = None"
    and "db_faults (sq_db k) = Some fault # faults" and "samples \<noteq> []"
    and "sqlite_write_many message samples k = (r, k1)"
    and "sink_run (sqlite_ops message) calls k1 = (rs, k')"
  shows "r = raise SartoriusSinkWriteError \<and> acknowledged calls rs = []"
proof -
  let ?rows = "map (sample_to_row message) samples"
  obtain q sl where l: "schema_lock ?rows (sq_schema k) = (q, sl)" by fastforce
  with assms(3,6) obtain specs where q: "q = Inr specs"
    by (auto simp: schema_lock_def is_locked_def Let_def)
  note lk = lock_locked [OF l [unfolded q]]
  have "r = raise SartoriusSinkWriteError \<and> stuck k1"
    using assms(1-7) l q lk(1)
    by (auto simp: sqlite_write_many_def sqlite_lock_first_def create_table_blocking_def on_db_def
        db_create_table_def next_fault_def sink_write_error_def raise_def stuck_def is_locked_def)
  with stuck_run [OF assms(8)] show ?thesis by blast
qed

theorem failed_create_table_is_final_witness:
  "\<exists>k k1 k' rs. sink_run (sqlite_ops (\<lambda>_. [])) [SinkWrite [demo_sample ''a''], SinkClose, SinkOpen] k1 = (rs, k') \<and>
     sqlite_write_many (\<lambda>_. []) [demo_sample ''a''] k = (raise SartoriusSinkWriteError, k1) \<and>
     acknowledged [SinkWrite [demo_sample ''a''], SinkClose, SinkOpen] rs = []"
proof -
  let ?k = "\<lparr>sq_table = ''samples'', sq_create_table = True, sq_conn = True, sq_schema = SchemaLock_init,
      sq_insert_sql = None, sq_db = demo_db [Some (0, False)]\<rparr>"
  obtain r k1 where w: "sqlite_write_many (\<lambda>_. []) [demo_sample ''a''] ?k = (r, k1)" by fastforce
  obtain rs k' where c: "sink_run (sqlite_ops (\<lambda>_. [])) [SinkWrite [demo_sample ''a''], SinkClose, SinkOpen] k1
      = (rs, k')" by fastforce
  have "r = raise SartoriusSinkWriteError \<and>
      acknowledged [SinkWrite [demo_sample ''a''], SinkClose, SinkOpen] rs = []"
    by (rule failed_create_table_is_final [OF _ _ _ _ _ _ w c])
      (simp_all add: SchemaLock_init_def is_locked_def demo_db_def)
  with w c show ?thesis by blast
qed

end
