(* ===== verification/Test_Helpers.thy ===== *)
theory Test_Helpers
  imports Commands Transport_Fake Dictionary
begin

text \<open>
  \<open>testing.py\<close>: the reference frames, the builders of scripts for the fake transport, and the
  parsers of fixture files. A script is a dictionary from requests to replies.
\<close>

section \<open>Reference frames\<close>

text \<open>\<open>bytes([v])\<close>, which raises \<open>ValueError\<close> outside a byte.\<close>

definition one_byte :: "int \<Rightarrow> bytes res" where
  "one_byte v = (if 0 \<le> v \<and> v \<le> 255 then Inr [byte_of_int v] else Inl (Py ValueError))"

definition rx :: "int \<Rightarrow> bytes \<Rightarrow> bytes res" where
  "rx subtype body =
     (let len = 1 + 1 + int (length body) + 1
      in res_bind (one_byte len) (\<lambda>l. res_bind (one_byte subtype) (\<lambda>st.
           let pre = l @ [0x41] @ st @ body in Inr (pre @ [byte_of_int (checksum pre)]))))"

definition ascii_blob :: "int \<Rightarrow> nat \<Rightarrow> string \<Rightarrow> bytes res" where
  "ascii_blob subtype width text =
     (case ascii_encode text of
        None \<Rightarrow> Inl (Py UnicodeError)
      | Some body \<Rightarrow> rx subtype (body @ replicate (width - length body) 0))"

definition short_data_u8 :: "int \<Rightarrow> bytes res" where
  "short_data_u8 v = res_bind (one_byte v) (\<lambda>b. rx 0x21 b)"

text \<open>The requests of \<open>CannedFrames\<close>, with the default addresses, and its acknowledgement.\<close>

definition host_command :: "int \<Rightarrow> bytes \<Rightarrow> bytes res" where
  "host_command opcode args = build_command opcode args HOST_SBN_DEFAULT BALANCE_SBN_DEFAULT"

definition TX_READ_SBN :: "bytes res" where "TX_READ_SBN = host_command 0x71 []"
definition TX_READ_NET :: "bytes res" where "TX_READ_NET = host_command 0x1E []"
definition TX_TARE :: "bytes res" where "TX_TARE = host_command 0x14 []"
definition TX_ZERO :: "bytes res" where "TX_ZERO = host_command 0x18 []"
definition TX_READ_STATUS_BLOCK :: "bytes res" where "TX_READ_STATUS_BLOCK = host_command 0x30 []"
definition TX_READ_MODEL :: "bytes res" where "TX_READ_MODEL = host_command 0x02 []"
definition TX_READ_MANUFACTURER :: "bytes res" where "TX_READ_MANUFACTURER = host_command 0x07 []"
definition TX_READ_SW_VERSION :: "bytes res" where "TX_READ_SW_VERSION = host_command 0x00 []"
definition TX_READ_FACTORY_NUMBER :: "bytes res" where
  "TX_READ_FACTORY_NUMBER = host_command 0x01 []"

definition RX_NET_WEIGHT_EMPTY_PAN :: bytes where
  "RX_NET_WEIGHT_EMPTY_PAN =
     [0x0b, 0x41, 0x48, 0xbb, 0xa3, 0xd7, 0x0a, 0x3d, 0x30, 0x82, 0x45, 0x07]"

definition RX_SBN_00 :: bytes where "RX_SBN_00 = [0x04, 0x41, 0x21, 0x00, 0x66]"
definition RX_ACK :: bytes where "RX_ACK = [0x03, 0x41, 0x00, 0x44]"

definition RX_MODEL_MSE :: "bytes res" where "RX_MODEL_MSE = ascii_blob 0x54 20 ''MSE1203S-100-DR''"
definition RX_MODEL_WZA :: "bytes res" where "RX_MODEL_WZA = ascii_blob 0x54 20 ''WZA8202-N''"
definition RX_MODEL_BCE :: "bytes res" where "RX_MODEL_BCE = ascii_blob 0x54 20 ''BCE3202-1S''"

definition RX_MANUFACTURER_SARTORIUS :: "bytes res" where
  "RX_MANUFACTURER_SARTORIUS = ascii_blob 0x50 16 ''Sartorius''"

definition demo_software :: bytes where
  "demo_software = [0x00, 0x39, 0x21, 0x00, 0x39, 0x01, 0x39, 0x01, 0x00, 0x01]"

definition demo_factory_number :: bytes where
  "demo_factory_number = [0x00, 0x31, 0x80, 0x11, 0x65]"

definition RX_SW_VERSION_MSE :: "bytes res" where "RX_SW_VERSION_MSE = rx 0x4A demo_software"

definition RX_FACTORY_NUMBER_MSE :: "bytes res" where
  "RX_FACTORY_NUMBER_MSE = rx 0x45 demo_factory_number"

definition RX_STATUS_STABLE_CUBIS :: "bytes res" where
  "RX_STATUS_STABLE_CUBIS = rx 0x48 [0x00, 0x00, 0x81, 0x88, 0x18, 0x10, 0x00, 0x42]"

section \<open>Scripts\<close>

type_synonym script = "(bytes \<times> bytes) list"

text \<open>A dictionary display: the entries in order, a later one with the same key winning.\<close>

fun script_of :: "(bytes res \<times> bytes res) list \<Rightarrow> script \<Rightarrow> script res" where
  "script_of [] d = Inr d"
| "script_of ((tx, reply) # entries) d =
     res_bind tx (\<lambda>k. res_bind reply (\<lambda>v. script_of entries (dict_set k v d)))"

definition build_identify_script ::
  "string \<Rightarrow> string \<Rightarrow> bytes option \<Rightarrow> bytes option \<Rightarrow> int \<Rightarrow> script res" where
  "build_identify_script model manufacturer software factory_number sbn =
     (let software = (case software of None \<Rightarrow> demo_software | Some b \<Rightarrow> b);
          factory_number = (case factory_number of None \<Rightarrow> demo_factory_number | Some b \<Rightarrow> b)
      in script_of
           [(TX_READ_MODEL, ascii_blob 0x54 20 model),
            (TX_READ_MANUFACTURER, ascii_blob 0x50 16 manufacturer),
            (TX_READ_SW_VERSION, rx 0x4A software),
            (TX_READ_FACTORY_NUMBER, rx 0x45 factory_number),
            (TX_READ_SBN, short_data_u8 sbn)] [])"

text \<open>
  \<open>struct.pack(">f", value)\<close>: the nearest binary32, ties to even; \<open>OverflowError\<close> for a finite
  value that rounds to infinity.
\<close>

definition f32_word :: "bool \<Rightarrow> int \<Rightarrow> int \<Rightarrow> bytes" where
  "f32_word s e m = be_bytes 4 ((if s then 2 ^ 31 else 0) + e * 2 ^ 23 + m)"

definition pack_f32_be :: "pyfloat \<Rightarrow> bytes res" where
  "pack_f32_be value =
     (case value of
        FNan \<Rightarrow> Inr (f32_word False 255 (2 ^ 22))
      | FInf s \<Rightarrow> Inr (f32_word s 255 0)
      | FFin s q \<Rightarrow>
          if q = 0 then Inr (f32_word s 0 0)
          else case quotient_of q of (n, d) \<Rightarrow>
            let e1 = max (bit_length n - bit_length d - 24) (- 149);
                e = (if scaled n d e1 < 2 ^ 24 then e1 else e1 + 1);
                m = scaled n d e;
                (m, e) = (if m = 2 ^ 24 then (2 ^ 23, e + 1) else (m, e))
            in if 104 < e then Inl (Py OverflowError)
               else if m < 2 ^ 23 then Inr (f32_word s 0 m)
               else Inr (f32_word s (e + 150) (m - 2 ^ 23)))"

definition typed_float_rx :: "pyfloat \<Rightarrow> int \<Rightarrow> bytes res" where
  "typed_float_rx value aux =
     res_bind (pack_f32_be value) (\<lambda>b. res_bind (one_byte aux) (\<lambda>a. rx 0x35 (b @ a)))"

definition parameter_rx :: "int \<Rightarrow> int \<Rightarrow> bytes res" where
  "parameter_rx current max_value =
     res_bind (one_byte current) (\<lambda>c. res_bind (one_byte max_value) (\<lambda>m. rx 0x21 (c @ [0x21] @ m)))"

text \<open>A request with one u8 argument in a TLV.\<close>

definition u8_command :: "int \<Rightarrow> int \<Rightarrow> bytes res" where
  "u8_command opcode v = res_bind (one_byte v) (\<lambda>b. host_command opcode (0x21 # b))"

definition build_metrology_script ::
  "pyfloat \<Rightarrow> pyfloat \<Rightarrow> int option \<Rightarrow> int \<Rightarrow> script res" where
  "build_metrology_script capacity_g increment_g config_counter area =
     script_of
       ([(u8_command 0x0C area, typed_float_rx capacity_g 0),
         (u8_command 0x0D area, typed_float_rx increment_g 0)] @
        (case config_counter of
           None \<Rightarrow> []
         | Some c \<Rightarrow> [(host_command 0xBA [], short_data_u8 c)])) []"

definition build_temperature_script ::
  "(int \<times> pyfloat option) list \<Rightarrow> int option \<Rightarrow> int list \<Rightarrow> script res" where
  "build_temperature_script sensor_celsius out_of_range_after value_out_of_range_at =
     script_of
       (map (\<lambda>(sensor, celsius).
          (u8_command 0x76 sensor,
           case celsius of
             None \<Rightarrow> rx 0x35 [0x7f, 0xff, 0xff, 0xff, 0xff]
           | Some c \<Rightarrow> typed_float_rx c 0)) sensor_celsius @
        map (\<lambda>sensor. (u8_command 0x76 sensor, rx 0x01 [0x03])) value_out_of_range_at @
        (case out_of_range_after of
           None \<Rightarrow> []
         | Some n \<Rightarrow> [(u8_command 0x76 n, rx 0x01 [0x04])])) []"

definition build_parameter_read_script :: "int \<Rightarrow> int \<Rightarrow> int \<Rightarrow> script res" where
  "build_parameter_read_script index current max_value =
     script_of [(u8_command 0x55 index, parameter_rx current max_value)] []"

definition build_parameter_write_script :: "int \<Rightarrow> int \<Rightarrow> script res" where
  "build_parameter_write_script index v =
     script_of
       [(res_bind (one_byte index) (\<lambda>i. res_bind (one_byte v) (\<lambda>b.
           host_command 0x56 (0x21 # i @ [0x21] @ b))), Inr RX_ACK)] []"

text \<open>One line of a fixture as bytes, with its terminator.\<close>

definition sbi_line :: "string \<Rightarrow> bytes" where
  "sbi_line text =
     (let raw = ascii_encode_replace text
      in if endswith raw LINE_TERMINATOR then raw
         else bytes_rstrip [13, 10] raw @ LINE_TERMINATOR)"

definition build_sbi_identify_script :: "string \<Rightarrow> string \<Rightarrow> string \<Rightarrow> script res" where
  "build_sbi_identify_script model serial software =
     script_of
       [(Inr TOKEN_TYPE, Inr (sbi_line model)), (Inr TOKEN_SERIAL, Inr (sbi_line serial)),
        (Inr TOKEN_SOFTWARE, Inr (sbi_line software))] []"

section \<open>Fixture files\<close>

text \<open>\<open>str.splitlines()\<close> on Latin-1 text.\<close>

definition is_linebreak :: "char \<Rightarrow> bool" where
  "is_linebreak c \<longleftrightarrow> (of_char c :: int) \<in> {10, 11, 12, 13, 28, 29, 30, 133}"

function py_splitlines :: "string \<Rightarrow> string list" where
  "py_splitlines s =
     (if s = [] then []
      else
        takeWhile (\<lambda>c. \<not> is_linebreak c) s #
        (case dropWhile (\<lambda>c. \<not> is_linebreak c) s of
           [] \<Rightarrow> []
         | c # cs \<Rightarrow>
             py_splitlines (if c = CHR 0x0D \<and> startswith cs [CHR 0x0A] then tl cs else cs)))"
  by pat_completeness auto
termination
proof (relation "measure length", simp)
  fix s c cs
  assume "dropWhile (\<lambda>c. \<not> is_linebreak c) s = c # cs"
  then have "length (c # cs) \<le> length s" by (metis length_dropWhile_le)
  then show "((if c = CHR 0x0D \<and> startswith cs [CHR 0x0A] then tl cs else cs), s) \<in> measure length"
    by auto
qed

declare py_splitlines.simps [simp del]

text \<open>A line without its comment, and its parts before and after the first space.\<close>

definition fixture_line :: "string \<Rightarrow> string" where
  "fixture_line raw = py_strip (takeWhile (\<lambda>c. c \<noteq> CHR ''#'') raw)"

definition line_marker :: "string \<Rightarrow> string" where
  "line_marker line = takeWhile (\<lambda>c. c \<noteq> CHR '' '') line"

definition line_payload :: "string \<Rightarrow> string" where
  "line_payload line = py_strip (drop 1 (dropWhile (\<lambda>c. c \<noteq> CHR '' '') line))"

definition fixture_error :: "nat \<Rightarrow> (string \<times> xval) list \<Rightarrow> 'a res" where
  "fixture_error lineno kvs =
     raise_ctx SartoriusValidationError (extra ((''line'', XInt (int lineno)) # kvs))"

definition setdefault :: "'k \<Rightarrow> 'v \<Rightarrow> ('k \<times> 'v) list \<Rightarrow> ('k \<times> 'v) list" where
  "setdefault k v d = (if k \<in> set (keys d) then d else d @ [(k, v)])"

text \<open>\<open>mapping[tx] = mapping[tx] + reply\<close>\<close>

definition attach :: "bytes \<Rightarrow> bytes \<Rightarrow> script \<Rightarrow> script" where
  "attach tx reply d = dict_set tx (the (map_of d tx) @ reply) d"

text \<open>\<open>bytes.fromhex\<close> of text without spaces.\<close>

definition hex_value :: "char \<Rightarrow> int option" where
  "hex_value c =
     (if is_digit c then Some (digit_value c)
      else if between 65 70 c then Some (of_char c - 55)
      else if between 97 102 c then Some (of_char c - 87)
      else None)"

fun bytes_fromhex :: "string \<Rightarrow> bytes option" where
  "bytes_fromhex [] = Some []"
| "bytes_fromhex [c] = None"
| "bytes_fromhex (c # d # cs) =
     (case (hex_value c, hex_value d, bytes_fromhex cs) of
        (Some h, Some l, Some bs) \<Rightarrow> Some (byte_of_int (16 * h + l) # bs)
      | _ \<Rightarrow> None)"

definition decode_hex_tokens :: "string \<Rightarrow> nat \<Rightarrow> bytes res" where
  "decode_hex_tokens payload lineno =
     (let compact = concat (py_split payload)
      in if odd (length compact) then fixture_error lineno [(''payload'', XStr payload)]
         else case bytes_fromhex compact of
                None \<Rightarrow> fixture_error lineno [(''payload'', XStr payload)]
              | Some bs \<Rightarrow> Inr bs)"

fun parse_xbpi_lines ::
  "nat \<Rightarrow> string list \<Rightarrow> bytes option \<Rightarrow> script \<Rightarrow> script res" where
  "parse_xbpi_lines lineno [] current_tx mapping = Inr mapping"
| "parse_xbpi_lines lineno (raw # raws) current_tx mapping =
     (let line = fixture_line raw
      in if line = [] then parse_xbpi_lines (lineno + 1) raws current_tx mapping
         else
           let marker = line_marker line; payload = line_payload line
           in if marker = ''>''
              then if payload = [] then fixture_error lineno []
                   else res_bind (decode_hex_tokens payload lineno) (\<lambda>tx.
                          parse_xbpi_lines (lineno + 1) raws (Some tx) (setdefault tx [] mapping))
              else if marker = ''<''
              then (case current_tx of
                      None \<Rightarrow> fixture_error lineno []
                    | Some tx \<Rightarrow>
                        res_bind (if payload \<noteq> [] then decode_hex_tokens payload lineno else Inr [])
                          (\<lambda>reply. parse_xbpi_lines (lineno + 1) raws (Some tx) (attach tx reply mapping)))
              else fixture_error lineno [(''marker'', XStr marker)])"

definition parse_xbpi_fixture :: "string \<Rightarrow> script res" where
  "parse_xbpi_fixture text = parse_xbpi_lines 1 (py_splitlines text) None []"

text \<open>Any exception of \<open>normalize_token\<close> becomes a validation error.\<close>

definition fixture_token :: "string \<Rightarrow> nat \<Rightarrow> bytes res" where
  "fixture_token payload lineno =
     (case normalize_token (CmdText payload) of
        Inl e \<Rightarrow> fixture_error lineno [(''payload'', XStr payload)]
      | Inr tx \<Rightarrow> Inr tx)"

fun parse_sbi_lines ::
  "nat \<Rightarrow> string list \<Rightarrow> bytes option \<Rightarrow> script \<Rightarrow> script res" where
  "parse_sbi_lines lineno [] current_tx mapping = Inr mapping"
| "parse_sbi_lines lineno (raw # raws) current_tx mapping =
     (let line = fixture_line raw
      in if line = [] then parse_sbi_lines (lineno + 1) raws current_tx mapping
         else
           let marker = line_marker line; payload = line_payload line
           in if marker = ''>''
              then if payload = [] then fixture_error lineno []
                   else res_bind (fixture_token payload lineno) (\<lambda>tx.
                          parse_sbi_lines (lineno + 1) raws (Some tx) (setdefault tx [] mapping))
              else if marker = ''<''
              then (case current_tx of
                      None \<Rightarrow> fixture_error lineno []
                    | Some tx \<Rightarrow>
                        parse_sbi_lines (lineno + 1) raws (Some tx) (attach tx (sbi_line payload) mapping))
              else fixture_error lineno [(''marker'', XStr marker)])"

definition parse_sbi_fixture :: "string \<Rightarrow> script res" where
  "parse_sbi_fixture text = parse_sbi_lines 1 (py_splitlines text) None []"

section \<open>Rendering a script\<close>

definition hex_text :: "bytes \<Rightarrow> string" where
  "hex_text bs = py_join '' '' (map (\<lambda>b. bytes_hex [b]) bs)"

definition request_line :: "bytes \<Rightarrow> string" where
  "request_line tx = ''> '' @ hex_text tx"

definition reply_line :: "bytes \<Rightarrow> string" where
  "reply_line reply = (if reply = [] then ''<'' else ''< '' @ hex_text reply)"

definition render_fixture :: "script \<Rightarrow> string" where
  "render_fixture d = concat (map (\<lambda>(tx, reply).
     request_line tx @ [CHR 0x0A] @ reply_line reply @ [CHR 0x0A]) d)"

subsection \<open>Hexadecimal text\<close>

lemma filter_dropWhile_not: "filter (\<lambda>c. \<not> P c) s = filter (\<lambda>c. \<not> P c) (dropWhile P s)"
  by (induction s) simp_all

lemma filter_takeWhile_split: "filter P s = takeWhile P s @ filter P (dropWhile P s)"
  by (induction s) simp_all

lemma concat_py_split: "concat (py_split s) = filter (\<lambda>c. \<not> py_isspace c) s"
proof (induction s rule: py_split.induct)
  case (1 s)
  show ?case
  proof (cases "dropWhile py_isspace s")
    case Nil
    then have "py_split s = []" by (subst py_split.simps) (simp only: list.case)
    moreover have "filter (\<lambda>c. \<not> py_isspace c) s = []" by (subst filter_dropWhile_not) (simp only: Nil filter.simps)
    ultimately show ?thesis by simp
  next
    case (Cons c cs)
    then have c: "\<not> py_isspace c" using hd_dropWhile [of py_isspace s] by simp
    have "concat (py_split s) = (c # takeWhile (\<lambda>c. \<not> py_isspace c) cs)
        @ concat (py_split (dropWhile (\<lambda>c. \<not> py_isspace c) cs))"
      by (subst py_split.simps) (simp only: Cons list.case concat.simps)
    also have "\<dots> = c # filter (\<lambda>c. \<not> py_isspace c) cs"
      using 1 [OF Cons] filter_takeWhile_split [of "\<lambda>c. \<not> py_isspace c" cs] by simp
    also have "\<dots> = filter (\<lambda>c. \<not> py_isspace c) s"
      using c by (subst filter_dropWhile_not) (simp add: Cons)
    finally show ?thesis .
  qed
qed

text \<open>A digit of rendered text is read back and is no white space, line break or comment sign.\<close>

lemma hex_digit_facts:
  assumes "n < 16"
  shows "hex_value (hex_digit n) = Some (int n)" "\<not> py_isspace (hex_digit n)"
    "\<not> is_linebreak (hex_digit n)" "hex_digit n \<noteq> CHR ''#''" "hex_digit n \<noteq> CHR '' ''"
proof -
  have "\<forall>n \<in> set [0..<16]. hex_value (hex_digit n) = Some (int n) \<and> \<not> py_isspace (hex_digit n) \<and>
      \<not> is_linebreak (hex_digit n) \<and> hex_digit n \<noteq> CHR ''#'' \<and> hex_digit n \<noteq> CHR '' ''"
    by code_simp
  moreover have "n \<in> set [0..<16]" using assms by simp
  ultimately show "hex_value (hex_digit n) = Some (int n)" "\<not> py_isspace (hex_digit n)"
    "\<not> is_linebreak (hex_digit n)" "hex_digit n \<noteq> CHR ''#''" "hex_digit n \<noteq> CHR '' ''" by blast+
qed

lemma byte_digits: "unat (b :: byte) div 16 < 16" "unat b mod 16 < 16"
proof -
  have "unat b < 2 ^ LENGTH(8)" by (rule unsigned_less)
  then show "unat b div 16 < 16" "unat b mod 16 < 16" by simp_all
qed

lemma bytes_hex_simps [simp]:
  "bytes_hex [] = []"
  "bytes_hex (b # bs) = hex_digit (unat b div 16) # hex_digit (unat b mod 16) # bytes_hex bs"
  by (simp_all add: bytes_hex_def)

lemma fromhex_hex: "bytes_fromhex (bytes_hex bs) = Some bs"
proof (induction bs)
  case (Cons b bs)
  have "int (16 * (unat b div 16) + unat b mod 16) = int (unat b)" by (simp only: mult_div_mod_eq)
  then have "16 * int (unat b div 16) + int (unat b mod 16) = uint b"
    by (simp only: of_nat_add of_nat_mult of_nat_numeral uint_nat)
  then show ?case using Cons hex_digit_facts(1) [OF byte_digits(1)] hex_digit_facts(1) [OF byte_digits(2)]
    by simp
qed simp

text \<open>Characters of the rendered bytes: digits, and spaces between them.\<close>

definition hex_char :: "char \<Rightarrow> bool" where
  "hex_char c \<longleftrightarrow> \<not> py_isspace c \<and> \<not> is_linebreak c \<and> c \<noteq> CHR ''#'' \<and> c \<noteq> CHR '' ''"

lemma hex_chars: "\<forall>c \<in> set (bytes_hex bs). hex_char c"
  by (induction bs) (auto simp: hex_char_def hex_digit_facts byte_digits)

lemma hex_text_simps [simp]:
  "hex_text [] = []" "hex_text [b] = bytes_hex [b]"
  "hex_text (b # c # bs) = bytes_hex [b] @ CHR '' '' # hex_text (c # bs)"
  by (simp_all add: hex_text_def)

lemma hex_text_chars: "\<forall>c \<in> set (hex_text bs). hex_char c \<or> c = CHR '' ''"
proof (induction bs rule: induct_list012)
  case (2 b)
  then show ?case using hex_chars [of "[b]"] by simp
next
  case (3 b c bs)
  then show ?case using hex_chars [of "[b]"] by auto
qed simp

lemma filter_hex_text: "filter (\<lambda>c. \<not> py_isspace c) (hex_text bs) = bytes_hex bs"
proof (induction bs rule: induct_list012)
  case (2 b)
  then show ?case using hex_chars [of "[b]"] by (simp add: hex_char_def)
next
  case (3 b c bs)
  have "py_isspace CHR '' ''" by code_simp
  with 3 hex_chars [of "[b]"] show ?case by (simp add: hex_char_def)
qed simp

lemma hex_text_ends:
  assumes "bs \<noteq> []"
  shows "hex_text bs \<noteq> []" "hex_char (hd (hex_text bs))" "hex_char (last (hex_text bs))"
proof -
  have "hex_text bs \<noteq> [] \<and> hex_char (hd (hex_text bs)) \<and> hex_char (last (hex_text bs))"
    using assms
  proof (induction bs rule: induct_list012)
    case (2 b)
    then show ?case using hex_chars [of "[b]"] by simp
  next
    case (3 b c bs)
    then show ?case using hex_chars [of "[b]"] by simp
  qed simp
  then show "hex_text bs \<noteq> []" "hex_char (hd (hex_text bs))" "hex_char (last (hex_text bs))" by blast+
qed

lemma strip_ends:
  assumes "s \<noteq> []" and "\<not> py_isspace (hd s)" and "\<not> py_isspace (last s)"
  shows "py_strip s = s"
proof -
  have "dropWhile py_isspace s = s" using assms(1,2) by (cases s) simp_all
  moreover have "dropWhile py_isspace (rev s) = rev s"
    using assms(1,3) by (cases "rev s") (auto simp: last_rev [symmetric] hd_rev)
  ultimately show ?thesis by (simp add: py_strip_def py_lstrip_def py_rstrip_def)
qed

lemma decode_hex_text: "decode_hex_tokens (hex_text bs) n = Inr bs"
proof -
  have "even (length (bytes_hex bs))" by (induction bs) simp_all
  then show ?thesis by (simp add: decode_hex_tokens_def concat_py_split filter_hex_text fromhex_hex Let_def)
qed

subsection \<open>Lines\<close>

lemma splitlines_line:
  assumes "\<forall>c \<in> set l. \<not> is_linebreak c"
  shows "py_splitlines (l @ CHR 0x0A # rest) = l # py_splitlines rest"
proof -
  have lf: "is_linebreak CHR 0x0A" "CHR 0x0A \<noteq> CHR 0x0D" by code_simp+
  have "takeWhile (\<lambda>c. \<not> is_linebreak c) (l @ CHR 0x0A # rest) = l"
    "dropWhile (\<lambda>c. \<not> is_linebreak c) (l @ CHR 0x0A # rest) = CHR 0x0A # rest"
    using assms lf(1) by (simp_all add: takeWhile_append dropWhile_append)
  then show ?thesis using lf(2) by (subst py_splitlines.simps) simp
qed

lemma sign_chars:
  "\<not> py_isspace CHR ''>''" "\<not> py_isspace CHR ''<''" "\<not> is_linebreak CHR ''>''" "\<not> is_linebreak CHR ''<''"
  "\<not> is_linebreak CHR '' ''"
  by code_simp+

lemma marked_line:
  assumes "bs \<noteq> []" and "m \<in> {CHR ''>'', CHR ''<''}"
  shows "fixture_line (m # CHR '' '' # hex_text bs) = m # CHR '' '' # hex_text bs"
    "line_marker (m # CHR '' '' # hex_text bs) = [m]"
    "line_payload (m # CHR '' '' # hex_text bs) = hex_text bs"
    "\<forall>c \<in> set (m # CHR '' '' # hex_text bs). \<not> is_linebreak c"
proof -
  let ?l = "m # CHR '' '' # hex_text bs"
  note e = hex_text_ends [OF assms(1)]
  have "takeWhile (\<lambda>c. c \<noteq> CHR ''#'') ?l = ?l"
    using assms(2) hex_text_chars [of bs] by (auto simp: hex_char_def takeWhile_eq_all_conv)
  moreover have "py_strip ?l = ?l"
    by (rule strip_ends) (use assms(2) e sign_chars in \<open>auto simp: hex_char_def\<close>)
  ultimately show "fixture_line ?l = ?l" by (simp only: fixture_line_def)
  show "line_marker ?l = [m]" using assms(2) by (auto simp: line_marker_def)
  have "py_strip (hex_text bs) = hex_text bs" by (rule strip_ends) (use e in \<open>auto simp: hex_char_def\<close>)
  then show "line_payload ?l = hex_text bs" using assms(2) by (auto simp: line_payload_def)
  show "\<forall>c \<in> set ?l. \<not> is_linebreak c"
    using assms(2) hex_text_chars [of bs] sign_chars by (auto simp: hex_char_def)
qed

lemma empty_reply_line:
  "fixture_line ''<'' = ''<''" "line_marker ''<'' = ''<''" "line_payload ''<'' = []"
  by code_simp+

text \<open>The lines of a rendered script, and what the parser makes of an entry.\<close>

lemma fixture_lines:
  assumes "\<forall>p \<in> set d. fst p \<noteq> []"
  shows "py_splitlines (render_fixture d) = concat (map (\<lambda>(tx, reply). [request_line tx, reply_line reply]) d)"
  using assms
proof (induction d)
  case Nil
  then show ?case by (subst py_splitlines.simps) (simp add: render_fixture_def)
next
  case (Cons p d)
  obtain tx reply where p: "p = (tx, reply)" by fastforce
  have t: "\<forall>c \<in> set (request_line tx). \<not> is_linebreak c"
    using marked_line(4) [of tx "CHR ''>''"] Cons.prems p by (simp add: request_line_def)
  have r: "\<forall>c \<in> set (reply_line reply). \<not> is_linebreak c"
    using marked_line(4) [of reply "CHR ''<''"] sign_chars by (simp add: reply_line_def)
  have "render_fixture (p # d) = request_line tx @ CHR 0x0A # (reply_line reply @ CHR 0x0A # render_fixture d)"
    by (simp add: render_fixture_def p)
  then show ?case using splitlines_line [OF t] splitlines_line [OF r] Cons p by simp
qed

lemma parse_entry:
  assumes "tx \<noteq> []" and "tx \<notin> set (keys d)"
  shows "parse_xbpi_lines n (request_line tx # reply_line reply # raws) cur d
    = parse_xbpi_lines (n + 2) raws (Some tx) (d @ [(tx, reply)])"
proof -
  note m = marked_line [OF assms(1), of "CHR ''>''"] hex_text_ends(1) [OF assms(1)]
  have a: "attach tx reply (d @ [(tx, [])]) = d @ [(tx, reply)]"
  proof -
    have "dict_set tx v (e @ [(tx, w)]) = e @ [(tx, v)]" if "tx \<notin> set (keys e)" for e :: script and v w
      using that by (induction e) auto
    moreover have "map_of (d @ [(tx, [])]) tx = Some []"
      using assms(2) by (simp add: map_add_def map_of_eq_None_iff [THEN iffD2] split: option.split)
    ultimately show ?thesis using assms(2) by (simp add: attach_def)
  qed
  have r: "parse_xbpi_lines (n + 1) (reply_line reply # raws) (Some tx) (d @ [(tx, [])])
      = parse_xbpi_lines (n + 2) raws (Some tx) (d @ [(tx, reply)])"
  proof (cases "reply = []")
    case True
    then have "attach tx [] (d @ [(tx, [])]) = d @ [(tx, reply)]" using a by simp
    with True show ?thesis by (simp add: reply_line_def empty_reply_line)
  next
    case False
    from marked_line [OF False, of "CHR ''<''"] hex_text_ends(1) [OF False] a False show ?thesis
      by (simp add: reply_line_def decode_hex_text)
  qed
  show ?thesis using m r assms by (simp add: request_line_def decode_hex_text setdefault_def)
qed

lemma parse_entries:
  "\<forall>p \<in> set d. fst p \<noteq> [] \<Longrightarrow> distinct (keys (d0 @ d)) \<Longrightarrow>
     parse_xbpi_lines n (concat (map (\<lambda>(tx, reply). [request_line tx, reply_line reply]) d)) cur d0
       = Inr (d0 @ d)"
proof (induction d arbitrary: d0 n cur)
  case (Cons p d)
  obtain tx reply where p: "p = (tx, reply)" by fastforce
  have "tx \<noteq> []" "tx \<notin> set (keys d0)" using Cons.prems p by auto
  from parse_entry [OF this] Cons.IH [of "d0 @ [p]" "n + 2" "Some tx"] Cons.prems p show ?case by simp
qed simp

section \<open>Properties\<close>

text \<open>
  C39. Fixture files round-trip: rendering any script as text, each request as a line of hexadecimal
  bytes and each reply as the next line, and parsing that text gives back the same script, with its
  entries in order, empty replies included.
\<close>

theorem fixture_roundtrip:
  assumes "\<forall>p \<in> set d. fst p \<noteq> []" and "distinct (keys d)"
  shows "parse_xbpi_fixture (render_fixture d) = Inr d"
  using parse_entries [OF assms(1), of "[]" 1 None] assms(2)
  by (simp add: parse_xbpi_fixture_def fixture_lines [OF assms(1)])

theorem fixture_roundtrip_witness:
  "parse_xbpi_fixture (render_fixture [([4, 1, 9, 0x1e, 0x2c], RX_SBN_00), ([4, 1, 9, 0x14, 0x22], [])])
     = Inr [([4, 1, 9, 0x1e, 0x2c], RX_SBN_00), ([4, 1, 9, 0x14, 0x22], [])]"
  by (rule fixture_roundtrip) simp_all

end
