(* ===== verification/Spec2Isabelle.thy ===== *)
theory Spec2Isabelle
  imports Detect Aliases Discovery Maintenance Manager_Laws Stream_Session Sink_Sqlite Test_Helpers
begin

text \<open>
  Verification of \<open>sartoriuslib\<close> (the Python package under \<open>src/src/sartoriuslib\<close>), which
  talks to Sartorius balances over a serial port in two protocols: xBPI, binary frames with a
  checksum, and SBI, ASCII lines.

  \<^bold>\<open>How the program is put together.\<close> A \<open>Balance\<close> (\<open>devices/balance.py\<close>) dispatches every
  call through one \<open>Session\<close> (\<open>devices/session.py\<close>), which checks its gates and hands the
  request to the client of the active protocol; a client sends the request over a transport
  and reads the reply. Commands (\<open>commands/\<close>) are data with an encoder and a decoder per
  protocol. Detection (\<open>protocol/detect.py\<close>) finds out which protocol an open port speaks.

  \<^bold>\<open>The theories\<close>, from the bottom up:
  \<^item> \<open>Prelude\<close>: bytes, ASCII text and the Python string functions the code uses.
  \<^item> \<open>Errors\<close> (\<open>errors.py\<close>): the exception classes with \<open>issubclass\<close>, the context, results.
  \<^item> \<open>Kinds\<close>, \<open>Models\<close>, \<open>Registry\<close>, \<open>Aliases\<close>: enumerations, value types, units, mode
    enumerations, the parameter table, and the resolution of user text to them.
  \<^item> \<open>Pyfloat\<close>: binary32 and binary64 values as exact rationals with the special values.
  \<^item> \<open>Xbpi_Codec\<close>, \<open>Xbpi_Body\<close> (\<open>protocol/xbpi/\<close>): frames, TLV records, reply bodies.
  \<^item> \<open>Regex\<close>, \<open>Sbi_Codec\<close> (\<open>protocol/sbi/\<close>): the regular expressions of the SBI parser as a
    backtracking matcher, tokens, line splitting, the line parser.
  \<^item> \<open>Transport\<close>, \<open>Transport_Fake\<close>, \<open>Transport_Serial\<close> (\<open>transport/\<close>): the interface as a
    record of operations with its contract as a locale, and the two implementations, both
    interpretations of the locale.
  \<^item> \<open>Xbpi_Client\<close>, \<open>Sbi_Client\<close>, \<open>Detect\<close>: one exchange over a transport, the queue of
    unsolicited lines, and detection. What they promise is proved once in the locale and holds
    for both transports.
  \<^item> \<open>Commands\<close>, \<open>Session\<close>, \<open>Session_Laws\<close>, \<open>Session_Types\<close>, \<open>Session_Props\<close>: the command table,
    the session's operations, their effects and invariants along runs, the types and errors of
    their results, and the properties over the port.
  \<^item> \<open>Balance\<close>, \<open>Balance_Switch\<close> (\<open>devices/balance.py\<close>): the methods of the facade, and the
    life-cycle methods that switch protocol, framing and address, with their rollback.
  \<^item> \<open>Io_Relation\<close>, \<open>Balance_Laws\<close>, \<open>Facade\<close>, \<open>Balance_Props\<close>: locales for what reading and
    writing cannot change and for preorders that every method respects, their instances
    (framing, harmless traffic, the frame of a dispatch), runs of facade calls, the outcomes of
    a switch, and the properties of the facade.

  \<^item> \<open>Factory\<close>, \<open>Opening\<close> (\<open>devices/factory.py\<close>): \<open>open_device\<close> with its cold-open retries; that the
    port is never left open by a failure, that at most three transients are swallowed, and that
    no printed line is lost.
  \<^item> \<open>Dictionary\<close>, \<open>Discovery\<close> (\<open>devices/discovery.py\<close>), \<open>Maintenance\<close> (\<open>maintenance.py\<close>): sweeps
    over ports and baud rates with their summary, and the one-shot reconfigurations.
  \<^item> \<open>Manager\<close> (\<open>manager.py\<close>): balances sharing ports, as entries that refer to objects on a
    heap; \<open>Manager_Dispatch\<close>: concurrent groups as interleaved steps and the independence of the
    schedule, from a locale of operations that commute on separate objects; \<open>Manager_Laws\<close>: the
    reference counts along every run of a manager.
  \<^item> \<open>Recorder\<close>, \<open>Stream_Session\<close> (\<open>streaming/\<close>): samples and batches, the recorder's absolute
    schedule with its totals, and the stream over one balance in both modes, whose loop over
    printed lines is a partial function that is shown to return.
  \<^item> \<open>Rows\<close>, \<open>Sinks\<close>, \<open>Sink_Sqlite\<close> (\<open>sinks/\<close>): the row of a sample, the inference and locking of
    column schemas, the contract of a sink as a locale in which \<open>pipe\<close> is verified, and the
    in-memory, JSONL, CSV and SQLite sinks, all interpretations of it; that writes are all or nothing
    is a locale of its own, which the in-memory and the SQLite sink satisfy.
  \<^item> \<open>Test_Helpers\<close> (\<open>testing.py\<close>): the reference frames, the builders of scripts for the fake
    transport, and the parsers of fixture files.

  \<^bold>\<open>How code and model correspond.\<close> Operations keep their Python names. A Python exception is
  \<open>Inl\<close>, with its class and context (message texts are left out), and state is returned also
  when an operation raises. Mutable objects become records threaded through the calls. The
  serial port is an environment: what arrives, when a deadline fires, what fails, and how the
  device answers are given by the state of the transport, and every property holds for all of
  them. The clients' locks are held over whole exchanges, so one exchange is one step; calls on
  one session do not overlap.

  \<^bold>\<open>Bounds and fuel.\<close> Loops that watch the clock take the number of checks that still find time
  left (\<open>ticks\<close>); every property holds for every such number, zero included. The recorder and the
  streams take the readings of the clocks, one record per tick or sample. All other loops
  terminate by their own measure.

  \<^bold>\<open>Not modelled.\<close> Timeout values and the rounding of times (the clock is the environment's),
  wall-clock stamps of identities and discoveries, message texts, warning filters, logging; the Parquet and
  PostgreSQL sinks, which drive third-party packages, the command line and the synchronous wrappers, which only call libraries or forward
  calls.
\<close>

end
